(* ===== verification/Prelude.thy ===== *)
theory Prelude
  imports Main "HOL-Library.Word"
begin

text \<open>
  Shared vocabulary of the development: the machine types of the Rust source, results and
  panics as values, big-endian byte strings, sub-list search, and the lemmas on lists and
  words that the component theories use.

  Conventions.
  \<^item> \<open>u8\<close>, \<open>u16\<close>, \<open>u32\<close> and \<open>u64\<close> are words of that width: \<open>+\<close> wraps around, as the
    release build of the program does; a \<open>usize\<close> that only counts bytes held in memory is
    a \<open>nat\<close>.
  \<^item> A Rust \<open>Result\<close> is a sum, \<open>Inl\<close> for \<open>Err\<close> and \<open>Inr\<close> for \<open>Ok\<close>; the operator
    \<open>?\<close> is \<open>and_then\<close>.
  \<^item> Code that indexes or slices with a computed offset returns a value of type
    \<open>'a exec\<close>: an access out of range is the value \<open>Panic\<close>, as in Rust, so that the
    absence of panics is a theorem and not a convention.
\<close>

unbundle bit_operations_syntax

type_synonym u8 = "8 word"
type_synonym u16 = "16 word"
type_synonym u32 = "32 word"
type_synonym u64 = "64 word"
type_synonym bytes = "u8 list"

named_theorems slice_simps \<open>evaluation of indexing, slicing and big-endian reads\<close>
named_theorems str_simps \<open>evaluation of the string functions\<close>
named_theorems codec_simps \<open>round trips of encoders and decoders\<close>

section \<open>Results\<close>

fun and_then :: "'e + 'a \<Rightarrow> ('a \<Rightarrow> 'e + 'b) \<Rightarrow> 'e + 'b" where
  "and_then (Inl e) f = Inl e"
| "and_then (Inr x) f = f x"

fun is_ok :: "'e + 'a \<Rightarrow> bool" where
  "is_ok (Inl e) = False"
| "is_ok (Inr x) = True"

lemma and_then_eq_Inr [simp]:
  "and_then r f = Inr y \<longleftrightarrow> (\<exists>x. r = Inr x \<and> f x = Inr y)"
  by (cases r) auto

lemma and_then_eq_Inl:
  "and_then r f = Inl e \<longleftrightarrow> r = Inl e \<or> (\<exists>x. r = Inr x \<and> f x = Inl e)"
  by (cases r) auto

lemma and_then_assoc: "and_then (and_then r f) g = and_then r (\<lambda>x. and_then (f x) g)"
  by (cases r) auto

lemma is_ok_iff: "is_ok r \<longleftrightarrow> (\<exists>x. r = Inr x)"
  by (cases r) auto

fun map_err :: "('e \<Rightarrow> 'f) \<Rightarrow> 'e + 'a \<Rightarrow> 'f + 'a" where
  "map_err g (Inl e) = Inl (g e)"
| "map_err g (Inr x) = Inr x"

fun ok_or :: "'e \<Rightarrow> 'a option \<Rightarrow> 'e + 'a" where
  "ok_or e None = Inl e"
| "ok_or e (Some x) = Inr x"

section \<open>Panics\<close>

datatype 'a exec = Panic | Return 'a

fun bind_exec :: "'a exec \<Rightarrow> ('a \<Rightarrow> 'b exec) \<Rightarrow> 'b exec" where
  "bind_exec Panic f = Panic"
| "bind_exec (Return x) f = f x"

definition index :: "'a list \<Rightarrow> nat \<Rightarrow> 'a exec" where
  "index xs i = (if i < length xs then Return (xs ! i) else Panic)"

definition slice :: "'a list \<Rightarrow> nat \<Rightarrow> nat \<Rightarrow> 'a list exec" where
  "slice xs a b = (if a \<le> b \<and> b \<le> length xs then Return (take (b - a) (drop a xs)) else Panic)"

lemma index_in [slice_simps]: "i < length xs \<Longrightarrow> index xs i = Return (xs ! i)"
  by (simp add: index_def)

lemma slice_in [slice_simps]:
  "a \<le> b \<Longrightarrow> b \<le> length xs \<Longrightarrow> slice xs a b = Return (take (b - a) (drop a xs))"
  by (simp add: slice_def)

lemma bind_exec_eq_Return [simp]:
  "bind_exec m f = Return y \<longleftrightarrow> (\<exists>x. m = Return x \<and> f x = Return y)"
  by (cases m) auto

lemma bind_exec_cong [fundef_cong]:
  "m = m' \<Longrightarrow> (\<And>x. m' = Return x \<Longrightarrow> f x = f' x) \<Longrightarrow> bind_exec m f = bind_exec m' f'"
  by (cases m) auto

lemma and_then_cong [fundef_cong]:
  "r = r' \<Longrightarrow> (\<And>x. r' = Inr x \<Longrightarrow> f x = f' x) \<Longrightarrow> and_then r f = and_then r' f'"
  by (cases r) auto

section \<open>Big-endian numbers\<close>

definition u16_to_be_bytes :: "u16 \<Rightarrow> bytes" where
  "u16_to_be_bytes w = [ucast (drop_bit 8 w), ucast w]"

definition u16_from_be_bytes :: "u8 \<Rightarrow> u8 \<Rightarrow> u16" where
  "u16_from_be_bytes hi lo = push_bit 8 (ucast hi) OR ucast lo"

definition u32_to_be_bytes :: "u32 \<Rightarrow> bytes" where
  "u32_to_be_bytes w =
     [ucast (drop_bit 24 w), ucast (drop_bit 16 w), ucast (drop_bit 8 w), ucast w]"

lemma length_u16_to_be_bytes [simp]: "length (u16_to_be_bytes w) = 2"
  by (simp add: u16_to_be_bytes_def)

lemma length_u32_to_be_bytes [simp]: "length (u32_to_be_bytes w) = 4"
  by (simp add: u32_to_be_bytes_def)

lemma u16_from_to_be_bytes [codec_simps]:
  "u16_from_be_bytes (ucast (drop_bit 8 w)) (ucast w) = w"
  unfolding u16_from_be_bytes_def
  by (rule bit_word_eqI) (auto simp: bit_simps)

lemma u16_hi_from_be_bytes [codec_simps]: "ucast (drop_bit 8 (u16_from_be_bytes hi lo)) = hi"
  unfolding u16_from_be_bytes_def
  by (rule bit_word_eqI) (auto simp: bit_simps dest: bit_imp_le_length)

lemma u16_lo_from_be_bytes [codec_simps]: "ucast (u16_from_be_bytes hi lo) = lo"
  unfolding u16_from_be_bytes_def
  by (rule bit_word_eqI) (auto simp: bit_simps dest: bit_imp_le_length)

lemma u16_to_from_be_bytes [codec_simps]: "u16_to_be_bytes (u16_from_be_bytes hi lo) = [hi, lo]"
  by (simp add: u16_to_be_bytes_def codec_simps)

lemma u16_from_be_bytes_inject [simp]:
  "u16_from_be_bytes a b = u16_from_be_bytes c d \<longleftrightarrow> a = c \<and> b = d"
  by (metis u16_hi_from_be_bytes u16_lo_from_be_bytes)

lemma unat_u16_of_nat: "n < 65536 \<Longrightarrow> unat (of_nat n :: u16) = n"
  by (simp add: unat_of_nat take_bit_nat_eq_self)

lemma unat_u16_less: "unat (w :: u16) < 65536"
  using unsigned_less [of w, where 'a = nat] by simp

lemma unat_u8_less: "unat (w :: u8) < 256"
  using unsigned_less [of w, where 'a = nat] by simp

lemma bit_u8_ge [simp]: "8 \<le> n \<Longrightarrow> \<not> bit (w :: u8) n"
  using bit_imp_le_length [of w n] by auto

section \<open>Lists\<close>

definition starts_with :: "'a list \<Rightarrow> 'a list \<Rightarrow> bool" where
  "starts_with xs p \<longleftrightarrow> take (length p) xs = p"

lemma starts_with_iff: "starts_with xs p \<longleftrightarrow> (\<exists>ys. xs = p @ ys)"
  unfolding starts_with_def by (metis append_eq_conv_conj append_take_drop_id)

lemma starts_with_append [simp]: "starts_with (p @ ys) p"
  by (simp add: starts_with_def)

lemma starts_with_Nil [simp]: "starts_with xs []"
  by (simp add: starts_with_def)

lemma starts_with_length: "starts_with xs p \<Longrightarrow> length p \<le> length xs"
  unfolding starts_with_iff by auto

text \<open>The position of the first element that satisfies \<open>P\<close> (\<open>Iterator::position\<close>).\<close>

fun position :: "('a \<Rightarrow> bool) \<Rightarrow> 'a list \<Rightarrow> nat option" where
  "position P [] = None"
| "position P (x # xs) = (if P x then Some 0 else map_option Suc (position P xs))"

lemma position_None: "position P xs = None \<longleftrightarrow> (\<forall>x \<in> set xs. \<not> P x)"
  by (induction xs) auto

lemma position_Some:
  "position P xs = Some i \<longleftrightarrow> i < length xs \<and> P (xs ! i) \<and> (\<forall>j < i. \<not> P (xs ! j))"
proof (induction xs arbitrary: i)
  case Nil
  then show ?case by simp
next
  case (Cons x xs)
  then show ?case
    by (cases i) (auto simp: less_Suc_eq_0_disj split: if_splits)
qed

lemma position_append:
  "position P (xs @ ys) =
     (case position P xs of Some i \<Rightarrow> Some i
      | None \<Rightarrow> map_option (\<lambda>i. length xs + i) (position P ys))"
proof (induction xs)
  case Nil
  show ?case by (cases "position P ys") simp_all
next
  case (Cons x xs)
  then show ?case
    by (cases "position P xs"; cases "position P ys") auto
qed

lemma position_append_hit:
  "\<forall>x \<in> set xs. \<not> P x \<Longrightarrow> P y \<Longrightarrow> position P (xs @ y # ys) = Some (length xs)"
  by (induction xs) auto

text \<open>The first offset at which a sub-list occurs (\<open>str::find\<close>, \<open>windows(..).position(..)\<close>).\<close>

fun find_sub :: "'a list \<Rightarrow> 'a list \<Rightarrow> nat option" where
  "find_sub [] p = (if p = [] then Some 0 else None)"
| "find_sub (x # xs) p =
     (if starts_with (x # xs) p then Some 0 else map_option Suc (find_sub xs p))"

lemma find_sub_Some_split:
  "find_sub xs p = Some i \<Longrightarrow> \<exists>pre post. xs = pre @ p @ post \<and> length pre = i"
proof (induction xs arbitrary: i)
  case Nil
  then show ?case by (auto split: if_splits)
next
  case (Cons x xs)
  show ?case
  proof (cases "starts_with (x # xs) p")
    case True
    with Cons.prems show ?thesis by (auto simp: starts_with_iff)
  next
    case False
    with Cons.prems obtain j where "find_sub xs p = Some j" and i: "i = Suc j" by auto
    with Cons.IH obtain pre post where "xs = pre @ p @ post" "length pre = j" by blast
    with i show ?thesis by (intro exI [of _ "x # pre"] exI [of _ post]) simp
  qed
qed

lemma find_sub_bound: "find_sub xs p = Some i \<Longrightarrow> i + length p \<le> length xs"
  by (drule find_sub_Some_split) auto

lemma find_sub_first: "find_sub (pre @ p @ post) p = Some i \<Longrightarrow> i \<le> length pre"
proof (induction pre arbitrary: i)
  case Nil
  have "starts_with (p @ post) p" by simp
  with Nil show ?case by (cases "p @ post") (auto split: if_splits)
next
  case (Cons x pre)
  then show ?case by (auto split: if_splits)
qed

lemma find_sub_total: "\<exists>i. find_sub (pre @ p @ post) p = Some i"
proof (induction pre)
  case Nil
  have "starts_with (p @ post) p" by simp
  then show ?case by (cases "p @ post") (auto simp: starts_with_def)
next
  case (Cons x pre)
  then show ?case by auto
qed

lemma find_sub_None: "find_sub xs p = None \<longleftrightarrow> (\<nexists>pre post. xs = pre @ p @ post)"
  using find_sub_Some_split [of xs p] find_sub_total [of _ p]
  by (metis not_Some_eq)

lemma starts_with_append_mono: "starts_with xs p \<Longrightarrow> starts_with (xs @ ys) p"
  by (auto simp: starts_with_iff)

lemma find_sub_append: "find_sub xs p = Some i \<Longrightarrow> find_sub (xs @ ys) p = Some i"
proof (induction xs arbitrary: i)
  case Nil
  then show ?case by (cases ys) (auto split: if_splits)
next
  case (Cons x xs)
  show ?case
  proof (cases "starts_with (x # xs) p")
    case True
    then have "starts_with (x # xs @ ys) p" using starts_with_append_mono by fastforce
    with True Cons.prems show ?thesis by simp
  next
    case False
    with Cons.prems obtain j where j: "find_sub xs p = Some j" "i = Suc j" by auto
    then have "find_sub (xs @ ys) p = Some j" by (rule_tac Cons.IH)
    moreover have "\<not> starts_with (x # xs @ ys) p"
    proof
      assume st: "starts_with (x # xs @ ys) p"
      have "length p \<le> length xs" using find_sub_bound [OF j(1)] by simp
      then have "take (length p) ((x # xs) @ ys) = take (length p) (x # xs)"
        by (subst take_append) simp
      then have "starts_with (x # xs) p" using st by (simp add: starts_with_def)
      with False show False by simp
    qed
    ultimately show ?thesis using j by simp
  qed
qed

lemma find_sub_skip:
  "\<forall>y \<in> set xs. y \<noteq> x \<Longrightarrow> find_sub (xs @ ys) (x # p) = map_option (\<lambda>i. length xs + i) (find_sub ys (x # p))"
proof (induction xs)
  case Nil
  show ?case by (cases "find_sub ys (x # p)") auto
next
  case (Cons z xs)
  then show ?case
    by (cases "find_sub ys (x # p)") (auto simp: starts_with_def)
qed

lemma find_sub_map:
  "inj f \<Longrightarrow> find_sub (map f xs) (map f p) = find_sub xs p"
proof (induction xs)
  case (Cons x xs)
  then have "starts_with (map f (x # xs)) (map f p) = starts_with (x # xs) p"
    by (auto simp: starts_with_def take_map inj_map_eq_map simp flip: list.map)
  with Cons show ?case by simp
qed simp

definition contains :: "'a list \<Rightarrow> 'a list \<Rightarrow> bool" where
  "contains xs p \<longleftrightarrow> find_sub xs p \<noteq> None"

lemma contains_iff: "contains xs p \<longleftrightarrow> (\<exists>pre post. xs = pre @ p @ post)"
  by (simp add: contains_def find_sub_None)

lemma take_take_drop: "take n xs @ take m (drop n xs) = take (n + m) xs"
  by (simp add: take_add)

section \<open>IPv4 addresses\<close>

datatype ipv4_addr = Ipv4Addr u8 u8 u8 u8

fun octets :: "ipv4_addr \<Rightarrow> bytes" where
  "octets (Ipv4Addr a b c d) = [a, b, c, d]"

abbreviation ipv4_unspecified :: ipv4_addr where
  "ipv4_unspecified \<equiv> Ipv4Addr 0 0 0 0"

fun ipv4_to_u32 :: "ipv4_addr \<Rightarrow> u32" where
  "ipv4_to_u32 (Ipv4Addr a b c d) =
     push_bit 24 (ucast a) OR push_bit 16 (ucast b) OR push_bit 8 (ucast c) OR ucast d"

definition u32_to_ipv4 :: "u32 \<Rightarrow> ipv4_addr" where
  "u32_to_ipv4 w =
     Ipv4Addr (ucast (drop_bit 24 w)) (ucast (drop_bit 16 w)) (ucast (drop_bit 8 w)) (ucast w)"

lemma ipv4_to_u32_to_ipv4 [codec_simps]: "ipv4_to_u32 (u32_to_ipv4 w) = w"
proof (rule bit_word_eqI)
  fix n assume "n < LENGTH(32)"
  then consider "n < 8" | "8 \<le> n \<and> n < 16" | "16 \<le> n \<and> n < 24" | "24 \<le> n \<and> n < 32"
    by fastforce
  then show "bit (ipv4_to_u32 (u32_to_ipv4 w)) n = bit w n"
    by cases (auto simp: u32_to_ipv4_def bit_simps)
qed

lemma u32_to_ipv4_to_u32 [codec_simps]: "u32_to_ipv4 (ipv4_to_u32 a) = a"
  unfolding u32_to_ipv4_def
  by (cases a) (auto intro!: bit_word_eqI simp: bit_simps)

lemma length_octets [simp]: "length (octets a) = 4"
  by (cases a) simp

end
