(* ===== verification/Errors.thy ===== *)
theory Errors
  imports Prelude
begin

text \<open>
  The error type of the crate (\<open>src/error.rs\<close>) with its \<open>Display\<close> texts, and the part of
  \<open>std::io::Error\<close> the program inspects. Strings are byte strings: a Rust \<open>String\<close> is the
  list of its UTF-8 bytes.
\<close>

section \<open>I/O errors of the standard library\<close>

datatype error_kind =
    NotFound | PermissionDeniedKind | WouldBlock | TimedOut | Interrupted | UnexpectedEof | WriteZero
  | BrokenPipe | InvalidData | OtherKind

datatype io_error = IoError (kind: error_kind) (message: string)

section \<open>OpenfortivpnError\<close>

datatype error =
    Io io_error
  | TlsHandshake string
  | MissingPeerCertificate
  | CertificateVerificationError string
  | HttpProtocol string
  | PermissionDenied
  | Auth string
  | Pppd string
  | Network string
  | BadBoolean string
  | BadInteger string string
  | BadPort string string
  | BadTlsVersion string
  | BadCertificateDigest string
  | UnknownConfigKey string
  | HdlcBufferTooSmall
  | HdlcNoFrameFound
  | HdlcInvalidFrame
  | HdlcBadChecksum

type_synonym 'a res = "error + 'a"

fun display_error :: "error \<Rightarrow> string" where
  "display_error (Io e) = ''I/O error: '' @ message e"
| "display_error (TlsHandshake s) = ''TLS handshake failed: '' @ s"
| "display_error MissingPeerCertificate = ''server did not present a TLS certificate''"
| "display_error (CertificateVerificationError s) = ''TLS certificate verification failed: '' @ s"
| "display_error (HttpProtocol s) = ''HTTP protocol error: '' @ s"
| "display_error PermissionDenied = ''VPN gateway denied permission''"
| "display_error (Auth s) = ''authentication error: '' @ s"
| "display_error (Pppd s) = ''pppd error: '' @ s"
| "display_error (Network s) = ''network configuration error: '' @ s"
| "display_error (BadBoolean s) = ''bad boolean value: '' @ s"
| "display_error (BadInteger k v) = ''bad integer value for '' @ k @ '': '' @ v"
| "display_error (BadPort k v) = ''bad port for '' @ k @ '': '' @ v"
| "display_error (BadTlsVersion s) = ''bad TLS version: '' @ s"
| "display_error (BadCertificateDigest s) = ''bad certificate sha256 digest: '' @ s"
| "display_error (UnknownConfigKey s) = ''unknown configuration key: '' @ s"
| "display_error HdlcBufferTooSmall = ''HDLC output buffer too small''"
| "display_error HdlcNoFrameFound = ''no HDLC frame found''"
| "display_error HdlcInvalidFrame = ''invalid HDLC frame''"
| "display_error HdlcBadChecksum = ''bad HDLC checksum''"

text \<open>An I/O result lifted into the crate's error type (\<open>#[from] std::io::Error\<close>).\<close>

definition lift_io :: "io_error + 'a \<Rightarrow> 'a res" where
  "lift_io r = map_err Io r"

lemma lift_io_simps [simp]:
  "lift_io (Inl e) = Inl (Io e)" "lift_io (Inr x) = Inr x"
  by (simp_all add: lift_io_def)

end
