(* ===== verification/Rust_Str.thy ===== *)
theory Rust_Str
  imports Errors
begin

text \<open>
  The functions of Rust's \<open>str\<close> and \<open>String\<close> that the program calls, on UTF-8 byte strings:
  validation and lossy decoding, trimming of Unicode white space, splitting, \<open>lines\<close>,
  ASCII case, replacement, and the parsing and printing of unsigned integers. A Rust
  string is the list of its UTF-8 bytes, so \<open>len()\<close> is \<open>length\<close>.
\<close>

section \<open>Bytes and characters\<close>

definition as_bytes :: "string \<Rightarrow> bytes" where
  "as_bytes s = map of_char s"

definition bytes_to_string :: "bytes \<Rightarrow> string" where
  "bytes_to_string bs = map (\<lambda>b. char_of (unat b)) bs"

abbreviation code :: "char \<Rightarrow> nat" where
  "code c \<equiv> of_char c"

lemma length_as_bytes [simp]: "length (as_bytes s) = length s"
  by (simp add: as_bytes_def)

lemma as_bytes_append [simp]: "as_bytes (s @ t) = as_bytes s @ as_bytes t"
  by (simp add: as_bytes_def)

lemma length_bytes_to_string [simp]: "length (bytes_to_string bs) = length bs"
  by (simp add: bytes_to_string_def)

lemma bytes_to_string_append [simp]:
  "bytes_to_string (s @ t) = bytes_to_string s @ bytes_to_string t"
  by (simp add: bytes_to_string_def)

lemma of_char_u8: "(of_char c :: u8) = of_nat (code c)"
  by (metis of_nat_of_char)

lemma unat_of_char_u8 [simp]: "unat (of_char c :: u8) = code c"
  using nat_of_char_less_256 [of c] by (simp add: of_char_u8 unat_of_nat take_bit_nat_eq_self)

lemma bytes_to_string_as_bytes [codec_simps]: "bytes_to_string (as_bytes s) = s"
  by (simp add: bytes_to_string_def as_bytes_def comp_def map_idI)

lemma as_bytes_bytes_to_string [codec_simps]: "as_bytes (bytes_to_string bs) = bs"
proof -
  have "(of_char (char_of (unat b)) :: u8) = b" for b :: u8
    using unat_u8_less [of b] by (simp add: of_char_u8)
  then show ?thesis
    by (simp add: bytes_to_string_def as_bytes_def comp_def map_idI)
qed

section \<open>UTF-8\<close>

text \<open>
  One step of the decoder of \<open>core::str\<close>: whether the string starts with a well-formed
  scalar value, and how many bytes the scalar, or the maximal ill-formed part, takes.
\<close>

definition byte_at :: "string \<Rightarrow> nat \<Rightarrow> nat" where
  "byte_at s i = (if i < length s then code (s ! i) else 0)"

definition utf8_cont :: "nat \<Rightarrow> bool" where
  "utf8_cont n \<longleftrightarrow> 128 \<le> n \<and> n < 192"

definition utf8_second3 :: "nat \<Rightarrow> nat \<Rightarrow> bool" where
  "utf8_second3 b0 b1 \<longleftrightarrow>
     (if b0 = 224 then 160 \<le> b1 \<and> b1 \<le> 191
      else if b0 = 237 then 128 \<le> b1 \<and> b1 \<le> 159 else utf8_cont b1)"

definition utf8_second4 :: "nat \<Rightarrow> nat \<Rightarrow> bool" where
  "utf8_second4 b0 b1 \<longleftrightarrow>
     (if b0 = 240 then 144 \<le> b1 \<and> b1 \<le> 191
      else if b0 = 244 then 128 \<le> b1 \<and> b1 \<le> 143 else utf8_cont b1)"

definition utf8_step :: "string \<Rightarrow> bool \<times> nat" where
  "utf8_step s =
     (let b0 = byte_at s 0; b1 = byte_at s 1; b2 = byte_at s 2; b3 = byte_at s 3 in
      if b0 < 128 then (True, 1)
      else if 194 \<le> b0 \<and> b0 \<le> 223 then (if utf8_cont b1 then (True, 2) else (False, 1))
      else if 224 \<le> b0 \<and> b0 \<le> 239 then
        (if \<not> utf8_second3 b0 b1 then (False, 1)
         else if \<not> utf8_cont b2 then (False, 2) else (True, 3))
      else if 240 \<le> b0 \<and> b0 \<le> 244 then
        (if \<not> utf8_second4 b0 b1 then (False, 1)
         else if \<not> utf8_cont b2 then (False, 2)
         else if \<not> utf8_cont b3 then (False, 3) else (True, 4))
      else (False, 1))"

fun utf8_valid :: "string \<Rightarrow> bool" where
  "utf8_valid [] = True"
| "utf8_valid (c # cs) =
     (fst (utf8_step (c # cs)) \<and> utf8_valid (drop (snd (utf8_step (c # cs)) - 1) cs))"

text \<open>\<open>String::from_utf8\<close> and \<open>str::from_utf8\<close>, and \<open>String::from_utf8_lossy\<close>, which puts
  U+FFFD for each maximal ill-formed part.\<close>

definition from_utf8 :: "bytes \<Rightarrow> string option" where
  "from_utf8 bs = (if utf8_valid (bytes_to_string bs) then Some (bytes_to_string bs) else None)"

fun utf8_lossy :: "string \<Rightarrow> string" where
  "utf8_lossy [] = []"
| "utf8_lossy (c # cs) =
     (let (ok, n) = utf8_step (c # cs) in
      (if ok then take n (c # cs) else [CHR 0xEF, CHR 0xBF, CHR 0xBD])
        @ utf8_lossy (drop (n - 1) cs))"

definition from_utf8_lossy :: "bytes \<Rightarrow> string" where
  "from_utf8_lossy bs = utf8_lossy (bytes_to_string bs)"

lemma utf8_step_ascii: "code c < 128 \<Longrightarrow> utf8_step (c # cs) = (True, 1)"
  by (simp add: utf8_step_def byte_at_def)

lemma utf8_valid_ascii: "\<forall>c \<in> set s. code c < 128 \<Longrightarrow> utf8_valid s"
  by (induction s) (auto simp: utf8_step_ascii)

lemma utf8_lossy_ascii: "\<forall>c \<in> set s. code c < 128 \<Longrightarrow> utf8_lossy s = s"
  by (induction s) (auto simp: utf8_step_ascii)

lemma utf8_lossy_valid: "utf8_valid s \<Longrightarrow> utf8_lossy s = s"
proof (induction s rule: utf8_valid.induct)
  case 1
  then show ?case by simp
next
  case (2 c cs)
  obtain n where st: "utf8_step (c # cs) = (True, n)"
    using "2.prems" by (cases "utf8_step (c # cs)") auto
  then have "0 < n"
    by (auto simp: utf8_step_def Let_def split: if_splits)
  moreover have "utf8_lossy (drop (n - 1) cs) = drop (n - 1) cs"
    using "2.IH" "2.prems" st by simp
  ultimately show ?case
    using st by (cases n) auto
qed

lemma byte_at_append: "i < length s \<Longrightarrow> byte_at (s @ t) i = byte_at s i"
  by (simp add: byte_at_def nth_append)

lemma byte_at_pos: "0 < byte_at s i \<Longrightarrow> i < length s"
  by (simp add: byte_at_def split: if_splits)

lemma utf8_cont_pos: "utf8_cont n \<Longrightarrow> 0 < n" "utf8_second3 a n \<Longrightarrow> 0 < n" "utf8_second4 a n \<Longrightarrow> 0 < n"
  by (auto simp: utf8_cont_def utf8_second3_def utf8_second4_def split: if_splits)

text \<open>The forms of a well-formed scalar value, by its leading byte.\<close>

lemma utf8_step_cases:
  assumes "fst (utf8_step s)"
  obtains (one) "byte_at s 0 < 128" "snd (utf8_step s) = 1"
    | (two) "194 \<le> byte_at s 0" "byte_at s 0 \<le> 223" "utf8_cont (byte_at s 1)" "snd (utf8_step s) = 2"
    | (three) "224 \<le> byte_at s 0" "byte_at s 0 \<le> 239" "utf8_second3 (byte_at s 0) (byte_at s 1)"
        "utf8_cont (byte_at s 2)" "snd (utf8_step s) = 3"
    | (four) "240 \<le> byte_at s 0" "byte_at s 0 \<le> 244" "utf8_second4 (byte_at s 0) (byte_at s 1)"
        "utf8_cont (byte_at s 2)" "utf8_cont (byte_at s 3)" "snd (utf8_step s) = 4"
proof -
  consider "byte_at s 0 < 128" | "194 \<le> byte_at s 0" "byte_at s 0 \<le> 223"
    | "224 \<le> byte_at s 0" "byte_at s 0 \<le> 239" | "240 \<le> byte_at s 0" "byte_at s 0 \<le> 244"
    | "128 \<le> byte_at s 0" "byte_at s 0 < 194" | "244 < byte_at s 0"
    by linarith
  then show ?thesis
  proof cases
    case 1
    then show ?thesis by (intro one) (simp_all add: utf8_step_def Let_def)
  next
    case 2
    with assms have "utf8_cont (byte_at s 1)" by (simp add: utf8_step_def Let_def split: if_split_asm)
    with 2 show ?thesis by (intro two) (simp_all add: utf8_step_def Let_def)
  next
    case 3
    with assms have "utf8_second3 (byte_at s 0) (byte_at s 1)" "utf8_cont (byte_at s 2)"
      by (simp_all add: utf8_step_def Let_def split: if_split_asm)
    with 3 show ?thesis by (intro three) (simp_all add: utf8_step_def Let_def)
  next
    case 4
    with assms have "utf8_second4 (byte_at s 0) (byte_at s 1)" "utf8_cont (byte_at s 2)" "utf8_cont (byte_at s 3)"
      by (simp_all add: utf8_step_def Let_def split: if_split_asm)
    with 4 show ?thesis by (intro four) (simp_all add: utf8_step_def Let_def)
  next
    case 5
    with assms show ?thesis by (simp add: utf8_step_def Let_def)
  next
    case 6
    with assms show ?thesis by (simp add: utf8_step_def Let_def)
  qed
qed

text \<open>A well-formed scalar value lies within the string, and what follows does not matter.\<close>

lemma utf8_step_length:
  assumes "fst (utf8_step s)" "s \<noteq> []"
  shows "snd (utf8_step s) \<le> length s"
  using assms(1)
proof (cases rule: utf8_step_cases)
  case one
  with assms(2) show ?thesis by (cases s) auto
next
  case two
  with byte_at_pos [of s 1] utf8_cont_pos show ?thesis by fastforce
next
  case three
  with byte_at_pos [of s 2] utf8_cont_pos show ?thesis by fastforce
next
  case four
  with byte_at_pos [of s 3] utf8_cont_pos show ?thesis by fastforce
qed

lemma utf8_step_append:
  assumes "fst (utf8_step s)" "s \<noteq> []"
  shows "utf8_step (s @ t) = utf8_step s"
proof -
  have same: "byte_at (s @ t) i = byte_at s i" if "i < snd (utf8_step s)" for i
    using that utf8_step_length [OF assms] by (intro byte_at_append) linarith
  show ?thesis
    using assms(1)
  proof (cases rule: utf8_step_cases)
    case one
    with same [of 0] show ?thesis by (simp add: utf8_step_def Let_def)
  next
    case two
    with same [of 0] same [of 1] show ?thesis by (simp add: utf8_step_def Let_def)
  next
    case three
    with same [of 0] same [of 1] same [of 2] show ?thesis by (simp add: utf8_step_def Let_def)
  next
    case four
    with same [of 0] same [of 1] same [of 2] same [of 3] show ?thesis by (simp add: utf8_step_def Let_def)
  qed
qed

lemma utf8_valid_append: "utf8_valid s \<Longrightarrow> utf8_valid (s @ t) = utf8_valid t"
proof (induction s rule: utf8_valid.induct)
  case (2 c cs)
  let ?n = "snd (utf8_step (c # cs))"
  have ok: "fst (utf8_step (c # cs))" and v: "utf8_valid (drop (?n - 1) cs)" using "2.prems" by auto
  have step: "utf8_step (c # cs @ t) = utf8_step (c # cs)" "?n \<le> length (c # cs)"
    using utf8_step_append [OF ok] utf8_step_length [OF ok] by auto
  have "drop (?n - 1) (cs @ t) = drop (?n - 1) cs @ t" using step(2) by (cases ?n) auto
  with "2.IH" v step(1) ok show ?case by simp
qed simp

lemma from_utf8_as_bytes: "utf8_valid s \<Longrightarrow> from_utf8 (as_bytes s) = Some s"
  by (simp add: from_utf8_def codec_simps)

section \<open>Character classes\<close>

definition is_ascii_digit :: "char \<Rightarrow> bool" where
  "is_ascii_digit c \<longleftrightarrow> 48 \<le> code c \<and> code c \<le> 57"

definition is_ascii_upper :: "char \<Rightarrow> bool" where
  "is_ascii_upper c \<longleftrightarrow> 65 \<le> code c \<and> code c \<le> 90"

definition is_ascii_lower :: "char \<Rightarrow> bool" where
  "is_ascii_lower c \<longleftrightarrow> 97 \<le> code c \<and> code c \<le> 122"

definition is_ascii_alphanumeric :: "char \<Rightarrow> bool" where
  "is_ascii_alphanumeric c \<longleftrightarrow> is_ascii_digit c \<or> is_ascii_upper c \<or> is_ascii_lower c"

definition is_ascii_hexdigit :: "char \<Rightarrow> bool" where
  "is_ascii_hexdigit c \<longleftrightarrow> is_ascii_digit c \<or> (65 \<le> code c \<and> code c \<le> 70) \<or> (97 \<le> code c \<and> code c \<le> 102)"

text \<open>\<open>char::is_ascii_whitespace\<close>: tab, line feed, form feed, carriage return and space.\<close>

definition is_ascii_whitespace :: "char \<Rightarrow> bool" where
  "is_ascii_whitespace c \<longleftrightarrow> code c \<in> {9, 10, 12, 13, 32}"

definition ascii_lower_char :: "char \<Rightarrow> char" where
  "ascii_lower_char c = (if is_ascii_upper c then char_of (code c + 32) else c)"

definition to_ascii_lowercase :: "string \<Rightarrow> string" where
  "to_ascii_lowercase s = map ascii_lower_char s"

definition eq_ignore_ascii_case :: "string \<Rightarrow> string \<Rightarrow> bool" where
  "eq_ignore_ascii_case s t \<longleftrightarrow> to_ascii_lowercase s = to_ascii_lowercase t"

lemma eq_ignore_ascii_case_refl [simp]: "eq_ignore_ascii_case s s"
  by (simp add: eq_ignore_ascii_case_def)

lemma length_to_ascii_lowercase [simp]: "length (to_ascii_lowercase s) = length s"
  by (simp add: to_ascii_lowercase_def)

lemma ascii_lower_char_idem [simp]: "ascii_lower_char (ascii_lower_char c) = ascii_lower_char c"
  by (auto simp: ascii_lower_char_def is_ascii_upper_def)

lemma to_ascii_lowercase_idem [simp]:
  "to_ascii_lowercase (to_ascii_lowercase s) = to_ascii_lowercase s"
  by (simp add: to_ascii_lowercase_def)

lemma hexdigit_lower: "is_ascii_hexdigit c \<Longrightarrow> is_ascii_hexdigit (ascii_lower_char c)"
  by (auto simp: ascii_lower_char_def is_ascii_upper_def is_ascii_hexdigit_def
      is_ascii_digit_def)

section \<open>Unicode white space\<close>

text \<open>
  The number of bytes of the white-space scalar at the front of a string (\<open>0\<close> if there is
  none): U+0009 to U+000D, U+0020, U+0085, U+00A0, U+1680, U+2000 to U+200A, U+2028,
  U+2029, U+202F, U+205F and U+3000. \<open>ws3\<close> lists the three-byte ones.
\<close>

definition ws1 :: "nat \<Rightarrow> bool" where
  "ws1 a \<longleftrightarrow> (9 \<le> a \<and> a \<le> 13) \<or> a = 32"

definition ws2 :: "nat \<Rightarrow> nat \<Rightarrow> bool" where
  "ws2 a b \<longleftrightarrow> a = 194 \<and> (b = 133 \<or> b = 160)"

definition ws3 :: "nat \<Rightarrow> nat \<Rightarrow> nat \<Rightarrow> bool" where
  "ws3 a b c \<longleftrightarrow>
     (a = 225 \<and> b = 154 \<and> c = 128)
   \<or> (a = 226 \<and> b = 128 \<and> ((128 \<le> c \<and> c \<le> 138) \<or> c = 168 \<or> c = 169 \<or> c = 175))
   \<or> (a = 226 \<and> b = 129 \<and> c = 159)
   \<or> (a = 227 \<and> b = 128 \<and> c = 128)"

definition ws_len :: "string \<Rightarrow> nat" where
  "ws_len s =
     (let a = byte_at s 0; b = byte_at s 1; c = byte_at s 2 in
      if ws1 a then 1 else if ws2 a b then 2 else if ws3 a b c then 3 else 0)"

definition ws_len_rev :: "string \<Rightarrow> nat" where
  "ws_len_rev r =
     (let a = byte_at r 0; b = byte_at r 1; c = byte_at r 2 in
      if ws1 a then 1 else if ws2 b a then 2 else if ws3 c b a then 3 else 0)"

fun trim_start :: "string \<Rightarrow> string" where
  "trim_start [] = []"
| "trim_start (c # cs) =
     (if ws_len (c # cs) = 0 then c # cs else trim_start (drop (ws_len (c # cs) - 1) cs))"

fun trim_end_rev :: "string \<Rightarrow> string" where
  "trim_end_rev [] = []"
| "trim_end_rev (c # cs) =
     (if ws_len_rev (c # cs) = 0 then c # cs
      else trim_end_rev (drop (ws_len_rev (c # cs) - 1) cs))"

definition trim_end :: "string \<Rightarrow> string" where
  "trim_end s = rev (trim_end_rev (rev s))"

definition trim :: "string \<Rightarrow> string" where
  "trim s = trim_end (trim_start s)"

text \<open>A string with no white space at either end.\<close>

definition trimmed :: "string \<Rightarrow> bool" where
  "trimmed s \<longleftrightarrow> (s \<noteq> [] \<longrightarrow> ws_len s = 0 \<and> ws_len_rev (rev s) = 0)"

lemma trim_start_id: "s = [] \<or> ws_len s = 0 \<Longrightarrow> trim_start s = s"
  by (cases s) auto

lemma trim_end_rev_id: "r = [] \<or> ws_len_rev r = 0 \<Longrightarrow> trim_end_rev r = r"
  by (cases r) auto

lemma trim_trimmed: "trimmed s \<Longrightarrow> trim s = s"
  by (cases "s = []")
    (auto simp: trimmed_def trim_def trim_end_def trim_start_id trim_end_rev_id)

lemma ws_len_space [simp]: "ws_len (CHR '' '' # s) = 1"
  by (simp add: ws_len_def byte_at_def ws1_def)

lemma ws_len_rev_space [simp]: "ws_len_rev (CHR '' '' # s) = 1"
  by (simp add: ws_len_rev_def byte_at_def ws1_def)

lemma trim_start_space [simp]: "trim_start (CHR '' '' # s) = trim_start s"
  by simp

lemma trim_end_space [simp]: "trim_end (s @ '' '') = trim_end s"
  by (simp add: trim_end_def)

lemma trimmed_ends:
  assumes "s \<noteq> []" "code (hd s) < 128" "\<not> ws1 (code (hd s))"
    "code (last s) < 128" "\<not> ws1 (code (last s))"
  shows "trimmed s"
proof -
  obtain c cs where s: "s = c # cs" using assms(1) by (cases s) auto
  obtain d ds where r: "rev s = d # ds" using assms(1) by (cases "rev s") auto
  then have "last s = d" using assms(1) by (metis hd_rev list.sel(1))
  with assms s r show ?thesis
    by (auto simp: trimmed_def ws_len_def ws_len_rev_def byte_at_def ws2_def ws3_def Let_def)
qed

section \<open>Splitting and joining\<close>

fun split_once :: "('a \<Rightarrow> bool) \<Rightarrow> 'a list \<Rightarrow> ('a list \<times> 'a list) option" where
  "split_once P [] = None"
| "split_once P (x # xs) =
     (if P x then Some ([], xs)
      else map_option (\<lambda>(a, b). (x # a, b)) (split_once P xs))"

definition rsplit_once :: "('a \<Rightarrow> bool) \<Rightarrow> 'a list \<Rightarrow> ('a list \<times> 'a list) option" where
  "rsplit_once P xs = map_option (\<lambda>(a, b). (rev b, rev a)) (split_once P (rev xs))"

fun split_on :: "('a \<Rightarrow> bool) \<Rightarrow> 'a list \<Rightarrow> 'a list list" where
  "split_on P [] = [[]]"
| "split_on P (x # xs) =
     (if P x then [] # split_on P xs
      else (x # hd (split_on P xs)) # tl (split_on P xs))"

fun join :: "'a list \<Rightarrow> 'a list list \<Rightarrow> 'a list" where
  "join sep [] = []"
| "join sep [x] = x"
| "join sep (x # y # xs) = x @ sep @ join sep (y # xs)"

lemma split_once_None: "split_once P xs = None \<longleftrightarrow> (\<forall>x \<in> set xs. \<not> P x)"
  by (induction xs) auto

lemma split_once_Some:
  "split_once P xs = Some (a, b) \<longleftrightarrow> (\<exists>x. xs = a @ x # b \<and> P x \<and> (\<forall>y \<in> set a. \<not> P y))"
proof (induction xs arbitrary: a)
  case Nil
  then show ?case by simp
next
  case (Cons x xs)
  show ?case
  proof (cases "P x")
    case True
    then show ?thesis by (cases a) auto
  next
    case False
    then show ?thesis using Cons.IH by (cases a) auto
  qed
qed

lemma split_once_append:
  "\<forall>y \<in> set a. \<not> P y \<Longrightarrow> P x \<Longrightarrow> split_once P (a @ x # b) = Some (a, b)"
  unfolding split_once_Some by blast

lemma rsplit_once_append:
  "\<forall>y \<in> set b. \<not> P y \<Longrightarrow> P x \<Longrightarrow> rsplit_once P (a @ x # b) = Some (a, b)"
  by (simp add: rsplit_once_def split_once_append)

lemma rsplit_once_None: "rsplit_once P xs = None \<longleftrightarrow> (\<forall>x \<in> set xs. \<not> P x)"
  by (simp add: rsplit_once_def split_once_None)

lemma split_on_not_Nil [simp]: "split_on P xs \<noteq> []"
  by (cases xs) auto

lemma split_on_no_sep: "\<forall>y \<in> set a. \<not> P y \<Longrightarrow> split_on P a = [a]"
  by (induction a) auto

lemma split_on_append:
  "\<forall>y \<in> set a. \<not> P y \<Longrightarrow> P x \<Longrightarrow> split_on P (a @ x # b) = a # split_on P b"
  by (induction a) auto

lemma split_on_pieces: "y \<in> set (split_on P xs) \<Longrightarrow> \<forall>c \<in> set y. \<not> P c"
proof (induction xs arbitrary: y)
  case Nil
  then show ?case by simp
next
  case (Cons x xs)
  show ?case
  proof (cases "P x")
    case True
    with Cons show ?thesis by auto
  next
    case False
    have "y = x # hd (split_on P xs) \<or> y \<in> set (tl (split_on P xs))"
      using Cons.prems False by auto
    then show ?thesis
    proof
      assume y: "y = x # hd (split_on P xs)"
      have "hd (split_on P xs) \<in> set (split_on P xs)" by simp
      with Cons.IH have "\<forall>c \<in> set (hd (split_on P xs)). \<not> P c" by blast
      with y False show ?thesis by simp
    next
      assume "y \<in> set (tl (split_on P xs))"
      then have "y \<in> set (split_on P xs)" by (meson list.set_sel(2) split_on_not_Nil)
      then show ?thesis by (rule Cons.IH)
    qed
  qed
qed

lemma join_split_on: "join [c] (split_on (\<lambda>x. x = c) xs) = xs"
proof (induction xs)
  case Nil
  then show ?case by simp
next
  case (Cons x xs)
  obtain y ys where s: "split_on (\<lambda>x. x = c) xs = y # ys"
    using split_on_not_Nil [of "\<lambda>x. x = c" xs] by (cases "split_on (\<lambda>x. x = c) xs") auto
  with Cons.IH show ?case by (cases ys) auto
qed

lemma split_on_join:
  "xss \<noteq> [] \<Longrightarrow> \<forall>xs \<in> set xss. c \<notin> set xs \<Longrightarrow> split_on (\<lambda>x. x = c) (join [c] xss) = xss"
proof (induction xss rule: induct_list012)
  case 1
  then show ?case by simp
next
  case (2 x)
  then show ?case by (auto intro!: split_on_no_sep)
next
  case (3 x y zs)
  then have "split_on (\<lambda>x. x = c) (x @ c # join [c] (y # zs)) = x # (y # zs)"
    by (subst split_on_append) auto
  then show ?case by simp
qed

text \<open>\<open>split(pat)\<close> for a non-empty separator string, and \<open>split_once\<close> at a string.\<close>

function split_str :: "string \<Rightarrow> string \<Rightarrow> string list" where
  "split_str sep s =
     (case find_sub s sep of
        None \<Rightarrow> [s]
      | Some i \<Rightarrow> if sep = [] then [s] else take i s # split_str sep (drop (i + length sep) s))"
  by pat_completeness auto
termination
proof (relation "measure (\<lambda>(sep, s). length s)")
  show "wf (measure (\<lambda>(sep :: string, s :: string). length s))" by simp
next
  fix sep s :: string and i
  assume "find_sub s sep = Some i" "sep \<noteq> []"
  then have "i + length sep \<le> length s" and "0 < length sep"
    by (auto dest: find_sub_bound)
  then have "length s - (i + length sep) < length s" by linarith
  then show "((sep, drop (i + length sep) s), sep, s) \<in> measure (\<lambda>(sep, s). length s)"
    by auto
qed

declare split_str.simps [simp del]

definition split_once_str :: "string \<Rightarrow> string \<Rightarrow> (string \<times> string) option" where
  "split_once_str sep s =
     map_option (\<lambda>i. (take i s, drop (i + length sep) s)) (find_sub s sep)"

text \<open>\<open>strip_prefix\<close> and \<open>trim_end_matches\<close> / \<open>trim_matches\<close> of a set of one-byte characters.\<close>

definition strip_prefix :: "string \<Rightarrow> string \<Rightarrow> string option" where
  "strip_prefix p s = (if starts_with s p then Some (drop (length p) s) else None)"

definition trim_end_matches :: "(char \<Rightarrow> bool) \<Rightarrow> string \<Rightarrow> string" where
  "trim_end_matches P s = rev (dropWhile P (rev s))"

definition trim_matches :: "(char \<Rightarrow> bool) \<Rightarrow> string \<Rightarrow> string" where
  "trim_matches P s = trim_end_matches P (dropWhile P s)"

text \<open>
  \<open>str::lines\<close>: lines end with a line feed, which is dropped with a carriage return before
  it; a last line without a line feed is kept as it is.
\<close>

definition strip_cr :: "string \<Rightarrow> string" where
  "strip_cr l = (if l \<noteq> [] \<and> last l = CHR 0x0D then butlast l else l)"

fun lines_aux :: "string \<Rightarrow> string \<Rightarrow> string list" where
  "lines_aux acc [] = (if acc = [] then [] else [rev acc])"
| "lines_aux acc (c # cs) =
     (if c = CHR 0x0A then strip_cr (rev acc) # lines_aux [] cs else lines_aux (c # acc) cs)"

definition str_lines :: "string \<Rightarrow> string list" where
  "str_lines s = lines_aux [] s"

lemma lines_aux_append:
  "\<forall>c \<in> set l. c \<noteq> CHR 0x0A \<Longrightarrow>
   lines_aux acc (l @ CHR 0x0A # s) = strip_cr (rev acc @ l) # lines_aux [] s"
  by (induction l arbitrary: acc) auto

lemma str_lines_Nil [simp]: "str_lines [] = []"
  by (simp add: str_lines_def)

lemma str_lines_line:
  "\<forall>c \<in> set l. c \<noteq> CHR 0x0A \<Longrightarrow> str_lines (l @ CHR 0x0A # s) = strip_cr l # str_lines s"
  by (simp add: str_lines_def lines_aux_append)

text \<open>\<open>split_whitespace\<close>: the non-empty pieces between Unicode white space.\<close>

fun split_ws_aux :: "string \<Rightarrow> string \<Rightarrow> string list" where
  "split_ws_aux acc [] = (if acc = [] then [] else [rev acc])"
| "split_ws_aux acc (c # cs) =
     (if ws_len (c # cs) = 0 then split_ws_aux (c # acc) cs
      else (if acc = [] then [] else [rev acc]) @ split_ws_aux [] (drop (ws_len (c # cs) - 1) cs))"

definition split_whitespace :: "string \<Rightarrow> string list" where
  "split_whitespace s = split_ws_aux [] s"

definition CRLF :: string where
  "CRLF = [CHR 0x0D, CHR 0x0A]"

text \<open>\<open>str::replace\<close> of a non-empty pattern.\<close>

fun replace_str :: "string \<Rightarrow> string \<Rightarrow> string \<Rightarrow> string" where
  "replace_str pat rep [] = []"
| "replace_str pat rep (c # cs) =
     (if pat \<noteq> [] \<and> starts_with (c # cs) pat
      then rep @ replace_str pat rep (drop (length pat - 1) cs)
      else c # replace_str pat rep cs)"

section \<open>Unsigned integers as decimal strings\<close>

fun digits_value :: "nat \<Rightarrow> string \<Rightarrow> nat option" where
  "digits_value acc [] = Some acc"
| "digits_value acc (c # cs) =
     (if is_ascii_digit c then digits_value (10 * acc + (code c - 48)) cs else None)"

text \<open>
  \<open>str::parse\<close> for an unsigned type with \<open>m\<close> values: one optional plus sign, at least one
  digit, and no overflow.
\<close>

definition parse_unsigned :: "nat \<Rightarrow> string \<Rightarrow> nat option" where
  "parse_unsigned m s =
     (let ds = (if s \<noteq> [] \<and> hd s = CHR ''+'' then tl s else s) in
      if ds = [] then None
      else case digits_value 0 ds of None \<Rightarrow> None | Some n \<Rightarrow> if n < m then Some n else None)"

definition parse_u8 :: "string \<Rightarrow> u8 option" where
  "parse_u8 s = map_option of_nat (parse_unsigned (2 ^ 8) s)"

definition parse_u16 :: "string \<Rightarrow> u16 option" where
  "parse_u16 s = map_option of_nat (parse_unsigned (2 ^ 16) s)"

definition parse_u32 :: "string \<Rightarrow> u32 option" where
  "parse_u32 s = map_option of_nat (parse_unsigned (2 ^ 32) s)"

fun show_nat :: "nat \<Rightarrow> string" where
  "show_nat n = (if n < 10 then [char_of (48 + n)] else show_nat (n div 10) @ [char_of (48 + n mod 10)])"

declare show_nat.simps [simp del]

definition show_word :: "'a::len word \<Rightarrow> string" where
  "show_word w = show_nat (unat w)"

lemma digits_value_append:
  "digits_value acc (s @ t) =
     (case digits_value acc s of None \<Rightarrow> None | Some v \<Rightarrow> digits_value v t)"
  by (induction s arbitrary: acc) auto

lemma digit_char [simp]: "(n::nat) < 10 \<Longrightarrow> is_ascii_digit (char_of (48 + n))"
  by (simp add: is_ascii_digit_def)

lemma show_nat_digits: "c \<in> set (show_nat n) \<Longrightarrow> is_ascii_digit c"
proof (induction n rule: show_nat.induct)
  case (1 n)
  then show ?case
    by (subst (asm) show_nat.simps) (auto split: if_splits)
qed

lemma show_nat_not_Nil [simp]: "show_nat n \<noteq> []"
  by (subst show_nat.simps) simp

lemma digits_value_show_nat: "digits_value 0 (show_nat n) = Some n"
proof (induction n rule: show_nat.induct)
  case (1 n)
  show ?case
  proof (cases "n < 10")
    case True
    then show ?thesis by (subst show_nat.simps) (simp add:)
  next
    case False
    then have "digits_value 0 (show_nat (n div 10)) = Some (n div 10)"
      using "1.IH" by simp
    with False show ?thesis
      by (subst show_nat.simps) (simp add: digits_value_append)
  qed
qed

lemma parse_unsigned_show_nat:
  assumes "n < m"
  shows "parse_unsigned m (show_nat n) = Some n"
proof -
  obtain c cs where s: "show_nat n = c # cs" by (cases "show_nat n") auto
  then have "is_ascii_digit c" using show_nat_digits [of c n] by simp
  then have "c \<noteq> CHR ''+''" by (auto simp: is_ascii_digit_def)
  with assms s show ?thesis
    using digits_value_show_nat [of n] by (simp add: parse_unsigned_def)
qed

lemma parse_u16_show_word [codec_simps]: "parse_u16 (show_word (w :: u16)) = Some w"
  using unat_u16_less [of w] by (simp add: parse_u16_def show_word_def parse_unsigned_show_nat)

lemma parse_u32_show_word [codec_simps]: "parse_u32 (show_word (w :: u32)) = Some w"
  using unsigned_less [of w, where 'a = nat]
  by (simp add: parse_u32_def show_word_def parse_unsigned_show_nat)

end
