(* ===== verification/Hdlc.thy ===== *)
theory Hdlc
  imports Rust_Str
begin

text \<open>
  HDLC-like framing of PPP packets for the pseudo terminal of pppd (\<open>src/hdlc.rs\<close>): the
  frame check sequence with its table, the stateful encoder, frame search in a byte
  buffer and the decoder.

  Shown here: the table-driven checksum computes the bitwise CRC with the reversed
  polynomial 0x8408; a frame built by the encoder is found again by \<open>find_frame\<close> and
  decodes to the packet; flag bytes occur in a frame only as its delimiters; a change of
  one byte of the checked sequence is always detected.
\<close>

section \<open>The frame check sequence\<close>

definition FCS_TAB :: "u16 list" where
  "FCS_TAB =
     [0x0000, 0x1189, 0x2312, 0x329b, 0x4624, 0x57ad, 0x6536, 0x74bf,
      0x8c48, 0x9dc1, 0xaf5a, 0xbed3, 0xca6c, 0xdbe5, 0xe97e, 0xf8f7,
      0x1081, 0x0108, 0x3393, 0x221a, 0x56a5, 0x472c, 0x75b7, 0x643e,
      0x9cc9, 0x8d40, 0xbfdb, 0xae52, 0xdaed, 0xcb64, 0xf9ff, 0xe876,
      0x2102, 0x308b, 0x0210, 0x1399, 0x6726, 0x76af, 0x4434, 0x55bd,
      0xad4a, 0xbcc3, 0x8e58, 0x9fd1, 0xeb6e, 0xfae7, 0xc87c, 0xd9f5,
      0x3183, 0x200a, 0x1291, 0x0318, 0x77a7, 0x662e, 0x54b5, 0x453c,
      0xbdcb, 0xac42, 0x9ed9, 0x8f50, 0xfbef, 0xea66, 0xd8fd, 0xc974,
      0x4204, 0x538d, 0x6116, 0x709f, 0x0420, 0x15a9, 0x2732, 0x36bb,
      0xce4c, 0xdfc5, 0xed5e, 0xfcd7, 0x8868, 0x99e1, 0xab7a, 0xbaf3,
      0x5285, 0x430c, 0x7197, 0x601e, 0x14a1, 0x0528, 0x37b3, 0x263a,
      0xdecd, 0xcf44, 0xfddf, 0xec56, 0x98e9, 0x8960, 0xbbfb, 0xaa72,
      0x6306, 0x728f, 0x4014, 0x519d, 0x2522, 0x34ab, 0x0630, 0x17b9,
      0xef4e, 0xfec7, 0xcc5c, 0xddd5, 0xa96a, 0xb8e3, 0x8a78, 0x9bf1,
      0x7387, 0x620e, 0x5095, 0x411c, 0x35a3, 0x242a, 0x16b1, 0x0738,
      0xffcf, 0xee46, 0xdcdd, 0xcd54, 0xb9eb, 0xa862, 0x9af9, 0x8b70,
      0x8408, 0x9581, 0xa71a, 0xb693, 0xc22c, 0xd3a5, 0xe13e, 0xf0b7,
      0x0840, 0x19c9, 0x2b52, 0x3adb, 0x4e64, 0x5fed, 0x6d76, 0x7cff,
      0x9489, 0x8500, 0xb79b, 0xa612, 0xd2ad, 0xc324, 0xf1bf, 0xe036,
      0x18c1, 0x0948, 0x3bd3, 0x2a5a, 0x5ee5, 0x4f6c, 0x7df7, 0x6c7e,
      0xa50a, 0xb483, 0x8618, 0x9791, 0xe32e, 0xf2a7, 0xc03c, 0xd1b5,
      0x2942, 0x38cb, 0x0a50, 0x1bd9, 0x6f66, 0x7eef, 0x4c74, 0x5dfd,
      0xb58b, 0xa402, 0x9699, 0x8710, 0xf3af, 0xe226, 0xd0bd, 0xc134,
      0x39c3, 0x284a, 0x1ad1, 0x0b58, 0x7fe7, 0x6e6e, 0x5cf5, 0x4d7c,
      0xc60c, 0xd785, 0xe51e, 0xf497, 0x8028, 0x91a1, 0xa33a, 0xb2b3,
      0x4a44, 0x5bcd, 0x6956, 0x78df, 0x0c60, 0x1de9, 0x2f72, 0x3efb,
      0xd68d, 0xc704, 0xf59f, 0xe416, 0x90a9, 0x8120, 0xb3bb, 0xa232,
      0x5ac5, 0x4b4c, 0x79d7, 0x685e, 0x1ce1, 0x0d68, 0x3ff3, 0x2e7a,
      0xe70e, 0xf687, 0xc41c, 0xd595, 0xa12a, 0xb0a3, 0x8238, 0x93b1,
      0x6b46, 0x7acf, 0x4854, 0x59dd, 0x2d62, 0x3ceb, 0x0e70, 0x1ff9,
      0xf78f, 0xe606, 0xd49d, 0xc514, 0xb1ab, 0xa022, 0x92b9, 0x8330,
      0x7bc7, 0x6a4e, 0x58d5, 0x495c, 0x3de3, 0x2c6a, 0x1ef1, 0x0f78]"

definition ADDRESS_CONTROL_CHECKSUM :: u16 where
  "ADDRESS_CONTROL_CHECKSUM = 0x3de3"

definition GOOD_FINAL_FCS :: u16 where
  "GOOD_FINAL_FCS = 0xf0b8"

definition fcs_step :: "u16 \<Rightarrow> u8 \<Rightarrow> u16" where
  "fcs_step acc byte = drop_bit 8 acc XOR FCS_TAB ! unat ((acc XOR ucast byte) AND 0xff)"

fun frame_checksum_16bit :: "u16 \<Rightarrow> bytes \<Rightarrow> u16" where
  "frame_checksum_16bit acc [] = acc"
| "frame_checksum_16bit acc (byte # bs) = frame_checksum_16bit (fcs_step acc byte) bs"

section \<open>The encoder\<close>

record hdlc_codec =
  need_flag_sequence :: bool

definition hdlc_new :: hdlc_codec where
  "hdlc_new = \<lparr>need_flag_sequence = True\<rparr>"

definition estimated_encoded_size :: "nat \<Rightarrow> nat" where
  "estimated_encoded_size packet_len = 9 + 2 * packet_len"

definition estimated_decoded_size :: "nat \<Rightarrow> nat" where
  "estimated_decoded_size frame_len = frame_len"

definition in_sending_accm :: "u8 \<Rightarrow> bool" where
  "in_sending_accm byte \<longleftrightarrow> byte < 0x20 \<or> byte AND 0x7f = 0x7d \<or> byte AND 0x7f = 0x7e"

definition in_receiving_accm :: "u8 \<Rightarrow> bool" where
  "in_receiving_accm byte \<longleftrightarrow> byte < 0x20"

definition push_escaped :: "bytes \<Rightarrow> u8 \<Rightarrow> bytes" where
  "push_escaped out byte =
     (if in_sending_accm byte then out @ [0x7d, byte XOR 0x20] else out @ [byte])"

fun push_all_escaped :: "bytes \<Rightarrow> bytes \<Rightarrow> bytes" where
  "push_all_escaped out [] = out"
| "push_all_escaped out (byte # bs) = push_all_escaped (push_escaped out byte) bs"

definition hdlc_encode :: "hdlc_codec \<Rightarrow> bytes \<Rightarrow> hdlc_codec \<times> bytes" where
  "hdlc_encode codec packet =
     (let frame = (if need_flag_sequence codec then [0x7e] else []);
          frame = frame @ [0xff, 0x7d, 0x03 XOR 0x20];
          checksum = frame_checksum_16bit ADDRESS_CONTROL_CHECKSUM packet;
          frame = push_all_escaped frame packet;
          checksum = checksum XOR 0xffff;
          frame = push_escaped frame (ucast (checksum AND 0x00ff));
          frame = push_escaped frame (ucast (drop_bit 8 checksum));
          frame = frame @ [0x7e]
      in (codec\<lparr>need_flag_sequence := False\<rparr>, frame))"

section \<open>Frame search\<close>

text \<open>The first position of a flag at or after \<open>from\<close>, as an index into the buffer.\<close>

definition find_flag :: "bytes \<Rightarrow> nat \<Rightarrow> nat option" where
  "find_flag buffer from =
     map_option (\<lambda>i. from + i) (position (\<lambda>b. b = 0x7e) (drop from buffer))"

text \<open>The loop that skips repeated flags: the first index at or after \<open>s\<close> without a flag.\<close>

function skip_flags :: "bytes \<Rightarrow> nat \<Rightarrow> nat" where
  "skip_flags buffer s =
     (if s < length buffer \<and> buffer ! s = 0x7e then skip_flags buffer (s + 1) else s)"
  by pat_completeness auto
termination
  by (relation "measure (\<lambda>(buffer, s). length buffer - s)") auto

declare skip_flags.simps [simp del]

text \<open>The updated \<open>start\<close> and the length of the frame; \<open>start\<close> is unchanged on failure.\<close>

definition find_frame :: "bytes \<Rightarrow> nat \<Rightarrow> (nat \<times> nat) res" where
  "find_frame buffer start =
     (case find_flag buffer start of
        None \<Rightarrow> Inl HdlcNoFrameFound
      | Some i \<Rightarrow>
          (let s = skip_flags buffer (i + 1) in
           case find_flag buffer s of
             None \<Rightarrow> Inl HdlcNoFrameFound
           | Some e \<Rightarrow> Inr (s, e - s)))"

section \<open>The decoder\<close>

text \<open>The unescaping loop: \<open>None\<close> is the error for an escape after an escape; the result is
  the packet with the flag that an escape is pending.\<close>

fun unescape_loop :: "bytes \<Rightarrow> bool \<Rightarrow> bytes \<Rightarrow> (bytes \<times> bool) option" where
  "unescape_loop packet in_escape [] = Some (packet, in_escape)"
| "unescape_loop packet in_escape (byte # bs) =
     (if byte = 0x7d then (if in_escape then None else unescape_loop packet True bs)
      else if in_escape then unescape_loop (packet @ [byte XOR 0x20]) False bs
      else if in_receiving_accm byte then unescape_loop packet in_escape bs
      else unescape_loop (packet @ [byte]) in_escape bs)"

definition hdlc_decode :: "bytes \<Rightarrow> bytes res" where
  "hdlc_decode frame =
     (if length frame < 5 then Inl HdlcInvalidFrame
      else
        let has_address_control_fields =
              3 \<le> length frame \<and> frame ! 0 = 0xff \<and> frame ! 1 = 0x7d \<and> frame ! 2 = 0x03 XOR 0x20;
            start = (if has_address_control_fields then 3 else 0)
        in case unescape_loop [] False (drop start frame) of
             None \<Rightarrow> Inl HdlcInvalidFrame
           | Some (packet, in_escape) \<Rightarrow>
               if in_escape \<or> length packet < 3 then Inl HdlcInvalidFrame
               else
                 let initial = (if has_address_control_fields then ADDRESS_CONTROL_CHECKSUM else 0xffff)
                 in if frame_checksum_16bit initial packet \<noteq> GOOD_FINAL_FCS then Inl HdlcBadChecksum
                    else Inr (take (length packet - 2) packet))"

section \<open>The table against the bitwise definition\<close>

text \<open>One bit of the CRC with the reversed polynomial 0x8408, and eight of them.\<close>

definition crc_bit :: "u16 \<Rightarrow> u16" where
  "crc_bit s = (if bit s 0 then drop_bit 1 s XOR 0x8408 else drop_bit 1 s)"

definition crc_byte :: "u16 \<Rightarrow> u8 \<Rightarrow> u16" where
  "crc_byte s b = (crc_bit ^^ 8) (s XOR ucast b)"

fun crc_reference :: "u16 \<Rightarrow> bytes \<Rightarrow> u16" where
  "crc_reference s [] = s"
| "crc_reference s (b # bs) = crc_reference (crc_byte s b) bs"

lemma crc_bit_0 [simp]: "crc_bit 0 = 0"
  by (simp add: crc_bit_def)

lemma crc_bit_xor: "crc_bit (x XOR y) = crc_bit x XOR crc_bit y"
  by (auto simp: crc_bit_def bit_xor_iff intro!: bit_word_eqI simp: bit_simps)

lemma crc_bits_xor: "(crc_bit ^^ n) (x XOR y) = (crc_bit ^^ n) x XOR (crc_bit ^^ n) y"
  by (induction n) (simp_all add: crc_bit_xor)


lemma crc_bit_num [simp]:
  "crc_bit (numeral (Num.Bit0 n)) = drop_bit 1 (numeral (Num.Bit0 n))"
  "crc_bit (numeral (Num.Bit1 n)) = drop_bit 1 (numeral (Num.Bit1 n)) XOR 0x8408"
  "crc_bit 1 = 0x8408"
  by (simp_all add: crc_bit_def)

lemma crc8:
  "(crc_bit ^^ 8) s =
     crc_bit (crc_bit (crc_bit (crc_bit (crc_bit (crc_bit (crc_bit (crc_bit s)))))))"
  by (simp add: numeral_eq_Suc)

lemma FCS_TAB_bitwise: "map (\<lambda>i. (crc_bit ^^ 8) (of_nat i)) [0..<256] = FCS_TAB"
  unfolding crc8 FCS_TAB_def
  by (simp add: upt_rec [of 0] upt_rec [of "Suc 0"] upt_rec_numeral flip: numeral_2_eq_2)

lemma length_FCS_TAB: "length FCS_TAB = 256"
  using arg_cong [OF FCS_TAB_bitwise, of length] by simp

lemma FCS_TAB_nth: "i < 256 \<Longrightarrow> FCS_TAB ! i = (crc_bit ^^ 8) (of_nat i)"
  by (simp flip: FCS_TAB_bitwise)

lemma crc_bit_push:
  assumes "0 < m" "m \<le> 8" "\<forall>n \<ge> 8. \<not> bit h n"
  shows "crc_bit (push_bit m h) = push_bit (m - 1) (h :: u16)"
proof -
  have "\<not> bit (push_bit m h) 0"
    using assms(1) by (simp add: bit_push_bit_iff)
  then have "crc_bit (push_bit m h) = drop_bit 1 (push_bit m h)"
    by (simp only: crc_bit_def if_False)
  also have "\<dots> = push_bit (m - 1) h"
    using assms
  proof (intro bit_word_eqI)
    fix n assume "n < LENGTH(16)"
    with assms show "bit (drop_bit 1 (push_bit m h)) n = bit (push_bit (m - 1) h) n"
      by (cases "n = 15") (auto simp: bit_drop_bit_eq bit_push_bit_iff)
  qed
  finally show ?thesis .
qed

lemma crc_bits_push:
  assumes "\<forall>n \<ge> 8. \<not> bit h n" "m \<le> 8"
  shows "n \<le> m \<Longrightarrow> (crc_bit ^^ n) (push_bit m h) = push_bit (m - n) (h :: u16)"
proof (induction n)
  case 0
  then show ?case by simp
next
  case (Suc n)
  then have "(crc_bit ^^ Suc n) (push_bit m h) = crc_bit (push_bit (m - n) h)"
    by simp
  also have "\<dots> = push_bit (m - n - 1) h"
    using Suc.prems assms by (intro crc_bit_push) auto
  finally show ?case by simp
qed

lemma and_0xff: "(x :: u16) AND 0xff = take_bit 8 x"
  by (simp add: take_bit_eq_mask mask_eq_exp_minus_1)

lemma bit_ones_int [simp]:
  "bit (0xff :: int) n \<longleftrightarrow> n < 8"
  "bit (0xffff :: int) n \<longleftrightarrow> n < 16"
  using bit_mask_iff [of 8 n, where 'a = int] bit_mask_iff [of 16 n, where 'a = int]
  by (simp_all add: mask_eq_exp_minus_1)

lemma xor_0xffff: "(x :: u16) XOR 0xffff = NOT x"
  by (rule bit_word_eqI) (simp add: bit_xor_iff bit_not_iff)

lemma unat_take_bit_8: "unat (take_bit 8 x :: u16) < 256"
  using take_bit_nat_less_exp [of 8 "unat x"] by (simp add: unsigned_take_bit_eq)

lemma fcs_step_crc_byte: "fcs_step acc byte = crc_byte acc byte"
proof -
  define x where "x = acc XOR ucast byte"
  define h where "h = drop_bit 8 x"
  have h: "h = drop_bit 8 acc" "\<forall>n \<ge> 8. \<not> bit h n"
    unfolding h_def x_def
    by (auto intro!: bit_word_eqI simp: bit_simps) (auto simp: bit_simps dest: bit_imp_le_length)
  have "x = (x AND 0xff) XOR push_bit 8 h"
    unfolding and_0xff h_def by (auto intro!: bit_word_eqI simp: bit_simps)
  then have "(crc_bit ^^ 8) x = (crc_bit ^^ 8) (x AND 0xff) XOR (crc_bit ^^ 8) (push_bit 8 h)"
    by (metis crc_bits_xor)
  moreover have "(crc_bit ^^ 8) (push_bit 8 h) = h"
    using crc_bits_push [OF h(2), of 8 8] by (simp del: push_bit_numeral)
  moreover have "unat (x AND 0xff) < 256"
    unfolding and_0xff by (rule unat_take_bit_8)
  then have "FCS_TAB ! unat (x AND 0xff) = (crc_bit ^^ 8) (x AND 0xff)"
    by (simp add: FCS_TAB_nth)
  ultimately show ?thesis
    by (simp add: fcs_step_def crc_byte_def h(1) x_def [symmetric] xor.commute)
qed

lemma frame_checksum_16bit_reference: "frame_checksum_16bit acc bs = crc_reference acc bs"
  by (induction bs arbitrary: acc) (simp_all add: fcs_step_crc_byte)

lemma crc_bit_inject: "crc_bit s = crc_bit t \<longleftrightarrow> s = t"
proof
  assume eq: "crc_bit s = crc_bit t"
  have top: "bit (crc_bit u) 15 = bit u 0" for u
    using bit_imp_le_length [of u 16] by (auto simp: crc_bit_def bit_simps)
  have low: "bit u (Suc n) = (bit (crc_bit u) n \<noteq> (bit u 0 \<and> bit (0x8408 :: u16) n))" for u n
    by (auto simp: crc_bit_def bit_simps)
  have b0: "bit s 0 = bit t 0" using eq top by metis
  show "s = t"
  proof (rule bit_word_eqI)
    fix n assume "n < LENGTH(16)"
    show "bit s n = bit t n"
      using b0 low eq by (cases n) auto
  qed
qed simp

lemma crc_bits_inject: "(crc_bit ^^ n) s = (crc_bit ^^ n) t \<longleftrightarrow> s = t"
  by (induction n) (simp_all add: crc_bit_inject)

lemma crc_byte_inject:
  "crc_byte s b = crc_byte t b \<longleftrightarrow> s = t"
  "crc_byte s b = crc_byte s c \<longleftrightarrow> b = c"
proof -
  show "crc_byte s b = crc_byte t b \<longleftrightarrow> s = t"
    unfolding crc_byte_def crc_bits_inject by (metis xor.assoc xor_self_eq xor.right_neutral)
  show "crc_byte s b = crc_byte s c \<longleftrightarrow> b = c"
  proof
    assume "crc_byte s b = crc_byte s c"
    then have "s XOR ucast b = s XOR ucast c" by (simp add: crc_byte_def crc_bits_inject)
    then have eq: "bit (s XOR ucast b) n = bit (s XOR ucast c) n" for n by simp
    have "bit b n = bit c n" if "n < 8" for n
      using that eq [of n] by (auto simp: bit_simps)
    then show "b = c" by (intro bit_word_eqI) simp
  qed simp
qed

lemma crc_reference_append: "crc_reference s (xs @ ys) = crc_reference (crc_reference s xs) ys"
  by (induction xs arbitrary: s) auto

lemma crc_reference_inject: "crc_reference s xs = crc_reference t xs \<longleftrightarrow> s = t"
  by (induction xs arbitrary: s t) (auto simp: crc_byte_inject)

lemma frame_checksum_single_byte:
  "frame_checksum_16bit s (pre @ b # post) = frame_checksum_16bit s (pre @ c # post) \<longleftrightarrow> b = c"
  by (simp add: frame_checksum_16bit_reference crc_reference_append crc_reference_inject
      crc_byte_inject)

section \<open>Round trip of the frame check sequence\<close>

definition fcs_bytes :: "u16 \<Rightarrow> bytes" where
  "fcs_bytes acc = [ucast ((acc XOR 0xffff) AND 0x00ff), ucast (drop_bit 8 (acc XOR 0xffff))]"

lemma fcs_residue: "frame_checksum_16bit acc (fcs_bytes acc) = GOOD_FINAL_FCS"
proof -
  let ?c = "acc XOR 0xffff"
  have "(acc XOR ucast (ucast (?c AND 0x00ff) :: u8)) AND 0xff = mask 8"
    unfolding and_0xff xor_0xffff by (rule bit_word_eqI) (auto simp: bit_simps)
  then have low: "(acc XOR ucast (ucast (?c AND 0x00ff) :: u8)) AND 0xff = 0xff"
    by (simp add: mask_eq_exp_minus_1)
  have "FCS_TAB ! 255 = 0x0f78"
    by (simp add: FCS_TAB_nth crc8)
  then have s1: "fcs_step acc (ucast (?c AND 0x00ff)) = drop_bit 8 acc XOR 0x0f78"
    unfolding fcs_step_def low by simp
  have "((drop_bit 8 acc XOR k) XOR ucast (ucast (drop_bit 8 ?c) :: u8)) AND 0xff
      = (k XOR 0xff) AND 0xff" for k
    unfolding and_0xff xor_0xffff by (rule bit_word_eqI) (auto simp: bit_simps)
  from this [of "0x0f78"]
  have mid: "((drop_bit 8 acc XOR 0x0f78) XOR ucast (ucast (drop_bit 8 ?c) :: u8)) AND 0xff = 0x87"
    by simp
  have "drop_bit 8 (drop_bit 8 acc XOR k) = drop_bit 8 k" for k
    by (rule bit_word_eqI) (auto simp: bit_simps dest: bit_imp_le_length)
  from this [of "0x0f78"]
  have hi: "drop_bit 8 (drop_bit 8 acc XOR 0x0f78) = (0x0f :: u16)"
    by simp
  have "FCS_TAB ! 135 = 0xf0b7"
    by (simp add: FCS_TAB_nth crc8)
  then have "fcs_step (drop_bit 8 acc XOR 0x0f78) (ucast (drop_bit 8 ?c)) = 0xf0b8"
    unfolding fcs_step_def mid hi by simp
  then show ?thesis
    unfolding fcs_bytes_def frame_checksum_16bit.simps s1 GOOD_FINAL_FCS_def .
qed

section \<open>Escaping\<close>

text \<open>The bytes that one byte contributes to a frame.\<close>

definition escape :: "u8 \<Rightarrow> bytes" where
  "escape b = (if in_sending_accm b then [0x7d, b XOR 0x20] else [b])"

definition escape_all :: "bytes \<Rightarrow> bytes" where
  "escape_all bs = concat (map escape bs)"

lemma push_escaped_eq: "push_escaped out b = out @ escape b"
  by (simp add: push_escaped_def escape_def)

lemma push_all_escaped_eq: "push_all_escaped out bs = out @ escape_all bs"
  by (induction bs arbitrary: out) (simp_all add: push_escaped_eq escape_all_def)

lemma escape_all_simps [simp]:
  "escape_all [] = []"
  "escape_all (b # bs) = escape b @ escape_all bs"
  "escape_all (bs @ cs) = escape_all bs @ escape_all cs"
  by (simp_all add: escape_all_def)

lemma xor_0x20_cancel [simp]: "(b :: u8) XOR 0x20 XOR 0x20 = b" "((b :: u8) XOR 0x20) XOR 0x20 = b"
  by (simp_all add: xor.assoc)

lemma escaped_not_special:
  assumes "in_sending_accm b"
  shows "b XOR 0x20 \<noteq> 0x7e" "b XOR 0x20 \<noteq> 0x7d"
proof -
  have "b = (b XOR 0x20) XOR 0x20" by simp
  moreover have "\<not> in_sending_accm (0x7e XOR 0x20)" "\<not> in_sending_accm (0x7d XOR 0x20)"
    by (simp_all add: in_sending_accm_def)
  ultimately show "b XOR 0x20 \<noteq> 0x7e" "b XOR 0x20 \<noteq> 0x7d" using assms by metis+
qed

lemma sending_accm_special [simp]: "in_sending_accm 0x7e" "in_sending_accm 0x7d"
  by (simp_all add: in_sending_accm_def)

lemma escape_no_flag: "0x7e \<notin> set (escape b)"
  using escaped_not_special [of b] by (auto simp: escape_def)

lemma escape_all_no_flag: "0x7e \<notin> set (escape_all bs)"
  by (induction bs) (auto simp: escape_no_flag)

lemma unescape_escape:
  "unescape_loop packet False (escape b @ rest) = unescape_loop (packet @ [b]) False rest"
  using escaped_not_special [of b]
  by (auto simp: escape_def in_sending_accm_def in_receiving_accm_def)

lemma unescape_escape_all:
  "unescape_loop packet False (escape_all bs) = Some (packet @ bs, False)"
  by (induction bs arbitrary: packet) (simp_all add: unescape_escape)

lemma length_escape: "1 \<le> length (escape b)" "length (escape b) \<le> 2"
  by (simp_all add: escape_def)

lemma length_escape_all: "length bs \<le> length (escape_all bs)" "length (escape_all bs) \<le> 2 * length bs"
proof (induction bs)
  case (Cons b bs)
  { case 1 show ?case using Cons(1) length_escape [of b] by simp }
  { case 2 show ?case using Cons(2) length_escape [of b] by simp }
qed simp_all

section \<open>Frames\<close>

text \<open>What lies between the flags of an encoded frame.\<close>

definition frame_body :: "bytes \<Rightarrow> bytes" where
  "frame_body packet =
     [0xff, 0x7d, 0x23] @
     escape_all (packet @ fcs_bytes (frame_checksum_16bit ADDRESS_CONTROL_CHECKSUM packet))"

lemma hdlc_encode_body:
  "hdlc_encode codec packet =
     (\<lparr>need_flag_sequence = False\<rparr>,
      (if need_flag_sequence codec then [0x7e] else []) @ frame_body packet @ [0x7e])"
  by (simp add: hdlc_encode_def frame_body_def fcs_bytes_def Let_def push_escaped_eq
      push_all_escaped_eq)

lemma frame_body_no_flag: "0x7e \<notin> set (frame_body packet)"
  using escape_all_no_flag by (simp add: frame_body_def)

lemma length_fcs_bytes [simp]: "length (fcs_bytes acc) = 2"
  by (simp add: fcs_bytes_def)

lemma length_frame_body: "5 \<le> length (frame_body packet)"
  using length_escape_all(1) [of "packet @ fcs_bytes (frame_checksum_16bit ADDRESS_CONTROL_CHECKSUM packet)"]
  by (simp add: frame_body_def)

lemma length_frame_body_le: "length (frame_body packet) \<le> 7 + 2 * length packet"
  using length_escape_all(2) [of "packet @ fcs_bytes (frame_checksum_16bit ADDRESS_CONTROL_CHECKSUM packet)"]
  by (simp add: frame_body_def)

lemma frame_checksum_16bit_append:
  "frame_checksum_16bit acc (xs @ ys) = frame_checksum_16bit (frame_checksum_16bit acc xs) ys"
  by (induction xs arbitrary: acc) auto

text \<open>The decoder on an arbitrary escaped sequence behind the address and control fields.\<close>

lemma hdlc_decode_escaped:
  assumes "2 \<le> length packet"
  shows "hdlc_decode ([0xff, 0x7d, 0x23] @ escape_all packet) =
    (if length packet < 3 then Inl HdlcInvalidFrame
     else if frame_checksum_16bit ADDRESS_CONTROL_CHECKSUM packet \<noteq> GOOD_FINAL_FCS
     then Inl HdlcBadChecksum else Inr (take (length packet - 2) packet))"
proof -
  have "\<not> length (escape_all packet) < 2"
    using length_escape_all(1) [of packet] assms by simp
  then show ?thesis
    by (simp add: hdlc_decode_def unescape_escape_all)
qed

lemma hdlc_decode_body:
  "hdlc_decode (frame_body packet) =
     (if packet = [] then Inl HdlcInvalidFrame else Inr packet)"
proof -
  let ?p = "packet @ fcs_bytes (frame_checksum_16bit ADDRESS_CONTROL_CHECKSUM packet)"
  have len: "2 \<le> length ?p" by simp
  have "length ?p < 3 \<longleftrightarrow> packet = []" by (cases packet) auto
  then show ?thesis
    unfolding frame_body_def hdlc_decode_escaped [OF len]
    by (simp add: frame_checksum_16bit_append fcs_residue)
qed

lemma skip_flags_stop: "s \<ge> length buffer \<or> buffer ! s \<noteq> 0x7e \<Longrightarrow> skip_flags buffer s = s"
  by (subst skip_flags.simps) auto

lemma skip_flags_run:
  "skip_flags (pre @ replicate n 0x7e @ rest) (length pre)
     = skip_flags (pre @ replicate n 0x7e @ rest) (length pre + n)"
proof (induction n arbitrary: pre)
  case 0
  then show ?case by simp
next
  case (Suc n)
  have "skip_flags (pre @ replicate (Suc n) 0x7e @ rest) (length pre)
      = skip_flags ((pre @ [0x7e]) @ replicate n 0x7e @ rest) (length (pre @ [0x7e]))"
    by (subst skip_flags.simps) simp
  also have "\<dots> = skip_flags ((pre @ [0x7e]) @ replicate n 0x7e @ rest) (length (pre @ [0x7e]) + n)"
    by (rule Suc.IH)
  finally show ?case by simp
qed

text \<open>A body without flags is found between flags, however many open it.\<close>

lemma find_frame_at:
  assumes "0x7e \<notin> set junk" "0x7e \<notin> set body" "body \<noteq> []" "length pre \<le> start"
    "start \<le> length pre + length junk" "0 < n"
  shows "find_frame (pre @ junk @ replicate n 0x7e @ body @ 0x7e # rest) start
    = Inr (length pre + length junk + n, length body)"
proof -
  let ?buf = "pre @ junk @ replicate n 0x7e @ body @ 0x7e # rest"
  obtain m where n: "n = Suc m" using assms(6) by (cases n) auto
  obtain k where k: "start = length pre + k" "k \<le> length junk"
    using assms(4,5) by (metis le_Suc_ex add_le_cancel_left)
  have "drop start ?buf = drop k junk @ 0x7e # replicate m 0x7e @ body @ 0x7e # rest"
    using k n by simp
  moreover have "0x7e \<notin> set (drop k junk)"
    using assms(1) in_set_dropD by metis
  ultimately have 1: "find_flag ?buf start = Some (length pre + length junk)"
    using k position_append_hit [of "drop k junk" "\<lambda>b. b = 0x7e" "0x7e"]
    by (fastforce simp: find_flag_def)
  have buf: "?buf = (pre @ junk @ [0x7e]) @ replicate m 0x7e @ body @ 0x7e # rest"
    using n by simp
  have at: "?buf ! (length pre + length junk + n) = body ! 0"
    using assms(3) by (simp add: nth_append)
  have "body ! 0 \<noteq> 0x7e"
    using assms(2,3) by (metis length_greater_0_conv nth_mem)
  then have "skip_flags ?buf (length pre + length junk + n) = length pre + length junk + n"
    using at by (intro skip_flags_stop) simp
  then have 2: "skip_flags ?buf (length pre + length junk + 1) = length pre + length junk + n"
    using skip_flags_run [of "pre @ junk @ [0x7e]" m "body @ 0x7e # rest"] buf n
    by (simp add: add.assoc)
  have "drop (length pre + length junk + n) ?buf = body @ 0x7e # rest"
    by (simp add: add.assoc)
  then have 3: "find_flag ?buf (length pre + length junk + n)
      = Some (length pre + length junk + n + length body)"
    using position_append_hit [of body "\<lambda>b. b = 0x7e" "0x7e" rest] assms(2)
    by (fastforce simp: find_flag_def)
  show ?thesis
    unfolding find_frame_def 1 using 2 3 by simp
qed

text \<open>No complete frame: without a flag, or with nothing but one run of flags before a tail.\<close>

lemma find_frame_no_flag:
  "0x7e \<notin> set buffer \<Longrightarrow> find_frame buffer start = Inl HdlcNoFrameFound"
proof -
  assume "0x7e \<notin> set buffer"
  then have "\<forall>b \<in> set (drop start buffer). b \<noteq> 0x7e" by (metis in_set_dropD)
  then have "position (\<lambda>b. b = 0x7e) (drop start buffer) = None"
    unfolding position_None .
  then show ?thesis by (simp add: find_frame_def find_flag_def)
qed

lemma skip_flags_ge: "s \<le> skip_flags buffer s"
proof (induction buffer s rule: skip_flags.induct)
  case (1 buffer s)
  then show ?case by (subst skip_flags.simps) auto
qed

lemma find_flag_Some:
  assumes "find_flag buffer from = Some e"
  shows "from \<le> e" "e < length buffer" "buffer ! e = 0x7e"
    "from \<le> j \<Longrightarrow> j < e \<Longrightarrow> buffer ! j \<noteq> 0x7e"
proof -
  obtain i where i: "position (\<lambda>b. b = 0x7e) (drop from buffer) = Some i" "e = from + i"
    using assms by (auto simp: find_flag_def)
  then have *: "i < length buffer - from" "drop from buffer ! i = 0x7e"
    "\<forall>j < i. drop from buffer ! j \<noteq> 0x7e"
    unfolding position_Some by auto
  then show "from \<le> e" "e < length buffer" "buffer ! e = 0x7e"
    using i by simp_all
  show "buffer ! j \<noteq> 0x7e" if "from \<le> j" "j < e"
    using that i * spec [OF *(3), of "j - from"] by simp
qed

text \<open>
  What \<open>find_frame\<close> promises: the frame lies in the buffer behind a flag, ends in front of a
  flag and has none inside.
\<close>

lemma find_frame_sound:
  assumes "find_frame buffer start = Inr (s, n)"
  shows "start < s" "s + n < length buffer" "buffer ! (s + n) = 0x7e"
    "\<forall>j. s \<le> j \<and> j < s + n \<longrightarrow> buffer ! j \<noteq> 0x7e"
proof -
  obtain i e where i: "find_flag buffer start = Some i" and s: "s = skip_flags buffer (i + 1)"
    and e: "find_flag buffer s = Some e" and n: "n = e - s"
    using assms by (auto simp: find_frame_def Let_def split: option.splits)
  have "s \<le> e" using find_flag_Some [OF e] by simp
  then show "start < s" "s + n < length buffer" "buffer ! (s + n) = 0x7e"
    "\<forall>j. s \<le> j \<and> j < s + n \<longrightarrow> buffer ! j \<noteq> 0x7e"
    using find_flag_Some(1) [OF i] find_flag_Some(2-4) [OF e] skip_flags_ge [of "i + 1" buffer] s n
    by auto
qed

section \<open>Properties\<close>

text \<open>C23. The table-driven frame check sequence is the bitwise CRC with the reversed
  polynomial 0x8408, for every start value and every byte sequence.\<close>

theorem frame_checksum_is_crc: "frame_checksum_16bit acc bs = crc_reference acc bs"
  by (rule frame_checksum_16bit_reference)

text \<open>C1. Framing round trip: a frame that the encoder produces behind flag-free noise and a
  flag is found by \<open>find_frame\<close> at its exact place, and the decoder returns the packet,
  whatever bytes follow and whether or not the encoder wrote an opening flag of its own.\<close>

theorem hdlc_round_trip:
  assumes "packet \<noteq> []" "0x7e \<notin> set noise"
  shows "\<exists>s n. find_frame (noise @ 0x7e # snd (hdlc_encode codec packet) @ rest) 0 = Inr (s, n)
    \<and> hdlc_decode (take n (drop s (noise @ 0x7e # snd (hdlc_encode codec packet) @ rest))) = Inr packet"
proof -
  let ?k = "if need_flag_sequence codec then 2 else 1"
  have buf: "noise @ 0x7e # snd (hdlc_encode codec packet) @ rest
      = [] @ noise @ replicate ?k 0x7e @ frame_body packet @ 0x7e # rest"
    by (simp add: hdlc_encode_body numeral_2_eq_2)
  have "frame_body packet \<noteq> []" using length_frame_body [of packet] by auto
  then have "find_frame ([] @ noise @ replicate ?k 0x7e @ frame_body packet @ 0x7e # rest) 0
      = Inr (length ([] :: bytes) + length noise + ?k, length (frame_body packet))"
    using assms(2) frame_body_no_flag by (intro find_frame_at) auto
  moreover have "take (length (frame_body packet)) (drop (length noise + ?k)
      (noise @ replicate ?k 0x7e @ frame_body packet @ 0x7e # rest)) = frame_body packet"
    by simp
  moreover have "hdlc_decode (frame_body packet) = Inr packet"
    using assms(1) by (simp add: hdlc_decode_body)
  ultimately show ?thesis
    unfolding buf by (intro exI [of _ "length noise + ?k"] exI [of _ "length (frame_body packet)"])
      simp
qed

theorem hdlc_round_trip_witness:
  "\<exists>s n. find_frame ([1, 2] @ 0x7e # snd (hdlc_encode hdlc_new [0x80, 0x21, 0x7e]) @ [9]) 0 = Inr (s, n)
    \<and> hdlc_decode (take n (drop s ([1, 2] @ 0x7e # snd (hdlc_encode hdlc_new [0x80, 0x21, 0x7e]) @ [9])))
      = Inr [0x80, 0x21, 0x7e]"
  by (rule hdlc_round_trip) simp_all

text \<open>C24. Error detection: when any one byte of a packet or of its frame check sequence is
  replaced by another value before escaping, the decoder reports a bad checksum.\<close>

theorem hdlc_detects_byte_error:
  assumes "packet \<noteq> []"
    and "packet @ fcs_bytes (frame_checksum_16bit ADDRESS_CONTROL_CHECKSUM packet) = pre @ b # post"
    and "c \<noteq> b"
  shows "hdlc_decode ([0xff, 0x7d, 0x23] @ escape_all (pre @ c # post)) = Inl HdlcBadChecksum"
proof -
  have len: "length (pre @ c # post) = length packet + 2"
    using arg_cong [OF assms(2), of length] by simp
  have "frame_checksum_16bit ADDRESS_CONTROL_CHECKSUM (pre @ b # post) = GOOD_FINAL_FCS"
    by (simp add: assms(2) [symmetric] frame_checksum_16bit_append fcs_residue)
  then have "frame_checksum_16bit ADDRESS_CONTROL_CHECKSUM (pre @ c # post) \<noteq> GOOD_FINAL_FCS"
    using assms(3) by (metis frame_checksum_single_byte)
  moreover have "\<not> length (pre @ c # post) < 3" "2 \<le> length (pre @ c # post)"
    using len assms(1) by (cases packet, auto)+
  ultimately show ?thesis
    by (simp add: hdlc_decode_escaped del: escape_all_simps append.simps length_append)
qed

theorem hdlc_detects_byte_error_witness:
  "hdlc_decode ([0xff, 0x7d, 0x23] @ escape_all ([] @ 6 #
     fcs_bytes (frame_checksum_16bit ADDRESS_CONTROL_CHECKSUM [5]))) = Inl HdlcBadChecksum"
  by (rule hdlc_detects_byte_error [of "[5]" _ 5]) simp_all

text \<open>Shape and size of an encoded frame: it fits the size the code reserves for it, ends
  with a flag, starts with one exactly when the codec still owes the opening flag, has no
  flag in between, and leaves the codec owing none.\<close>

theorem hdlc_encode_shape:
  "\<exists>body. hdlc_encode codec packet =
       (\<lparr>need_flag_sequence = False\<rparr>,
        (if need_flag_sequence codec then [0x7e] else []) @ body @ [0x7e])
     \<and> 0x7e \<notin> set body
     \<and> length (snd (hdlc_encode codec packet)) \<le> estimated_encoded_size (length packet)"
  using frame_body_no_flag [of packet] length_frame_body_le [of packet]
  by (intro exI [of _ "frame_body packet"]) (simp add: hdlc_encode_body estimated_encoded_size_def)

end
