(* ===== verification/Packet.thy ===== *)
theory Packet
  imports Rust_Str
begin

text \<open>
  PPP packets as they travel through the TLS stream (\<open>src/tunnel/packet.rs\<close>): the six-byte
  header of total length, magic number and payload length, and the inspection of IPCP
  packets.

  Shown here: a frame decodes to a packet exactly when the packet is not empty and encodes
  to that frame; the search for the IP address option never reads out of range and returns
  what a list-structured reading of the options returns.
\<close>

section \<open>Framing\<close>

definition FORTINET_MAGIC :: u16 where
  "FORTINET_MAGIC = 0x5050"

definition HEADER_LEN :: nat where
  "HEADER_LEN = 6"

record ppp_packet =
  packet_data :: bytes

definition ppp_packet_new :: "bytes \<Rightarrow> ppp_packet" where
  "ppp_packet_new d = \<lparr>packet_data = d\<rparr>"

definition encode_for_tls :: "ppp_packet \<Rightarrow> bytes res" where
  "encode_for_tls packet =
     (if length (packet_data packet) > 65535 - HEADER_LEN then Inl HdlcInvalidFrame
      else
        let total = of_nat (HEADER_LEN + length (packet_data packet)) :: u16;
            size = of_nat (length (packet_data packet)) :: u16
        in Inr (u16_to_be_bytes total @ u16_to_be_bytes FORTINET_MAGIC @ u16_to_be_bytes size
             @ packet_data packet))"

definition decode_from_tls_frame :: "bytes \<Rightarrow> ppp_packet res" where
  "decode_from_tls_frame frame =
     (if length frame < HEADER_LEN then Inl HdlcInvalidFrame
      else
        let total = unat (u16_from_be_bytes (frame ! 0) (frame ! 1));
            magic = u16_from_be_bytes (frame ! 2) (frame ! 3);
            size = unat (u16_from_be_bytes (frame ! 4) (frame ! 5))
        in if magic \<noteq> FORTINET_MAGIC \<or> total < HEADER_LEN + 1 \<or> total - HEADER_LEN \<noteq> size
           then Inl HdlcInvalidFrame
           else if length frame \<noteq> total then Inl HdlcInvalidFrame
           else Inr (ppp_packet_new (drop HEADER_LEN frame)))"

section \<open>Inspection of IPCP packets\<close>

definition is_ip_plus_dns :: "ppp_packet \<Rightarrow> bool" where
  "is_ip_plus_dns packet =
     (let p = packet_data packet in
      length p \<ge> 12 \<and> p ! 0 = 0x80 \<and> p ! 1 = 0x21 \<and> p ! 2 = 0x02 \<and> p ! 6 = 0x03)"

definition is_end_negotiation :: "ppp_packet \<Rightarrow> bool" where
  "is_end_negotiation packet =
     (let p = packet_data packet in
      (length p = 6 \<and> p ! 0 = 0x80 \<and> p ! 1 = 0x21 \<and> p ! 2 = 0x01 \<and> p ! 4 = 0x00 \<and> p ! 5 = 0x04)
      \<or> (length p \<ge> 12 \<and> p ! 0 = 0x80 \<and> p ! 1 = 0x21 \<and> p ! 2 = 0x02))"

text \<open>The option loop, with every access checked.\<close>

function ipcp_option_loop :: "bytes \<Rightarrow> nat \<Rightarrow> nat \<Rightarrow> ipv4_addr option exec" where
  "ipcp_option_loop p lim offset =
     (if offset + 2 \<le> lim then
        bind_exec (index p offset) (\<lambda>option_type.
        bind_exec (index p (offset + 1)) (\<lambda>l.
          let option_len = unat l in
          if option_len < 2 \<or> offset + option_len > lim then Return None
          else if option_type = 0x03 \<and> option_len = 6 then
            bind_exec (index p (offset + 2)) (\<lambda>a.
            bind_exec (index p (offset + 3)) (\<lambda>b.
            bind_exec (index p (offset + 4)) (\<lambda>c.
            bind_exec (index p (offset + 5)) (\<lambda>d.
              Return (Some (Ipv4Addr a b c d))))))
          else ipcp_option_loop p lim (offset + option_len)))
      else Return None)"
  by pat_completeness auto
termination
  by (relation "measure (\<lambda>(p, lim, offset). lim - offset)") auto

declare ipcp_option_loop.simps [simp del]

definition ipcp_ipv4_address :: "ppp_packet \<Rightarrow> ipv4_addr option exec" where
  "ipcp_ipv4_address packet =
     (let p = packet_data packet in
      if length p < 10 \<or> p ! 0 \<noteq> 0x80 \<or> p ! 1 \<noteq> 0x21 then Return None
      else
        let len = unat (u16_from_be_bytes (p ! 4) (p ! 5)) in
        if len < 4 \<or> length p < 2 + len then Return None
        else ipcp_option_loop p (2 + len) 6)"

section \<open>Framing is a bijection on its domain\<close>

lemma length_encode_for_tls:
  "encode_for_tls packet = Inr frame \<Longrightarrow> length frame = HEADER_LEN + length (packet_data packet)"
  by (auto simp: encode_for_tls_def HEADER_LEN_def Let_def split: if_splits)

lemma encode_for_tls_ok:
  "is_ok (encode_for_tls packet) \<longleftrightarrow> length (packet_data packet) \<le> 65529"
  by (auto simp: encode_for_tls_def HEADER_LEN_def Let_def)

text \<open>The six bytes of the header of a frame for \<open>n\<close> bytes of payload.\<close>

definition tls_header :: "nat \<Rightarrow> bytes" where
  "tls_header n =
     u16_to_be_bytes (of_nat (HEADER_LEN + n)) @ u16_to_be_bytes FORTINET_MAGIC
       @ u16_to_be_bytes (of_nat n)"

lemma length_tls_header [simp]: "length (tls_header n) = 6"
  by (simp add: tls_header_def)

lemma encode_for_tls_header:
  "encode_for_tls packet = Inr frame \<longleftrightarrow>
     length (packet_data packet) \<le> 65529
     \<and> frame = tls_header (length (packet_data packet)) @ packet_data packet"
  by (auto simp: encode_for_tls_def tls_header_def HEADER_LEN_def Let_def)

lemma decode_header:
  assumes "1 \<le> n" "n \<le> 65529"
  shows "decode_from_tls_frame (tls_header n @ d) =
    (if length d = n then Inr (ppp_packet_new d) else Inl HdlcInvalidFrame)"
proof -
  have u: "unat (of_nat (6 + n) :: u16) = 6 + n" "unat (of_nat n :: u16) = n"
    using assms by (intro unat_u16_of_nat; simp)+
  show ?thesis
    using assms u unfolding decode_from_tls_frame_def tls_header_def HEADER_LEN_def Let_def
    by (simp add: u16_to_be_bytes_def codec_simps)
qed

lemma of_nat_unat_id: "of_nat (unat w) = (w :: 'a::len word)"
  by simp

lemma unat_u8_eq_iff: "n < 256 \<Longrightarrow> unat (w :: u8) = n \<longleftrightarrow> w = of_nat n"
  by (auto simp: unat_of_nat take_bit_nat_eq_self)

lemma bytes6:
  assumes "length (xs :: bytes) \<ge> 6"
  obtains a b c d e f ys where "xs = a # b # c # d # e # f # ys"
proof -
  have "Suc (Suc (Suc (Suc (Suc (Suc 0))))) \<le> length xs" using assms by simp
  then show ?thesis using that by (auto simp: Suc_le_length_iff)
qed

lemma decode_from_tls_frame_header:
  assumes "decode_from_tls_frame frame = Inr packet"
  shows "frame = tls_header (length (packet_data packet)) @ packet_data packet"
    and "1 \<le> length (packet_data packet)" "length (packet_data packet) \<le> 65529"
proof -
  have "length frame \<ge> 6"
    using assms by (auto simp: decode_from_tls_frame_def HEADER_LEN_def split: if_splits)
  then obtain a b c d e f ys where frame: "frame = a # b # c # d # e # f # ys"
    by (rule bytes6)
  have *: "u16_from_be_bytes c d = FORTINET_MAGIC" "unat (u16_from_be_bytes a b) = 6 + length ys"
    "unat (u16_from_be_bytes e f) = length ys" "packet = ppp_packet_new ys" "1 \<le> length ys"
    using assms
    by (auto simp: frame decode_from_tls_frame_def HEADER_LEN_def Let_def split: if_splits)
  then show "1 \<le> length (packet_data packet)" "length (packet_data packet) \<le> 65529"
    using unat_u16_less [of "u16_from_be_bytes a b"] by (simp_all add: ppp_packet_new_def)
  have "u16_to_be_bytes (of_nat (6 + length ys)) = [a, b]"
    by (metis *(2) u16_to_from_be_bytes of_nat_unat_id)
  moreover have "u16_to_be_bytes (of_nat (length ys)) = [e, f]"
    by (metis *(3) u16_to_from_be_bytes of_nat_unat_id)
  moreover have "u16_to_be_bytes FORTINET_MAGIC = [c, d]"
    by (metis *(1) u16_to_from_be_bytes)
  ultimately show "frame = tls_header (length (packet_data packet)) @ packet_data packet"
    using *(4) by (simp add: frame tls_header_def HEADER_LEN_def ppp_packet_new_def)
qed

text \<open>C7. The codec of the TLS stream is exact: a frame decodes to a packet if and only if
  the packet is not empty and encodes to that frame. So every packet of 1 to 65529 bytes
  survives the trip, no two frames decode to one packet, and the empty packet, which the
  encoder accepts, is the only encodable packet the decoder refuses.\<close>

theorem decode_iff_encode:
  "decode_from_tls_frame frame = Inr packet \<longleftrightarrow>
     encode_for_tls packet = Inr frame \<and> packet_data packet \<noteq> []"
proof
  assume "decode_from_tls_frame frame = Inr packet"
  from decode_from_tls_frame_header [OF this]
  show "encode_for_tls packet = Inr frame \<and> packet_data packet \<noteq> []"
    by (auto simp: encode_for_tls_header)
next
  assume "encode_for_tls packet = Inr frame \<and> packet_data packet \<noteq> []"
  then have "length (packet_data packet) \<le> 65529" "1 \<le> length (packet_data packet)"
    and "frame = tls_header (length (packet_data packet)) @ packet_data packet"
    by (auto simp: encode_for_tls_header Suc_le_eq)
  then show "decode_from_tls_frame frame = Inr packet"
    by (simp add: decode_header ppp_packet_new_def)
qed

section \<open>The option search against a reading by list structure\<close>

fun first_ip_option :: "bytes \<Rightarrow> ipv4_addr option" where
  "first_ip_option (t # l # rest) =
     (if unat l < 2 \<or> unat l - 2 > length rest then None
      else if t = 3 \<and> l = 6
      then Some (Ipv4Addr (rest ! 0) (rest ! 1) (rest ! 2) (rest ! 3))
      else first_ip_option (drop (unat l - 2) rest))"
| "first_ip_option _ = None"

lemma drop_offset2: "offset + 2 \<le> length p \<Longrightarrow> drop offset p = p ! offset # p ! (offset + 1) # drop (offset + 2) p"
  by (metis Cons_nth_drop_Suc add_2_eq_Suc' add.commute Suc_eq_plus1 le_eq_less_or_eq lessI less_trans_Suc less_le_trans)

lemma ipcp_option_loop_spec:
  "lim \<le> length p \<Longrightarrow>
   ipcp_option_loop p lim offset = Return (first_ip_option (drop offset (take lim p)))"
proof (induction p lim offset rule: ipcp_option_loop.induct)
  case (1 p lim offset)
  show ?case
  proof (cases "offset + 2 \<le> lim")
    case False
    then have "length (drop offset (take lim p)) < 2" by simp
    then have "first_ip_option (drop offset (take lim p)) = None"
      by (cases "drop offset (take lim p)" rule: first_ip_option.cases) auto
    with False show ?thesis by (subst ipcp_option_loop.simps) simp
  next
    case True
    let ?q = "take lim p"
    let ?n = "unat (p ! (offset + 1))"
    have q: "drop offset ?q = p ! offset # p ! (offset + 1) # drop (offset + 2) ?q"
      using drop_offset2 [of offset ?q] True "1.prems" by simp
    have six: "?n = 6 \<longleftrightarrow> p ! (offset + 1) = 6"
      using unat_u8_eq_iff [of 6 "p ! (offset + 1)"] by simp
    have idx: "index p i = Return (p ! i)" if "i < lim" for i
      using that "1.prems" by (simp add: index_def)
    have len: "length (drop (offset + 2) ?q) = lim - (offset + 2)"
      using "1.prems" by simp
    consider "?n < 2 \<or> offset + ?n > lim"
      | "\<not> (?n < 2 \<or> offset + ?n > lim)" "p ! offset = 3" "?n = 6"
      | "\<not> (?n < 2 \<or> offset + ?n > lim)" "\<not> (p ! offset = 3 \<and> ?n = 6)"
      by blast
    then show ?thesis
    proof cases
      case 1
      then have "?n < 2 \<or> ?n - 2 > lim - (offset + 2)" using True by linarith
      with 1 True show ?thesis
        by (subst ipcp_option_loop.simps) (auto simp: q idx len)
    next
      case 2
      have w: "p ! Suc offset = 6" using 2 six by simp
      have at: "drop (offset + 2) ?q ! i = p ! (offset + 2 + i)" if "i < 4" for i
        using that 2 "1.prems" by simp
      have "first_ip_option (drop offset ?q)
          = Some (Ipv4Addr (p ! (offset + 2)) (p ! (offset + 3)) (p ! (offset + 4)) (p ! (offset + 5)))"
        using 2 len at [of 0] at [of 1] at [of 2] at [of 3]
        by (simp add: q w eval_nat_numeral add.commute)
      then show ?thesis using 2 True
        by (subst ipcp_option_loop.simps) (simp add: idx w)
    next
      case 3
      have n: "\<not> ?n < 2" "\<not> ?n - 2 > length (drop (offset + 2) ?q)"
        "?n - 2 + (offset + 2) = offset + ?n"
        unfolding len using 3 True by linarith+
      have nsix: "\<not> (p ! offset = 3 \<and> p ! (offset + 1) = 6)" using 3(2) six by blast
      have "first_ip_option (drop offset ?q) = first_ip_option (drop (?n - 2) (drop (offset + 2) ?q))"
        unfolding q first_ip_option.simps(1) using n(1,2) nsix by (simp only: if_False simp_thms)
      also have "\<dots> = first_ip_option (drop (offset + ?n) ?q)"
        unfolding drop_drop n(3) ..
      finally have spec: "first_ip_option (drop offset ?q) = first_ip_option (drop (offset + ?n) ?q)" .
      have "ipcp_option_loop p lim (offset + ?n) = Return (first_ip_option (drop (offset + ?n) ?q))"
        using "1.IH" [of "p ! offset" "p ! (offset + 1)"] 3 True "1.prems" by (simp add: idx)
      then show ?thesis
        unfolding spec using 3 True
        by (subst ipcp_option_loop.simps) (auto simp: idx Let_def)
    qed
  qed
qed

text \<open>The options of an IPCP packet as bytes, and the first IP address among them.\<close>

definition option_bytes :: "u8 \<times> bytes \<Rightarrow> bytes" where
  "option_bytes opt = fst opt # of_nat (2 + length (snd opt)) # snd opt"

definition is_ip_option :: "u8 \<times> bytes \<Rightarrow> bool" where
  "is_ip_option opt \<longleftrightarrow> fst opt = 3 \<and> length (snd opt) = 4"

fun ipv4_of_bytes :: "bytes \<Rightarrow> ipv4_addr option" where
  "ipv4_of_bytes [a, b, c, d] = Some (Ipv4Addr a b c d)"
| "ipv4_of_bytes _ = None"

lemma ipv4_of_bytes_octets [simp]: "ipv4_of_bytes (octets a) = Some a"
  by (cases a) simp

lemma ipv4_of_bytes_nth:
  "length v = 4 \<Longrightarrow> ipv4_of_bytes v = Some (Ipv4Addr (v ! 0) (v ! 1) (v ! 2) (v ! 3))"
  by (cases v rule: ipv4_of_bytes.cases) auto

lemma unat_option_len: "n \<le> 253 \<Longrightarrow> unat (of_nat (2 + n) :: u8) = 2 + n"
  using unat_u8_eq_iff [of "2 + n" "of_nat (2 + n)"] by simp

lemma first_ip_option_append:
  assumes "length (snd opt) \<le> 253"
  shows "first_ip_option (option_bytes opt @ rest) =
    (if is_ip_option opt then ipv4_of_bytes (snd opt) else first_ip_option rest)"
proof -
  have u: "unat (of_nat (2 + length (snd opt)) :: u8) = 2 + length (snd opt)"
    using assms by (rule unat_option_len)
  then have "(of_nat (2 + length (snd opt)) :: u8) = 6 \<longleftrightarrow> length (snd opt) = 4"
    by (auto dest: arg_cong [where f = unat])
  with u show ?thesis
    by (simp add: option_bytes_def is_ip_option_def ipv4_of_bytes_nth nth_append del: of_nat_add)
qed

lemma first_ip_option_options:
  "\<forall>opt \<in> set opts. length (snd opt) \<le> 253 \<Longrightarrow>
   first_ip_option (concat (map option_bytes opts)) =
     (case filter is_ip_option opts of [] \<Rightarrow> None | opt # _ \<Rightarrow> ipv4_of_bytes (snd opt))"
  by (induction opts) (simp_all add: first_ip_option_append)

lemma take_drop_payload: "drop 6 (take (Suc (Suc n)) p) = take (n - 4) (drop 6 p)"
  by (simp add: drop_take)

lemma ipcp_ipv4_address_returns: "\<exists>found. ipcp_ipv4_address packet = Return found"
  by (simp add: ipcp_ipv4_address_def Let_def ipcp_option_loop_spec)

text \<open>Reading the address of an IPCP packet never accesses a byte out of range, whatever
  the packet holds, and it returns the first well-formed IP address option inside the
  length that the packet announces.\<close>

theorem ipcp_ipv4_address_total:
  "ipcp_ipv4_address packet =
     Return (let p = packet_data packet; n = unat (u16_from_be_bytes (p ! 4) (p ! 5)) in
       if 10 \<le> length p \<and> take 2 p = [0x80, 0x21] \<and> 4 \<le> n \<and> 2 + n \<le> length p
       then first_ip_option (take (n - 4) (drop 6 p)) else None)"
proof -
  let ?p = "packet_data packet"
  have "take 2 ?p = [?p ! 0, ?p ! 1]" if "10 \<le> length ?p"
    using that by (cases ?p; cases "tl ?p") (auto simp: numeral_2_eq_2)
  then show ?thesis
    by (auto simp: ipcp_ipv4_address_def Let_def ipcp_option_loop_spec take_drop_payload)
qed

end
