(* ===== verification/Ppp_Engine.thy ===== *)
theory Ppp_Engine
  imports Packet
begin

text \<open>
  The user-space PPP state machine of proxy mode (\<open>src/tunnel/ppp_engine.rs\<close>): LCP and IPCP
  negotiation, the queue of packets to send, and the events handed to the caller.

  The state is the record \<open>ppp_engine\<close>; a method that takes \<open>&mut self\<close> returns the new
  state. Handlers that index into a packet run in \<open>exec\<close>, so that a read out of range
  would be the value \<open>Panic\<close>. Shown here: handlers never panic; the invariants of the
  reachable states; when the events \<open>Up\<close> and \<open>Down\<close> are reported; that replies carry the
  peer's identifier and options; and that the nominal negotiation opens the link.
\<close>

section \<open>Constants and data\<close>

definition PROTOCOL_IPV4 :: u16 where "PROTOCOL_IPV4 = 0x0021"
definition PROTOCOL_LCP :: u16 where "PROTOCOL_LCP = 0xc021"
definition PROTOCOL_IPCP :: u16 where "PROTOCOL_IPCP = 0x8021"

definition CODE_CONFIGURE_REQUEST :: u8 where "CODE_CONFIGURE_REQUEST = 1"
definition CODE_CONFIGURE_ACK :: u8 where "CODE_CONFIGURE_ACK = 2"
definition CODE_CONFIGURE_NAK :: u8 where "CODE_CONFIGURE_NAK = 3"
definition CODE_CONFIGURE_REJECT :: u8 where "CODE_CONFIGURE_REJECT = 4"
definition CODE_TERMINATE_REQUEST :: u8 where "CODE_TERMINATE_REQUEST = 5"
definition CODE_TERMINATE_ACK :: u8 where "CODE_TERMINATE_ACK = 6"
definition CODE_CODE_REJECT :: u8 where "CODE_CODE_REJECT = 7"
definition CODE_PROTOCOL_REJECT :: u8 where "CODE_PROTOCOL_REJECT = 8"
definition CODE_ECHO_REQUEST :: u8 where "CODE_ECHO_REQUEST = 9"
definition CODE_ECHO_REPLY :: u8 where "CODE_ECHO_REPLY = 10"

definition LCP_OPTION_MRU :: u8 where "LCP_OPTION_MRU = 1"
definition LCP_DEFAULT_MRU :: u16 where "LCP_DEFAULT_MRU = 1354"
definition IPCP_OPTION_IP_ADDRESS :: u8 where "IPCP_OPTION_IP_ADDRESS = 3"
definition PPP_CONTROL_HEADER_LEN :: nat where "PPP_CONTROL_HEADER_LEN = 4"

lemmas protocol_defs = PROTOCOL_IPV4_def PROTOCOL_LCP_def PROTOCOL_IPCP_def

lemmas code_defs =
  CODE_CONFIGURE_REQUEST_def CODE_CONFIGURE_ACK_def CODE_CONFIGURE_NAK_def
  CODE_CONFIGURE_REJECT_def CODE_TERMINATE_REQUEST_def CODE_TERMINATE_ACK_def
  CODE_CODE_REJECT_def CODE_PROTOCOL_REJECT_def CODE_ECHO_REQUEST_def CODE_ECHO_REPLY_def

datatype ppp_event =
    Up (up_local_ip: ipv4_addr) (up_peer_ip: "ipv4_addr option") (up_dns_servers: "ipv4_addr list")
  | Ipv4Packet bytes
  | Down

datatype link_state = Initial | LcpRequestSent | LcpOpened | IpcpRequestSent | Opened | Closed

record ppp_engine =
  state :: link_state
  next_identifier :: u8
  lcp_identifier :: "u8 option"
  ipcp_identifier :: "u8 option"
  requested_ip :: ipv4_addr
  local_ip :: "ipv4_addr option"
  peer_ip :: "ipv4_addr option"
  outgoing :: "ppp_packet list"

definition ppp_engine_new :: ppp_engine where
  "ppp_engine_new =
     \<lparr>state = Initial, next_identifier = 1, lcp_identifier = None, ipcp_identifier = None,
      requested_ip = ipv4_unspecified, local_ip = None, peer_ip = None, outgoing = []\<rparr>"

record control_packet =
  ctl_code :: u8
  ctl_identifier :: u8
  ctl_options :: bytes

section \<open>Sending\<close>

definition take_identifier :: "ppp_engine \<Rightarrow> u8 \<times> ppp_engine" where
  "take_identifier eng =
     (let id = next_identifier eng;
          eng = eng\<lparr>next_identifier := next_identifier eng + 1\<rparr>;
          eng = (if next_identifier eng = 0 then eng\<lparr>next_identifier := 1\<rparr> else eng)
      in (id, eng))"

definition queue_control :: "u16 \<Rightarrow> u8 \<Rightarrow> u8 \<Rightarrow> bytes \<Rightarrow> ppp_engine \<Rightarrow> ppp_engine" where
  "queue_control protocol op_code identifier payload eng =
     (let len = of_nat (PPP_CONTROL_HEADER_LEN + length payload) :: u16;
          d = u16_to_be_bytes protocol @ [op_code] @ [identifier] @ u16_to_be_bytes len @ payload
      in eng\<lparr>outgoing := outgoing eng @ [ppp_packet_new d]\<rparr>)"

definition queue_protocol_reject :: "u16 \<Rightarrow> bytes \<Rightarrow> ppp_engine \<Rightarrow> ppp_engine" where
  "queue_protocol_reject protocol payload eng =
     (let (identifier, eng) = take_identifier eng;
          rejected = u16_to_be_bytes protocol @ payload
      in queue_control PROTOCOL_LCP CODE_PROTOCOL_REJECT identifier rejected eng)"

definition send_lcp_configure_request :: "ppp_engine \<Rightarrow> ppp_engine" where
  "send_lcp_configure_request eng =
     (let (identifier, eng) = take_identifier eng;
          eng = eng\<lparr>lcp_identifier := Some identifier\<rparr>;
          options = [LCP_OPTION_MRU, 4] @ u16_to_be_bytes LCP_DEFAULT_MRU
      in queue_control PROTOCOL_LCP CODE_CONFIGURE_REQUEST identifier options eng)"

definition send_ipcp_configure_request :: "ppp_engine \<Rightarrow> ppp_engine" where
  "send_ipcp_configure_request eng =
     (let (identifier, eng) = take_identifier eng;
          eng = eng\<lparr>ipcp_identifier := Some identifier\<rparr>;
          options = [IPCP_OPTION_IP_ADDRESS, 6] @ octets (requested_ip eng)
      in queue_control PROTOCOL_IPCP CODE_CONFIGURE_REQUEST identifier options eng)"

section \<open>Parsing\<close>

definition parse_control_packet :: "bytes \<Rightarrow> control_packet res" where
  "parse_control_packet payload =
     (if length payload < PPP_CONTROL_HEADER_LEN then Inl HdlcInvalidFrame
      else
        let len = unat (u16_from_be_bytes (payload ! 2) (payload ! 3)) in
        if len < PPP_CONTROL_HEADER_LEN \<or> length payload < len then Inl HdlcInvalidFrame
        else Inr \<lparr>ctl_code = payload ! 0, ctl_identifier = payload ! 1,
                   ctl_options = drop PPP_CONTROL_HEADER_LEN (take len payload)\<rparr>)"

function ip_address_loop :: "bytes \<Rightarrow> nat \<Rightarrow> ipv4_addr option exec" where
  "ip_address_loop options offset =
     (if offset + 2 \<le> length options then
        bind_exec (index options offset) (\<lambda>option_type.
        bind_exec (index options (offset + 1)) (\<lambda>l.
          let option_len = unat l in
          if option_len < 2 \<or> offset + option_len > length options then Return None
          else if option_type = IPCP_OPTION_IP_ADDRESS \<and> option_len = 6 then
            bind_exec (index options (offset + 2)) (\<lambda>a.
            bind_exec (index options (offset + 3)) (\<lambda>b.
            bind_exec (index options (offset + 4)) (\<lambda>c.
            bind_exec (index options (offset + 5)) (\<lambda>d.
              Return (Some (Ipv4Addr a b c d))))))
          else ip_address_loop options (offset + option_len)))
      else Return None)"
  by pat_completeness auto
termination
  by (relation "measure (\<lambda>(options, offset). length options - offset)") auto

declare ip_address_loop.simps [simp del]

definition parse_ipcp_ip_address :: "bytes \<Rightarrow> ipv4_addr option exec" where
  "parse_ipcp_ip_address options = ip_address_loop options 0"

definition ppp_protocol :: "bytes \<Rightarrow> u16 res" where
  "ppp_protocol d =
     (if length d < 2 then Inl HdlcInvalidFrame else Inr (u16_from_be_bytes (d ! 0) (d ! 1)))"

section \<open>Handlers\<close>

definition handle_lcp :: "bytes \<Rightarrow> ppp_engine \<Rightarrow> ppp_engine \<times> ppp_event list res" where
  "handle_lcp payload eng =
     (case parse_control_packet payload of
        Inl e \<Rightarrow> (eng, Inl e)
      | Inr packet \<Rightarrow>
          if ctl_code packet = CODE_CONFIGURE_REQUEST then
            let eng = queue_control PROTOCOL_LCP CODE_CONFIGURE_ACK (ctl_identifier packet)
                        (ctl_options packet) eng;
                eng = (if state eng = Initial
                       then (send_lcp_configure_request eng)\<lparr>state := LcpRequestSent\<rparr> else eng)
            in (eng, Inr [])
          else if ctl_code packet = CODE_CONFIGURE_ACK
               \<and> Some (ctl_identifier packet) = lcp_identifier eng then
            let eng = (if state eng = LcpRequestSent \<or> state eng = Initial
                       then (send_ipcp_configure_request (eng\<lparr>state := LcpOpened\<rparr>))
                              \<lparr>state := IpcpRequestSent\<rparr>
                       else eng)
            in (eng, Inr [])
          else if (ctl_code packet = CODE_CONFIGURE_NAK \<or> ctl_code packet = CODE_CONFIGURE_REJECT)
               \<and> Some (ctl_identifier packet) = lcp_identifier eng then
            (send_lcp_configure_request eng, Inr [])
          else if ctl_code packet = CODE_ECHO_REQUEST then
            let reply = u32_to_be_bytes 0;
                reply = (if length (ctl_options packet) > 4
                         then reply @ drop 4 (ctl_options packet) else reply)
            in (queue_control PROTOCOL_LCP CODE_ECHO_REPLY (ctl_identifier packet) reply eng, Inr [])
          else if ctl_code packet = CODE_TERMINATE_REQUEST then
            let eng = queue_control PROTOCOL_LCP CODE_TERMINATE_ACK (ctl_identifier packet)
                        (ctl_options packet) eng
            in (eng\<lparr>state := Closed\<rparr>, Inr [Down])
          else if ctl_code packet = CODE_CODE_REJECT \<or> ctl_code packet = CODE_PROTOCOL_REJECT
               \<or> ctl_code packet = CODE_ECHO_REPLY \<or> ctl_code packet = CODE_TERMINATE_ACK then
            (eng, Inr [])
          else
            (queue_control PROTOCOL_LCP CODE_CODE_REJECT (ctl_identifier packet) payload eng, Inr []))"

definition handle_ipcp :: "bytes \<Rightarrow> ppp_engine \<Rightarrow> (ppp_engine \<times> ppp_event list res) exec" where
  "handle_ipcp payload eng =
     (case parse_control_packet payload of
        Inl e \<Rightarrow> Return (eng, Inl e)
      | Inr packet \<Rightarrow>
          if ctl_code packet = CODE_CONFIGURE_REQUEST then
            bind_exec (parse_ipcp_ip_address (ctl_options packet)) (\<lambda>ip.
              let eng = eng\<lparr>peer_ip := ip\<rparr>;
                  eng = queue_control PROTOCOL_IPCP CODE_CONFIGURE_ACK (ctl_identifier packet)
                          (ctl_options packet) eng
              in Return (eng, Inr []))
          else if ctl_code packet = CODE_CONFIGURE_ACK
               \<and> Some (ctl_identifier packet) = ipcp_identifier eng then
            bind_exec (parse_ipcp_ip_address (ctl_options packet)) (\<lambda>ip.
              let acknowledged_ip = (case ip of Some a \<Rightarrow> a | None \<Rightarrow> requested_ip eng) in
              if acknowledged_ip \<noteq> ipv4_unspecified then
                let eng = eng\<lparr>local_ip := Some acknowledged_ip, state := Opened\<rparr>
                in Return (eng, Inr [Up acknowledged_ip (peer_ip eng) []])
              else Return (send_ipcp_configure_request eng, Inr []))
          else if ctl_code packet = CODE_CONFIGURE_NAK
               \<and> Some (ctl_identifier packet) = ipcp_identifier eng then
            bind_exec (parse_ipcp_ip_address (ctl_options packet)) (\<lambda>ip.
              let eng = (case ip of Some a \<Rightarrow> eng\<lparr>requested_ip := a\<rparr> | None \<Rightarrow> eng)
              in Return (send_ipcp_configure_request eng, Inr []))
          else if ctl_code packet = CODE_CONFIGURE_REJECT
               \<and> Some (ctl_identifier packet) = ipcp_identifier eng then
            Return (send_ipcp_configure_request (eng\<lparr>requested_ip := ipv4_unspecified\<rparr>), Inr [])
          else if ctl_code packet = CODE_TERMINATE_REQUEST then
            let eng = queue_control PROTOCOL_IPCP CODE_TERMINATE_ACK (ctl_identifier packet)
                        (ctl_options packet) eng
            in Return (eng\<lparr>state := Closed\<rparr>, Inr [Down])
          else if ctl_code packet = CODE_CODE_REJECT \<or> ctl_code packet = CODE_TERMINATE_ACK then
            Return (eng, Inr [])
          else
            Return (queue_control PROTOCOL_IPCP CODE_CODE_REJECT (ctl_identifier packet) payload eng,
              Inr []))"

section \<open>Public methods\<close>

definition start :: "ppp_engine \<Rightarrow> ppp_engine" where
  "start eng =
     (if state eng \<noteq> Initial then eng
      else (send_lcp_configure_request eng)\<lparr>state := LcpRequestSent\<rparr>)"

definition handle_incoming ::
  "ppp_packet \<Rightarrow> ppp_engine \<Rightarrow> (ppp_engine \<times> ppp_event list res) exec" where
  "handle_incoming packet eng =
     (case ppp_protocol (packet_data packet) of
        Inl e \<Rightarrow> Return (eng, Inl e)
      | Inr protocol \<Rightarrow>
          if protocol = PROTOCOL_IPV4 then Return (eng, Inr [Ipv4Packet (drop 2 (packet_data packet))])
          else if protocol = PROTOCOL_LCP then Return (handle_lcp (drop 2 (packet_data packet)) eng)
          else if protocol = PROTOCOL_IPCP then handle_ipcp (drop 2 (packet_data packet)) eng
          else Return (queue_protocol_reject protocol (drop 2 (packet_data packet)) eng, Inr []))"

definition next_outgoing :: "ppp_engine \<Rightarrow> ppp_packet option \<times> ppp_engine" where
  "next_outgoing eng =
     (case outgoing eng of [] \<Rightarrow> (None, eng) | p # ps \<Rightarrow> (Some p, eng\<lparr>outgoing := ps\<rparr>))"

definition drain_outgoing :: "ppp_engine \<Rightarrow> ppp_packet list \<times> ppp_engine" where
  "drain_outgoing eng = (outgoing eng, eng\<lparr>outgoing := []\<rparr>)"

definition is_open :: "ppp_engine \<Rightarrow> bool" where
  "is_open eng \<longleftrightarrow> state eng = Opened"

definition encode_ipv4_packet :: "bytes \<Rightarrow> ppp_packet res" where
  "encode_ipv4_packet packet =
     (if packet = [] \<or> drop_bit 4 (packet ! 0) \<noteq> 4
      then Inl (Pppd ''proxy PPP engine can only send IPv4 packets'')
      else Inr (ppp_packet_new (u16_to_be_bytes PROTOCOL_IPV4 @ packet)))"

section \<open>Parsing never panics\<close>

lemma ip_address_loop_eq: "ip_address_loop options offset = ipcp_option_loop options (length options) offset"
proof (induction options offset rule: ip_address_loop.induct)
  case (1 options offset)
  show ?case
    using 1
    by (subst ip_address_loop.simps, subst ipcp_option_loop.simps)
      (auto simp: IPCP_OPTION_IP_ADDRESS_def Let_def intro!: bind_exec_cong)
qed

lemma parse_ipcp_ip_address_total [simp]:
  "parse_ipcp_ip_address options = Return (first_ip_option options)"
  by (simp add: parse_ipcp_ip_address_def ip_address_loop_eq ipcp_option_loop_spec)

lemma ppp_protocol_cases:
  obtains e where "ppp_protocol d = Inl e" | w where "ppp_protocol d = Inr w"
  by (cases "ppp_protocol d") auto

lemma handle_ipcp_total: "\<exists>eng' r. handle_ipcp payload eng = Return (eng', r)"
  by (simp add: handle_ipcp_def Let_def split: sum.split)

lemma handle_incoming_total: "\<exists>eng' r. handle_incoming packet eng = Return (eng', r)"
  using handle_ipcp_total [of "drop 2 (packet_data packet)" eng]
  by (auto simp: handle_incoming_def split: sum.split)

section \<open>Control packets on the wire\<close>

definition control_bytes :: "u8 \<Rightarrow> u8 \<Rightarrow> bytes \<Rightarrow> bytes" where
  "control_bytes c i options = [c, i] @ u16_to_be_bytes (of_nat (4 + length options)) @ options"

lemma queue_control_eq:
  "queue_control protocol c i options eng =
     eng\<lparr>outgoing := outgoing eng @ [ppp_packet_new (u16_to_be_bytes protocol @ control_bytes c i options)]\<rparr>"
  by (simp add: queue_control_def control_bytes_def PPP_CONTROL_HEADER_LEN_def Let_def)

lemma parse_control_bytes:
  assumes "length options \<le> 65531"
  shows "parse_control_packet (control_bytes c i options @ junk) =
    Inr \<lparr>ctl_code = c, ctl_identifier = i, ctl_options = options\<rparr>"
proof -
  have "unat (of_nat (4 + length options) :: u16) = 4 + length options"
    using assms by (intro unat_u16_of_nat) simp
  then show ?thesis
    by (simp add: parse_control_packet_def control_bytes_def PPP_CONTROL_HEADER_LEN_def
        u16_to_be_bytes_def codec_simps Let_def drop_take del: of_nat_add)
qed

lemma parse_control_packet_sound:
  assumes "parse_control_packet payload = Inr packet"
  shows "\<exists>junk. payload = control_bytes (ctl_code packet) (ctl_identifier packet) (ctl_options packet) @ junk"
    and "length (ctl_options packet) \<le> 65531"
proof -
  have len: "4 \<le> length payload"
    using assms by (auto simp: parse_control_packet_def PPP_CONTROL_HEADER_LEN_def split: if_splits)
  then have "Suc (Suc (Suc (Suc 0))) \<le> length payload" by simp
  then obtain a b c d ys where p: "payload = a # b # c # d # ys"
    by (auto simp: Suc_le_length_iff)
  let ?n = "unat (u16_from_be_bytes c d)"
  have *: "4 \<le> ?n" "?n - 4 \<le> length ys" "packet = \<lparr>ctl_code = a, ctl_identifier = b, ctl_options = take (?n - 4) ys\<rparr>"
    using assms
    by (auto simp: p parse_control_packet_def PPP_CONTROL_HEADER_LEN_def Let_def drop_take
        split: if_splits)
  then have "4 + length (ctl_options packet) = ?n" by simp
  then have "u16_to_be_bytes (of_nat (4 + length (ctl_options packet))) = [c, d]"
    by (simp only: of_nat_unat_id u16_to_from_be_bytes)
  then show "\<exists>junk. payload = control_bytes (ctl_code packet) (ctl_identifier packet) (ctl_options packet) @ junk"
    using *(3) by (intro exI [of _ "drop (?n - 4) ys"]) (simp add: control_bytes_def p)
  show "length (ctl_options packet) \<le> 65531"
    using * unat_u16_less [of "u16_from_be_bytes c d"] by simp
qed

lemma ppp_protocol_be [simp]: "ppp_protocol (u16_to_be_bytes w @ d) = Inr w"
  by (simp add: ppp_protocol_def u16_to_be_bytes_def codec_simps)

section \<open>Effect of the senders\<close>

lemma take_identifier_eq:
  "take_identifier eng =
     (next_identifier eng,
      eng\<lparr>next_identifier := (if next_identifier eng + 1 = 0 then 1 else next_identifier eng + 1)\<rparr>)"
  by (simp add: take_identifier_def Let_def)

lemmas sender_defs =
  send_lcp_configure_request_def send_ipcp_configure_request_def queue_protocol_reject_def
  queue_control_eq take_identifier_eq Let_def

section \<open>Reachable states\<close>

text \<open>A step of the engine: the caller starts it, hands it a packet, or takes packets from
  its queue. The label is what the step reports to the caller.\<close>

inductive engine_step :: "ppp_engine \<Rightarrow> ppp_event list \<Rightarrow> ppp_engine \<Rightarrow> bool" where
  step_start: "engine_step eng [] (start eng)"
| step_incoming:
    "handle_incoming packet eng = Return (eng', Inr events) \<Longrightarrow> engine_step eng events eng'"
| step_refused:
    "handle_incoming packet eng = Return (eng', Inl e) \<Longrightarrow> engine_step eng [] eng'"
| step_next: "next_outgoing eng = (p, eng') \<Longrightarrow> engine_step eng [] eng'"
| step_drain: "drain_outgoing eng = (ps, eng') \<Longrightarrow> engine_step eng [] eng'"

inductive engine_reachable :: "ppp_engine \<Rightarrow> bool" where
  reach_new: "engine_reachable ppp_engine_new"
| reach_step: "engine_reachable eng \<Longrightarrow> engine_step eng events eng' \<Longrightarrow> engine_reachable eng'"

definition control_frame :: "ppp_packet \<Rightarrow> bool" where
  "control_frame p \<longleftrightarrow>
     (\<exists>protocol c i options. (protocol = PROTOCOL_LCP \<or> protocol = PROTOCOL_IPCP)
        \<and> p = ppp_packet_new (u16_to_be_bytes protocol @ control_bytes c i options))"

definition engine_inv :: "ppp_engine \<Rightarrow> bool" where
  "engine_inv eng \<longleftrightarrow>
     next_identifier eng \<noteq> 0
   \<and> state eng \<noteq> LcpOpened
   \<and> lcp_identifier eng \<noteq> Some 0 \<and> ipcp_identifier eng \<noteq> Some 0
   \<and> (state eng = Initial \<longrightarrow> lcp_identifier eng = None \<and> ipcp_identifier eng = None)
   \<and> (state eng = LcpRequestSent \<longrightarrow> lcp_identifier eng \<noteq> None \<and> ipcp_identifier eng = None)
   \<and> (state eng = IpcpRequestSent \<longrightarrow> ipcp_identifier eng \<noteq> None)
   \<and> (state eng = Opened \<longrightarrow> local_ip eng \<noteq> None)
   \<and> local_ip eng \<noteq> Some ipv4_unspecified
   \<and> (\<forall>p \<in> set (outgoing eng). control_frame p)"

named_theorems engine_inv_intros \<open>operations that keep the invariant of the engine\<close>

lemma engine_inv_new: "engine_inv ppp_engine_new"
  by (simp add: engine_inv_def ppp_engine_new_def)

lemma control_frameI:
  "protocol = PROTOCOL_LCP \<or> protocol = PROTOCOL_IPCP \<Longrightarrow>
   control_frame (ppp_packet_new (u16_to_be_bytes protocol @ control_bytes c i options))"
  unfolding control_frame_def by blast

lemma engine_inv_queue [engine_inv_intros]:
  assumes "engine_inv eng" "protocol = PROTOCOL_LCP \<or> protocol = PROTOCOL_IPCP"
  shows "engine_inv (queue_control protocol c i options eng)"
  using assms control_frameI unfolding engine_inv_def queue_control_eq by simp

lemma engine_inv_take:
  "engine_inv eng \<Longrightarrow> engine_inv (snd (take_identifier eng)) \<and> fst (take_identifier eng) \<noteq> 0"
  by (simp add: take_identifier_eq engine_inv_def)

lemma engine_inv_reject [engine_inv_intros]:
  "engine_inv eng \<Longrightarrow> engine_inv (queue_protocol_reject protocol payload eng)"
  using engine_inv_take [of eng]
  by (auto simp: queue_protocol_reject_def Let_def split: prod.split intro: engine_inv_queue)

lemma engine_inv_send_lcp [engine_inv_intros]:
  "engine_inv eng \<Longrightarrow> state eng \<noteq> Initial \<Longrightarrow> engine_inv (send_lcp_configure_request eng)"
  by (simp add: sender_defs engine_inv_def control_frameI)

lemma engine_inv_first_lcp [engine_inv_intros]:
  "engine_inv eng \<Longrightarrow> state eng = Initial \<Longrightarrow>
   engine_inv ((send_lcp_configure_request eng)\<lparr>state := LcpRequestSent\<rparr>)"
  by (simp add: sender_defs engine_inv_def control_frameI)

lemma engine_inv_send_ipcp [engine_inv_intros]:
  "engine_inv eng \<Longrightarrow> Some i = ipcp_identifier eng \<Longrightarrow> engine_inv (send_ipcp_configure_request eng)"
  by (auto simp: sender_defs engine_inv_def control_frameI)

lemma engine_inv_first_ipcp [engine_inv_intros]:
  "engine_inv eng \<Longrightarrow>
   engine_inv ((send_ipcp_configure_request (eng\<lparr>state := LcpOpened\<rparr>))\<lparr>state := IpcpRequestSent\<rparr>)"
  by (simp add: sender_defs engine_inv_def control_frameI)

lemma engine_inv_updates [engine_inv_intros]:
  "engine_inv eng \<Longrightarrow> engine_inv (eng\<lparr>state := Closed\<rparr>)"
  "engine_inv eng \<Longrightarrow> engine_inv (eng\<lparr>peer_ip := ip\<rparr>)"
  "engine_inv eng \<Longrightarrow> engine_inv (eng\<lparr>requested_ip := a\<rparr>)"
  "engine_inv eng \<Longrightarrow> a \<noteq> ipv4_unspecified \<Longrightarrow> engine_inv (eng\<lparr>local_ip := Some a, state := Opened\<rparr>)"
  by (simp_all add: engine_inv_def)

lemma lcp_identifier_started: "engine_inv eng \<Longrightarrow> Some i = lcp_identifier eng \<Longrightarrow> state eng \<noteq> Initial"
  by (auto simp: engine_inv_def)

lemma state_queue_control [simp]: "state (queue_control protocol c i options eng) = state eng"
  by (simp add: queue_control_eq)

lemma engine_inv_handle_lcp:
  assumes "engine_inv eng" "handle_lcp payload eng = (eng', r)"
  shows "engine_inv eng'"
  using assms
  by (auto simp: handle_lcp_def Let_def split: sum.splits if_splits dest: lcp_identifier_started
      intro!: engine_inv_intros)

lemma engine_inv_handle_ipcp:
  assumes "engine_inv eng" "handle_ipcp payload eng = Return (eng', r)"
  shows "engine_inv eng'"
  using assms
  by (auto simp: handle_ipcp_def Let_def split: sum.splits if_splits option.splits
      intro!: engine_inv_intros intro: engine_inv_send_ipcp)

lemma engine_inv_handle_incoming:
  assumes "engine_inv eng" "handle_incoming packet eng = Return (eng', r)"
  shows "engine_inv eng'"
  using assms
  by (auto simp: handle_incoming_def split: sum.splits if_splits
      intro: engine_inv_intros engine_inv_handle_lcp engine_inv_handle_ipcp)

lemma engine_inv_step: "engine_step eng events eng' \<Longrightarrow> engine_inv eng \<Longrightarrow> engine_inv eng'"
proof (induction rule: engine_step.induct)
  case (step_start eng)
  then show ?case by (simp add: start_def engine_inv_first_lcp)
next
  case (step_next eng p eng')
  then show ?case by (auto simp: next_outgoing_def engine_inv_def split: list.splits)
next
  case (step_drain eng ps eng')
  then show ?case by (auto simp: drain_outgoing_def engine_inv_def)
qed (auto dest: engine_inv_handle_incoming)

lemma engine_inv_reachable: "engine_reachable eng \<Longrightarrow> engine_inv eng"
  by (induction rule: engine_reachable.induct) (auto intro: engine_inv_new engine_inv_step)

section \<open>State transitions\<close>

text \<open>The transitions of the link state that a step of the engine can make.\<close>

fun link_transition :: "link_state \<Rightarrow> link_state \<Rightarrow> bool" where
  "link_transition Initial t = (t \<in> {Initial, LcpRequestSent, Closed})"
| "link_transition LcpRequestSent t = (t \<in> {LcpRequestSent, IpcpRequestSent, Closed})"
| "link_transition LcpOpened t = False"
| "link_transition IpcpRequestSent t = (t \<in> {IpcpRequestSent, Opened, Closed})"
| "link_transition Opened t = (t \<in> {Opened, Closed})"
| "link_transition Closed t = (t \<in> {Opened, Closed})"

text \<open>What a step reports, given the link states before and after it.\<close>

definition step_report :: "ppp_engine \<Rightarrow> ppp_event list \<Rightarrow> ppp_engine \<Rightarrow> bool" where
  "step_report eng events eng' \<longleftrightarrow>
     link_transition (state eng) (state eng')
   \<and> (state eng' = Opened \<and> state eng \<noteq> Opened \<longrightarrow>
        (\<exists>ip. events = [Up ip (peer_ip eng') []] \<and> local_ip eng' = Some ip))
   \<and> (state eng' = Closed \<and> state eng \<noteq> Closed \<longrightarrow> events = [Down])
   \<and> (\<forall>ip peer dns. Up ip peer dns \<in> set events \<longrightarrow>
        state eng' = Opened \<and> local_ip eng' = Some ip \<and> ip \<noteq> ipv4_unspecified
        \<and> peer = peer_ip eng' \<and> dns = [])
   \<and> (Down \<in> set events \<longrightarrow> state eng' = Closed)"

lemma link_transition_refl: "engine_inv eng \<Longrightarrow> link_transition (state eng) (state eng)"
  by (cases "state eng") (auto simp: engine_inv_def)

lemma link_transition_closed: "engine_inv eng \<Longrightarrow> link_transition (state eng) Closed"
  by (cases "state eng") (auto simp: engine_inv_def)

lemma link_transition_opened:
  "engine_inv eng \<Longrightarrow> Some i = ipcp_identifier eng \<Longrightarrow> link_transition (state eng) Opened"
  by (cases "state eng") (auto simp: engine_inv_def)

lemma step_report_quiet:
  "engine_inv eng \<Longrightarrow> state eng' = state eng \<Longrightarrow> step_report eng [] eng'"
  by (simp add: step_report_def link_transition_refl)

lemma step_report_started:
  "state eng = Initial \<Longrightarrow> state eng' = LcpRequestSent \<Longrightarrow> step_report eng [] eng'"
  by (simp add: step_report_def)

lemma step_report_down:
  "engine_inv eng \<Longrightarrow> state eng' = Closed \<Longrightarrow> step_report eng [Down] eng'"
  by (simp add: step_report_def link_transition_closed)

lemma step_report_up:
  "engine_inv eng \<Longrightarrow> Some i = ipcp_identifier eng \<Longrightarrow> state eng' = Opened \<Longrightarrow>
   local_ip eng' = Some ip \<Longrightarrow> ip \<noteq> ipv4_unspecified \<Longrightarrow> peer = peer_ip eng' \<Longrightarrow>
   step_report eng [Up ip peer []] eng'"
  using link_transition_opened [of eng i] by (simp add: step_report_def)

lemma state_send [simp]:
  "state (send_lcp_configure_request eng) = state eng"
  "state (send_ipcp_configure_request eng) = state eng"
  "state (queue_protocol_reject protocol payload eng) = state eng"
  by (simp_all add: sender_defs)

lemma step_report_lcp:
  assumes "engine_inv eng" "handle_lcp payload eng = (eng', Inr events)"
  shows "step_report eng events eng'"
  using assms
  by (auto simp: handle_lcp_def Let_def split: sum.splits if_splits
      dest: lcp_identifier_started
      intro: step_report_quiet step_report_started step_report_down)
    (auto simp: step_report_def engine_inv_def)

lemma step_report_ipcp:
  assumes "engine_inv eng" "handle_ipcp payload eng = Return (eng', Inr events)"
  shows "step_report eng events eng'"
  using assms
  by (auto simp: handle_ipcp_def Let_def split: sum.splits if_splits option.splits
      intro: step_report_quiet step_report_down step_report_up)

lemma refused_unchanged:
  "handle_incoming packet eng = Return (eng', Inl e) \<Longrightarrow> eng' = eng \<and> e = HdlcInvalidFrame"
  by (auto simp: handle_incoming_def handle_lcp_def handle_ipcp_def parse_control_packet_def
      ppp_protocol_def Let_def split: sum.splits if_splits)

lemma step_report_incoming:
  assumes "engine_inv eng" "handle_incoming packet eng = Return (eng', Inr events)"
  shows "step_report eng events eng'"
proof (cases "ppp_protocol (packet_data packet)")
  case (Inl e)
  with assms show ?thesis by (simp add: handle_incoming_def)
next
  case (Inr protocol)
  have ip: "step_report eng [Ipv4Packet d] eng" for d
    using link_transition_refl [OF assms(1)] by (simp add: step_report_def)
  show ?thesis
    using assms Inr ip
    by (auto simp: handle_incoming_def split: if_splits
        intro: step_report_lcp step_report_ipcp step_report_quiet)
qed

lemma step_report_step:
  "engine_step eng events eng' \<Longrightarrow> engine_inv eng \<Longrightarrow> step_report eng events eng'"
proof (induction rule: engine_step.induct)
  case (step_start eng)
  then show ?case by (auto simp: start_def intro: step_report_quiet step_report_started)
next
  case (step_incoming packet eng eng' events)
  then show ?case by (auto intro: step_report_incoming)
next
  case (step_refused packet eng eng' e)
  then show ?case by (auto dest: refused_unchanged intro: step_report_quiet)
next
  case (step_next eng p eng')
  then show ?case by (auto simp: next_outgoing_def split: list.splits intro: step_report_quiet)
next
  case (step_drain eng ps eng')
  then show ?case by (auto simp: drain_outgoing_def intro: step_report_quiet)
qed

section \<open>Properties\<close>

text \<open>Robustness: the handler of incoming packets never panics, whatever the packet and
  the state; when it refuses a packet the error is \<open>HdlcInvalidFrame\<close> and the engine is
  unchanged.\<close>

theorem handle_incoming_robust:
  "\<exists>eng' r. handle_incoming packet eng = Return (eng', r)
     \<and> (r = Inr (projr r) \<or> (r = Inl HdlcInvalidFrame \<and> eng' = eng))"
proof -
  obtain eng' r where *: "handle_incoming packet eng = Return (eng', r)"
    using handle_incoming_total by blast
  then show ?thesis
    using refused_unchanged [of packet eng eng'] by (cases r) auto
qed

text \<open>C3. Invariant of every engine that the program can reach: identifiers are never zero,
  the intermediate state \<open>LcpOpened\<close> is never visible, an open link has a local address
  other than 0.0.0.0, and the queue holds LCP and IPCP control packets only.\<close>

theorem reachable_engine_inv:
  assumes "engine_reachable eng"
  shows "next_identifier eng \<noteq> 0 \<and> state eng \<noteq> LcpOpened
    \<and> (is_open eng \<longrightarrow> (\<exists>ip. local_ip eng = Some ip \<and> ip \<noteq> ipv4_unspecified))
    \<and> (\<forall>p \<in> set (outgoing eng). control_frame p)"
  using engine_inv_reachable [OF assms] by (auto simp: engine_inv_def is_open_def)

theorem reachable_engine_inv_witness:
  "next_identifier (start ppp_engine_new) \<noteq> 0 \<and> state (start ppp_engine_new) \<noteq> LcpOpened"
  using reachable_engine_inv [OF reach_step [OF reach_new step_start]] by blast

text \<open>C9. The state machine: every step of a reachable engine follows the transition table. A
  step that opens the link reports exactly one event, \<open>Up\<close> with the negotiated address, and
  a step that closes it reports exactly \<open>Down\<close>. Conversely an \<open>Up\<close> is only reported when the
  link is open after the step, with the address the engine holds, and a \<open>Down\<close> only when it
  is closed after the step. Either may be reported again in a link that already is open or
  closed, for instance on a repeated acknowledgement or termination request.\<close>

theorem engine_step_reports:
  assumes "engine_reachable eng" "engine_step eng events eng'"
  shows "link_transition (state eng) (state eng')
    \<and> (state eng' = Opened \<and> state eng \<noteq> Opened \<longrightarrow>
        (\<exists>ip. events = [Up ip (peer_ip eng') []] \<and> local_ip eng' = Some ip))
    \<and> (state eng' = Closed \<and> state eng \<noteq> Closed \<longrightarrow> events = [Down])
    \<and> (\<forall>ip peer dns. Up ip peer dns \<in> set events \<longrightarrow>
        state eng' = Opened \<and> local_ip eng' = Some ip \<and> ip \<noteq> ipv4_unspecified
        \<and> peer = peer_ip eng' \<and> dns = [])
    \<and> (Down \<in> set events \<longrightarrow> state eng' = Closed)"
  using step_report_step [OF assms(2) engine_inv_reachable [OF assms(1)]]
  unfolding step_report_def .

theorem engine_step_reports_witness:
  "link_transition (state ppp_engine_new) (state (start ppp_engine_new))"
  using engine_step_reports [OF reach_new step_start] by blast

text \<open>A control packet as the peer sends it.\<close>

definition control_ppp :: "u16 \<Rightarrow> u8 \<Rightarrow> u8 \<Rightarrow> bytes \<Rightarrow> ppp_packet" where
  "control_ppp protocol c i options =
     ppp_packet_new (u16_to_be_bytes protocol @ control_bytes c i options)"

lemma packet_data_control_ppp:
  "packet_data (control_ppp protocol c i options) = u16_to_be_bytes protocol @ control_bytes c i options"
  by (simp add: control_ppp_def ppp_packet_new_def)

lemma handle_incoming_lcp:
  "handle_incoming (control_ppp PROTOCOL_LCP c i options) eng =
     Return (handle_lcp (control_bytes c i options) eng)"
  by (simp add: handle_incoming_def packet_data_control_ppp protocol_defs)

lemma handle_incoming_ipcp:
  "handle_incoming (control_ppp PROTOCOL_IPCP c i options) eng =
     handle_ipcp (control_bytes c i options) eng"
  by (simp add: handle_incoming_def packet_data_control_ppp protocol_defs)

lemma parse_control_bytes_exact:
  "length options \<le> 65531 \<Longrightarrow> parse_control_packet (control_bytes c i options) =
    Inr \<lparr>ctl_code = c, ctl_identifier = i, ctl_options = options\<rparr>"
  using parse_control_bytes [of options c i "[]"] by simp

lemma queue_control_ppp:
  "queue_control protocol c i options eng =
     eng\<lparr>outgoing := outgoing eng @ [control_ppp protocol c i options]\<rparr>"
  by (simp add: queue_control_eq control_ppp_def)

lemmas incoming_simps =
  handle_incoming_lcp handle_incoming_ipcp parse_control_bytes_exact handle_lcp_def
  handle_ipcp_def code_defs Let_def queue_control_ppp

text \<open>The IP address option that carries an address.\<close>

definition ip_option :: "ipv4_addr \<Rightarrow> bytes" where
  "ip_option a = [IPCP_OPTION_IP_ADDRESS, 6] @ octets a"

lemma first_ip_option_ip [simp]: "first_ip_option (ip_option a) = Some a"
  by (cases a) (simp add: ip_option_def IPCP_OPTION_IP_ADDRESS_def)

lemma length_ip_option [simp]: "length (ip_option a) = 6"
  by (simp add: ip_option_def)

lemma send_ipcp_eq:
  "send_ipcp_configure_request eng =
     eng\<lparr>next_identifier := (if next_identifier eng + 1 = 0 then 1 else next_identifier eng + 1),
         ipcp_identifier := Some (next_identifier eng),
         outgoing := outgoing eng @
           [control_ppp PROTOCOL_IPCP CODE_CONFIGURE_REQUEST (next_identifier eng)
              (ip_option (requested_ip eng))]\<rparr>"
  by (simp add: sender_defs control_ppp_def ip_option_def)

lemma mru_option: "[LCP_OPTION_MRU, 4] @ u16_to_be_bytes LCP_DEFAULT_MRU = [1, 4, 5, 0x4a]"
  by (simp add: LCP_OPTION_MRU_def LCP_DEFAULT_MRU_def u16_to_be_bytes_def)

lemma send_lcp_eq:
  "send_lcp_configure_request eng =
     eng\<lparr>next_identifier := (if next_identifier eng + 1 = 0 then 1 else next_identifier eng + 1),
         lcp_identifier := Some (next_identifier eng),
         outgoing := outgoing eng @
           [control_ppp PROTOCOL_LCP CODE_CONFIGURE_REQUEST (next_identifier eng) [1, 4, 5, 0x4a]]\<rparr>"
  unfolding send_lcp_configure_request_def mru_option
  by (simp add: take_identifier_eq queue_control_ppp)

lemma configure_request_answer:
  assumes "length options \<le> 65531" "protocol \<in> {PROTOCOL_LCP, PROTOCOL_IPCP}"
  shows "\<exists>eng' more. handle_incoming (control_ppp protocol CODE_CONFIGURE_REQUEST i options) eng
        = Return (eng', Inr [])
      \<and> outgoing eng' = outgoing eng @ control_ppp protocol CODE_CONFIGURE_ACK i options # more"
  using assms by (auto simp: incoming_simps send_lcp_eq)

lemma terminate_request_answer:
  assumes "length options \<le> 65531" "protocol \<in> {PROTOCOL_LCP, PROTOCOL_IPCP}"
  shows "\<exists>eng'. handle_incoming (control_ppp protocol CODE_TERMINATE_REQUEST i options) eng
        = Return (eng', Inr [Down])
      \<and> outgoing eng' = outgoing eng @ [control_ppp protocol CODE_TERMINATE_ACK i options]"
  using assms by (auto simp: incoming_simps)

lemma echo_request_answer:
  assumes "length options \<le> 65531"
  shows "\<exists>eng'. handle_incoming (control_ppp PROTOCOL_LCP CODE_ECHO_REQUEST i options) eng
        = Return (eng', Inr [])
      \<and> outgoing eng' = outgoing eng
          @ [control_ppp PROTOCOL_LCP CODE_ECHO_REPLY i ([0, 0, 0, 0] @ drop 4 options)]"
  using assms by (simp add: incoming_simps u32_to_be_bytes_def)

text \<open>C25. Requests of the peer are answered: a Configure-Request of LCP or IPCP is
  acknowledged, and a Terminate-Request too, with the identifier and the very options of
  the request; an Echo-Request of LCP is answered with its identifier and its payload
  behind a zero magic number.\<close>

theorem requests_are_answered:
  assumes "length options \<le> 65531" "protocol \<in> {PROTOCOL_LCP, PROTOCOL_IPCP}"
  shows "(\<exists>eng' more. handle_incoming (control_ppp protocol CODE_CONFIGURE_REQUEST i options) eng
        = Return (eng', Inr [])
      \<and> outgoing eng' = outgoing eng @ control_ppp protocol CODE_CONFIGURE_ACK i options # more)
    \<and> (\<exists>eng'. handle_incoming (control_ppp protocol CODE_TERMINATE_REQUEST i options) eng
        = Return (eng', Inr [Down])
      \<and> outgoing eng' = outgoing eng @ [control_ppp protocol CODE_TERMINATE_ACK i options])
    \<and> (\<exists>eng'. handle_incoming (control_ppp PROTOCOL_LCP CODE_ECHO_REQUEST i options) eng
        = Return (eng', Inr [])
      \<and> outgoing eng' = outgoing eng
          @ [control_ppp PROTOCOL_LCP CODE_ECHO_REPLY i ([0, 0, 0, 0] @ drop 4 options)])"
  using configure_request_answer [OF assms] terminate_request_answer [OF assms]
    echo_request_answer [OF assms(1)] by blast

text \<open>Negotiation succeeds: from any state in which an IPCP request is pending, a peer
  that suggests an address and then acknowledges the request for it opens the link with
  that address, and the request that the engine sends in between asks for it.\<close>

theorem ipcp_negotiation_opens:
  assumes "ipcp_identifier eng = Some i" "ip \<noteq> ipv4_unspecified"
  shows "\<exists>j eng1 eng2.
    handle_incoming (control_ppp PROTOCOL_IPCP CODE_CONFIGURE_NAK i (ip_option ip)) eng
      = Return (eng1, Inr [])
    \<and> outgoing eng1 = outgoing eng @ [control_ppp PROTOCOL_IPCP CODE_CONFIGURE_REQUEST j (ip_option ip)]
    \<and> handle_incoming (control_ppp PROTOCOL_IPCP CODE_CONFIGURE_ACK j (ip_option ip)) eng1
      = Return (eng2, Inr [Up ip (peer_ip eng) []])
    \<and> is_open eng2 \<and> local_ip eng2 = Some ip"
proof -
  let ?eng1 = "send_ipcp_configure_request (eng\<lparr>requested_ip := ip\<rparr>)"
  have "handle_incoming (control_ppp PROTOCOL_IPCP CODE_CONFIGURE_NAK i (ip_option ip)) eng
      = Return (?eng1, Inr [])"
    using assms(1) by (simp add: incoming_simps)
  moreover have "handle_incoming (control_ppp PROTOCOL_IPCP CODE_CONFIGURE_ACK (next_identifier eng)
        (ip_option ip)) ?eng1
      = Return (?eng1\<lparr>local_ip := Some ip, state := Opened\<rparr>, Inr [Up ip (peer_ip eng) []])"
    using assms(2) by (simp add: incoming_simps send_ipcp_eq)
  ultimately show ?thesis
    by (intro exI [of _ "next_identifier eng"] exI [of _ ?eng1]
        exI [of _ "?eng1\<lparr>local_ip := Some ip, state := Opened\<rparr>"] conjI)
      (simp_all add: send_ipcp_eq is_open_def)
qed

text \<open>The whole exchange from a fresh engine: after \<open>start\<close> the only packet in the queue
  is the LCP request with identifier 1 and an MRU of 1354; its acknowledgement makes the
  engine ask for an address with identifier 2; a rejection by IPCP of that request with an
  address suggestion and the acknowledgement of the third request open the link.\<close>

theorem fresh_negotiation:
  assumes "ip \<noteq> ipv4_unspecified"
  shows "\<exists>eng1 eng2 eng3.
    outgoing (start ppp_engine_new) = [control_ppp PROTOCOL_LCP CODE_CONFIGURE_REQUEST 1 [1, 4, 5, 0x4a]]
    \<and> handle_incoming (control_ppp PROTOCOL_LCP CODE_CONFIGURE_ACK 1 [1, 4, 5, 0x4a])
        (snd (drain_outgoing (start ppp_engine_new))) = Return (eng1, Inr [])
    \<and> outgoing eng1 = [control_ppp PROTOCOL_IPCP CODE_CONFIGURE_REQUEST 2 (ip_option ipv4_unspecified)]
    \<and> handle_incoming (control_ppp PROTOCOL_IPCP CODE_CONFIGURE_NAK 2 (ip_option ip))
        (snd (drain_outgoing eng1)) = Return (eng2, Inr [])
    \<and> outgoing eng2 = [control_ppp PROTOCOL_IPCP CODE_CONFIGURE_REQUEST 3 (ip_option ip)]
    \<and> handle_incoming (control_ppp PROTOCOL_IPCP CODE_CONFIGURE_ACK 3 (ip_option ip))
        (snd (drain_outgoing eng2)) = Return (eng3, Inr [Up ip None []])
    \<and> is_open eng3 \<and> local_ip eng3 = Some ip"
  using assms
  by (simp add: incoming_simps send_ipcp_eq drain_outgoing_def start_def ppp_engine_new_def
      send_lcp_eq is_open_def)

text \<open>IPv4 traffic passes unchanged: what \<open>encode_ipv4_packet\<close> accepts, the handler of
  the other side reports as the same packet, without touching the engine; the encoder
  accepts exactly the non-empty packets whose version nibble is 4.\<close>

theorem ipv4_passes_through:
  assumes "encode_ipv4_packet packet = Inr p"
  shows "handle_incoming p eng = Return (eng, Inr [Ipv4Packet packet])
    \<and> packet \<noteq> [] \<and> drop_bit 4 (packet ! 0) = 4"
  using assms
  by (auto simp: encode_ipv4_packet_def handle_incoming_def ppp_packet_new_def split: if_splits)

theorem requests_are_answered_witness:
  "\<exists>eng'. handle_incoming (control_ppp PROTOCOL_LCP CODE_ECHO_REQUEST 7 [1, 2, 3, 4, 5]) ppp_engine_new
        = Return (eng', Inr [])
      \<and> outgoing eng' = outgoing ppp_engine_new
          @ [control_ppp PROTOCOL_LCP CODE_ECHO_REPLY 7 ([0, 0, 0, 0] @ drop 4 [1, 2, 3, 4, 5])]"
  using requests_are_answered [of "[1, 2, 3, 4, 5]" PROTOCOL_LCP 7 ppp_engine_new] by simp

theorem ipcp_negotiation_opens_witness:
  "\<exists>j eng1 eng2.
    handle_incoming (control_ppp PROTOCOL_IPCP CODE_CONFIGURE_NAK 2 (ip_option (Ipv4Addr 10 0 0 1)))
      (ppp_engine_new\<lparr>ipcp_identifier := Some 2\<rparr>) = Return (eng1, Inr [])
    \<and> outgoing eng1 = outgoing (ppp_engine_new\<lparr>ipcp_identifier := Some 2\<rparr>)
        @ [control_ppp PROTOCOL_IPCP CODE_CONFIGURE_REQUEST j (ip_option (Ipv4Addr 10 0 0 1))]
    \<and> handle_incoming (control_ppp PROTOCOL_IPCP CODE_CONFIGURE_ACK j (ip_option (Ipv4Addr 10 0 0 1))) eng1
      = Return (eng2, Inr [Up (Ipv4Addr 10 0 0 1) (peer_ip (ppp_engine_new\<lparr>ipcp_identifier := Some 2\<rparr>)) []])
    \<and> is_open eng2 \<and> local_ip eng2 = Some (Ipv4Addr 10 0 0 1)"
  by (rule ipcp_negotiation_opens) simp_all

theorem fresh_negotiation_witness:
  "\<exists>eng1 eng2 eng3.
    outgoing (start ppp_engine_new) = [control_ppp PROTOCOL_LCP CODE_CONFIGURE_REQUEST 1 [1, 4, 5, 0x4a]]
    \<and> handle_incoming (control_ppp PROTOCOL_LCP CODE_CONFIGURE_ACK 1 [1, 4, 5, 0x4a])
        (snd (drain_outgoing (start ppp_engine_new))) = Return (eng1, Inr [])
    \<and> outgoing eng1 = [control_ppp PROTOCOL_IPCP CODE_CONFIGURE_REQUEST 2 (ip_option ipv4_unspecified)]
    \<and> handle_incoming (control_ppp PROTOCOL_IPCP CODE_CONFIGURE_NAK 2 (ip_option (Ipv4Addr 10 0 0 9)))
        (snd (drain_outgoing eng1)) = Return (eng2, Inr [])
    \<and> outgoing eng2 = [control_ppp PROTOCOL_IPCP CODE_CONFIGURE_REQUEST 3 (ip_option (Ipv4Addr 10 0 0 9))]
    \<and> handle_incoming (control_ppp PROTOCOL_IPCP CODE_CONFIGURE_ACK 3 (ip_option (Ipv4Addr 10 0 0 9)))
        (snd (drain_outgoing eng2)) = Return (eng3, Inr [Up (Ipv4Addr 10 0 0 9) None []])
    \<and> is_open eng3 \<and> local_ip eng3 = Some (Ipv4Addr 10 0 0 9)"
  by (rule fresh_negotiation) simp

theorem ipv4_passes_through_witness:
  "handle_incoming (ppp_packet_new [0x00, 0x21, 0x45, 0x00]) ppp_engine_new
     = Return (ppp_engine_new, Inr [Ipv4Packet [0x45, 0x00]])
    \<and> [0x45, 0x00] \<noteq> ([] :: bytes) \<and> drop_bit 4 ([0x45, 0x00] ! 0 :: u8) = 4"
  by (rule ipv4_passes_through)
    (simp add: encode_ipv4_packet_def PROTOCOL_IPV4_def u16_to_be_bytes_def)

end
