(* ===== verification/Streams.thy ===== *)
theory Streams
  imports Packet
begin

text \<open>
  The byte streams that the tunnel reads and writes, and the interface of its incremental
  decoders.

  A reader is the list of what its successive \<open>read\<close> calls deliver: bytes or an I/O error;
  at the end of the list it is at end of file. A writer is the bytes it took and the list
  of how many bytes, or which error, its next calls answer with; when the list is used up
  it takes everything; \<open>flush_answer\<close> is what a flush returns. \<open>Read::read_exact\<close> and \<open>Write::write_all\<close> are the loops of the
  standard library.

  The locale \<open>frame_parser\<close> is the contract of a parser that takes one item from the front of
  a buffer: its answers do not change when more bytes arrive. The locale
  \<open>stream_decoder\<close> is the contract of a decoder that buffers input and returns all complete
  items; from it follows that the way the input is cut into reads does not matter.
\<close>

section \<open>Readers\<close>

type_synonym reader = "(io_error + bytes) list"

fun read_some :: "nat \<Rightarrow> reader \<Rightarrow> (io_error + bytes) \<times> reader" where
  "read_some n [] = (Inr [], [])"
| "read_some n (Inl e # r) = (Inl e, r)"
| "read_some n (Inr bs # r) =
     (if length bs \<le> n then (Inr bs, r) else (Inr (take n bs), Inr (drop n bs) # r))"

function read_exact :: "nat \<Rightarrow> reader \<Rightarrow> (io_error + bytes) \<times> reader" where
  "read_exact n r =
     (if n = 0 then (Inr [], r)
      else
        case r of
          [] \<Rightarrow> (Inl (IoError UnexpectedEof ''failed to fill whole buffer''), [])
        | Inl e # r' \<Rightarrow> if kind e = Interrupted then read_exact n r' else (Inl e, r')
        | Inr bs # r' \<Rightarrow>
            if bs = [] then (Inl (IoError UnexpectedEof ''failed to fill whole buffer''), r')
            else if n < length bs then (Inr (take n bs), Inr (drop n bs) # r')
            else
              case read_exact (n - length bs) r' of
                (Inl e, r'') \<Rightarrow> (Inl e, r'')
              | (Inr cs, r'') \<Rightarrow> (Inr (bs @ cs), r''))"
  by pat_completeness auto
termination
  by (relation "measure (\<lambda>(n, r). length r)") auto

declare read_exact.simps [simp del]

text \<open>The bytes a reader delivers before its first error.\<close>

fun reader_bytes :: "reader \<Rightarrow> bytes" where
  "reader_bytes [] = []"
| "reader_bytes (Inl e # r) = []"
| "reader_bytes (Inr bs # r) = bs @ reader_bytes r"

text \<open>All bytes that a reader delivers, the errors left out.\<close>

definition reader_data :: "reader \<Rightarrow> bytes" where
  "reader_data r = concat (map (case_sum (\<lambda>e. []) (\<lambda>bs. bs)) r)"

lemma read_some_reader_data: "read_some n r = (x, r') \<Longrightarrow> reader_data r = case_sum (\<lambda>e. []) (\<lambda>bs. bs) x @ reader_data r'"
  by (cases "(n, r)" rule: read_some.cases) (auto simp: reader_data_def split: if_splits)

text \<open>A reader that delivers bytes only, none of its reads being empty.\<close>

definition data_only :: "reader \<Rightarrow> bool" where
  "data_only r \<longleftrightarrow> (\<forall>x \<in> set r. \<exists>bs. x = Inr bs \<and> bs \<noteq> [])"

lemma data_only_simps [simp]:
  "data_only []" "\<not> data_only (Inl e # r)"
  "data_only (Inr bs # r) \<longleftrightarrow> bs \<noteq> [] \<and> data_only r"
  by (auto simp: data_only_def)

lemma read_exact_data:
  "data_only r \<Longrightarrow> n \<le> length (reader_bytes r) \<Longrightarrow>
   \<exists>r'. read_exact n r = (Inr (take n (reader_bytes r)), r') \<and> data_only r'
      \<and> reader_bytes r' = drop n (reader_bytes r)"
proof (induction n r rule: read_exact.induct)
  case (1 n r)
  show ?case
  proof (cases r)
    case Nil
    with "1.prems" show ?thesis by (subst read_exact.simps) simp
  next
    case (Cons x r')
    with "1.prems"(1) obtain bs where x: "x = Inr bs" "bs \<noteq> []" by (cases x) auto
    consider "n = 0" | "0 < n" "n < length bs" | "0 < n" "length bs \<le> n" by linarith
    then show ?thesis
    proof cases
      case 1
      with "1.prems"(1) show ?thesis by (subst read_exact.simps) simp
    next
      case 2
      with "1.prems" Cons x show ?thesis by (subst read_exact.simps) simp
    next
      case 3
      with "1.IH"(2) [OF _ Cons x(1)] "1.prems" Cons x
      obtain r'' where "read_exact (n - length bs) r' = (Inr (take (n - length bs) (reader_bytes r')), r'')"
        "data_only r''" "reader_bytes r'' = drop (n - length bs) (reader_bytes r')"
        by fastforce
      with 3 Cons x show ?thesis by (subst read_exact.simps) simp
    qed
  qed
qed

section \<open>Writers\<close>

record writer =
  accepts :: "(io_error + nat) list"
  sent :: bytes
  flush_answer :: "io_error + unit"

definition write_some :: "bytes \<Rightarrow> writer \<Rightarrow> (io_error + nat) \<times> writer" where
  "write_some bs w =
     (case accepts w of
        [] \<Rightarrow> (Inr (length bs), w\<lparr>sent := sent w @ bs\<rparr>)
      | Inl e # script \<Rightarrow> (Inl e, w\<lparr>accepts := script\<rparr>)
      | Inr k # script \<Rightarrow>
          (Inr (min k (length bs)), w\<lparr>accepts := script, sent := sent w @ take k bs\<rparr>))"

lemma write_some_sent:
  "write_some bs w = (Inr n, w') \<Longrightarrow> n \<le> length bs \<and> sent w' = sent w @ take n bs"
  by (auto simp: write_some_def min_def split: list.splits sum.splits)

lemma write_some_error: "write_some bs w = (Inl e, w') \<Longrightarrow> sent w' = sent w"
  by (auto simp: write_some_def split: list.splits sum.splits)

lemma write_some_script: "write_some bs w = (r, w') \<Longrightarrow> accepts w' = tl (accepts w)"
  by (auto simp: write_some_def split: list.splits sum.splits)

function write_all :: "bytes \<Rightarrow> writer \<Rightarrow> (io_error + unit) \<times> writer" where
  "write_all bs w =
     (if bs = [] then (Inr (), w)
      else
        case write_some bs w of
          (Inl e, w') \<Rightarrow>
            if kind e = Interrupted then write_all bs w' else (Inl e, w')
        | (Inr n, w') \<Rightarrow>
            if n = 0 then (Inl (IoError WriteZero ''failed to write whole buffer''), w')
            else write_all (drop n bs) w')"
  by pat_completeness auto
termination
proof (relation "measures [\<lambda>(bs, w). length bs, \<lambda>(bs, w). length (accepts w)]", goal_cases)
  case (2 bs w x w' e)
  then show ?case by (auto simp: write_some_def split: list.splits sum.splits)
next
  case (3 bs w x w' n)
  then show ?case by auto
qed simp

declare write_all.simps [simp del]

lemma write_all_prefix:
  "write_all bs w = (r, w') \<Longrightarrow> \<exists>k \<le> length bs. sent w' = sent w @ take k bs \<and> (r = Inr () \<longrightarrow> k = length bs)"
proof (induction bs w arbitrary: r w' rule: write_all.induct)
  case (1 bs w)
  show ?case
  proof (cases "bs = []")
    case True
    with "1.prems" show ?thesis by (subst (asm) write_all.simps) simp
  next
    case False
    obtain x w1 where ws: "write_some bs w = (x, w1)" by fastforce
    show ?thesis
    proof (cases x)
      case (Inl e)
      show ?thesis
      proof (cases "kind e = Interrupted")
        case True
        then have "write_all bs w1 = (r, w')"
          using "1.prems" False ws Inl by (subst (asm) write_all.simps) simp
        from "1.IH"(1) [OF False ws [symmetric] Inl True this] show ?thesis
          using write_some_error ws Inl by fastforce
      next
        case nint: False
        then have "r = Inl e" "w' = w1"
          using "1.prems" False ws Inl by (subst (asm) write_all.simps, simp)+
        then show ?thesis using write_some_error ws Inl by fastforce
      qed
    next
      case (Inr n)
      have s1: "n \<le> length bs" "sent w1 = sent w @ take n bs"
        using write_some_sent ws Inr by blast+
      show ?thesis
      proof (cases "n = 0")
        case True
        then have "r = Inl (IoError WriteZero ''failed to write whole buffer'')" "w' = w1"
          using "1.prems" False ws Inr by (subst (asm) write_all.simps, simp)+
        with s1 True show ?thesis by fastforce
      next
        case n: False
        then have "write_all (drop n bs) w1 = (r, w')"
          using "1.prems" False ws Inr by (subst (asm) write_all.simps) simp
        from "1.IH"(2) [OF False ws [symmetric] Inr n this]
        obtain k where k: "k \<le> length (drop n bs)" "sent w' = sent w1 @ take k (drop n bs)"
          "r = Inr () \<longrightarrow> k = length (drop n bs)" by blast
        then show ?thesis
          using s1 by (intro exI [of _ "n + k"]) (auto simp: take_add)
      qed
    qed
  qed
qed

lemma write_all_willing: "accepts w = [] \<Longrightarrow> write_all bs w = (Inr (), w\<lparr>sent := sent w @ bs\<rparr>)"
  by (subst write_all.simps) (simp add: write_some_def write_all.simps)

definition flush :: "writer \<Rightarrow> (io_error + unit) \<times> writer" where
  "flush w = (flush_answer w, w)"

text \<open>\<open>write!\<close>: the pieces of the format string and the arguments, one after the other.\<close>

fun write_pieces :: "bytes list \<Rightarrow> writer \<Rightarrow> (io_error + unit) \<times> writer" where
  "write_pieces [] w = (Inr (), w)"
| "write_pieces (p # ps) w =
     (case write_all p w of (Inl e, w') \<Rightarrow> (Inl e, w') | (Inr _, w') \<Rightarrow> write_pieces ps w')"

lemma write_pieces_willing:
  "accepts w = [] \<Longrightarrow> write_pieces ps w = (Inr (), w\<lparr>sent := sent w @ concat ps\<rparr>)"
  by (induction ps arbitrary: w) (simp_all add: write_all_willing)

section \<open>Parsers of one item\<close>

datatype 'p parse_step = NeedMore | Bad error | Item 'p bytes

text \<open>Taking items from a buffer until more input is needed.\<close>

inductive drains :: "(bytes \<Rightarrow> 'p parse_step) \<Rightarrow> bytes \<Rightarrow> 'p list \<Rightarrow> bytes \<Rightarrow> bool"
  for nxt :: "bytes \<Rightarrow> 'p parse_step" where
  drains_stop: "nxt b = NeedMore \<Longrightarrow> drains nxt b [] b"
| drains_item: "nxt b = Item p r \<Longrightarrow> drains nxt r ps r' \<Longrightarrow> drains nxt b (p # ps) r'"

inductive_cases drains_NilE: "drains nxt b [] r"
inductive_cases drains_ConsE: "drains nxt b (p # ps) r"

lemma drains_all:
  "drains nxt b ps r \<Longrightarrow> (\<And>b p r. nxt b = Item p r \<Longrightarrow> Q p) \<Longrightarrow> \<forall>p \<in> set ps. Q p"
  by (induction rule: drains.induct) auto

locale frame_parser =
  fixes next_item :: "bytes \<Rightarrow> 'p parse_step"
  assumes item_append: "next_item b = Item p r \<Longrightarrow> next_item (b @ c) = Item p (r @ c)"
    and bad_append: "next_item b = Bad e \<Longrightarrow> next_item (b @ c) = Bad e"
    and item_progress: "next_item b = Item p r \<Longrightarrow> length r < length b"
begin

lemma drains_rest: "drains next_item b ps r \<Longrightarrow> next_item r = NeedMore"
  by (induction rule: drains.induct)

lemma drains_length: "drains next_item b ps r \<Longrightarrow> length r \<le> length b"
  by (induction rule: drains.induct) (auto dest: item_progress)

lemma drains_append:
  "drains next_item b ps r \<Longrightarrow> drains next_item (r @ c) qs r' \<Longrightarrow> drains next_item (b @ c) (ps @ qs) r'"
  by (induction rule: drains.induct) (auto intro: drains.intros item_append)

lemma drains_det:
  "drains next_item b ps r \<Longrightarrow> drains next_item b ps' r' \<Longrightarrow> ps' = ps \<and> r' = r"
proof (induction arbitrary: ps' r' rule: drains.induct)
  case (drains_stop b)
  show ?case
  proof (cases ps')
    case Nil
    with drains_stop.prems show ?thesis by (auto elim: drains_NilE)
  next
    case (Cons p qs)
    with drains_stop.prems obtain r1 where "next_item b = Item p r1" by (auto elim: drains_ConsE)
    with drains_stop.hyps show ?thesis by simp
  qed
next
  case (drains_item b p r ps r'')
  show ?case
  proof (cases ps')
    case Nil
    with drains_item.prems have "next_item b = NeedMore" by (auto elim: drains_NilE)
    with drains_item.hyps show ?thesis by simp
  next
    case (Cons q qs)
    with drains_item.prems obtain r1 where r1: "next_item b = Item q r1" "drains next_item r1 qs r'"
      by (auto elim: drains_ConsE)
    with drains_item.hyps(1) have "drains next_item r qs r'" "q = p" by simp_all
    with drains_item.IH Cons show ?thesis by blast
  qed
qed

lemma drains_split:
  "drains next_item d qs r' \<Longrightarrow> d = b @ c \<Longrightarrow>
   \<exists>ps r qs'. drains next_item b ps r \<and> drains next_item (r @ c) qs' r' \<and> qs = ps @ qs'"
proof (induction arbitrary: b rule: drains.induct)
  case (drains_stop d)
  have "next_item b = NeedMore"
  proof (cases "next_item b")
    case (Item p r)
    then show ?thesis using item_append drains_stop by fastforce
  qed (use drains_stop bad_append in auto)
  then show ?case
    using drains_stop by (metis append_Nil drains.drains_stop)
next
  case (drains_item d p r ps r')
  show ?case
  proof (cases "next_item b")
    case (Item p' r1)
    then have "p' = p" "r = r1 @ c" using item_append drains_item by fastforce+
    then show ?thesis using drains_item Item by (metis append_Cons drains.drains_item)
  next
    case NeedMore
    then show ?thesis
      using drains_item by (metis append_Nil drains.drains_stop drains.drains_item)
  next
    case (Bad e)
    then show ?thesis using bad_append drains_item by fastforce
  qed
qed

end

section \<open>Framings\<close>

text \<open>Items and their frames in a stream.\<close>

definition framed :: "('p \<Rightarrow> bytes res) \<Rightarrow> ('p \<Rightarrow> bool) \<Rightarrow> 'p list \<Rightarrow> bytes list \<Rightarrow> bool" where
  "framed enc sendable ps fs = list_all2 (\<lambda>p f. enc p = Inr f \<and> sendable p) ps fs"

lemma framed_simps [simp]:
  "framed enc sendable [] fs \<longleftrightarrow> fs = []"
  "framed enc sendable (p # ps) fs \<longleftrightarrow>
     (\<exists>f gs. fs = f # gs \<and> enc p = Inr f \<and> sendable p \<and> framed enc sendable ps gs)"
  by (auto simp: framed_def list_all2_Cons1)

text \<open>
  A framing is a parser with an encoder whose frames it takes off the front of any buffer. A
  stream of frames then has one reading only.
\<close>

locale framing = frame_parser next_item
  for next_item :: "bytes \<Rightarrow> 'p parse_step" +
  fixes enc :: "'p \<Rightarrow> bytes res"
    and sendable :: "'p \<Rightarrow> bool"
  assumes next_frame: "enc p = Inr f \<Longrightarrow> sendable p \<Longrightarrow> next_item (f @ c) = Item p c"
    and next_Nil: "next_item [] = NeedMore"
begin

lemma drains_framed:
  "framed enc sendable ps fs \<Longrightarrow> drains next_item rest qs r \<Longrightarrow> drains next_item (concat fs @ rest) (ps @ qs) r"
proof (induction ps arbitrary: fs)
  case (Cons p ps)
  then obtain f gs where f: "fs = f # gs" "enc p = Inr f" "sendable p" "framed enc sendable ps gs" by auto
  have "next_item (f @ concat gs @ rest) = Item p (concat gs @ rest)" using f(2,3) by (rule next_frame)
  from drains_item [OF this Cons.IH [OF f(4) Cons.prems(2)]] f(1) show ?case by simp
qed simp

lemma drains_frames: "framed enc sendable ps fs \<Longrightarrow> drains next_item (concat fs) ps []"
  using drains_framed [of ps fs "[]" "[]" "[]"] drains_stop [of next_item, OF next_Nil] by simp

lemma framed_unique:
  assumes "framed enc sendable ps fs" and "framed enc sendable qs gs" and "concat fs = concat gs"
  shows "ps = qs"
  using drains_det [OF drains_frames [OF assms(1)]] drains_frames [OF assms(2)] assms(3) by simp

end

section \<open>Buffering decoders\<close>

text \<open>
  A decoder keeps the unparsed bytes. With room for the input, a push drains what it holds
  and the input together; \<open>fits\<close> says when there is room.
\<close>

locale stream_decoder = frame_parser next_item
  for next_item :: "bytes \<Rightarrow> 'p parse_step" +
  fixes buf :: "'s \<Rightarrow> bytes"
    and fits :: "nat \<Rightarrow> bool"
    and push :: "'s \<Rightarrow> bytes \<Rightarrow> 's \<times> ('p list) res"
  assumes push_iff: "fits (length (buf s) + length bs) \<Longrightarrow>
      push s bs = (s', Inr ps) \<longleftrightarrow> drains next_item (buf s @ bs) ps (buf s')"
    and push_full: "\<not> fits (length (buf s) + length bs) \<Longrightarrow> push s bs \<noteq> (s', Inr ps)"
    and fits_mono: "fits n \<Longrightarrow> m \<le> n \<Longrightarrow> fits m"
    and buf_onto: "\<exists>s. buf s = b"
begin

lemma push_drains:
  "push s bs = (s', Inr ps) \<longleftrightarrow>
     fits (length (buf s) + length bs) \<and> drains next_item (buf s @ bs) ps (buf s')"
  using push_iff push_full by blast

text \<open>An input can be cut anywhere: both parts are accepted and give the same items.\<close>

lemma push_split:
  assumes "push s (b @ c) = (s2, Inr r)"
  shows "\<exists>s1 ps qs. push s b = (s1, Inr ps) \<and> push s1 c = (s2, Inr qs) \<and> r = ps @ qs"
proof -
  have fit: "fits (length (buf s) + length (b @ c))"
    and d: "drains next_item ((buf s @ b) @ c) r (buf s2)"
    using assms by (auto simp: push_drains)
  from drains_split [OF d refl] obtain ps x qs
    where *: "drains next_item (buf s @ b) ps x" "drains next_item (x @ c) qs (buf s2)" "r = ps @ qs"
    by blast
  obtain s1 where s1: "buf s1 = x" using buf_onto by blast
  have "length x \<le> length (buf s @ b)" using * drains_length by blast
  then have "fits (length (buf s) + length b)" "fits (length (buf s1) + length c)"
    using fit s1 by (auto elim!: fits_mono)
  with * s1 show ?thesis by (auto simp: push_drains)
qed

end

text \<open>Feeding a list of chunks, stopping at the first error.\<close>

fun feed :: "('s \<Rightarrow> bytes \<Rightarrow> 's \<times> ('p list) res) \<Rightarrow> 's \<Rightarrow> bytes list \<Rightarrow> 's \<times> ('p list) res" where
  "feed push s [] = (s, Inr [])"
| "feed push s (b # bs) =
     (case push s b of
        (s1, Inl e) \<Rightarrow> (s1, Inl e)
      | (s1, Inr ps) \<Rightarrow>
          (case feed push s1 bs of
             (s2, Inl e) \<Rightarrow> (s2, Inl e)
           | (s2, Inr qs) \<Rightarrow> (s2, Inr (ps @ qs))))"

lemma feed_Cons_Inr:
  "feed push s (b # bs) = (s2, Inr r) \<longleftrightarrow>
     (\<exists>s1 ps qs. push s b = (s1, Inr ps) \<and> feed push s1 bs = (s2, Inr qs) \<and> r = ps @ qs)"
  by (auto split: prod.splits sum.splits)

context stream_decoder
begin

lemma feed_chunks:
  assumes "push s (concat bs) = (s2, Inr r)" "bs \<noteq> []"
  shows "feed push s bs = (s2, Inr r)"
  using assms
proof (induction bs arbitrary: s r rule: induct_list012)
  case (2 b)
  then show ?case by simp
next
  case (3 b c bs)
  from "3.prems"(1) have "push s (b @ concat (c # bs)) = (s2, Inr r)" by simp
  from push_split [OF this] obtain s1 ps qs where
    "push s b = (s1, Inr ps)" "push s1 (concat (c # bs)) = (s2, Inr qs)" "r = ps @ qs"
    by blast
  with "3.IH"(2) show ?case by (auto simp: feed_Cons_Inr)
qed simp

lemma feed_drains:
  assumes "feed push s bs = (s2, Inr r)" "next_item (buf s) = NeedMore"
  shows "drains next_item (buf s @ concat bs) r (buf s2)"
  using assms
proof (induction bs arbitrary: s r)
  case Nil
  then show ?case by (auto intro: drains.intros)
next
  case (Cons b bs)
  from Cons.prems(1) obtain s1 ps qs
    where *: "push s b = (s1, Inr ps)" "feed push s1 bs = (s2, Inr qs)" "r = ps @ qs"
    unfolding feed_Cons_Inr by blast
  then have d: "drains next_item (buf s @ b) ps (buf s1)" by (simp add: push_drains)
  then have "drains next_item (buf s1 @ concat bs) qs (buf s2)"
    using Cons.IH [OF *(2)] drains_rest by blast
  from drains_append [OF d this] * show ?case by simp
qed

end

text \<open>A decoder of a framing gives back what was encoded, in any pieces.\<close>

locale framed_stream = stream_decoder next_item buf fits push + framing next_item enc sendable
  for next_item :: "bytes \<Rightarrow> 'p parse_step" and buf :: "'s \<Rightarrow> bytes" and fits push enc sendable
begin

lemma feed_framed:
  assumes "framed enc sendable ps fs" and "next_item rest = NeedMore"
    and "buf s = []" and "buf s2 = rest" and "fits (length (concat fs @ rest))"
    and "concat pieces = concat fs @ rest" and "pieces \<noteq> []"
  shows "feed push s pieces = (s2, Inr ps)"
proof -
  have "drains next_item (concat fs @ rest) ps rest"
    using drains_framed [OF assms(1) drains_stop [of next_item, OF assms(2)]] by simp
  with assms(3-6) have "push s (concat pieces) = (s2, Inr ps)" by (simp add: push_drains)
  then show ?thesis using assms(7) by (rule feed_chunks)
qed

end

end
