(* ===== verification/Tunnel_Io.thy ===== *)
theory Tunnel_Io
  imports Streams Hdlc
begin

text \<open>
  Packet input and output on the two sides of the tunnel (\<open>src/tunnel/io.rs\<close>): the request
  that switches the HTTP connection to tunnel mode, blocking reads and writes of one packet
  on the TLS side, and the incremental decoder of the frames that pppd writes to its
  pseudo terminal.

  The decoder is shown to be a \<open>stream_decoder\<close>, so that the packets it returns do not
  depend on how the bytes were cut into reads, and to return the packets that the HDLC
  encoder put on the line.
\<close>

section \<open>The TLS side\<close>

definition HTTP_HEADER_PREFIX :: bytes where
  "HTTP_HEADER_PREFIX = as_bytes ''HTTP/1''"

definition MAX_PTY_BUFFER :: nat where
  "MAX_PTY_BUFFER = 64 * 1024"

definition send_start_tunnel_request :: "string \<Rightarrow> writer \<Rightarrow> unit res \<times> writer" where
  "send_start_tunnel_request cookie w =
     (case write_pieces
             [as_bytes (''GET /remote/sslvpn-tunnel HTTP/1.1'' @ CRLF @ ''Host: sslvpn'' @ CRLF @ ''Cookie: ''),
              as_bytes cookie, as_bytes (CRLF @ CRLF)] w of
        (Inl e, w') \<Rightarrow> (Inl (Io e), w')
      | (Inr _, w') \<Rightarrow> (case flush w' of (Inl e, w'') \<Rightarrow> (Inl (Io e), w'') | (Inr _, w'') \<Rightarrow> (Inr (), w'')))"

definition read_tls_packet :: "reader \<Rightarrow> ppp_packet res \<times> reader" where
  "read_tls_packet r =
     (case read_exact HEADER_LEN r of
        (Inl e, r1) \<Rightarrow> (Inl (Io e), r1)
      | (Inr header, r1) \<Rightarrow>
          if header = HTTP_HEADER_PREFIX then (Inl PermissionDenied, r1)
          else
            let total = unat (u16_from_be_bytes (header ! 0) (header ! 1)) in
            if total < HEADER_LEN + 1 then (Inl HdlcInvalidFrame, r1)
            else
              case read_exact (total - HEADER_LEN) r1 of
                (Inl e, r2) \<Rightarrow> (Inl (Io e), r2)
              | (Inr body, r2) \<Rightarrow> (decode_from_tls_frame (header @ body), r2))"

definition write_tls_packet :: "ppp_packet \<Rightarrow> writer \<Rightarrow> unit res \<times> writer" where
  "write_tls_packet packet w =
     (case encode_for_tls packet of
        Inl e \<Rightarrow> (Inl e, w)
      | Inr frame \<Rightarrow>
          (case write_all frame w of
             (Inl e, w1) \<Rightarrow> (Inl (Io e), w1)
           | (Inr _, w1) \<Rightarrow>
               (case flush w1 of (Inl e, w2) \<Rightarrow> (Inl (Io e), w2) | (Inr _, w2) \<Rightarrow> (Inr (), w2))))"

section \<open>The pppd side\<close>

definition encode_packet_for_pty :: "hdlc_codec \<Rightarrow> ppp_packet \<Rightarrow> hdlc_codec \<times> bytes" where
  "encode_packet_for_pty codec packet = hdlc_encode codec (packet_data packet)"

record pppd_pty_decoder =
  pty_buffer :: bytes

definition pppd_pty_decoder_new :: pppd_pty_decoder where
  "pppd_pty_decoder_new = \<lparr>pty_buffer = []\<rparr>"

definition buffered_len :: "pppd_pty_decoder \<Rightarrow> nat" where
  "buffered_len decoder = length (pty_buffer decoder)"

lemma find_frame_shrinks:
  "find_frame buffer k = Inr (s, n) \<Longrightarrow> length buffer - (s + n) < length buffer - k"
  using find_frame_sound(1,2) [of buffer k s n] by linarith

text \<open>The loop over the frames in the buffer: the end of the consumed part and the packets.\<close>

function pty_loop :: "bytes \<Rightarrow> nat \<Rightarrow> ppp_packet list \<Rightarrow> (nat \<times> ppp_packet list) res" where
  "pty_loop buffer consumed_until packets =
     (case find_frame buffer consumed_until of
        Inl e \<Rightarrow> if e = HdlcNoFrameFound then Inr (consumed_until, packets) else Inl e
      | Inr (frame_start, frame_len) \<Rightarrow>
          (let frame_end = frame_start + frame_len in
           case hdlc_decode (take (frame_end - frame_start) (drop frame_start buffer)) of
             Inl e \<Rightarrow> Inl e
           | Inr d \<Rightarrow> pty_loop buffer frame_end (packets @ [ppp_packet_new d])))"
  by pat_completeness auto
termination
  by (relation "measure (\<lambda>(buffer, consumed_until, packets). length buffer - consumed_until)")
    (auto dest: find_frame_shrinks)

declare pty_loop.simps [simp del]

definition pty_push_bytes ::
  "pppd_pty_decoder \<Rightarrow> bytes \<Rightarrow> pppd_pty_decoder \<times> (ppp_packet list) res" where
  "pty_push_bytes decoder bs =
     (if length (pty_buffer decoder) + length bs > MAX_PTY_BUFFER
      then (decoder, Inl (Pppd ''pppd pty buffer exceeded maximum size''))
      else
        let decoder = decoder\<lparr>pty_buffer := pty_buffer decoder @ bs\<rparr> in
        case pty_loop (pty_buffer decoder) 0 [] of
          Inl e \<Rightarrow> (decoder, Inl e)
        | Inr (consumed_until, packets) \<Rightarrow>
            (if consumed_until > 0
             then decoder\<lparr>pty_buffer := drop consumed_until (pty_buffer decoder)\<rparr> else decoder,
             Inr packets))"

section \<open>One frame at the front of a buffer\<close>

definition pty_next :: "bytes \<Rightarrow> ppp_packet parse_step" where
  "pty_next b =
     (case find_frame b 0 of
        Inl e \<Rightarrow> NeedMore
      | Inr (s, n) \<Rightarrow>
          (case hdlc_decode (take n (drop s b)) of
             Inl e \<Rightarrow> Bad e
           | Inr d \<Rightarrow> Item (ppp_packet_new d) (drop (s + n) b)))"

lemma find_flag_shift:
  "find_flag buffer (c + k) = map_option (\<lambda>i. c + i) (find_flag (drop c buffer) k)"
  by (cases "position (\<lambda>b. b = 0x7e) (drop (c + k) buffer)")
    (simp_all add: find_flag_def add.commute)

lemma skip_flags_shift:
  "c \<le> length buffer \<Longrightarrow> skip_flags buffer (c + k) = c + skip_flags (drop c buffer) k"
proof (induction "drop c buffer" k rule: skip_flags.induct)
  case (1 k)
  show ?case
  proof (cases "c + k < length buffer \<and> buffer ! (c + k) = 0x7e")
    case True
    then have "skip_flags buffer (c + (k + 1)) = c + skip_flags (drop c buffer) (k + 1)"
      using 1 by fastforce
    with True "1.prems" show ?thesis
      by (subst (1 2) skip_flags.simps) (simp add: less_diff_conv add.commute)
  next
    case False
    with "1.prems" show ?thesis
      by (subst (1 2) skip_flags.simps) (auto simp: less_diff_conv add.commute)
  qed
qed

lemma find_frame_shift:
  assumes "c \<le> length buffer"
  shows "find_frame buffer c =
    (case find_frame (drop c buffer) 0 of Inl e \<Rightarrow> Inl e | Inr (s, n) \<Rightarrow> Inr (c + s, n))"
proof -
  have f: "find_flag buffer c = map_option (\<lambda>i. c + i) (find_flag (drop c buffer) 0)"
    using find_flag_shift [of buffer c 0] by simp
  have g: "find_flag buffer (c + k) = map_option (\<lambda>i. c + i) (find_flag (drop c buffer) k)"
    "skip_flags buffer (Suc (c + k)) = c + skip_flags (drop c buffer) (Suc k)" for k
    using find_flag_shift [of buffer c k] skip_flags_shift [OF assms, of "Suc k"] by simp_all
  show ?thesis
    unfolding find_frame_def f
    by (simp add: g Let_def split: option.split)
qed

lemma find_flag_append: "find_flag b k = Some i \<Longrightarrow> find_flag (b @ c) k = Some i"
proof -
  assume a: "find_flag b k = Some i"
  then obtain j where j: "position (\<lambda>b. b = 0x7e) (drop k b) = Some j" "i = k + j"
    by (auto simp: find_flag_def)
  then have "j < length b - k" by (simp add: position_Some)
  then have "drop k (b @ c) = drop k b @ c" by simp
  with j show ?thesis by (simp add: find_flag_def position_append)
qed

lemma skip_flags_append:
  "skip_flags b k < length b \<Longrightarrow> skip_flags (b @ c) k = skip_flags b k"
proof (induction b k rule: skip_flags.induct)
  case (1 b k)
  show ?case
  proof (cases "k < length b \<and> b ! k = 0x7e")
    case True
    then have "skip_flags b k = skip_flags b (k + 1)" by (subst skip_flags.simps) simp
    moreover have "skip_flags (b @ c) k = skip_flags (b @ c) (k + 1)"
      using True by (subst skip_flags.simps) (simp add: nth_append)
    ultimately show ?thesis using 1 True by simp
  next
    case False
    then have "skip_flags b k = k" by (subst skip_flags.simps) auto
    with "1.prems" False show ?thesis by (subst skip_flags.simps) (auto simp: nth_append)
  qed
qed

lemma find_frame_append:
  assumes "find_frame b k = Inr (s, n)"
  shows "find_frame (b @ c) k = Inr (s, n)"
proof -
  obtain i e where i: "find_flag b k = Some i" and s: "s = skip_flags b (i + 1)"
    and e: "find_flag b s = Some e" and n: "n = e - s"
    using assms by (auto simp: find_frame_def Let_def split: option.splits)
  have "s < length b" using find_frame_sound(2) [OF assms] by simp
  then have "skip_flags (b @ c) (i + 1) = s" using s skip_flags_append by simp
  then show ?thesis
    using find_flag_append [OF i] find_flag_append [OF e] n by (simp add: find_frame_def)
qed

lemma find_frame_error: "find_frame b k = Inl e \<Longrightarrow> e = HdlcNoFrameFound"
  by (auto simp: find_frame_def Let_def split: option.splits)

interpretation pty_parser: frame_parser pty_next
proof
  fix b c :: bytes and p r e
  show "pty_next (b @ c) = Item p (r @ c)" if item: "pty_next b = Item p r"
  proof -
    obtain s n where f: "find_frame b 0 = Inr (s, n)"
      using item by (auto simp: pty_next_def split: sum.splits)
    have "s + n < length b" using find_frame_sound(2) [OF f] .
    with that f find_frame_append [OF f, of c] show ?thesis
      by (auto simp: pty_next_def split: sum.splits)
  qed
  show "pty_next (b @ c) = Bad e" if bad: "pty_next b = Bad e"
  proof -
    obtain s n where f: "find_frame b 0 = Inr (s, n)"
      using bad by (auto simp: pty_next_def split: sum.splits)
    have "s + n < length b" using find_frame_sound(2) [OF f] .
    with that f find_frame_append [OF f, of c] show ?thesis
      by (auto simp: pty_next_def split: sum.splits)
  qed
  show "length r < length b" if "pty_next b = Item p r"
    using that find_frame_sound(1,2) [of b 0]
    by (fastforce simp: pty_next_def split: sum.splits)
qed

section \<open>The loop drains the buffer\<close>

lemma pty_next_suffix:
  "pty_next (drop c buffer) = Item p r \<Longrightarrow> drop (length buffer - length r) buffer = r"
proof -
  assume "pty_next (drop c buffer) = Item p r"
  then obtain k where "r = drop k buffer"
    by (auto simp: pty_next_def split: sum.splits)
  then show ?thesis by (cases "k \<le> length buffer") simp_all
qed

lemma pty_loop_step:
  assumes "c \<le> length buffer"
  shows "pty_loop buffer c acc =
    (case pty_next (drop c buffer) of
       NeedMore \<Rightarrow> Inr (c, acc)
     | Bad e \<Rightarrow> Inl e
     | Item p r \<Rightarrow> pty_loop buffer (length buffer - length r) (acc @ [p]))"
proof (cases "find_frame (drop c buffer) 0")
  case (Inl e)
  then show ?thesis
    using find_frame_error [OF Inl] assms
    by (subst pty_loop.simps) (simp add: find_frame_shift [OF assms] pty_next_def)
next
  case (Inr sn)
  obtain s n where sn: "sn = (s, n)" by fastforce
  have "c + s + n < length buffer"
    using find_frame_sound(2) [of "drop c buffer" 0 s n] Inr sn by simp
  then have "length buffer - length (drop (s + n) (drop c buffer)) = c + s + n" by simp
  with Inr sn show ?thesis
    by (subst pty_loop.simps)
      (simp add: find_frame_shift [OF assms] pty_next_def add.commute add.left_commute
        split: sum.split)
qed

lemma pty_loop_drains:
  "pty_loop buffer c acc = Inr (c', acc') \<Longrightarrow> c \<le> length buffer \<Longrightarrow>
   c \<le> c' \<and> (\<exists>ps. acc' = acc @ ps \<and> drains pty_next (drop c buffer) ps (drop c' buffer))"
proof (induction "length buffer - c" arbitrary: c acc rule: less_induct)
  case less
  show ?case
  proof (cases "pty_next (drop c buffer)")
    case NeedMore
    with less.prems show ?thesis by (auto simp: pty_loop_step intro: drains_stop)
  next
    case (Bad e)
    with less.prems show ?thesis by (simp add: pty_loop_step)
  next
    case (Item p r)
    let ?d = "length buffer - length r"
    have lt: "length r < length buffer - c" using pty_parser.item_progress [OF Item] by simp
    have suffix: "drop ?d buffer = r"
      by (rule pty_next_suffix [OF Item])
    have "pty_loop buffer ?d (acc @ [p]) = Inr (c', acc')"
      using less.prems Item by (simp add: pty_loop_step)
    moreover have "length buffer - ?d < length buffer - c" using lt less.prems by linarith
    ultimately obtain ps where "?d \<le> c'" "acc' = (acc @ [p]) @ ps"
      "drains pty_next (drop ?d buffer) ps (drop c' buffer)"
      using less.hyps [of ?d "acc @ [p]"] lt by auto
    moreover have "c \<le> ?d" using lt by linarith
    ultimately show ?thesis using Item suffix by (auto intro: drains_item)
  qed
qed

lemma drains_pty_loop:
  "drains pty_next b ps r \<Longrightarrow> b = drop c buffer \<Longrightarrow> c \<le> length buffer \<Longrightarrow>
   pty_loop buffer c acc = Inr (length buffer - length r, acc @ ps)
     \<and> drop (length buffer - length r) buffer = r"
proof (induction arbitrary: c acc rule: drains.induct)
  case (drains_stop b)
  then show ?case by (simp add: pty_loop_step)
next
  case (drains_item b p r ps r')
  have lt: "length r < length buffer - c"
    using pty_parser.item_progress [OF drains_item.hyps(1)] drains_item.prems by simp
  have "drop (length buffer - length r) buffer = r"
    using drains_item.hyps(1) drains_item.prems pty_next_suffix by blast
  with drains_item.IH [of "length buffer - length r" "acc @ [p]"]
  show ?case using drains_item.hyps(1) drains_item.prems by (simp add: pty_loop_step)
qed

interpretation pty: stream_decoder pty_next pty_buffer "\<lambda>n. n \<le> MAX_PTY_BUFFER" pty_push_bytes
proof
  fix s s' :: pppd_pty_decoder and bs b :: bytes and ps
  show "\<exists>s :: pppd_pty_decoder. pty_buffer s = b" by (rule exI [of _ "\<lparr>pty_buffer = b\<rparr>"]) simp
  show "pty_push_bytes s bs \<noteq> (s', Inr ps)" if "\<not> length (pty_buffer s) + length bs \<le> MAX_PTY_BUFFER"
    using that by (simp add: pty_push_bytes_def)
  show "pty_push_bytes s bs = (s', Inr ps) \<longleftrightarrow> drains pty_next (pty_buffer s @ bs) ps (pty_buffer s')"
    if fit: "length (pty_buffer s) + length bs \<le> MAX_PTY_BUFFER"
  proof
    assume "pty_push_bytes s bs = (s', Inr ps)"
    with fit obtain c where "pty_loop (pty_buffer s @ bs) 0 [] = Inr (c, ps)"
      and "pty_buffer s' = drop c (pty_buffer s @ bs)"
      by (auto simp: pty_push_bytes_def Let_def split: sum.splits if_splits)
    with pty_loop_drains [of "pty_buffer s @ bs" 0 "[]" c ps]
    show "drains pty_next (pty_buffer s @ bs) ps (pty_buffer s')" by simp
  next
    assume "drains pty_next (pty_buffer s @ bs) ps (pty_buffer s')"
    from drains_pty_loop [OF this, of 0 "pty_buffer s @ bs" "[]"]
    show "pty_push_bytes s bs = (s', Inr ps)"
      using fit by (auto simp: pty_push_bytes_def Let_def)
  qed
qed simp

section \<open>What the encoder puts on the line\<close>

text \<open>Encoding packets one after the other with one codec.\<close>

fun encode_stream :: "hdlc_codec \<Rightarrow> ppp_packet list \<Rightarrow> hdlc_codec \<times> bytes" where
  "encode_stream codec [] = (codec, [])"
| "encode_stream codec (p # ps) =
     (let (codec1, frame) = encode_packet_for_pty codec p;
          (codec2, frames) = encode_stream codec1 ps
      in (codec2, frame @ frames))"

definition closed_bodies :: "ppp_packet list \<Rightarrow> bytes" where
  "closed_bodies ps = concat (map (\<lambda>p. frame_body (packet_data p) @ [0x7e]) ps)"

lemma encode_stream_bodies:
  "snd (encode_stream codec ps) =
     (if need_flag_sequence codec \<and> ps \<noteq> [] then [0x7e] else []) @ closed_bodies ps"
proof (induction ps arbitrary: codec)
  case Nil
  then show ?case by (simp add: closed_bodies_def)
next
  case (Cons p ps)
  have "snd (encode_stream \<lparr>need_flag_sequence = False\<rparr> ps) = closed_bodies ps"
    using Cons.IH [of "\<lparr>need_flag_sequence = False\<rparr>"] by simp
  then show ?case
    by (simp add: encode_packet_for_pty_def hdlc_encode_body closed_bodies_def split_def)
qed

lemma pty_next_frame:
  assumes "packet_data p \<noteq> []"
  shows "pty_next (0x7e # frame_body (packet_data p) @ 0x7e # c) = Item p (0x7e # c)"
proof -
  let ?b = "frame_body (packet_data p)"
  have "?b \<noteq> []" using length_frame_body [of "packet_data p"] by auto
  then have "find_frame ([] @ [] @ replicate 1 0x7e @ ?b @ 0x7e # c) 0 = Inr (0 + 0 + 1, length ?b)"
    using frame_body_no_flag find_frame_at [of "[]" ?b "[]" 0 1 c] by simp
  then have "find_frame (0x7e # ?b @ 0x7e # c) 0 = Inr (1, length ?b)" by simp
  moreover have "ppp_packet_new (packet_data p) = p" by (simp add: ppp_packet_new_def)
  ultimately show ?thesis
    using assms by (simp add: pty_next_def hdlc_decode_body)
qed

lemma pty_next_flag: "pty_next [0x7e] = NeedMore"
  by (simp add: pty_next_def find_frame_def find_flag_def skip_flags_stop)

lemma drains_closed_bodies:
  "\<forall>p \<in> set ps. packet_data p \<noteq> [] \<Longrightarrow> drains pty_next (0x7e # closed_bodies ps) ps [0x7e]"
proof (induction ps)
  case Nil
  then show ?case by (simp add: closed_bodies_def pty_next_flag drains_stop)
next
  case (Cons p ps)
  have "pty_next (0x7e # closed_bodies (p # ps)) = Item p (0x7e # closed_bodies ps)"
    using Cons.prems pty_next_frame [of p "closed_bodies ps"] by (simp add: closed_bodies_def)
  with Cons show ?case by (auto intro: drains_item)
qed

section \<open>Properties\<close>

text \<open>C26. The packets that the pppd decoder returns do not depend on how its input was cut:
  if one push of the whole input succeeds, then so does the same input in any pieces, with
  the same packets in the same order and the same bytes left over.\<close>

theorem pty_chunks_irrelevant:
  assumes "pty_push_bytes decoder (concat chunks) = (decoder', Inr packets)" "chunks \<noteq> []"
  shows "feed pty_push_bytes decoder chunks = (decoder', Inr packets)"
  using assms by (rule pty.feed_chunks)

text \<open>C16. From pppd to the tunnel nothing is lost: the packets that were framed with one HDLC
  encoder come out of the decoder unchanged and in order, in whatever pieces the bytes
  arrive, and only the closing flag of the last frame stays in the buffer.\<close>

theorem pty_stream_round_trip:
  assumes "\<forall>p \<in> set packets. packet_data p \<noteq> []" "packets \<noteq> []"
    and "length (snd (encode_stream hdlc_new packets)) \<le> MAX_PTY_BUFFER"
    and "concat chunks = snd (encode_stream hdlc_new packets)"
  shows "feed pty_push_bytes pppd_pty_decoder_new chunks = (\<lparr>pty_buffer = [0x7e]\<rparr>, Inr packets)"
proof -
  have stream: "snd (encode_stream hdlc_new packets) = 0x7e # closed_bodies packets"
    using assms(2) by (simp add: encode_stream_bodies hdlc_new_def)
  have "pty_push_bytes pppd_pty_decoder_new (concat chunks) = (\<lparr>pty_buffer = [0x7e]\<rparr>, Inr packets)"
    using drains_closed_bodies [OF assms(1)] assms(3,4) stream
    by (simp add: pty.push_drains pppd_pty_decoder_new_def)
  moreover have "chunks \<noteq> []" using assms(4) stream by auto
  ultimately show ?thesis by (rule pty.feed_chunks)
qed

section \<open>Packets and their frames for the tunnel\<close>

definition tls_frames :: "ppp_packet list \<Rightarrow> bytes list \<Rightarrow> bool" where
  "tls_frames packets frames = list_all2 (\<lambda>p f. encode_for_tls p = Inr f) packets frames"

lemma tls_frames_simps [simp]:
  "tls_frames [] fs \<longleftrightarrow> fs = []"
  "tls_frames (p # ps) (f # fs) \<longleftrightarrow> encode_for_tls p = Inr f \<and> tls_frames ps fs"
  by (simp_all add: tls_frames_def)

lemma tls_frames_append:
  "tls_frames ps fs \<Longrightarrow> tls_frames qs gs \<Longrightarrow> tls_frames (ps @ qs) (fs @ gs)"
  by (simp add: tls_frames_def list_all2_appendI)

lemma framed_tls_frames:
  "tls_frames ps fs \<Longrightarrow> \<forall>p \<in> set ps. packet_data p \<noteq> [] \<Longrightarrow>
   framed encode_for_tls (\<lambda>p. packet_data p \<noteq> []) ps fs"
  by (induction ps arbitrary: fs) (auto simp: tls_frames_def list_all2_Cons1)

lemma frame_not_http:
  "length d \<le> 65529 \<Longrightarrow> take 6 (tls_header n @ d) \<noteq> HTTP_HEADER_PREFIX"
  by (simp add: tls_header_def u16_to_be_bytes_def HTTP_HEADER_PREFIX_def as_bytes_def
      FORTINET_MAGIC_def)

lemma header_total:
  "n \<le> 65529 \<Longrightarrow> unat (u16_from_be_bytes (tls_header n ! 0) (tls_header n ! 1)) = 6 + n"
  using unat_u16_of_nat [of "6 + n"]
  by (simp add: tls_header_def HEADER_LEN_def u16_to_be_bytes_def codec_simps)

text \<open>A packet written to the TLS stream is read back as it was, from a stream that
  delivers the bytes in any non-empty pieces; what follows it in the stream is left for
  the next read.\<close>

theorem tls_packet_round_trip:
  assumes "packet_data packet \<noteq> []" "length (packet_data packet) \<le> 65529"
    and "accepts w = []" "flush_answer w = Inr ()"
    and "data_only r"
    and "reader_bytes r = drop (length (sent w)) (sent (snd (write_tls_packet packet w))) @ rest"
  shows "fst (write_tls_packet packet w) = Inr () \<and>
    (\<exists>r'. read_tls_packet r = (Inr packet, r') \<and> data_only r' \<and> reader_bytes r' = rest)"
proof -
  let ?n = "length (packet_data packet)"
  let ?frame = "tls_header ?n @ packet_data packet"
  have enc: "encode_for_tls packet = Inr ?frame"
    using assms(2) by (simp add: encode_for_tls_header)
  have w: "write_tls_packet packet w = (Inr (), w\<lparr>sent := sent w @ ?frame\<rparr>)"
    using assms(3,4) enc by (simp add: write_tls_packet_def write_all_willing flush_def)
  have bytes: "reader_bytes r = tls_header ?n @ packet_data packet @ rest"
    using assms(6) by (simp add: w)
  obtain r1 where r1: "read_exact 6 r = (Inr (tls_header ?n), r1)" "data_only r1"
    "reader_bytes r1 = packet_data packet @ rest"
    using read_exact_data [OF assms(5), of 6] by (auto simp: bytes)
  obtain r2 where r2: "read_exact ?n r1 = (Inr (packet_data packet), r2)" "data_only r2"
    "reader_bytes r2 = rest"
    using read_exact_data [OF r1(2), of ?n] by (auto simp: r1(3))
  have "tls_header ?n \<noteq> HTTP_HEADER_PREFIX"
    using frame_not_http [of "[]" ?n] by simp
  moreover have "decode_from_tls_frame ?frame = Inr packet"
    using assms(1,2) by (simp add: decode_header ppp_packet_new_def Suc_le_eq)
  ultimately have "read_tls_packet r = (Inr packet, r2)"
    using r1 r2 assms(1,2) header_total [OF assms(2)]
    by (simp add: read_tls_packet_def HEADER_LEN_def)
  with r2 w show ?thesis by simp
qed

text \<open>A small packet for the witnesses, and the stream that holds it alone.\<close>

definition sample_packet :: ppp_packet where
  "sample_packet = ppp_packet_new [0x80, 0x21]"

lemma sample_push:
  "pty_push_bytes pppd_pty_decoder_new (0x7e # closed_bodies [sample_packet])
     = (\<lparr>pty_buffer = [0x7e]\<rparr>, Inr [sample_packet])"
  using drains_closed_bodies [of "[sample_packet]"] length_frame_body_le [of "[0x80, 0x21]"]
  by (simp add: pty.push_drains pppd_pty_decoder_new_def sample_packet_def ppp_packet_new_def
      closed_bodies_def MAX_PTY_BUFFER_def)

theorem pty_chunks_irrelevant_witness:
  "feed pty_push_bytes pppd_pty_decoder_new
     [take 3 (0x7e # closed_bodies [sample_packet]), drop 3 (0x7e # closed_bodies [sample_packet])]
   = (\<lparr>pty_buffer = [0x7e]\<rparr>, Inr [sample_packet])"
  by (rule pty_chunks_irrelevant) (simp_all only: concat.simps append_Nil2 append_take_drop_id
      sample_push list.distinct simp_thms)

theorem pty_stream_round_trip_witness:
  "feed pty_push_bytes pppd_pty_decoder_new [snd (encode_stream hdlc_new [sample_packet])]
   = (\<lparr>pty_buffer = [0x7e]\<rparr>, Inr [sample_packet])"
  using length_frame_body_le [of "[0x80, 0x21]"]
  by (intro pty_stream_round_trip)
    (simp_all add: encode_stream_bodies closed_bodies_def sample_packet_def ppp_packet_new_def
      MAX_PTY_BUFFER_def del: encode_stream.simps)

theorem tls_packet_round_trip_witness:
  "fst (write_tls_packet (ppp_packet_new [1]) \<lparr>accepts = [], sent = [], flush_answer = Inr ()\<rparr>) = Inr () \<and>
    (\<exists>r'. read_tls_packet [Inr [0, 7, 0x50], Inr [0x50, 0, 1, 1, 9]] = (Inr (ppp_packet_new [1]), r')
      \<and> data_only r' \<and> reader_bytes r' = [9])"
  by (rule tls_packet_round_trip)
    (simp_all add: ppp_packet_new_def write_tls_packet_def encode_for_tls_def write_all_willing
      flush_def HEADER_LEN_def FORTINET_MAGIC_def u16_to_be_bytes_def)

end
