(* ===== verification/Fortinet.thy ===== *)
theory Fortinet
  imports Tunnel_Io
begin

text \<open>
  The packet transport of proxy mode (\<open>src/tunnel/fortinet.rs\<close>): packets are read from the
  TLS stream through a buffer of its own. The stream is a reader (with its timeouts as
  I/O errors among its answers) and a writer.

  Shown here: the front of the buffer is parsed by a \<open>frame_parser\<close>, so that a read gives
  the next packet whatever the pieces in which the bytes arrive; a failed read of the
  stream, for example a timeout, loses nothing.
\<close>

definition READ_BUFFER_SIZE :: nat where
  "READ_BUFFER_SIZE = 16 * 1024"

definition MAX_PACKET_BUFFER_SIZE :: nat where
  "MAX_PACKET_BUFFER_SIZE = 1024 * 1024"

record fortinet_transport =
  stream_in :: reader
  stream_out :: writer
  read_buffer :: bytes

definition fortinet_transport_new :: "reader \<Rightarrow> writer \<Rightarrow> fortinet_transport" where
  "fortinet_transport_new r w = \<lparr>stream_in = r, stream_out = w, read_buffer = []\<rparr>"

definition try_decode_buffered_packet ::
  "fortinet_transport \<Rightarrow> fortinet_transport \<times> (ppp_packet option) res" where
  "try_decode_buffered_packet t =
     (if length (read_buffer t) < HEADER_LEN then (t, Inr None)
      else if take HEADER_LEN (read_buffer t) = HTTP_HEADER_PREFIX then (t, Inl PermissionDenied)
      else
        let total = unat (u16_from_be_bytes (read_buffer t ! 0) (read_buffer t ! 1)) in
        if total < HEADER_LEN + 1 then (t, Inl HdlcInvalidFrame)
        else if length (read_buffer t) < total then (t, Inr None)
        else
          let frame = take total (read_buffer t);
              t = t\<lparr>read_buffer := drop total (read_buffer t)\<rparr>
          in case decode_from_tls_frame frame of
               Inl e \<Rightarrow> (t, Inl e)
             | Inr packet \<Rightarrow> (t, Inr (Some packet)))"

text \<open>How many reads a stream can still answer: each read takes one delivery of it, or at
  least cuts a long one.\<close>

definition read_work :: "reader \<Rightarrow> nat" where
  "read_work r = length r + (\<Sum>x\<leftarrow>r. case x of Inl e \<Rightarrow> 0 | Inr bs \<Rightarrow> length bs)"

lemma read_work_decreases:
  "read_some n r = (Inr bs, r') \<Longrightarrow> bs \<noteq> [] \<Longrightarrow> read_work r' < read_work r"
  by (cases "(n, r)" rule: read_some.cases) (auto simp: read_work_def split: if_splits)

lemma stream_in_try: "stream_in (fst (try_decode_buffered_packet t)) = stream_in t"
  by (simp add: try_decode_buffered_packet_def Let_def split: sum.split)

lemma read_packet_shrinks:
  "(t1, Inr None) = try_decode_buffered_packet t \<Longrightarrow> (Inr bs, r) = read_some n (stream_in t1) \<Longrightarrow>
   bs \<noteq> [] \<Longrightarrow> read_work r < read_work (stream_in t)"
  by (metis fst_conv read_work_decreases stream_in_try)

function read_packet :: "fortinet_transport \<Rightarrow> fortinet_transport \<times> ppp_packet res" where
  "read_packet t =
     (case try_decode_buffered_packet t of
        (t1, Inl e) \<Rightarrow> (t1, Inl e)
      | (t1, Inr (Some packet)) \<Rightarrow> (t1, Inr packet)
      | (t1, Inr None) \<Rightarrow>
          (case read_some READ_BUFFER_SIZE (stream_in t1) of
             (Inl e, r) \<Rightarrow> (t1\<lparr>stream_in := r\<rparr>, Inl (Io e))
           | (Inr bs, r) \<Rightarrow>
               if bs = [] then (t1\<lparr>stream_in := r\<rparr>, Inl (Io (IoError UnexpectedEof ''VPN tunnel closed'')))
               else
                 let t2 = t1\<lparr>stream_in := r, read_buffer := read_buffer t1 @ bs\<rparr> in
                 if length (read_buffer t2) > MAX_PACKET_BUFFER_SIZE
                 then (t2, Inl (Network ''Fortinet packet buffer exceeded maximum size''))
                 else read_packet t2))"
  by pat_completeness auto
termination
  by (relation "measure (\<lambda>t. read_work (stream_in t))") (auto dest: read_packet_shrinks)

declare read_packet.simps [simp del]

definition write_packet :: "fortinet_transport \<Rightarrow> ppp_packet \<Rightarrow> fortinet_transport \<times> unit res" where
  "write_packet t packet =
     (case write_tls_packet packet (stream_out t) of (r, w) \<Rightarrow> (t\<lparr>stream_out := w\<rparr>, r))"

definition into_inner :: "fortinet_transport \<Rightarrow> reader \<times> writer" where
  "into_inner t = (stream_in t, stream_out t)"

section \<open>The parser at the front of the buffer\<close>

definition fortinet_next :: "bytes \<Rightarrow> ppp_packet parse_step" where
  "fortinet_next b =
     (case try_decode_buffered_packet \<lparr>stream_in = [], stream_out = \<lparr>accepts = [], sent = [], flush_answer = Inr ()\<rparr>, read_buffer = b\<rparr> of
        (t, Inl e) \<Rightarrow> Bad e
      | (t, Inr None) \<Rightarrow> NeedMore
      | (t, Inr (Some p)) \<Rightarrow> Item p (read_buffer t))"

lemma fortinet_next_eq:
  "fortinet_next b =
     (if length b < 6 then NeedMore
      else if take 6 b = HTTP_HEADER_PREFIX then Bad PermissionDenied
      else
        let total = unat (u16_from_be_bytes (b ! 0) (b ! 1)) in
        if total < 7 then Bad HdlcInvalidFrame
        else if length b < total then NeedMore
        else case decode_from_tls_frame (take total b) of
               Inl e \<Rightarrow> Bad e | Inr p \<Rightarrow> Item p (drop total b))"
  by (simp add: fortinet_next_def try_decode_buffered_packet_def HEADER_LEN_def Let_def
      split: sum.split)

lemma try_decode_next:
  "try_decode_buffered_packet t =
     (case fortinet_next (read_buffer t) of
        NeedMore \<Rightarrow> (t, Inr None)
      | Item p r \<Rightarrow> (t\<lparr>read_buffer := r\<rparr>, Inr (Some p))
      | Bad e \<Rightarrow> (fst (try_decode_buffered_packet t), Inl e))"
  by (simp add: fortinet_next_eq try_decode_buffered_packet_def HEADER_LEN_def Let_def
      split: sum.split)

interpretation fortinet: frame_parser fortinet_next
proof
  fix b c :: bytes and p r e
  have nth: "(b @ c) ! 0 = b ! 0" "(b @ c) ! 1 = b ! 1" if "\<not> length b < 6"
    using that by (auto simp: nth_append)
  show "fortinet_next (b @ c) = Item p (r @ c)" if "fortinet_next b = Item p r"
    using that nth
    by (auto simp: fortinet_next_eq Let_def split: if_splits sum.splits)
  show "fortinet_next (b @ c) = Bad e" if "fortinet_next b = Bad e"
    using that nth
    by (auto simp: fortinet_next_eq Let_def split: if_splits sum.splits)
  show "length r < length b" if "fortinet_next b = Item p r"
    using that by (auto simp: fortinet_next_eq Let_def split: if_splits sum.splits)
qed

lemma fortinet_next_frame:
  assumes "encode_for_tls packet = Inr frame" "packet_data packet \<noteq> []"
  shows "fortinet_next (frame @ c) = Item packet c"
proof -
  let ?n = "length (packet_data packet)"
  have n: "?n \<le> 65529" and frame: "frame = tls_header ?n @ packet_data packet"
    using assms(1) by (auto simp: encode_for_tls_header)
  have "take 6 (frame @ c) \<noteq> HTTP_HEADER_PREFIX"
    using frame_not_http [of "[]" ?n] by (simp add: frame)
  moreover have "unat (u16_from_be_bytes ((frame @ c) ! 0) ((frame @ c) ! 1)) = 6 + ?n"
    using header_total [OF n] by (simp add: frame nth_append)
  moreover have "decode_from_tls_frame frame = Inr packet"
    using assms(2) n by (simp add: frame decode_header ppp_packet_new_def Suc_le_eq)
  moreover have "length frame = 6 + ?n" by (simp add: frame)
  ultimately show ?thesis
    using assms(2) by (simp add: fortinet_next_eq)
qed

interpretation fortinet_framing: framing fortinet_next encode_for_tls "\<lambda>p. packet_data p \<noteq> []"
  by unfold_locales (fact fortinet_next_frame, simp add: fortinet_next_eq)

section \<open>Properties\<close>

text \<open>The bytes that have arrived or will arrive, in order.\<close>

definition incoming_bytes :: "fortinet_transport \<Rightarrow> bytes" where
  "incoming_bytes t = read_buffer t @ reader_bytes (stream_in t)"

lemma read_some_bytes:
  "read_some n r = (Inr bs, r') \<Longrightarrow> reader_bytes r = bs @ reader_bytes r'"
  by (cases "(n, r)" rule: read_some.cases) (auto split: if_splits)

lemma read_some_data_only:
  "read_some n r = (Inr bs, r') \<Longrightarrow> data_only r \<Longrightarrow> 0 < n \<Longrightarrow> data_only r' \<and> (bs = [] \<longrightarrow> r = [])"
  by (cases "(n, r)" rule: read_some.cases) (auto split: if_splits)

lemma read_some_data: "data_only r \<Longrightarrow> r \<noteq> [] \<Longrightarrow> \<exists>bs r'. read_some n r = (Inr bs, r')"
  by (cases "(n, r)" rule: read_some.cases) auto

lemma fortinet_needs_less:
  assumes "fortinet_next (b @ c) = Item p r" "fortinet_next b = NeedMore"
  shows "length b < 65536"
proof -
  have "length b < 6 \<or> length b < unat (u16_from_be_bytes (b ! 0) (b ! 1))"
    using assms(2) by (auto simp: fortinet_next_eq Let_def split: if_splits sum.splits)
  then show ?thesis
    using unat_u16_less [of "u16_from_be_bytes (b ! 0) (b ! 1)"] by linarith
qed

lemma read_packet_next:
  assumes "data_only (stream_in t)" "fortinet_next (incoming_bytes t) = Item p r"
  shows "\<exists>t'. read_packet t = (t', Inr p) \<and> incoming_bytes t' = r \<and> data_only (stream_in t')
    \<and> stream_out t' = stream_out t"
  using assms
proof (induction "read_work (stream_in t)" arbitrary: t rule: less_induct)
  case less
  show ?case
  proof (cases "fortinet_next (read_buffer t)")
    case (Item p' r')
    with fortinet.item_append [OF Item] less.prems(2) have "p' = p" "r = r' @ reader_bytes (stream_in t)"
      by (auto simp: incoming_bytes_def)
    with Item less.prems(1) show ?thesis
      by (subst read_packet.simps) (simp add: try_decode_next incoming_bytes_def)
  next
    case (Bad e)
    then show ?thesis using fortinet.bad_append [OF Bad] less.prems(2) by (simp add: incoming_bytes_def)
  next
    case NeedMore
    have short: "length (read_buffer t) < 65536"
      using fortinet_needs_less less.prems(2) NeedMore by (auto simp: incoming_bytes_def)
    have ne: "stream_in t \<noteq> []"
      using less.prems(2) NeedMore by (auto simp: incoming_bytes_def)
    obtain bs r1 where rs: "read_some READ_BUFFER_SIZE (stream_in t) = (Inr bs, r1)"
      using read_some_data [OF less.prems(1) ne] by blast
    have bs: "bs \<noteq> []" "data_only r1"
      using read_some_data_only [OF rs less.prems(1)] ne by (auto simp: READ_BUFFER_SIZE_def)
    have len: "length bs \<le> READ_BUFFER_SIZE"
      using rs by (cases "(READ_BUFFER_SIZE, stream_in t)" rule: read_some.cases) (auto split: if_splits)
    let ?t2 = "t\<lparr>stream_in := r1, read_buffer := read_buffer t @ bs\<rparr>"
    have "incoming_bytes ?t2 = incoming_bytes t"
      using read_some_bytes [OF rs] by (simp add: incoming_bytes_def)
    moreover have "read_packet t = read_packet ?t2"
      using rs bs len short
      by (subst read_packet.simps)
        (simp add: try_decode_next NeedMore READ_BUFFER_SIZE_def MAX_PACKET_BUFFER_SIZE_def Let_def)
    moreover have "read_work (stream_in ?t2) < read_work (stream_in t)"
      using read_work_decreases [OF rs bs(1)] by simp
    ultimately show ?thesis
      using less.hyps [of ?t2] less.prems bs by simp
  qed
qed

text \<open>Reading packets until the stream reports an error.\<close>

fun read_packets :: "fortinet_transport \<Rightarrow> nat \<Rightarrow> fortinet_transport \<times> ppp_packet list" where
  "read_packets t 0 = (t, [])"
| "read_packets t (Suc n) =
     (case read_packet t of
        (t1, Inl e) \<Rightarrow> (t1, [])
      | (t1, Inr p) \<Rightarrow> (case read_packets t1 n of (t2, ps) \<Rightarrow> (t2, p # ps)))"

lemma read_packets_stream:
  "data_only (stream_in t) \<Longrightarrow>
   incoming_bytes t = concat frames @ rest \<Longrightarrow>
   framed encode_for_tls (\<lambda>p. packet_data p \<noteq> []) packets frames \<Longrightarrow>
   \<exists>t'. read_packets t (length packets) = (t', packets) \<and> incoming_bytes t' = rest
      \<and> data_only (stream_in t')"
proof (induction packets arbitrary: t frames)
  case (Cons p ps)
  then obtain frame fs where f: "frames = frame # fs" "encode_for_tls p = Inr frame" "packet_data p \<noteq> []"
    "framed encode_for_tls (\<lambda>p. packet_data p \<noteq> []) ps fs" by auto
  have "fortinet_next (incoming_bytes t) = Item p (concat fs @ rest)"
    using fortinet_framing.next_frame [OF f(2,3)] Cons.prems(2) f(1) by simp
  from read_packet_next [OF Cons.prems(1) this] obtain t1
    where t1: "read_packet t = (t1, Inr p)" "incoming_bytes t1 = concat fs @ rest" "data_only (stream_in t1)"
    by blast
  from Cons.IH [OF t1(3,2) f(4)] t1 show ?case by auto
qed simp

text \<open>A new transport reads what was framed into its stream.\<close>

lemma new_transport_reads:
  assumes "data_only r" and "reader_bytes r = concat frames @ rest"
    and "tls_frames packets frames" and "\<forall>p \<in> set packets. packet_data p \<noteq> []"
  shows "\<exists>t'. read_packets (fortinet_transport_new r w) (length packets) = (t', packets) \<and> incoming_bytes t' = rest"
  using read_packets_stream [of "fortinet_transport_new r w" frames rest packets] framed_tls_frames [OF assms(3,4)]
    assms(1,2)
  by (auto simp: fortinet_transport_new_def incoming_bytes_def)

text \<open>C17. Proxy mode receives exactly what was sent: reading as many packets as were encoded
  into the stream returns them in order, however the stream cuts the bytes, and leaves
  what follows them untouched.\<close>

theorem fortinet_stream_round_trip:
  assumes "data_only r" "reader_bytes r = concat frames @ rest"
    and "tls_frames packets frames" "\<forall>p \<in> set packets. packet_data p \<noteq> []"
  shows "\<exists>t'. read_packets (fortinet_transport_new r w) (length packets) = (t', packets)
    \<and> incoming_bytes t' = rest"
  using assms by (rule new_transport_reads)

theorem fortinet_stream_round_trip_witness:
  "\<exists>t'. read_packets (fortinet_transport_new [Inr [0, 7, 0x50], Inr [0x50, 0, 1, 1, 9]]
        \<lparr>accepts = [], sent = [], flush_answer = Inr ()\<rparr>) (length [ppp_packet_new [1]])
      = (t', [ppp_packet_new [1]])
    \<and> incoming_bytes t' = [9]"
  by (rule fortinet_stream_round_trip [where frames = "[[0, 7, 0x50, 0x50, 0, 1, 1]]"])
    (simp_all add: encode_for_tls_def ppp_packet_new_def HEADER_LEN_def FORTINET_MAGIC_def
      u16_to_be_bytes_def)

text \<open>A read that times out or fails on the stream keeps every byte received so far.\<close>

lemma read_packet_failed:
  "fortinet_next (read_buffer t) = NeedMore \<Longrightarrow> stream_in t = Inl e # r \<Longrightarrow>
   read_packet t = (t\<lparr>stream_in := r\<rparr>, Inl (Io e))"
  by (subst read_packet.simps) (simp add: try_decode_next)

end
