(* ===== verification/Forward.thy ===== *)
theory Forward
  imports Tunnel_Io
begin

text \<open>
  The forwarding loop between the pseudo terminal of pppd and the TLS stream
  (\<open>src/tunnel/forward.rs\<close>): the incremental decoder of the TLS stream, the queues of
  bytes to write, the two directions of one round and the loop itself.

  The environment of a round is its poll result and the readers and writers behind the two
  descriptors: \<open>poll\<close>, the descriptors and the stop flag belong to the operating system
  and the caller, so their answers are arguments. The callback \<open>on_ipcp_ipv4\<close> is recorded as
  the list of addresses it was called with.

  Shown here: the TLS decoder is a \<open>stream_decoder\<close>; the queues keep the order of the bytes
  whatever partial writes happen; and what was written to a side, with what its queue still
  holds, is the encoding of all packets decoded from the other side.
\<close>

section \<open>The decoder of the TLS stream\<close>

record tls_packet_stream_decoder =
  tls_buffer :: bytes

definition tls_packet_stream_decoder_new :: tls_packet_stream_decoder where
  "tls_packet_stream_decoder_new = \<lparr>tls_buffer = []\<rparr>"

text \<open>The loop of \<open>push_bytes\<close>: the buffer that is left, with the packets or the error. An
  error leaves the buffer as it is at that moment.\<close>

function tls_loop :: "bytes \<Rightarrow> ppp_packet list \<Rightarrow> bytes \<times> (ppp_packet list) res" where
  "tls_loop buffer packets =
     (if length buffer < HEADER_LEN then (buffer, Inr packets)
      else if take HEADER_LEN buffer = HTTP_HEADER_PREFIX then (buffer, Inl PermissionDenied)
      else
        let total = unat (u16_from_be_bytes (buffer ! 0) (buffer ! 1));
            magic = u16_from_be_bytes (buffer ! 2) (buffer ! 3);
            size = unat (u16_from_be_bytes (buffer ! 4) (buffer ! 5))
        in if magic \<noteq> FORTINET_MAGIC \<or> total < HEADER_LEN + 1 \<or> total - HEADER_LEN \<noteq> size
           then (buffer, Inl HdlcInvalidFrame)
           else if length buffer < total then (buffer, Inr packets)
           else
             case decode_from_tls_frame (take total buffer) of
               Inl e \<Rightarrow> (buffer, Inl e)
             | Inr packet \<Rightarrow> tls_loop (drop total buffer) (packets @ [packet]))"
  by pat_completeness auto
termination
  by (relation "measure (\<lambda>(buffer, packets). length buffer)") auto

declare tls_loop.simps [simp del]

definition tls_push_bytes ::
  "tls_packet_stream_decoder \<Rightarrow> bytes \<Rightarrow> tls_packet_stream_decoder \<times> (ppp_packet list) res" where
  "tls_push_bytes decoder bs =
     (case tls_loop (tls_buffer decoder @ bs) [] of (rest, r) \<Rightarrow> (decoder\<lparr>tls_buffer := rest\<rparr>, r))"

definition tls_next :: "bytes \<Rightarrow> ppp_packet parse_step" where
  "tls_next b =
     (if length b < 6 then NeedMore
      else if take 6 b = HTTP_HEADER_PREFIX then Bad PermissionDenied
      else
        let total = unat (u16_from_be_bytes (b ! 0) (b ! 1));
            magic = u16_from_be_bytes (b ! 2) (b ! 3);
            size = unat (u16_from_be_bytes (b ! 4) (b ! 5))
        in if magic \<noteq> FORTINET_MAGIC \<or> total < 7 \<or> total - 6 \<noteq> size then Bad HdlcInvalidFrame
           else if length b < total then NeedMore
           else case decode_from_tls_frame (take total b) of
                  Inl e \<Rightarrow> Bad e | Inr p \<Rightarrow> Item p (drop total b))"

lemma tls_loop_next:
  "tls_loop b packets =
     (case tls_next b of
        NeedMore \<Rightarrow> (b, Inr packets)
      | Bad e \<Rightarrow> (b, Inl e)
      | Item p r \<Rightarrow> tls_loop r (packets @ [p]))"
  by (subst tls_loop.simps) (simp add: tls_next_def HEADER_LEN_def Let_def split: sum.split)

interpretation tls_parser: frame_parser tls_next
proof
  fix b c :: bytes and p r e
  have nth: "(b @ c) ! i = b ! i" if "\<not> length b < 6" "i < 6" for i
    using that by (auto simp: nth_append)
  show "tls_next (b @ c) = Item p (r @ c)" if "tls_next b = Item p r"
    using that nth by (auto simp: tls_next_def Let_def split: if_splits sum.splits)
  show "tls_next (b @ c) = Bad e" if "tls_next b = Bad e"
    using that nth by (auto simp: tls_next_def Let_def split: if_splits sum.splits)
  show "length r < length b" if "tls_next b = Item p r"
    using that by (auto simp: tls_next_def Let_def split: if_splits sum.splits)
qed

lemma tls_loop_drains:
  "tls_loop b packets = (r, Inr packets') \<longleftrightarrow> (\<exists>ps. packets' = packets @ ps \<and> drains tls_next b ps r)"
proof (induction "length b" arbitrary: b packets rule: less_induct)
  case less
  show ?case
  proof (cases "tls_next b")
    case NeedMore
    then show ?thesis
      by (subst tls_loop_next) (auto intro: drains_stop elim: drains.cases)
  next
    case (Bad e)
    then show ?thesis by (subst tls_loop_next) (auto elim: drains.cases)
  next
    case (Item p r1)
    have lt: "length r1 < length b" using tls_parser.item_progress [OF Item] .
    have "tls_loop b packets = (r, Inr packets') \<longleftrightarrow> tls_loop r1 (packets @ [p]) = (r, Inr packets')"
      using Item by (subst tls_loop_next) simp
    also have "\<dots> \<longleftrightarrow> (\<exists>ps. packets' = (packets @ [p]) @ ps \<and> drains tls_next r1 ps r)"
      using less [OF lt] .
    also have "\<dots> \<longleftrightarrow> (\<exists>ps. packets' = packets @ ps \<and> drains tls_next b ps r)"
      using Item by (auto intro: drains_item elim: drains.cases)
    finally show ?thesis .
  qed
qed

interpretation tls: stream_decoder tls_next tls_buffer "\<lambda>n. True" tls_push_bytes
proof
  fix s s' :: tls_packet_stream_decoder and bs b :: bytes and ps
  show "\<exists>s :: tls_packet_stream_decoder. tls_buffer s = b" by (rule exI [of _ "\<lparr>tls_buffer = b\<rparr>"]) simp
  show "tls_push_bytes s bs = (s', Inr ps) \<longleftrightarrow> drains tls_next (tls_buffer s @ bs) ps (tls_buffer s')"
    using tls_loop_drains [of "tls_buffer s @ bs" "[]" "tls_buffer s'" ps]
    by (auto simp: tls_push_bytes_def split: prod.splits)
qed simp_all

lemma tls_next_frame:
  assumes "encode_for_tls packet = Inr frame" "packet_data packet \<noteq> []"
  shows "tls_next (frame @ c) = Item packet c"
proof -
  let ?n = "length (packet_data packet)"
  have n: "?n \<le> 65529" and frame: "frame = tls_header ?n @ packet_data packet"
    using assms(1) by (auto simp: encode_for_tls_header)
  have "take 6 (frame @ c) \<noteq> HTTP_HEADER_PREFIX"
    using frame_not_http [of "[]" ?n] by (simp add: frame)
  moreover have "unat (u16_from_be_bytes ((frame @ c) ! 0) ((frame @ c) ! 1)) = 6 + ?n"
    using header_total [OF n] by (simp add: frame nth_append)
  moreover have "u16_from_be_bytes ((frame @ c) ! 2) ((frame @ c) ! 3) = FORTINET_MAGIC"
    "unat (u16_from_be_bytes ((frame @ c) ! 4) ((frame @ c) ! 5)) = ?n"
    using unat_u16_of_nat [of ?n] n
    by (simp_all add: frame tls_header_def u16_to_be_bytes_def codec_simps)
  moreover have "decode_from_tls_frame frame = Inr packet"
    using assms(2) n by (simp add: frame decode_header ppp_packet_new_def Suc_le_eq)
  moreover have "length frame = 6 + ?n" by (simp add: frame)
  ultimately show ?thesis
    using assms(2) by (simp add: tls_next_def)
qed

interpretation tls_framing: framed_stream tls_next tls_buffer "\<lambda>n. True" tls_push_bytes
  encode_for_tls "\<lambda>p. packet_data p \<noteq> []"
  by unfold_locales (fact tls_next_frame, simp add: tls_next_def)

section \<open>Queues of bytes to write\<close>

record write_queue =
  queue_chunks :: "bytes list"
  queue_offset :: nat

definition write_queue_new :: write_queue where
  "write_queue_new = \<lparr>queue_chunks = [], queue_offset = 0\<rparr>"

definition queue_push :: "write_queue \<Rightarrow> bytes \<Rightarrow> write_queue" where
  "queue_push q bs = (if bs \<noteq> [] then q\<lparr>queue_chunks := queue_chunks q @ [bs]\<rparr> else q)"

definition queue_is_empty :: "write_queue \<Rightarrow> bool" where
  "queue_is_empty q \<longleftrightarrow> queue_chunks q = []"

text \<open>The bytes that are still to be written, in order.\<close>

definition pending :: "write_queue \<Rightarrow> bytes" where
  "pending q = drop (queue_offset q) (concat (queue_chunks q))"

definition queue_inv :: "write_queue \<Rightarrow> bool" where
  "queue_inv q \<longleftrightarrow>
     (\<forall>c \<in> set (queue_chunks q). c \<noteq> [])
   \<and> (case queue_chunks q of [] \<Rightarrow> queue_offset q = 0 | front # _ \<Rightarrow> queue_offset q < length front)"

text \<open>The slice of the front chunk panics when the offset is behind its end. Each round of the
  loop writes at least one byte or stops.\<close>

function write_available :: "write_queue \<Rightarrow> writer \<Rightarrow> (write_queue \<times> writer \<times> unit res) exec" where
  "write_available q w =
     (case queue_chunks q of
        [] \<Rightarrow> Return (q, w, Inr ())
      | front # rest \<Rightarrow>
          bind_exec (slice front (queue_offset q) (length front)) (\<lambda>bs.
            case write_some bs w of
              (Inl e, w') \<Rightarrow>
                if kind e = WouldBlock then Return (q, w', Inr ()) else Return (q, w', Inl (Io e))
            | (Inr n, w') \<Rightarrow>
                if n = 0
                then Return (q, w', Inl (Pppd ''writer returned zero while queue had pending data''))
                else
                  let q = q\<lparr>queue_offset := queue_offset q + n\<rparr>;
                      q = (if queue_offset q = length front then q\<lparr>queue_chunks := rest, queue_offset := 0\<rparr> else q)
                  in write_available q w'))"
  by pat_completeness auto
termination
proof (relation "measures [\<lambda>(q, w). length (queue_chunks q), \<lambda>(q, w). length (hd (queue_chunks q)) - queue_offset q]",
    goal_cases)
  case (2 q w front rest bs x w' n q1 q2)
  then have "queue_offset q \<le> length front" "n \<le> length front - queue_offset q" "0 < n"
    using write_some_sent [of bs w n w'] by (auto simp: slice_def split: if_splits)
  with 2 show ?case by auto
qed simp

declare write_available.simps [simp del]

lemma queue_inv_new [simp]: "queue_inv write_queue_new" "pending write_queue_new = []"
  by (simp_all add: queue_inv_def write_queue_new_def pending_def)

lemma queue_inv_push [simp]: "queue_inv q \<Longrightarrow> queue_inv (queue_push q bs)"
  by (auto simp: queue_inv_def queue_push_def split: list.splits)

lemma queue_offset_le: "queue_inv q \<Longrightarrow> queue_offset q \<le> length (concat (queue_chunks q))"
  by (auto simp: queue_inv_def split: list.splits)

lemma pending_push [simp]: "queue_inv q \<Longrightarrow> pending (queue_push q bs) = pending q @ bs"
  using queue_offset_le [of q] by (auto simp: pending_def queue_push_def)

text \<open>The state after \<open>n\<close> bytes of the front chunk were written.\<close>

lemma queue_advance:
  assumes "queue_inv q" "queue_chunks q = front # rest" "0 < n" "n \<le> length front - queue_offset q"
    and "q' = (let q = q\<lparr>queue_offset := queue_offset q + n\<rparr> in
      if queue_offset q = length front then q\<lparr>queue_chunks := rest, queue_offset := 0\<rparr> else q)"
  shows "queue_inv q'" "pending q' = drop n (pending q)"
    "take n (pending q) = take n (drop (queue_offset q) front)"
proof -
  have lt: "queue_offset q < length front" "\<forall>c \<in> set rest. c \<noteq> []" "front \<noteq> []"
    using assms(1,2) by (auto simp: queue_inv_def)
  show "queue_inv q'"
    using assms lt by (auto simp: queue_inv_def Let_def split: list.splits)
  show "pending q' = drop n (pending q)"
    using assms lt by (auto simp: pending_def Let_def add.commute)
  show "take n (pending q) = take n (drop (queue_offset q) front)"
    using assms lt by (simp add: pending_def)
qed

lemma write_available_spec:
  assumes "queue_inv q"
  shows "\<exists>q' w' r. write_available q w = Return (q', w', r) \<and> queue_inv q'
    \<and> sent w' @ pending q' = sent w @ pending q
    \<and> (\<exists>k. sent w' = sent w @ take k (pending q))"
  using assms
proof (induction q w rule: write_available.induct)
  case (1 q w)
  show ?case
  proof (cases "queue_chunks q")
    case Nil
    with "1.prems" show ?thesis
      by (subst write_available.simps) (auto intro: exI [of _ 0])
  next
    case (Cons front rest)
    let ?bs = "drop (queue_offset q) front"
    have lt: "queue_offset q < length front"
      using "1.prems" Cons by (simp add: queue_inv_def)
    have sl: "slice front (queue_offset q) (length front) = Return ?bs"
      using lt by (simp add: slice_in)
    obtain x w1 where ws: "write_some ?bs w = (x, w1)" by fastforce
    show ?thesis
    proof (cases x)
      case (Inl e)
      then have "sent w1 = sent w" using write_some_error ws by blast
      with Inl ws sl Cons "1.prems" show ?thesis
        by (subst write_available.simps) (auto intro: exI [of _ 0])
    next
      case (Inr n)
      have n: "n \<le> length ?bs" "sent w1 = sent w @ take n ?bs"
        using write_some_sent ws Inr by blast+
      show ?thesis
      proof (cases "n = 0")
        case True
        with Inr n ws sl Cons "1.prems" show ?thesis
          by (subst write_available.simps) (auto intro: exI [of _ 0])
      next
        case False
        define q1 where "q1 = (let q = q\<lparr>queue_offset := queue_offset q + n\<rparr> in
          if queue_offset q = length front then q\<lparr>queue_chunks := rest, queue_offset := 0\<rparr> else q)"
        have adv: "queue_inv q1" "pending q1 = drop n (pending q)" "take n (pending q) = take n ?bs"
          using queue_advance [OF "1.prems" Cons _ _ q1_def] n False by auto
        have step: "write_available q w = write_available q1 w1"
          using Inr n ws sl Cons False
          by (subst write_available.simps) (simp add: q1_def Let_def)
        have "\<exists>q' w' r. write_available q1 w1 = Return (q', w', r) \<and> queue_inv q'
            \<and> sent w' @ pending q' = sent w1 @ pending q1
            \<and> (\<exists>k. sent w' = sent w1 @ take k (pending q1))"
          using "1.IH" [OF Cons sl ws [symmetric] Inr False refl, of q1] adv(1)
          by (simp add: q1_def Let_def)
        then obtain q' w' r k where *: "write_available q1 w1 = Return (q', w', r)" "queue_inv q'"
          "sent w' @ pending q' = sent w1 @ pending q1" "sent w' = sent w1 @ take k (pending q1)"
          by blast
        have "sent w1 @ pending q1 = sent w @ pending q"
          using n(2) adv(2,3) by (metis append.assoc append_take_drop_id)
        moreover have "sent w' = sent w @ take (n + k) (pending q)"
          using *(4) n(2) adv(2,3) by (simp add: take_add)
        ultimately show ?thesis using * step by metis
      qed
    qed
  qed
qed

section \<open>The two directions\<close>

definition IO_BUFFER_SIZE :: nat where
  "IO_BUFFER_SIZE = 4096"

record forward_stats =
  pty_to_tls_packets :: u64
  tls_to_pty_packets :: u64
  last_ipcp_ipv4 :: "ipv4_addr option"

definition forward_stats_default :: forward_stats where
  "forward_stats_default =
     \<lparr>pty_to_tls_packets = 0, tls_to_pty_packets = 0, last_ipcp_ipv4 = None\<rparr>"

text \<open>The body of the loop over the packets from pppd: an encoding error stops it.\<close>

fun enqueue_for_tls ::
  "ppp_packet list \<Rightarrow> write_queue \<Rightarrow> forward_stats \<Rightarrow> write_queue \<times> forward_stats \<times> unit res" where
  "enqueue_for_tls [] tls_out stats = (tls_out, stats, Inr ())"
| "enqueue_for_tls (packet # packets) tls_out stats =
     (case encode_for_tls packet of
        Inl e \<Rightarrow> (tls_out, stats, Inl e)
      | Inr frame \<Rightarrow>
          enqueue_for_tls packets (queue_push tls_out frame)
            (stats\<lparr>pty_to_tls_packets := pty_to_tls_packets stats + 1\<rparr>))"

lemma read_script_shrinks:
  "(Inr bs, r) = read_some IO_BUFFER_SIZE pty \<Longrightarrow> bs \<noteq> [] \<Longrightarrow>
   length r + length (reader_data r) < length pty + length (reader_data pty)"
  by (cases "(IO_BUFFER_SIZE, pty)" rule: read_some.cases)
    (auto simp: IO_BUFFER_SIZE_def reader_data_def split: if_splits)

function read_pty_into_tls_queue ::
  "reader \<Rightarrow> pppd_pty_decoder \<Rightarrow> write_queue \<Rightarrow> forward_stats \<Rightarrow>
     reader \<times> pppd_pty_decoder \<times> write_queue \<times> forward_stats \<times> unit res" where
  "read_pty_into_tls_queue pty decoder tls_out stats =
     (case read_some IO_BUFFER_SIZE pty of
        (Inl e, pty') \<Rightarrow>
          (pty', decoder, tls_out, stats, if kind e = WouldBlock then Inr () else Inl (Io e))
      | (Inr bs, pty') \<Rightarrow>
          if bs = [] then (pty', decoder, tls_out, stats, Inl (Pppd ''pppd pty closed''))
          else
            case pty_push_bytes decoder bs of
              (decoder', Inl e) \<Rightarrow> (pty', decoder', tls_out, stats, Inl e)
            | (decoder', Inr packets) \<Rightarrow>
                (case enqueue_for_tls packets tls_out stats of
                   (tls_out', stats', Inl e) \<Rightarrow> (pty', decoder', tls_out', stats', Inl e)
                 | (tls_out', stats', Inr _) \<Rightarrow>
                     read_pty_into_tls_queue pty' decoder' tls_out' stats'))"
  by pat_completeness auto
termination
  by (relation "measure (\<lambda>(pty, decoder, tls_out, stats).
        length pty + length (reader_data pty))")
    (auto dest: read_script_shrinks)

declare read_pty_into_tls_queue.simps [simp del]

text \<open>The body of the loop over the packets from the gateway. The last component but one is the
  list of calls of \<open>on_ipcp_ipv4\<close>.\<close>

fun enqueue_for_pty ::
  "ppp_packet list \<Rightarrow> hdlc_codec \<Rightarrow> write_queue \<Rightarrow> forward_stats \<Rightarrow> ipv4_addr list \<Rightarrow>
     (hdlc_codec \<times> write_queue \<times> forward_stats \<times> ipv4_addr list) exec" where
  "enqueue_for_pty [] hdlc pty_out stats calls = Return (hdlc, pty_out, stats, calls)"
| "enqueue_for_pty (packet # packets) hdlc pty_out stats calls =
     bind_exec (ipcp_ipv4_address packet) (\<lambda>found.
       let calls = (case found of
                      Some addr \<Rightarrow> if last_ipcp_ipv4 stats \<noteq> Some addr then calls @ [addr] else calls
                    | None \<Rightarrow> calls);
           stats = (case found of Some addr \<Rightarrow> stats\<lparr>last_ipcp_ipv4 := Some addr\<rparr> | None \<Rightarrow> stats);
           (hdlc, frame) = encode_packet_for_pty hdlc packet;
           pty_out = queue_push pty_out frame;
           stats = stats\<lparr>tls_to_pty_packets := tls_to_pty_packets stats + 1\<rparr>
       in enqueue_for_pty packets hdlc pty_out stats calls)"

function read_tls_into_pty_queue ::
  "reader \<Rightarrow> tls_packet_stream_decoder \<Rightarrow> hdlc_codec \<Rightarrow> write_queue \<Rightarrow> forward_stats \<Rightarrow> ipv4_addr list \<Rightarrow>
     (reader \<times> tls_packet_stream_decoder \<times> hdlc_codec \<times> write_queue \<times> forward_stats \<times> ipv4_addr list
       \<times> unit res) exec" where
  "read_tls_into_pty_queue tls decoder hdlc pty_out stats calls =
     (case read_some IO_BUFFER_SIZE tls of
        (Inl e, tls') \<Rightarrow>
          Return (tls', decoder, hdlc, pty_out, stats, calls,
            if kind e = WouldBlock then Inr () else Inl (Io e))
      | (Inr bs, tls') \<Rightarrow>
          if bs = []
          then Return (tls', decoder, hdlc, pty_out, stats, calls, Inl (Pppd ''TLS tunnel closed''))
          else
            case tls_push_bytes decoder bs of
              (decoder', Inl e) \<Rightarrow> Return (tls', decoder', hdlc, pty_out, stats, calls, Inl e)
            | (decoder', Inr packets) \<Rightarrow>
                bind_exec (enqueue_for_pty packets hdlc pty_out stats calls)
                  (\<lambda>(hdlc', pty_out', stats', calls').
                     read_tls_into_pty_queue tls' decoder' hdlc' pty_out' stats' calls'))"
  by pat_completeness auto
termination
  by (relation "measure (\<lambda>(tls, decoder, hdlc, pty_out, stats, calls).
        length tls + length (reader_data tls))")
    (auto dest: read_script_shrinks)

declare read_tls_into_pty_queue.simps [simp del]

section \<open>The loop\<close>

record poll_flags =
  POLLIN :: bool
  POLLOUT :: bool
  POLLERR :: bool
  POLLHUP :: bool
  POLLNVAL :: bool

definition has_fatal_poll_event :: "poll_flags \<Rightarrow> bool" where
  "has_fatal_poll_event events \<longleftrightarrow> POLLERR events \<or> POLLHUP events \<or> POLLNVAL events"

text \<open>What the operating system and the caller answer in one round: the stop flag, and the
  result of \<open>poll\<close> for the interest in writing to the pseudo terminal and to the TLS stream
  (interest in reading is always declared).\<close>

record forward_round =
  should_stop :: bool
  poll_answer :: "bool \<Rightarrow> bool \<Rightarrow> string + (poll_flags \<times> poll_flags)"

record forward_state =
  pty_in :: reader
  pty_wr :: writer
  tls_in :: reader
  tls_wr :: writer
  pty_decoder :: pppd_pty_decoder
  hdlc_encoder :: hdlc_codec
  tls_decoder :: tls_packet_stream_decoder
  tls_out :: write_queue
  pty_out :: write_queue
  stats :: forward_stats
  ipcp_calls :: "ipv4_addr list"

definition forward_init :: "reader \<Rightarrow> writer \<Rightarrow> reader \<Rightarrow> writer \<Rightarrow> forward_state" where
  "forward_init pi pw ti tw =
     \<lparr>pty_in = pi, pty_wr = pw, tls_in = ti, tls_wr = tw,
      pty_decoder = pppd_pty_decoder_new, hdlc_encoder = hdlc_new,
      tls_decoder = tls_packet_stream_decoder_new, tls_out = write_queue_new,
      pty_out = write_queue_new, stats = forward_stats_default, ipcp_calls = []\<rparr>"

text \<open>The four conditional actions of a round. The result \<open>None\<close> lets the loop go on.\<close>

definition round_pty_read :: "poll_flags \<Rightarrow> forward_state \<Rightarrow> forward_state \<times> unit res" where
  "round_pty_read ev st =
     (if POLLIN ev then
        (case read_pty_into_tls_queue (pty_in st) (pty_decoder st) (tls_out st) (stats st) of
           (r, d, q, s, res) \<Rightarrow>
             (st\<lparr>pty_in := r, pty_decoder := d, tls_out := q, stats := s\<rparr>, res))
      else (st, Inr ()))"

definition round_tls_read :: "poll_flags \<Rightarrow> forward_state \<Rightarrow> (forward_state \<times> unit res) exec" where
  "round_tls_read ev st =
     (if POLLIN ev then
        bind_exec (read_tls_into_pty_queue (tls_in st) (tls_decoder st) (hdlc_encoder st) (pty_out st)
            (stats st) (ipcp_calls st))
          (\<lambda>(r, d, h, q, s, c, res).
             Return (st\<lparr>tls_in := r, tls_decoder := d, hdlc_encoder := h, pty_out := q, stats := s,
               ipcp_calls := c\<rparr>, res))
      else Return (st, Inr ()))"

definition round_pty_write :: "poll_flags \<Rightarrow> forward_state \<Rightarrow> (forward_state \<times> unit res) exec" where
  "round_pty_write ev st =
     (if POLLOUT ev then
        bind_exec (write_available (pty_out st) (pty_wr st))
          (\<lambda>(q, w, res). Return (st\<lparr>pty_out := q, pty_wr := w\<rparr>, res))
      else Return (st, Inr ()))"

definition round_tls_write :: "poll_flags \<Rightarrow> forward_state \<Rightarrow> (forward_state \<times> unit res) exec" where
  "round_tls_write ev st =
     (if POLLOUT ev then
        bind_exec (write_available (tls_out st) (tls_wr st))
          (\<lambda>(q, w, res). Return (st\<lparr>tls_out := q, tls_wr := w\<rparr>, res))
      else Return (st, Inr ()))"

text \<open>Sequencing with the operator \<open>?\<close>: an error ends the function.\<close>

fun then_round ::
  "(forward_state \<times> unit res) exec \<Rightarrow> (forward_state \<Rightarrow> (forward_state \<times> unit res) exec) \<Rightarrow>
     (forward_state \<times> unit res) exec" where
  "then_round Panic f = Panic"
| "then_round (Return (st, Inl e)) f = Return (st, Inl e)"
| "then_round (Return (st, Inr u)) f = f st"

definition round_actions ::
  "poll_flags \<Rightarrow> poll_flags \<Rightarrow> forward_state \<Rightarrow> (forward_state \<times> unit res) exec" where
  "round_actions pty_revents tls_revents st =
     then_round (then_round (then_round
       (Return (round_pty_read pty_revents st))
       (round_tls_read tls_revents))
       (round_pty_write pty_revents))
       (round_tls_write tls_revents)"

fun forward_loop ::
  "forward_round list \<Rightarrow> forward_state \<Rightarrow> (forward_state \<times> (forward_stats res) option) exec" where
  "forward_loop [] st = Return (st, None)"
| "forward_loop (round # rounds) st =
     (if should_stop round then Return (st, Some (Inr (stats st)))
      else
        case poll_answer round (\<not> queue_is_empty (pty_out st)) (\<not> queue_is_empty (tls_out st)) of
          Inl err \<Rightarrow> Return (st, Some (Inl (Pppd (''poll failed: '' @ err))))
        | Inr (pty_revents, tls_revents) \<Rightarrow>
            if has_fatal_poll_event pty_revents \<or> has_fatal_poll_event tls_revents
            then Return (st, Some (Inr (stats st)))
            else
              (case round_actions pty_revents tls_revents st of
                 Panic \<Rightarrow> Panic
               | Return (st', Inl e) \<Rightarrow> Return (st', Some (Inl e))
               | Return (st', Inr _) \<Rightarrow> forward_loop rounds st'))"

text \<open>The whole function, with the results of switching both descriptors to non-blocking mode.\<close>

definition forward_with_callbacks ::
  "unit res \<Rightarrow> unit res \<Rightarrow> forward_round list \<Rightarrow> reader \<Rightarrow> writer \<Rightarrow> reader \<Rightarrow> writer \<Rightarrow>
     (forward_state \<times> (forward_stats res) option) exec" where
  "forward_with_callbacks pty_setup tls_setup rounds pi pw ti tw =
     (case pty_setup of
        Inl e \<Rightarrow> Return (forward_init pi pw ti tw, Some (Inl e))
      | Inr _ \<Rightarrow>
          (case tls_setup of
             Inl e \<Rightarrow> Return (forward_init pi pw ti tw, Some (Inl e))
           | Inr _ \<Rightarrow> forward_loop rounds (forward_init pi pw ti tw)))"

section \<open>Nothing is lost or reordered\<close>

lemma encode_stream_append:
  "encode_stream codec (ps @ qs) =
     (fst (encode_stream (fst (encode_stream codec ps)) qs),
      snd (encode_stream codec ps) @ snd (encode_stream (fst (encode_stream codec ps)) qs))"
  by (induction ps arbitrary: codec) (simp_all add: split_def Let_def)

lemma enqueue_for_tls_spec:
  assumes "enqueue_for_tls packets q s = (q', s', r)" "queue_inv q"
  shows "queue_inv q'"
    and "r = Inr () \<Longrightarrow> \<exists>frames. tls_frames packets frames \<and> pending q' = pending q @ concat frames"
    and "r = Inr () \<Longrightarrow> pty_to_tls_packets s' = pty_to_tls_packets s + of_nat (length packets)"
    and "tls_to_pty_packets s' = tls_to_pty_packets s"
  using assms
proof (induction packets q s rule: enqueue_for_tls.induct)
  case (2 packet packets q s)
  { case 1 then show ?case using 2 by (auto split: sum.splits) }
  { case 2
    then obtain frame where f: "encode_for_tls packet = Inr frame"
      by (auto split: sum.splits)
    with 2 "2.IH"(2) obtain frames where
      "tls_frames packets frames" "pending q' = (pending q @ frame) @ concat frames"
      by auto
    with f show ?case
      by (intro exI [of _ "frame # frames"]) (simp add: tls_frames_def) }
  { case 3 then show ?case using 2 by (auto split: sum.splits) }
  { case 4 then show ?case using 2 by (auto split: sum.splits) }
qed (auto simp: tls_frames_def)

lemma enqueue_for_pty_spec:
  assumes "queue_inv q"
  shows "\<exists>q' s' c'. enqueue_for_pty packets h q s c = Return (fst (encode_stream h packets), q', s', c')
    \<and> queue_inv q' \<and> pending q' = pending q @ snd (encode_stream h packets)
    \<and> tls_to_pty_packets s' = tls_to_pty_packets s + of_nat (length packets)
    \<and> pty_to_tls_packets s' = pty_to_tls_packets s"
  using assms
proof (induction packets arbitrary: h q s c)
  case Nil
  then show ?case by simp
next
  case (Cons p ps)
  obtain found where found: "ipcp_ipv4_address p = Return found"
    using ipcp_ipv4_address_returns by blast
  obtain h1 frame where enc: "encode_packet_for_pty h p = (h1, frame)" by fastforce
  let ?c1 = "case found of
      Some addr \<Rightarrow> if last_ipcp_ipv4 s \<noteq> Some addr then c @ [addr] else c | None \<Rightarrow> c"
  let ?s1 = "case found of Some addr \<Rightarrow> s\<lparr>last_ipcp_ipv4 := Some addr\<rparr> | None \<Rightarrow> s"
  let ?s2 = "?s1\<lparr>tls_to_pty_packets := tls_to_pty_packets ?s1 + 1\<rparr>"
  have step: "enqueue_for_pty (p # ps) h q s c = enqueue_for_pty ps h1 (queue_push q frame) ?s2 ?c1"
    by (simp add: found enc Let_def)
  have count: "tls_to_pty_packets ?s2 = tls_to_pty_packets s + 1" "pty_to_tls_packets ?s2 = pty_to_tls_packets s"
    by (simp_all split: option.split)
  obtain q' s' c' where "enqueue_for_pty ps h1 (queue_push q frame) ?s2 ?c1
        = Return (fst (encode_stream h1 ps), q', s', c')"
    "queue_inv q'" "pending q' = (pending q @ frame) @ snd (encode_stream h1 ps)"
    "tls_to_pty_packets s' = tls_to_pty_packets ?s2 + of_nat (length ps)"
    "pty_to_tls_packets s' = pty_to_tls_packets ?s2"
    using Cons.IH [of "queue_push q frame" h1 ?s2 ?c1] Cons.prems by auto
  then show ?case
    unfolding step count by (simp add: enc split_def Let_def)
qed

text \<open>What reading from the pseudo terminal does: the bytes taken from the reader, decoded
  together with what the decoder held, are the packets whose encodings joined the queue.\<close>

definition pty_effect ::
  "reader \<Rightarrow> pppd_pty_decoder \<Rightarrow> write_queue \<Rightarrow> forward_stats \<Rightarrow>
   reader \<Rightarrow> pppd_pty_decoder \<Rightarrow> write_queue \<Rightarrow> forward_stats \<Rightarrow> bool" where
  "pty_effect r d q s r' d' q' s' \<longleftrightarrow>
     (\<exists>X ps frames. reader_data r = X @ reader_data r'
      \<and> (\<forall>Y Q. drains pty_next Y Q (pty_buffer d) \<longrightarrow> drains pty_next (Y @ X) (Q @ ps) (pty_buffer d'))
      \<and> tls_frames ps frames \<and> pending q' = pending q @ concat frames
      \<and> pty_to_tls_packets s' = pty_to_tls_packets s + of_nat (length ps)
      \<and> tls_to_pty_packets s' = tls_to_pty_packets s)"

lemma pty_effect_none: "reader_data r = reader_data r' \<Longrightarrow> pty_effect r d q s r' d q s"
  unfolding pty_effect_def
  by (intro exI [of _ "[]"]) (simp add: tls_frames_def)

lemma pty_effect_trans:
  assumes "pty_effect r d q s r1 d1 q1 s1" "pty_effect r1 d1 q1 s1 r2 d2 q2 s2"
  shows "pty_effect r d q s r2 d2 q2 s2"
proof -
  obtain X ps fs where 1: "reader_data r = X @ reader_data r1"
    "\<And>Y Q. drains pty_next Y Q (pty_buffer d) \<Longrightarrow> drains pty_next (Y @ X) (Q @ ps) (pty_buffer d1)"
    "tls_frames ps fs" "pending q1 = pending q @ concat fs"
    "pty_to_tls_packets s1 = pty_to_tls_packets s + of_nat (length ps)"
    "tls_to_pty_packets s1 = tls_to_pty_packets s"
    using assms(1) unfolding pty_effect_def by blast
  obtain X' ps' fs' where 2: "reader_data r1 = X' @ reader_data r2"
    "\<And>Y Q. drains pty_next Y Q (pty_buffer d1) \<Longrightarrow> drains pty_next (Y @ X') (Q @ ps') (pty_buffer d2)"
    "tls_frames ps' fs'" "pending q2 = pending q1 @ concat fs'"
    "pty_to_tls_packets s2 = pty_to_tls_packets s1 + of_nat (length ps')"
    "tls_to_pty_packets s2 = tls_to_pty_packets s1"
    using assms(2) unfolding pty_effect_def by blast
  have "drains pty_next (Y @ X @ X') (Q @ ps @ ps') (pty_buffer d2)"
    if "drains pty_next Y Q (pty_buffer d)" for Y Q
    using 2(2) [OF 1(2) [OF that]] by simp
  with 1 2 tls_frames_append [OF 1(3) 2(3)] show ?thesis
    unfolding pty_effect_def
    by (intro exI [of _ "X @ X'"] exI [of _ "ps @ ps'"] exI [of _ "fs @ fs'"]) simp
qed

lemma pty_effect_chunk:
  assumes "read_some n r = (Inr bs, r1)" "pty_push_bytes d bs = (d1, Inr ps)"
    and "enqueue_for_tls ps q s = (q1, s1, Inr ())" "queue_inv q"
  shows "pty_effect r d q s r1 d1 q1 s1"
proof -
  have "drains pty_next (Y @ bs) (Q @ ps) (pty_buffer d1)"
    if "drains pty_next Y Q (pty_buffer d)" for Y Q
    using pty_parser.drains_append [OF that] assms(2) by (simp add: pty.push_drains)
  moreover obtain frames where "tls_frames ps frames" "pending q1 = pending q @ concat frames"
    using enqueue_for_tls_spec(2) [OF assms(3,4)] by blast
  ultimately show ?thesis
    unfolding pty_effect_def
    using read_some_reader_data [OF assms(1)] enqueue_for_tls_spec(3,4) [OF assms(3,4)]
    by (intro exI [of _ bs] exI [of _ ps] exI [of _ frames]) auto
qed

lemma read_pty_spec:
  assumes "read_pty_into_tls_queue r d q s = (r', d', q', s', res)" "queue_inv q"
  shows "queue_inv q' \<and> (res = Inr () \<longrightarrow> pty_effect r d q s r' d' q' s')"
  using assms
proof (induction "length r + length (reader_data r)" arbitrary: r d q s rule: less_induct)
  case less
  obtain x r1 where rs: "read_some IO_BUFFER_SIZE r = (x, r1)" by fastforce
  have eof: "reader_data r = reader_data r1" if "x = Inl e" for e
    using read_some_reader_data [OF rs] that by simp
  note unfolded = less.prems(1) [unfolded read_pty_into_tls_queue.simps [of r] rs]
  show ?case
  proof (cases "\<exists>bs d1 ps q1 s1. x = Inr bs \<and> bs \<noteq> [] \<and> pty_push_bytes d bs = (d1, Inr ps)
      \<and> enqueue_for_tls ps q s = (q1, s1, Inr ())")
    case True
    then obtain bs d1 ps q1 s1 where *: "x = Inr bs" "bs \<noteq> []"
      "pty_push_bytes d bs = (d1, Inr ps)" "enqueue_for_tls ps q s = (q1, s1, Inr ())" by blast
    then have rec: "read_pty_into_tls_queue r1 d1 q1 s1 = (r', d', q', s', res)"
      using unfolded by simp
    have "queue_inv q1" using enqueue_for_tls_spec(1) * less.prems(2) by blast
    moreover have "length r1 + length (reader_data r1) < length r + length (reader_data r)"
      using read_script_shrinks [of bs r1 r] rs * by simp
    ultimately have "queue_inv q' \<and> (res = Inr () \<longrightarrow> pty_effect r1 d1 q1 s1 r' d' q' s')"
      using less.hyps rec by blast
    moreover have "pty_effect r d q s r1 d1 q1 s1"
      using pty_effect_chunk rs * less.prems(2) by blast
    ultimately show ?thesis using pty_effect_trans by blast
  next
    case stop: False
    show ?thesis
    proof (cases x)
      case (Inl e)
      with unfolded less.prems(2) eof show ?thesis by (auto intro: pty_effect_none)
    next
      case (Inr bs)
      with unfolded stop less.prems(2) show ?thesis
        by (auto split: sum.splits if_splits prod.splits dest: enqueue_for_tls_spec(1))
    qed
  qed
qed

text \<open>The same for reading from the TLS stream.\<close>

definition tls_effect ::
  "reader \<Rightarrow> tls_packet_stream_decoder \<Rightarrow> hdlc_codec \<Rightarrow> write_queue \<Rightarrow> forward_stats \<Rightarrow>
   reader \<Rightarrow> tls_packet_stream_decoder \<Rightarrow> hdlc_codec \<Rightarrow> write_queue \<Rightarrow> forward_stats \<Rightarrow> bool" where
  "tls_effect r d h q s r' d' h' q' s' \<longleftrightarrow>
     (\<exists>X ps. reader_data r = X @ reader_data r'
      \<and> (\<forall>Y Q. drains tls_next Y Q (tls_buffer d) \<longrightarrow> drains tls_next (Y @ X) (Q @ ps) (tls_buffer d'))
      \<and> h' = fst (encode_stream h ps) \<and> pending q' = pending q @ snd (encode_stream h ps)
      \<and> tls_to_pty_packets s' = tls_to_pty_packets s + of_nat (length ps)
      \<and> pty_to_tls_packets s' = pty_to_tls_packets s)"

lemma tls_effect_none: "reader_data r = reader_data r' \<Longrightarrow> tls_effect r d h q s r' d h q s"
  unfolding tls_effect_def by (intro exI [of _ "[]"]) simp

lemma tls_effect_trans:
  assumes "tls_effect r d h q s r1 d1 h1 q1 s1" "tls_effect r1 d1 h1 q1 s1 r2 d2 h2 q2 s2"
  shows "tls_effect r d h q s r2 d2 h2 q2 s2"
proof -
  obtain X ps where 1: "reader_data r = X @ reader_data r1"
    "\<And>Y Q. drains tls_next Y Q (tls_buffer d) \<Longrightarrow> drains tls_next (Y @ X) (Q @ ps) (tls_buffer d1)"
    "h1 = fst (encode_stream h ps)" "pending q1 = pending q @ snd (encode_stream h ps)"
    "tls_to_pty_packets s1 = tls_to_pty_packets s + of_nat (length ps)"
    "pty_to_tls_packets s1 = pty_to_tls_packets s"
    using assms(1) unfolding tls_effect_def by blast
  obtain X' ps' where 2: "reader_data r1 = X' @ reader_data r2"
    "\<And>Y Q. drains tls_next Y Q (tls_buffer d1) \<Longrightarrow> drains tls_next (Y @ X') (Q @ ps') (tls_buffer d2)"
    "h2 = fst (encode_stream h1 ps')" "pending q2 = pending q1 @ snd (encode_stream h1 ps')"
    "tls_to_pty_packets s2 = tls_to_pty_packets s1 + of_nat (length ps')"
    "pty_to_tls_packets s2 = pty_to_tls_packets s1"
    using assms(2) unfolding tls_effect_def by blast
  have "drains tls_next (Y @ X @ X') (Q @ ps @ ps') (tls_buffer d2)"
    if "drains tls_next Y Q (tls_buffer d)" for Y Q
    using 2(2) [OF 1(2) [OF that]] by simp
  with 1 2 show ?thesis
    unfolding tls_effect_def
    by (intro exI [of _ "X @ X'"] exI [of _ "ps @ ps'"]) (simp add: encode_stream_append)
qed

lemma tls_effect_chunk:
  assumes "read_some n r = (Inr bs, r1)" "tls_push_bytes d bs = (d1, Inr ps)" "queue_inv q"
  shows "\<exists>h1 q1 s1 c1. enqueue_for_pty ps h q s c = Return (h1, q1, s1, c1) \<and> queue_inv q1
    \<and> tls_effect r d h q s r1 d1 h1 q1 s1"
proof -
  obtain q1 s1 c1 where *:
    "enqueue_for_pty ps h q s c = Return (fst (encode_stream h ps), q1, s1, c1)" "queue_inv q1"
    "pending q1 = pending q @ snd (encode_stream h ps)"
    "tls_to_pty_packets s1 = tls_to_pty_packets s + of_nat (length ps)"
    "pty_to_tls_packets s1 = pty_to_tls_packets s"
    using enqueue_for_pty_spec [OF assms(3)] by blast
  have "drains tls_next (Y @ bs) (Q @ ps) (tls_buffer d1)"
    if "drains tls_next Y Q (tls_buffer d)" for Y Q
    using tls_parser.drains_append [OF that] assms(2) by (simp add: tls.push_drains)
  then have "tls_effect r d h q s r1 d1 (fst (encode_stream h ps)) q1 s1"
    unfolding tls_effect_def using * read_some_reader_data [OF assms(1)]
    by (intro exI [of _ bs] exI [of _ ps]) auto
  with * show ?thesis by blast
qed

lemma read_tls_spec:
  assumes "queue_inv q"
  shows "\<exists>r' d' h' q' s' c' res.
    read_tls_into_pty_queue r d h q s c = Return (r', d', h', q', s', c', res)
    \<and> queue_inv q' \<and> (res = Inr () \<longrightarrow> tls_effect r d h q s r' d' h' q' s')"
  using assms
proof (induction "length r + length (reader_data r)" arbitrary: r d h q s c rule: less_induct)
  case less
  obtain x r1 where rs: "read_some IO_BUFFER_SIZE r = (x, r1)" by fastforce
  note step = read_tls_into_pty_queue.simps [of r d h q s c, unfolded rs]
  show ?case
  proof (cases "\<exists>bs d1 ps. x = Inr bs \<and> bs \<noteq> [] \<and> tls_push_bytes d bs = (d1, Inr ps)")
    case True
    then obtain bs d1 ps where *: "x = Inr bs" "bs \<noteq> []" "tls_push_bytes d bs = (d1, Inr ps)" by blast
    obtain h1 q1 s1 c1 where e: "enqueue_for_pty ps h q s c = Return (h1, q1, s1, c1)" "queue_inv q1"
      "tls_effect r d h q s r1 d1 h1 q1 s1"
      using tls_effect_chunk [OF _ *(3) less.prems] rs * by blast
    have "length r1 + length (reader_data r1) < length r + length (reader_data r)"
      using read_script_shrinks [of bs r1 r] rs * by simp
    from less.hyps [OF this e(2)] obtain r' d' h' q' s' c' res where
      "read_tls_into_pty_queue r1 d1 h1 q1 s1 c1 = Return (r', d', h', q', s', c', res)"
      "queue_inv q'" "res = Inr () \<longrightarrow> tls_effect r1 d1 h1 q1 s1 r' d' h' q' s'" by blast
    moreover have "read_tls_into_pty_queue r d h q s c = read_tls_into_pty_queue r1 d1 h1 q1 s1 c1"
      using step * e by simp
    ultimately show ?thesis using e(3) tls_effect_trans by metis
  next
    case stop: False
    show ?thesis
    proof (cases x)
      case (Inl e)
      then have "reader_data r = reader_data r1" using read_some_reader_data [OF rs] by simp
      then show ?thesis using step Inl less.prems tls_effect_none by simp
    next
      case (Inr bs)
      obtain d1 y where "tls_push_bytes d bs = (d1, y)" by fastforce
      with Inr step stop less.prems show ?thesis
        by (cases y) (auto split: if_splits)
    qed
  qed
qed

section \<open>The invariant of the loop\<close>

text \<open>
  Relative to the readers at the start, the bytes taken from the TLS stream so far decode
  to packets \<open>P\<close> whose framing is what the pseudo terminal received followed by what is
  queued for it; the bytes taken from the pseudo terminal decode to packets \<open>Q\<close> whose
  encodings are what the TLS stream received followed by what is queued for it; and the
  statistics count both.
\<close>

definition forward_inv :: "reader \<Rightarrow> reader \<Rightarrow> forward_state \<Rightarrow> bool" where
  "forward_inv ti pi st \<longleftrightarrow>
     (\<exists>X P Y Q frames.
        reader_data ti = X @ reader_data (tls_in st)
      \<and> drains tls_next X P (tls_buffer (tls_decoder st))
      \<and> encode_stream hdlc_new P = (hdlc_encoder st, sent (pty_wr st) @ pending (pty_out st))
      \<and> tls_to_pty_packets (stats st) = of_nat (length P)
      \<and> reader_data pi = Y @ reader_data (pty_in st)
      \<and> drains pty_next Y Q (pty_buffer (pty_decoder st))
      \<and> tls_frames Q frames
      \<and> concat frames = sent (tls_wr st) @ pending (tls_out st)
      \<and> pty_to_tls_packets (stats st) = of_nat (length Q))"

definition queues_ok :: "forward_state \<Rightarrow> bool" where
  "queues_ok st \<longleftrightarrow> queue_inv (tls_out st) \<and> queue_inv (pty_out st)"

lemma forward_inv_init:
  assumes "sent pw = []" "sent tw = []"
  shows "forward_inv ti pi (forward_init pi pw ti tw)" "queues_ok (forward_init pi pw ti tw)"
proof -
  have "drains tls_next [] [] []" "drains pty_next [] [] []"
    by (auto intro!: drains_stop simp: tls_next_def pty_next_def find_frame_def find_flag_def)
  then show "forward_inv ti pi (forward_init pi pw ti tw)"
    unfolding forward_inv_def using assms
    by (intro exI [of _ "[]"])
      (simp add: forward_init_def tls_packet_stream_decoder_new_def pppd_pty_decoder_new_def
        forward_stats_default_def tls_frames_def)
  show "queues_ok (forward_init pi pw ti tw)" by (simp add: queues_ok_def forward_init_def)
qed

lemma forward_inv_pty_read:
  assumes "round_pty_read ev st = (st', res)" "queues_ok st"
  shows "queues_ok st' \<and> (res = Inr () \<longrightarrow> forward_inv ti pi st \<longrightarrow> forward_inv ti pi st')"
proof (cases "POLLIN ev")
  case False
  with assms show ?thesis by (auto simp: round_pty_read_def)
next
  case True
  obtain r d q s x where rd:
    "read_pty_into_tls_queue (pty_in st) (pty_decoder st) (tls_out st) (stats st) = (r, d, q, s, x)"
    using prod_cases5 by blast
  have st': "st' = st\<lparr>pty_in := r, pty_decoder := d, tls_out := q, stats := s\<rparr>" "res = x"
    using assms(1) True rd by (simp_all add: round_pty_read_def)
  have spec: "queue_inv q" "x = Inr () \<Longrightarrow> pty_effect (pty_in st) (pty_decoder st) (tls_out st) (stats st) r d q s"
    using read_pty_spec [OF rd] assms(2) by (auto simp: queues_ok_def)
  have "forward_inv ti pi st'" if ok: "x = Inr ()" and inv: "forward_inv ti pi st"
  proof -
    obtain X' ps fs where e: "reader_data (pty_in st) = X' @ reader_data r"
      "\<And>Y Q. drains pty_next Y Q (pty_buffer (pty_decoder st)) \<Longrightarrow> drains pty_next (Y @ X') (Q @ ps) (pty_buffer d)"
      "tls_frames ps fs" "pending q = pending (tls_out st) @ concat fs"
      "pty_to_tls_packets s = pty_to_tls_packets (stats st) + of_nat (length ps)"
      "tls_to_pty_packets s = tls_to_pty_packets (stats st)"
      using spec(2) [OF ok] unfolding pty_effect_def by blast
    obtain X P Y Q frames where i: "reader_data ti = X @ reader_data (tls_in st)"
      "drains tls_next X P (tls_buffer (tls_decoder st))"
      "encode_stream hdlc_new P = (hdlc_encoder st, sent (pty_wr st) @ pending (pty_out st))"
      "tls_to_pty_packets (stats st) = of_nat (length P)"
      "reader_data pi = Y @ reader_data (pty_in st)"
      "drains pty_next Y Q (pty_buffer (pty_decoder st))"
      "tls_frames Q frames" "concat frames = sent (tls_wr st) @ pending (tls_out st)"
      "pty_to_tls_packets (stats st) = of_nat (length Q)"
      using inv unfolding forward_inv_def by blast
    show ?thesis
      unfolding forward_inv_def st'(1)
      using i e e(2) [OF i(6)] tls_frames_append [OF i(7) e(3)]
      by (intro exI [of _ X] exI [of _ P] exI [of _ "Y @ X'"] exI [of _ "Q @ ps"]
          exI [of _ "frames @ fs"]) simp
  qed
  with st' spec assms(2) show ?thesis by (auto simp: queues_ok_def)
qed

lemma forward_inv_tls_read:
  assumes "queues_ok st"
  shows "\<exists>st' res. round_tls_read ev st = Return (st', res) \<and> queues_ok st'
    \<and> (res = Inr () \<longrightarrow> forward_inv ti pi st \<longrightarrow> forward_inv ti pi st')"
proof (cases "POLLIN ev")
  case False
  with assms show ?thesis by (simp add: round_tls_read_def)
next
  case True
  obtain r d h q s c x where rd: "read_tls_into_pty_queue (tls_in st) (tls_decoder st) (hdlc_encoder st)
      (pty_out st) (stats st) (ipcp_calls st) = Return (r, d, h, q, s, c, x)"
    and spec: "queue_inv q" "x = Inr () \<Longrightarrow> tls_effect (tls_in st) (tls_decoder st) (hdlc_encoder st)
      (pty_out st) (stats st) r d h q s"
    using read_tls_spec [of "pty_out st" "tls_in st" "tls_decoder st" "hdlc_encoder st" "stats st"
        "ipcp_calls st"] assms unfolding queues_ok_def by blast
  let ?st' = "st\<lparr>tls_in := r, tls_decoder := d, hdlc_encoder := h, pty_out := q, stats := s,
      ipcp_calls := c\<rparr>"
  have ret: "round_tls_read ev st = Return (?st', x)"
    using True rd by (simp add: round_tls_read_def)
  have "forward_inv ti pi ?st'" if ok: "x = Inr ()" and inv: "forward_inv ti pi st"
  proof -
    obtain X' ps where e: "reader_data (tls_in st) = X' @ reader_data r"
      "\<And>Y Q. drains tls_next Y Q (tls_buffer (tls_decoder st)) \<Longrightarrow> drains tls_next (Y @ X') (Q @ ps) (tls_buffer d)"
      "h = fst (encode_stream (hdlc_encoder st) ps)"
      "pending q = pending (pty_out st) @ snd (encode_stream (hdlc_encoder st) ps)"
      "tls_to_pty_packets s = tls_to_pty_packets (stats st) + of_nat (length ps)"
      "pty_to_tls_packets s = pty_to_tls_packets (stats st)"
      using spec(2) [OF ok] unfolding tls_effect_def by blast
    obtain X P Y Q frames where i: "reader_data ti = X @ reader_data (tls_in st)"
      "drains tls_next X P (tls_buffer (tls_decoder st))"
      "encode_stream hdlc_new P = (hdlc_encoder st, sent (pty_wr st) @ pending (pty_out st))"
      "tls_to_pty_packets (stats st) = of_nat (length P)"
      "reader_data pi = Y @ reader_data (pty_in st)"
      "drains pty_next Y Q (pty_buffer (pty_decoder st))"
      "tls_frames Q frames" "concat frames = sent (tls_wr st) @ pending (tls_out st)"
      "pty_to_tls_packets (stats st) = of_nat (length Q)"
      using inv unfolding forward_inv_def by blast
    show ?thesis
      unfolding forward_inv_def
      using i e e(2) [OF i(2)]
      by (intro exI [of _ "X @ X'"] exI [of _ "P @ ps"] exI [of _ Y] exI [of _ Q] exI [of _ frames])
        (simp add: encode_stream_append)
  qed
  with ret spec assms show ?thesis by (auto simp: queues_ok_def)
qed

lemma forward_inv_writes:
  assumes "queues_ok st"
  shows "\<exists>st' res. round_pty_write ev st = Return (st', res) \<and> queues_ok st'
      \<and> (forward_inv ti pi st \<longrightarrow> forward_inv ti pi st')"
    and "\<exists>st' res. round_tls_write ev st = Return (st', res) \<and> queues_ok st'
      \<and> (forward_inv ti pi st \<longrightarrow> forward_inv ti pi st')"
proof -
  obtain q w r where "write_available (pty_out st) (pty_wr st) = Return (q, w, r)" "queue_inv q"
    "sent w @ pending q = sent (pty_wr st) @ pending (pty_out st)"
    using write_available_spec [of "pty_out st" "pty_wr st"] assms unfolding queues_ok_def by blast
  then show "\<exists>st' res. round_pty_write ev st = Return (st', res) \<and> queues_ok st'
      \<and> (forward_inv ti pi st \<longrightarrow> forward_inv ti pi st')"
    using assms by (simp add: round_pty_write_def queues_ok_def forward_inv_def)
  obtain q w r where "write_available (tls_out st) (tls_wr st) = Return (q, w, r)" "queue_inv q"
    "sent w @ pending q = sent (tls_wr st) @ pending (tls_out st)"
    using write_available_spec [of "tls_out st" "tls_wr st"] assms unfolding queues_ok_def by blast
  then show "\<exists>st' res. round_tls_write ev st = Return (st', res) \<and> queues_ok st'
      \<and> (forward_inv ti pi st \<longrightarrow> forward_inv ti pi st')"
    using assms by (simp add: round_tls_write_def queues_ok_def forward_inv_def)
qed

text \<open>A step that keeps the invariants; an error result need not keep \<open>forward_inv\<close>.\<close>

definition keeps :: "reader \<Rightarrow> reader \<Rightarrow> forward_state \<Rightarrow> (forward_state \<times> unit res) exec \<Rightarrow> bool" where
  "keeps ti pi st m \<longleftrightarrow>
     (\<exists>st' res. m = Return (st', res) \<and> queues_ok st'
        \<and> (res = Inr () \<longrightarrow> forward_inv ti pi st \<longrightarrow> forward_inv ti pi st'))"

lemma keeps_then:
  assumes "keeps ti pi st m" "\<And>st'. queues_ok st' \<Longrightarrow> keeps ti pi st' (f st')"
  shows "keeps ti pi st (then_round m f)"
proof -
  obtain st' res where m: "m = Return (st', res)" "queues_ok st'"
    "res = Inr () \<longrightarrow> forward_inv ti pi st \<longrightarrow> forward_inv ti pi st'"
    using assms(1) unfolding keeps_def by blast
  show ?thesis
  proof (cases res)
    case (Inl e)
    with m show ?thesis by (simp add: keeps_def)
  next
    case (Inr u)
    with m assms(2) [OF m(2)] show ?thesis by (auto simp: keeps_def)
  qed
qed

lemma keeps_actions: "queues_ok st \<Longrightarrow> keeps ti pi st (round_actions pr tr st)"
  unfolding round_actions_def
proof (intro keeps_then)
  assume ok: "queues_ok st"
  obtain st' res where "round_pty_read pr st = (st', res)" by fastforce
  with forward_inv_pty_read [OF this ok, of ti pi]
  show "keeps ti pi st (Return (round_pty_read pr st))" by (simp add: keeps_def)
next
  fix st' assume ok: "queues_ok st'"
  show "keeps ti pi st' (round_tls_read tr st')"
    using forward_inv_tls_read [OF ok] unfolding keeps_def by blast
  show "keeps ti pi st' (round_pty_write pr st')" "keeps ti pi st' (round_tls_write tr st')"
    using forward_inv_writes [OF ok] unfolding keeps_def by blast+
qed

lemma forward_loop_spec:
  assumes "queues_ok st"
  shows "\<exists>st' out. forward_loop rounds st = Return (st', out) \<and> queues_ok st'
    \<and> (forward_inv ti pi st \<longrightarrow> (\<forall>e. out \<noteq> Some (Inl e)) \<longrightarrow>
        forward_inv ti pi st' \<and> (\<forall>s. out = Some (Inr s) \<longrightarrow> s = stats st'))"
  using assms
proof (induction rounds arbitrary: st)
  case Nil
  then show ?case by simp
next
  case (Cons rnd rounds)
  show ?case
  proof (cases "\<exists>pr tr. \<not> should_stop rnd \<and> poll_answer rnd (\<not> queue_is_empty (pty_out st))
      (\<not> queue_is_empty (tls_out st)) = Inr (pr, tr)
      \<and> \<not> (has_fatal_poll_event pr \<or> has_fatal_poll_event tr)")
    case False
    with Cons.prems show ?thesis by (auto split: sum.splits prod.splits)
  next
    case True
    then obtain pr tr where *: "\<not> should_stop rnd" "poll_answer rnd (\<not> queue_is_empty (pty_out st))
        (\<not> queue_is_empty (tls_out st)) = Inr (pr, tr)"
      "\<not> (has_fatal_poll_event pr \<or> has_fatal_poll_event tr)" by blast
    obtain st1 res where a: "round_actions pr tr st = Return (st1, res)" "queues_ok st1"
      "res = Inr () \<longrightarrow> forward_inv ti pi st \<longrightarrow> forward_inv ti pi st1"
      using keeps_actions [OF Cons.prems] unfolding keeps_def by blast
    show ?thesis
    proof (cases res)
      case (Inl e)
      with * a show ?thesis by simp
    next
      case (Inr u)
      from Cons.IH [OF a(2)] obtain st' out where
        "forward_loop rounds st1 = Return (st', out)" "queues_ok st'"
        "forward_inv ti pi st1 \<longrightarrow> (\<forall>e. out \<noteq> Some (Inl e)) \<longrightarrow>
           forward_inv ti pi st' \<and> (\<forall>s. out = Some (Inr s) \<longrightarrow> s = stats st')"
        by blast
      with * a Inr show ?thesis by simp
    qed
  qed
qed

section \<open>Properties\<close>

text \<open>Partial writes keep the byte order: writing from a queue never panics, what the
  writer received is the old output followed by a prefix of what was pending, and output
  and queue together are unchanged, whatever the writer accepted or refused.\<close>

theorem write_queue_order:
  assumes "queue_inv q"
  shows "\<exists>q' w' r. write_available q w = Return (q', w', r) \<and> queue_inv q'
    \<and> sent w' @ pending q' = sent w @ pending q
    \<and> (\<exists>k. sent w' = sent w @ take k (pending q))"
  by (rule write_available_spec [OF assms])

theorem write_queue_order_witness:
  "\<exists>q' w' r. write_available \<lparr>queue_chunks = [[1, 2, 3]], queue_offset = 1\<rparr>
       \<lparr>accepts = [Inr 1, Inl (IoError WouldBlock ''busy'')], sent = [1], flush_answer = Inr ()\<rparr>
     = Return (q', w', r) \<and> queue_inv q'
    \<and> sent w' @ pending q' = sent \<lparr>accepts = [Inr 1, Inl (IoError WouldBlock ''busy'')], sent = [1],
        flush_answer = Inr ()\<rparr> @ pending \<lparr>queue_chunks = [[1, 2, 3]], queue_offset = 1\<rparr>
    \<and> (\<exists>k. sent w' = sent \<lparr>accepts = [Inr 1, Inl (IoError WouldBlock ''busy'')], sent = [1],
        flush_answer = Inr ()\<rparr> @ take k (pending \<lparr>queue_chunks = [[1, 2, 3]], queue_offset = 1\<rparr>))"
  by (rule write_queue_order) (simp add: queue_inv_def)

text \<open>The packets that the decoder of the TLS stream returns do not depend on how its
  input was cut, and they are the packets that were encoded into it: a stream of encoded
  packets followed by an incomplete rest comes out as those packets, in any pieces.\<close>

theorem tls_stream_round_trip:
  assumes "\<forall>p \<in> set packets. packet_data p \<noteq> []" "tls_frames packets frames"
    and "tls_next rest = NeedMore" "concat pieces = concat frames @ rest" "pieces \<noteq> []"
  shows "feed tls_push_bytes tls_packet_stream_decoder_new pieces = (\<lparr>tls_buffer = rest\<rparr>, Inr packets)"
  using framed_tls_frames [OF assms(2,1)] assms(3-5)
  by (intro tls_framing.feed_framed [where fs = frames and rest = rest])
    (simp_all add: tls_packet_stream_decoder_new_def)

theorem tls_stream_round_trip_witness:
  "feed tls_push_bytes tls_packet_stream_decoder_new [[0, 7, 0x50], [0x50, 0, 1, 1, 0]]
     = (\<lparr>tls_buffer = [0]\<rparr>, Inr [ppp_packet_new [1]])"
  by (rule tls_stream_round_trip [where frames = "[[0, 7, 0x50, 0x50, 0, 1, 1]]"])
    (simp_all add: tls_frames_def encode_for_tls_def ppp_packet_new_def HEADER_LEN_def
      FORTINET_MAGIC_def u16_to_be_bytes_def tls_next_def)

lemma forward_inv_holds:
  assumes "sent pw = []" "sent tw = []"
  shows "\<exists>st out. forward_with_callbacks (Inr ()) (Inr ()) rounds pi pw ti tw = Return (st, out)
    \<and> ((\<forall>e. out \<noteq> Some (Inl e)) \<longrightarrow> forward_inv ti pi st \<and> (\<forall>s. out = Some (Inr s) \<longrightarrow> s = stats st))"
  using forward_loop_spec [OF forward_inv_init(2) [OF assms], of rounds] forward_inv_init(1) [OF assms]
  by (fastforce simp: forward_with_callbacks_def)

text \<open>In terms of bytes: unless it ended with an error, the bytes taken from each side decode to
  packets whose encodings are exactly what the other side received followed by what is still
  queued for it.\<close>

theorem forward_conserves_packets:
  assumes "sent pw = []" "sent tw = []"
  shows "\<exists>st out. forward_with_callbacks (Inr ()) (Inr ()) rounds pi pw ti tw = Return (st, out)
    \<and> ((\<forall>e. out \<noteq> Some (Inl e)) \<longrightarrow>
        (\<exists>X P Y Q frames.
            reader_data ti = X @ reader_data (tls_in st)
          \<and> drains tls_next X P (tls_buffer (tls_decoder st))
          \<and> encode_stream hdlc_new P = (hdlc_encoder st, sent (pty_wr st) @ pending (pty_out st))
          \<and> tls_to_pty_packets (stats st) = of_nat (length P)
          \<and> reader_data pi = Y @ reader_data (pty_in st)
          \<and> drains pty_next Y Q (pty_buffer (pty_decoder st))
          \<and> tls_frames Q frames
          \<and> concat frames = sent (tls_wr st) @ pending (tls_out st)
          \<and> pty_to_tls_packets (stats st) = of_nat (length Q))
        \<and> (\<forall>s. out = Some (Inr s) \<longrightarrow> s = stats st))"
  using forward_inv_holds [OF assms, of rounds pi ti] unfolding forward_inv_def by blast

theorem forward_conserves_packets_witness:
  "\<exists>st out. forward_with_callbacks (Inr ()) (Inr ())
      [\<lparr>should_stop = False, poll_answer = \<lambda>p t. Inr (
         \<lparr>POLLIN = True, POLLOUT = p, POLLERR = False, POLLHUP = False, POLLNVAL = False\<rparr>,
         \<lparr>POLLIN = True, POLLOUT = t, POLLERR = False, POLLHUP = False, POLLNVAL = False\<rparr>)\<rparr>]
      [Inl (IoError WouldBlock ''none'')] \<lparr>accepts = [], sent = [], flush_answer = Inr ()\<rparr>
      [Inr [0, 7, 0x50, 0x50, 0, 1, 1], Inl (IoError WouldBlock ''none'')]
      \<lparr>accepts = [], sent = [], flush_answer = Inr ()\<rparr> = Return (st, out)"
proof -
  let ?w = "\<lparr>accepts = [], sent = [], flush_answer = Inr ()\<rparr> :: writer"
  have "sent ?w = []" by simp
  from forward_conserves_packets [OF this this] show ?thesis by blast
qed

text \<open>What a decoder takes from a stream is never empty, so that it can be sent on.\<close>

lemma tls_next_data: "tls_next b = Item p r \<Longrightarrow> packet_data p \<noteq> []"
  by (auto simp: tls_next_def decode_from_tls_frame_def ppp_packet_new_def HEADER_LEN_def Let_def
      split: if_splits sum.splits)

lemma pty_next_data: "pty_next b = Item p r \<Longrightarrow> packet_data p \<noteq> []"
  by (auto simp: pty_next_def hdlc_decode_def ppp_packet_new_def Let_def
      split: if_splits sum.splits option.splits prod.splits)

lemma forward_inv_transparent:
  assumes "forward_inv ti pi st"
  shows "\<exists>X P Y Q.
      reader_data ti = X @ reader_data (tls_in st) \<and> drains tls_next X P (tls_buffer (tls_decoder st))
    \<and> (P \<noteq> [] \<longrightarrow> drains pty_next (sent (pty_wr st) @ pending (pty_out st)) P [0x7e])
    \<and> (P = [] \<longrightarrow> sent (pty_wr st) @ pending (pty_out st) = [])
    \<and> reader_data pi = Y @ reader_data (pty_in st) \<and> drains pty_next Y Q (pty_buffer (pty_decoder st))
    \<and> drains tls_next (sent (tls_wr st) @ pending (tls_out st)) Q []
    \<and> tls_to_pty_packets (stats st) = of_nat (length P) \<and> pty_to_tls_packets (stats st) = of_nat (length Q)"
proof -
  from assms obtain X P Y Q frames where
    x: "reader_data ti = X @ reader_data (tls_in st)" "drains tls_next X P (tls_buffer (tls_decoder st))"
      "encode_stream hdlc_new P = (hdlc_encoder st, sent (pty_wr st) @ pending (pty_out st))"
      "tls_to_pty_packets (stats st) = of_nat (length P)"
    and y: "reader_data pi = Y @ reader_data (pty_in st)" "drains pty_next Y Q (pty_buffer (pty_decoder st))"
      "tls_frames Q frames" "concat frames = sent (tls_wr st) @ pending (tls_out st)"
      "pty_to_tls_packets (stats st) = of_nat (length Q)"
    unfolding forward_inv_def by blast
  have p: "\<forall>p \<in> set P. packet_data p \<noteq> []"
    using x(2) by (rule drains_all) (rule tls_next_data)
  have q: "\<forall>p \<in> set Q. packet_data p \<noteq> []"
    using y(2) by (rule drains_all) (rule pty_next_data)
  have "drains tls_next (sent (tls_wr st) @ pending (tls_out st)) Q []"
    using tls_framing.drains_frames [OF framed_tls_frames [OF y(3) q]] y(4) by simp
  moreover have out: "sent (pty_wr st) @ pending (pty_out st) = snd (encode_stream hdlc_new P)" using x(3) by simp
  moreover have "drains pty_next (snd (encode_stream hdlc_new P)) P [0x7e]" if "P \<noteq> []"
    using drains_closed_bodies [OF p] that by (simp add: encode_stream_bodies hdlc_new_def)
  ultimately show ?thesis using x(1,2,4) y(1,2,5) by (intro exI conjI impI; simp)
qed

text \<open>C8. Forwarding is transparent: after any number of rounds with any poll results, partial reads
  and partial writes the loop has not panicked, and unless it ended with an error it is a
  lossless channel of packets in both directions: what the receiver of either side decodes
  from the bytes written to it and those still queued for it are exactly the packets that
  the bytes taken from the other side decode to, in their order; both statistics count these
  packets, and the statistics it returns are its own.\<close>

theorem forwarding_is_transparent:
  assumes "sent pw = []" "sent tw = []"
  shows "\<exists>st out. forward_with_callbacks (Inr ()) (Inr ()) rounds pi pw ti tw = Return (st, out)
    \<and> ((\<forall>e. out \<noteq> Some (Inl e)) \<longrightarrow>
        (\<exists>X P Y Q.
            reader_data ti = X @ reader_data (tls_in st) \<and> drains tls_next X P (tls_buffer (tls_decoder st))
          \<and> (P \<noteq> [] \<longrightarrow> drains pty_next (sent (pty_wr st) @ pending (pty_out st)) P [0x7e])
          \<and> (P = [] \<longrightarrow> sent (pty_wr st) @ pending (pty_out st) = [])
          \<and> reader_data pi = Y @ reader_data (pty_in st) \<and> drains pty_next Y Q (pty_buffer (pty_decoder st))
          \<and> drains tls_next (sent (tls_wr st) @ pending (tls_out st)) Q []
          \<and> tls_to_pty_packets (stats st) = of_nat (length P) \<and> pty_to_tls_packets (stats st) = of_nat (length Q))
        \<and> (\<forall>s. out = Some (Inr s) \<longrightarrow> s = stats st))"
proof -
  from forward_inv_holds [OF assms, of rounds pi ti] obtain st out where
    run: "forward_with_callbacks (Inr ()) (Inr ()) rounds pi pw ti tw = Return (st, out)"
    and ok: "(\<forall>e. out \<noteq> Some (Inl e)) \<longrightarrow> forward_inv ti pi st \<and> (\<forall>s. out = Some (Inr s) \<longrightarrow> s = stats st)"
    by blast
  from run ok forward_inv_transparent [of ti pi st] show ?thesis by (intro exI [of _ st] exI [of _ out] conjI impI) blast+
qed

definition both_ready_round :: forward_round where
  "both_ready_round = \<lparr>should_stop = False, poll_answer = \<lambda>p t. Inr (
     \<lparr>POLLIN = True, POLLOUT = p, POLLERR = False, POLLHUP = False, POLLNVAL = False\<rparr>,
     \<lparr>POLLIN = True, POLLOUT = t, POLLERR = False, POLLHUP = False, POLLNVAL = False\<rparr>)\<rparr>"

definition sample_forwarding :: "(forward_state \<times> (forward_stats res) option) exec" where
  "sample_forwarding = forward_with_callbacks (Inr ()) (Inr ()) [both_ready_round]
     [Inl (IoError WouldBlock ''none'')] \<lparr>accepts = [], sent = [], flush_answer = Inr ()\<rparr>
     [Inr [0, 7, 0x50, 0x50, 0, 1, 1], Inl (IoError WouldBlock ''none'')]
     \<lparr>accepts = [], sent = [], flush_answer = Inr ()\<rparr>"

lemma sample_forwarded:
  "case sample_forwarding of
     Return (st, out) \<Rightarrow> out = None \<and> tls_to_pty_packets (stats st) = 1 \<and> pending (pty_out st) \<noteq> []
   | Panic \<Rightarrow> False"
  by code_simp

theorem forwarding_is_transparent_witness:
  "\<exists>st P. sample_forwarding = Return (st, None) \<and> P \<noteq> []
     \<and> drains pty_next (sent (pty_wr st) @ pending (pty_out st)) P [0x7e]"
proof -
  let ?w = "\<lparr>accepts = [], sent = [], flush_answer = Inr ()\<rparr> :: writer"
  have "sent ?w = []" by simp
  from forwarding_is_transparent [OF this this, of "[both_ready_round]" "[Inl (IoError WouldBlock ''none'')]"
      "[Inr [0, 7, 0x50, 0x50, 0, 1, 1], Inl (IoError WouldBlock ''none'')]"] sample_forwarded
  show ?thesis unfolding sample_forwarding_def by fastforce
qed

end
