(* ===== verification/Net_Addr.thy ===== *)
theory Net_Addr
  imports Rust_Str
begin

text \<open>
  Addresses of \<open>std::net\<close> as the program uses them: the parsers of \<open>Ipv4Addr\<close> and
  \<open>SocketAddr\<close> with the rules of the standard library (decimal octets without leading
  zeros, IPv6 groups with one elision and an embedded IPv4 tail, an optional scope
  identifier), and the printing of IPv4 addresses. A parser returns the value and the rest
  of the input.

  Shown here: printing and parsing an IPv4 address is a round trip, and a parsed socket
  address keeps its port.
\<close>

type_synonym 'a parser = "string \<Rightarrow> ('a \<times> string) option"

datatype ipv6_addr = Ipv6Addr "u16 list"

datatype ip_addr = V4 ipv4_addr | V6 ipv6_addr

datatype socket_addr = SocketAddrV4 ipv4_addr u16 | SocketAddrV6 ipv6_addr u16 u32

section \<open>Numbers\<close>

definition digit_value :: "nat \<Rightarrow> char \<Rightarrow> nat option" where
  "digit_value radix c =
     (let n = code c;
          v = (if 48 \<le> n \<and> n \<le> 57 then Some (n - 48)
               else if 97 \<le> n \<and> n \<le> 122 then Some (n - 97 + 10)
               else if 65 \<le> n \<and> n \<le> 90 then Some (n - 65 + 10) else None)
      in case v of None \<Rightarrow> None | Some d \<Rightarrow> if d < radix then Some d else None)"

text \<open>All leading digits: their value, their number and the rest.\<close>

fun take_digits :: "nat \<Rightarrow> nat \<Rightarrow> nat \<Rightarrow> string \<Rightarrow> nat \<times> nat \<times> string" where
  "take_digits radix acc n [] = (acc, n, [])"
| "take_digits radix acc n (c # cs) =
     (case digit_value radix c of
        None \<Rightarrow> (acc, n, c # cs)
      | Some d \<Rightarrow> take_digits radix (radix * acc + d) (n + 1) cs)"

definition read_number :: "nat \<Rightarrow> nat option \<Rightarrow> bool \<Rightarrow> nat \<Rightarrow> nat parser" where
  "read_number radix max_digits allow_zero_prefix limit s =
     (case take_digits radix 0 0 s of
        (v, n, rest) \<Rightarrow>
          if n = 0 then None
          else if (case max_digits of None \<Rightarrow> False | Some m \<Rightarrow> m < n) then None
          else if \<not> allow_zero_prefix \<and> hd s = CHR ''0'' \<and> 1 < n then None
          else if v < limit then Some (v, rest) else None)"

definition read_given_char :: "char \<Rightarrow> unit parser" where
  "read_given_char c s = (case s of x # xs \<Rightarrow> if x = c then Some ((), xs) else None | [] \<Rightarrow> None)"

definition read_separator :: "char \<Rightarrow> nat \<Rightarrow> 'a parser \<Rightarrow> 'a parser" where
  "read_separator sep i p s =
     (if i = 0 then p s
      else case read_given_char sep s of None \<Rightarrow> None | Some (_, s1) \<Rightarrow> p s1)"

section \<open>IPv4\<close>

definition read_octet :: "u8 parser" where
  "read_octet s = map_option (\<lambda>(v, rest). (of_nat v, rest)) (read_number 10 (Some 3) False 256 s)"

definition read_ipv4_addr :: "ipv4_addr parser" where
  "read_ipv4_addr s =
     (case read_octet s of None \<Rightarrow> None | Some (a, s1) \<Rightarrow>
      (case read_separator CHR ''.'' 1 read_octet s1 of None \<Rightarrow> None | Some (b, s2) \<Rightarrow>
       (case read_separator CHR ''.'' 2 read_octet s2 of None \<Rightarrow> None | Some (c, s3) \<Rightarrow>
        (case read_separator CHR ''.'' 3 read_octet s3 of None \<Rightarrow> None | Some (d, s4) \<Rightarrow>
         Some (Ipv4Addr a b c d, s4)))))"

definition parse_ipv4 :: "string \<Rightarrow> ipv4_addr option" where
  "parse_ipv4 s =
     (if length s > 15 then None
      else case read_ipv4_addr s of Some (a, []) \<Rightarrow> Some a | _ \<Rightarrow> None)"

fun show_ipv4 :: "ipv4_addr \<Rightarrow> string" where
  "show_ipv4 (Ipv4Addr a b c d) =
     show_word a @ ''.'' @ show_word b @ ''.'' @ show_word c @ ''.'' @ show_word d"

section \<open>IPv6 and socket addresses\<close>

text \<open>A chunk of groups: the groups read and whether they end with an embedded IPv4 address.\<close>

fun read_groups :: "nat \<Rightarrow> nat \<Rightarrow> string \<Rightarrow> u16 list \<times> bool \<times> string" where
  "read_groups 0 i s = ([], False, s)"
| "read_groups (Suc left) i s =
     (case (if 0 < left then read_separator CHR '':'' i read_ipv4_addr s else None) of
        Some (Ipv4Addr a b c d, s1) \<Rightarrow> ([u16_from_be_bytes a b, u16_from_be_bytes c d], True, s1)
      | None \<Rightarrow>
          (case read_separator CHR '':'' i (read_number 16 (Some 4) True 65536) s of
             None \<Rightarrow> ([], False, s)
           | Some (g, s1) \<Rightarrow>
               (case read_groups left (i + 1) s1 of (gs, v4, s2) \<Rightarrow> (of_nat g # gs, v4, s2))))"

definition read_ipv6_addr :: "ipv6_addr parser" where
  "read_ipv6_addr s =
     (case read_groups 8 0 s of
        (head, head_ipv4, s1) \<Rightarrow>
          if length head = 8 then Some (Ipv6Addr head, s1)
          else if head_ipv4 then None
          else
            case read_given_char CHR '':'' s1 of None \<Rightarrow> None | Some (_, s2) \<Rightarrow>
            (case read_given_char CHR '':'' s2 of None \<Rightarrow> None | Some (_, s3) \<Rightarrow>
             (case read_groups (8 - (length head + 1)) 0 s3 of
                (tail, _, s4) \<Rightarrow>
                  Some (Ipv6Addr (head @ replicate (8 - length head - length tail) 0 @ tail), s4))))"

definition read_port :: "u16 parser" where
  "read_port s =
     (case read_given_char CHR '':'' s of
        None \<Rightarrow> None
      | Some (_, s1) \<Rightarrow>
          map_option (\<lambda>(v, rest). (of_nat v, rest)) (read_number 10 None True 65536 s1))"

definition read_scope_id :: "u32 parser" where
  "read_scope_id s =
     (case read_given_char CHR ''%'' s of
        None \<Rightarrow> None
      | Some (_, s1) \<Rightarrow>
          map_option (\<lambda>(v, rest). (of_nat v, rest)) (read_number 10 None True (2 ^ 32) s1))"

definition read_socket_addr_v4 :: "socket_addr parser" where
  "read_socket_addr_v4 s =
     (case read_ipv4_addr s of
        None \<Rightarrow> None
      | Some (ip, s1) \<Rightarrow> map_option (\<lambda>(port, s2). (SocketAddrV4 ip port, s2)) (read_port s1))"

definition read_socket_addr_v6 :: "socket_addr parser" where
  "read_socket_addr_v6 s =
     (case read_given_char CHR ''['' s of None \<Rightarrow> None | Some (_, s1) \<Rightarrow>
      (case read_ipv6_addr s1 of None \<Rightarrow> None | Some (ip, s2) \<Rightarrow>
       (case (case read_scope_id s2 of Some r \<Rightarrow> r | None \<Rightarrow> (0, s2)) of
          (scope, s3) \<Rightarrow>
            (case read_given_char CHR '']'' s3 of
               None \<Rightarrow> None
             | Some (_, s4) \<Rightarrow>
                 map_option (\<lambda>(port, s5). (SocketAddrV6 ip port scope, s5)) (read_port s4)))))"

definition parse_socket_addr_std :: "string \<Rightarrow> socket_addr option" where
  "parse_socket_addr_std s =
     (case (case read_socket_addr_v4 s of Some r \<Rightarrow> Some r | None \<Rightarrow> read_socket_addr_v6 s) of
        Some (a, []) \<Rightarrow> Some a
      | _ \<Rightarrow> None)"

fun socket_port :: "socket_addr \<Rightarrow> u16" where
  "socket_port (SocketAddrV4 ip port) = port"
| "socket_port (SocketAddrV6 ip port scope) = port"

section \<open>Round trips\<close>

lemma digit_value_decimal: "is_ascii_digit c \<Longrightarrow> digit_value 10 c = Some (code c - 48)"
  by (auto simp: digit_value_def is_ascii_digit_def Let_def)

text \<open>What a decimal number may be followed by.\<close>

definition no_digit_front :: "string \<Rightarrow> bool" where
  "no_digit_front s \<longleftrightarrow> (case s of [] \<Rightarrow> True | c # _ \<Rightarrow> digit_value 10 c = None)"

lemma take_digits_decimal:
  assumes "\<forall>c \<in> set ds. is_ascii_digit c" "digits_value acc ds = Some v" "no_digit_front rest"
  shows "take_digits 10 acc n (ds @ rest) = (v, n + length ds, rest)"
  using assms(1,2)
proof (induction ds arbitrary: acc n)
  case Nil
  with assms(3) show ?case by (cases rest) (auto simp: no_digit_front_def)
next
  case (Cons c cs)
  then show ?case by (auto simp: digit_value_decimal)
qed

lemma show_nat_hd: "0 < n \<Longrightarrow> hd (show_nat n) \<noteq> CHR ''0''"
proof (induction n rule: show_nat.induct)
  case (1 n)
  show ?case
  proof (cases "n < 10")
    case True
    have "char_of (48 + n) \<noteq> CHR ''0''"
      using True "1.prems" by (auto dest: arg_cong [where f = "of_char :: char \<Rightarrow> nat"])
    with True show ?thesis by (subst show_nat.simps) simp
  next
    case False
    then have "hd (show_nat (n div 10)) \<noteq> CHR ''0''" using "1.IH" by simp
    with False show ?thesis by (subst show_nat.simps) simp
  qed
qed

lemma length_show_nat: "n < 1000 \<Longrightarrow> length (show_nat n) \<le> 3"
proof -
  assume "n < 1000"
  then have "n div 10 div 10 < 10" by linarith
  then show ?thesis
    by (subst show_nat.simps, subst show_nat.simps, subst show_nat.simps) simp
qed

lemma length_show_nat_1: "n < 10 \<Longrightarrow> length (show_nat n) = 1"
  by (subst show_nat.simps) simp

lemma read_octet_show:
  assumes "no_digit_front rest"
  shows "read_octet (show_word (w :: u8) @ rest) = Some (w, rest)"
proof -
  let ?n = "unat w"
  have td: "take_digits 10 0 0 (show_nat ?n @ rest) = (?n, length (show_nat ?n), rest)"
    using take_digits_decimal [OF _ digits_value_show_nat assms, of ?n 0] show_nat_digits by auto
  have len: "length (show_nat ?n) \<le> 3" using length_show_nat unat_u8_less [of w] by simp
  have "hd (show_nat ?n @ rest) = hd (show_nat ?n)" by simp
  moreover have "\<not> (hd (show_nat ?n) = CHR ''0'' \<and> 1 < length (show_nat ?n))"
    using show_nat_hd [of ?n] length_show_nat_1 [of ?n] by (cases "?n = 0") auto
  ultimately show ?thesis
    using td len unat_u8_less [of w]
    by (auto simp: read_octet_def read_number_def show_word_def)
qed

lemma no_digit_front_dot [simp]: "no_digit_front (CHR ''.'' # s)" "no_digit_front []"
  "no_digit_front (CHR '':'' # s)"
  by (simp_all add: no_digit_front_def digit_value_def)

lemma read_ipv4_show:
  "no_digit_front rest \<Longrightarrow> read_ipv4_addr (show_ipv4 a @ rest) = Some (a, rest)"
  by (cases a) (simp add: read_ipv4_addr_def read_octet_show read_separator_def read_given_char_def)

lemma length_show_u8: "length (show_word (w :: u8)) \<le> 3"
  using length_show_nat [of "unat w"] unat_u8_less [of w] by (simp add: show_word_def)

lemma length_show_ipv4: "length (show_ipv4 a) \<le> 15"
proof (cases a)
  case (Ipv4Addr b c d e)
  then show ?thesis
    using length_show_u8 [of b] length_show_u8 [of c] length_show_u8 [of d] length_show_u8 [of e]
    by simp
qed

lemma parse_show_ipv4 [codec_simps]: "parse_ipv4 (show_ipv4 a) = Some a"
  using read_ipv4_show [of "[]" a] length_show_ipv4 [of a] by (simp add: parse_ipv4_def)

lemma read_port_show: "read_port (CHR '':'' # show_word (p :: u16)) = Some (p, [])"
  using take_digits_decimal [OF _ digits_value_show_nat, of "unat p" "[]" 0] show_nat_digits
    unat_u16_less [of p]
  by (auto simp: read_port_def read_given_char_def read_number_def show_word_def)

lemma parse_show_socket_v4 [codec_simps]:
  "parse_socket_addr_std (show_ipv4 a @ '':'' @ show_word p) = Some (SocketAddrV4 a p)"
  by (simp add: parse_socket_addr_std_def read_socket_addr_v4_def read_ipv4_show read_port_show)

section \<open>Printing socket addresses\<close>

fun show_hex :: "nat \<Rightarrow> string" where
  "show_hex n = (if n < 16 then [''0123456789abcdef'' ! n] else show_hex (n div 16) @ [''0123456789abcdef'' ! (n mod 16)])"

declare show_hex.simps [simp del]

text \<open>The first longest run of zero segments, as its start and length.\<close>

fun longest_zeros :: "u16 list \<Rightarrow> nat \<Rightarrow> nat \<times> nat \<Rightarrow> nat \<times> nat \<Rightarrow> nat \<times> nat" where
  "longest_zeros [] i current longest = longest"
| "longest_zeros (g # gs) i (start, len) longest =
     (if g = 0 then
        let current = (if len = 0 then i else start, len + 1)
        in longest_zeros gs (i + 1) current (if snd longest < snd current then current else longest)
      else longest_zeros gs (i + 1) (0, 0) longest)"

definition show_segments :: "u16 list \<Rightarrow> string" where
  "show_segments gs = join '':'' (map (\<lambda>g. show_hex (unat g)) gs)"

fun show_ipv6 :: "ipv6_addr \<Rightarrow> string" where
  "show_ipv6 (Ipv6Addr gs) =
     (if length gs = 8 \<and> list_all (\<lambda>g. g = 0) (take 5 gs) \<and> gs ! 5 = 0xffff
      then ''::ffff:'' @ show_ipv4 (Ipv4Addr (ucast (drop_bit 8 (gs ! 6))) (ucast (gs ! 6))
                                           (ucast (drop_bit 8 (gs ! 7))) (ucast (gs ! 7)))
      else case longest_zeros gs 0 (0, 0) (0, 0) of
        (start, len) \<Rightarrow>
          if 1 < len then show_segments (take start gs) @ ''::'' @ show_segments (drop (start + len) gs)
          else show_segments gs)"

fun show_socket_addr :: "socket_addr \<Rightarrow> string" where
  "show_socket_addr (SocketAddrV4 a port) = show_ipv4 a @ '':'' @ show_word port"
| "show_socket_addr (SocketAddrV6 a port scope) =
     ''['' @ show_ipv6 a @ (if scope = 0 then [] else ''%'' @ show_word scope) @ '']:'' @ show_word port"

end
