(* ===== verification/Cli.thy ===== *)
theory Cli
  imports Net_Addr
begin

text \<open>
  The command line (\<open>src/cli.rs\<close>): the record of its options, filled by the argument parser
  of the \<open>clap\<close> library, and the parser of boolean option values.
\<close>

record cli =
  cli_gateway :: "string option"
  cli_version :: bool
  cli_config :: "string option"
  cli_username :: "string option"
  cli_password :: "string option"
  cli_cookie :: "string option"
  cli_cookie_on_stdin :: bool
  cli_saml_login :: "u16 option"
  cli_otp :: "string option"
  cli_otp_prompt :: "string option"
  cli_otp_delay :: "u32 option"
  cli_no_ftm_push :: bool
  cli_pinentry :: "string option"
  cli_realm :: "string option"
  cli_ifname :: "string option"
  cli_sni :: "string option"
  cli_set_routes :: "bool option"
  cli_no_routes :: bool
  cli_half_internet_routes :: "bool option"
  cli_set_dns :: "bool option"
  cli_no_dns :: bool
  cli_ca_file :: "string option"
  cli_user_cert :: "string option"
  cli_user_key :: "string option"
  cli_pem_passphrase :: "string option"
  cli_use_syslog :: bool
  cli_use_resolvconf :: "bool option"
  cli_user_agent :: "string option"
  cli_hostcheck :: "string option"
  cli_check_virtual_desktop :: "string option"
  cli_trusted_cert :: "string list"
  cli_insecure_ssl :: bool
  cli_cipher_list :: "string option"
  cli_min_tls :: "string option"
  cli_seclevel_1 :: bool
  cli_reconnect_delay :: "u32 option"
  cli_persistent :: "u32 option"
  cli_max_reconnects :: "u32 option"
  cli_verbose :: u8
  cli_quiet :: u8
  cli_pppd_use_peerdns :: "bool option"
  cli_pppd_no_peerdns :: bool
  cli_pppd_log :: "string option"
  cli_pppd_plugin :: "string option"
  cli_pppd_ifname :: "string option"
  cli_pppd_ipparam :: "string option"
  cli_pppd_call :: "string option"
  cli_pppd_accept_remote :: "bool option"
  cli_ppp_system :: "string option"
  cli_proxy :: "socket_addr option"

definition parse_cli_bool :: "string \<Rightarrow> string + bool" where
  "parse_cli_bool value =
     (if value = [] then Inr False
      else if eq_ignore_ascii_case value ''true'' then Inr True
      else if eq_ignore_ascii_case value ''false'' then Inr False
      else
        case parse_u8 value of
          Some n \<Rightarrow>
            if n = 0 then Inr False else if n = 1 then Inr True
            else Inl (''bad boolean value: '' @ value)
        | None \<Rightarrow> Inl (''bad boolean value: '' @ value))"

text \<open>An empty command line.\<close>

definition cli_empty :: cli where
  "cli_empty = \<lparr>cli_gateway = None, cli_version = False, cli_config = None, cli_username = None, cli_password = None, cli_cookie = None, cli_cookie_on_stdin = False, cli_saml_login = None, cli_otp = None, cli_otp_prompt = None, cli_otp_delay = None, cli_no_ftm_push = False, cli_pinentry = None, cli_realm = None, cli_ifname = None, cli_sni = None, cli_set_routes = None, cli_no_routes = False, cli_half_internet_routes = None, cli_set_dns = None, cli_no_dns = False, cli_ca_file = None, cli_user_cert = None, cli_user_key = None, cli_pem_passphrase = None, cli_use_syslog = False, cli_use_resolvconf = None, cli_user_agent = None, cli_hostcheck = None, cli_check_virtual_desktop = None, cli_trusted_cert = [], cli_insecure_ssl = False, cli_cipher_list = None, cli_min_tls = None, cli_seclevel_1 = False, cli_reconnect_delay = None, cli_persistent = None, cli_max_reconnects = None, cli_verbose = 0, cli_quiet = 0, cli_pppd_use_peerdns = None, cli_pppd_no_peerdns = False, cli_pppd_log = None, cli_pppd_plugin = None, cli_pppd_ifname = None, cli_pppd_ipparam = None, cli_pppd_call = None, cli_pppd_accept_remote = None, cli_ppp_system = None, cli_proxy = None\<rparr>"

end
