(* ===== verification/Config.thy ===== *)
theory Config
  imports Cli
begin

text \<open>
  The configuration (\<open>src/config.rs\<close>): its record and defaults, the parsers of single values,
  the configuration file, the merge of two configurations and the options of the command
  line on top. Reading the file is a parameter, since it belongs to the file system.

  Shown here: what \<open>from_sources\<close> returns is well-formed (certificate digests are 64 lower-case
  hexadecimal digits, ports are not zero, the verbosity is at most 6, a cookie carries its
  name); reading a file is applying its pairs in order; the merge into the defaults loses
  nothing; and which source wins for each option.
\<close>

section \<open>Data\<close>

definition DEFAULT_GATEWAY_PORT :: u16 where "DEFAULT_GATEWAY_PORT = 443"
definition SHA256_DIGEST_HEX_LEN :: nat where "SHA256_DIGEST_HEX_LEN = 64"
definition DEFAULT_LOG_VERBOSITY :: u8 where "DEFAULT_LOG_VERBOSITY = 3"
definition MAX_LOG_VERBOSITY :: u8 where "MAX_LOG_VERBOSITY = 6"

datatype tls_version = Tls10 | Tls11 | Tls12 | Tls13

record config =
  gateway_host :: string
  gateway_port :: u16
  username :: string
  password :: "string option"
  cookie :: "string option"
  cookie_on_stdin :: bool
  saml_port :: "u16 option"
  saml_session_id :: "string option"
  otp :: "string option"
  otp_prompt :: "string option"
  otp_delay :: u32
  no_ftm_push :: bool
  pinentry :: "string option"
  realm :: "string option"
  iface_name :: "string option"
  sni :: "string option"
  set_routes :: bool
  set_dns :: bool
  half_internet_routes :: bool
  reconnect_delay :: "u32 option"
  max_reconnects :: u32
  use_syslog :: bool
  log_verbosity :: u8
  use_resolvconf :: bool
  user_agent :: string
  hostcheck :: "string option"
  check_virtual_desktop :: "string option"
  pppd_use_peerdns :: bool
  pppd_log :: "string option"
  pppd_plugin :: "string option"
  pppd_ipparam :: "string option"
  pppd_ifname :: "string option"
  pppd_call :: "string option"
  pppd_accept_remote :: bool
  ppp_system :: "string option"
  ca_file :: "string option"
  user_cert :: "string option"
  user_key :: "string option"
  pem_passphrase :: "string option"
  insecure_ssl :: bool
  cipher_list :: "string option"
  min_tls :: "tls_version option"
  seclevel_1 :: bool
  trusted_certs :: "string list"
  proxy :: "socket_addr option"

definition config_default :: config where
  "config_default =
     \<lparr>gateway_host = [],
      gateway_port = DEFAULT_GATEWAY_PORT,
      username = [],
      password = None,
      cookie = None,
      cookie_on_stdin = False,
      saml_port = None,
      saml_session_id = None,
      otp = None,
      otp_prompt = None,
      otp_delay = 0,
      no_ftm_push = False,
      pinentry = None,
      realm = None,
      iface_name = None,
      sni = None,
      set_routes = True,
      set_dns = True,
      half_internet_routes = False,
      reconnect_delay = None,
      max_reconnects = 0,
      use_syslog = False,
      log_verbosity = DEFAULT_LOG_VERBOSITY,
      use_resolvconf = True,
      user_agent = ''Mozilla/5.0 SV1'',
      hostcheck = None,
      check_virtual_desktop = None,
      pppd_use_peerdns = False,
      pppd_log = None,
      pppd_plugin = None,
      pppd_ipparam = None,
      pppd_ifname = None,
      pppd_call = None,
      pppd_accept_remote = True,
      ppp_system = None,
      ca_file = None,
      user_cert = None,
      user_key = None,
      pem_passphrase = None,
      insecure_ssl = False,
      cipher_list = None,
      min_tls = None,
      seclevel_1 = False,
      trusted_certs = [],
      proxy = None\<rparr>"

section \<open>Values\<close>

definition svpn_cookie_with_prefix :: "string \<Rightarrow> string" where
  "svpn_cookie_with_prefix value =
     (if starts_with value ''SVPNCOOKIE='' then value else ''SVPNCOOKIE='' @ value)"

text \<open>The sum in \<open>i16\<close> cannot overflow: it lies between -252 and 258.\<close>

definition cli_log_verbosity :: "u8 \<Rightarrow> u8 \<Rightarrow> u8" where
  "cli_log_verbosity verbose quiet =
     (let adjusted = int (unat DEFAULT_LOG_VERBOSITY) + int (unat verbose) - int (unat quiet)
      in of_int (max 0 (min adjusted (int (unat MAX_LOG_VERBOSITY)))))"

definition parse_bool :: "string \<Rightarrow> bool res" where
  "parse_bool value =
     (if value = [] then Inr False
      else if eq_ignore_ascii_case value ''true'' then Inr True
      else if eq_ignore_ascii_case value ''false'' then Inr False
      else
        case parse_u8 value of
          Some n \<Rightarrow>
            if n = 0 then Inr False else if n = 1 then Inr True else Inl (BadBoolean value)
        | None \<Rightarrow> Inl (BadBoolean value))"

definition parse_socket_addr :: "string \<Rightarrow> string \<Rightarrow> socket_addr res" where
  "parse_socket_addr key value =
     ok_or (Network (''bad socket address for '' @ key @ '': '' @ value)) (parse_socket_addr_std value)"

definition parse_port :: "string \<Rightarrow> string \<Rightarrow> u16 res" where
  "parse_port key value =
     (case parse_u16 value of
        None \<Rightarrow> Inl (BadPort key value)
      | Some port \<Rightarrow> if port = 0 then Inl (BadPort key value) else Inr port)"

definition parse_u32_key :: "string \<Rightarrow> string \<Rightarrow> u32 res" where
  "parse_u32_key key value = ok_or (BadInteger key value) (parse_u32 value)"

definition parse_tls_version :: "string \<Rightarrow> tls_version res" where
  "parse_tls_version value =
     (if value = ''1.0'' then Inr Tls10
      else if value = ''1.1'' then Inr Tls11
      else if value = ''1.2'' then Inr Tls12
      else if value = ''1.3'' then Inr Tls13
      else Inl (BadTlsVersion value))"

definition parse_gateway :: "string \<Rightarrow> (string \<times> u16 option) res" where
  "parse_gateway value =
     (case rsplit_once (\<lambda>c. c = CHR '':'') value of
        Some (host, port) \<Rightarrow>
          if host \<noteq> [] \<and> port \<noteq> [] \<and> list_all is_ascii_digit port
          then and_then (parse_port ''gateway'' port) (\<lambda>p. Inr (host, Some p))
          else Inr (value, None)
      | None \<Rightarrow> Inr (value, None))"

fun merge_option :: "'a option \<Rightarrow> 'a option \<Rightarrow> 'a option" where
  "merge_option dst (Some x) = Some x"
| "merge_option dst None = dst"

definition push_trusted_cert :: "string \<Rightarrow> config \<Rightarrow> config res" where
  "push_trusted_cert digest cfg =
     (if length digest \<noteq> SHA256_DIGEST_HEX_LEN \<or> \<not> list_all is_ascii_hexdigit digest
      then Inl (BadCertificateDigest digest)
      else Inr (cfg\<lparr>trusted_certs := trusted_certs cfg @ [to_ascii_lowercase digest]\<rparr>))"

section \<open>The configuration file\<close>

definition apply_pair :: "string \<Rightarrow> string \<Rightarrow> config \<Rightarrow> config res" where
  "apply_pair key value cfg =
     (if key = ''host'' then Inr (cfg\<lparr>gateway_host := value\<rparr>)
      else if key = ''port'' then and_then (parse_port key value) (\<lambda>v. Inr (cfg\<lparr>gateway_port := v\<rparr>))
      else if key = ''username'' then Inr (cfg\<lparr>username := value\<rparr>)
      else if key = ''password'' then Inr (cfg\<lparr>password := Some value\<rparr>)
      else if key = ''otp'' then Inr (cfg\<lparr>otp := Some value\<rparr>)
      else if key = ''otp-prompt'' then Inr (cfg\<lparr>otp_prompt := Some value\<rparr>)
      else if key = ''otp-delay'' then and_then (parse_u32_key key value) (\<lambda>v. Inr (cfg\<lparr>otp_delay := v\<rparr>))
      else if key = ''cookie'' \<or> key = ''cookie-on-stdin'' then Inr cfg
      else if key = ''no-ftm-push'' then and_then (parse_bool value) (\<lambda>v. Inr (cfg\<lparr>no_ftm_push := v\<rparr>))
      else if key = ''pinentry'' then Inr (cfg\<lparr>pinentry := Some value\<rparr>)
      else if key = ''realm'' then Inr (cfg\<lparr>realm := Some value\<rparr>)
      else if key = ''ifname'' then Inr (cfg\<lparr>iface_name := Some value\<rparr>)
      else if key = ''sni'' then Inr (cfg\<lparr>sni := Some value\<rparr>)
      else if key = ''set-routes'' then and_then (parse_bool value) (\<lambda>v. Inr (cfg\<lparr>set_routes := v\<rparr>))
      else if key = ''half-internet-routes'' then and_then (parse_bool value) (\<lambda>v. Inr (cfg\<lparr>half_internet_routes := v\<rparr>))
      else if key = ''reconnect-delay'' \<or> key = ''reconnect_delay'' \<or> key = ''persistent'' then and_then (parse_u32_key key value) (\<lambda>v. Inr (cfg\<lparr>reconnect_delay := Some v\<rparr>))
      else if key = ''max_recoonects'' \<or> key = ''max_reconnects'' \<or> key = ''max-reconnects'' then and_then (parse_u32_key key value) (\<lambda>v. Inr (cfg\<lparr>max_reconnects := v\<rparr>))
      else if key = ''set-dns'' then and_then (parse_bool value) (\<lambda>v. Inr (cfg\<lparr>set_dns := v\<rparr>))
      else if key = ''pppd-use-peerdns'' then and_then (parse_bool value) (\<lambda>v. Inr (cfg\<lparr>pppd_use_peerdns := v\<rparr>))
      else if key = ''pppd-log'' then Inr (cfg\<lparr>pppd_log := Some value\<rparr>)
      else if key = ''pppd-plugin'' then Inr (cfg\<lparr>pppd_plugin := Some value\<rparr>)
      else if key = ''pppd-ipparam'' then Inr (cfg\<lparr>pppd_ipparam := Some value\<rparr>)
      else if key = ''pppd-ifname'' then Inr (cfg\<lparr>pppd_ifname := Some value\<rparr>)
      else if key = ''pppd-call'' then Inr (cfg\<lparr>pppd_call := Some value\<rparr>)
      else if key = ''pppd-accept-remote'' then and_then (parse_bool value) (\<lambda>v. Inr (cfg\<lparr>pppd_accept_remote := v\<rparr>))
      else if key = ''ppp-system'' then Inr (cfg\<lparr>ppp_system := Some value\<rparr>)
      else if key = ''use-syslog'' then and_then (parse_bool value) (\<lambda>v. Inr (cfg\<lparr>use_syslog := v\<rparr>))
      else if key = ''use-resolvconf'' then and_then (parse_bool value) (\<lambda>v. Inr (cfg\<lparr>use_resolvconf := v\<rparr>))
      else if key = ''trusted-cert'' then push_trusted_cert value cfg
      else if key = ''ca-file'' then Inr (cfg\<lparr>ca_file := Some value\<rparr>)
      else if key = ''user-cert'' then Inr (cfg\<lparr>user_cert := Some value\<rparr>)
      else if key = ''saml-login'' then and_then (parse_port key value) (\<lambda>v. Inr (cfg\<lparr>saml_port := Some v\<rparr>))
      else if key = ''user-key'' then Inr (cfg\<lparr>user_key := Some value\<rparr>)
      else if key = ''pem-passphrase'' then Inr (cfg\<lparr>pem_passphrase := Some value\<rparr>)
      else if key = ''insecure-ssl'' then and_then (parse_bool value) (\<lambda>v. Inr (cfg\<lparr>insecure_ssl := v\<rparr>))
      else if key = ''cipher-list'' then Inr (cfg\<lparr>cipher_list := Some value\<rparr>)
      else if key = ''min-tls'' then and_then (parse_tls_version value) (\<lambda>v. Inr (cfg\<lparr>min_tls := Some v\<rparr>))
      else if key = ''seclevel-1'' then and_then (parse_bool value) (\<lambda>v. Inr (cfg\<lparr>seclevel_1 := v\<rparr>))
      else if key = ''user-agent'' then Inr (cfg\<lparr>user_agent := value\<rparr>)
      else if key = ''hostcheck'' then Inr (cfg\<lparr>hostcheck := Some value\<rparr>)
      else if key = ''check-virtual-desktop'' then Inr (cfg\<lparr>check_virtual_desktop := Some value\<rparr>)
      else if key = ''proxy'' then and_then (parse_socket_addr ''proxy'' value) (\<lambda>v. Inr (cfg\<lparr>proxy := Some v\<rparr>))
      else Inl (UnknownConfigKey key))"

fun apply_lines :: "string list \<Rightarrow> config \<Rightarrow> config res" where
  "apply_lines [] cfg = Inr cfg"
| "apply_lines (raw_line # lines) cfg =
     (let line = trim raw_line in
      if line = [] \<or> starts_with line ''#'' then apply_lines lines cfg
      else
        case split_once (\<lambda>c. c = CHR ''='') line of
          None \<Rightarrow> apply_lines lines cfg
        | Some (key, value) \<Rightarrow> and_then (apply_pair (trim key) (trim value) cfg) (apply_lines lines))"

definition parse_config_file :: "string \<Rightarrow> config res" where
  "parse_config_file contents = apply_lines (str_lines contents) config_default"

definition merge :: "config \<Rightarrow> config \<Rightarrow> config" where
  "merge self other =
     \<lparr>gateway_host = (if gateway_host other \<noteq> [] then gateway_host other else gateway_host self),
      gateway_port = (if gateway_port other \<noteq> DEFAULT_GATEWAY_PORT then gateway_port other else gateway_port self),
      username = (if username other \<noteq> [] then username other else username self),
      password = merge_option (password self) (password other),
      cookie = merge_option (cookie self) (cookie other),
      cookie_on_stdin = (cookie_on_stdin self \<or> cookie_on_stdin other),
      saml_port = merge_option (saml_port self) (saml_port other),
      saml_session_id = merge_option (saml_session_id self) (saml_session_id other),
      otp = merge_option (otp self) (otp other),
      otp_prompt = merge_option (otp_prompt self) (otp_prompt other),
      otp_delay = (if otp_delay other \<noteq> 0 then otp_delay other else otp_delay self),
      no_ftm_push = (no_ftm_push self \<or> no_ftm_push other),
      pinentry = merge_option (pinentry self) (pinentry other),
      realm = merge_option (realm self) (realm other),
      iface_name = merge_option (iface_name self) (iface_name other),
      sni = merge_option (sni self) (sni other),
      set_routes = set_routes other,
      set_dns = set_dns other,
      half_internet_routes = half_internet_routes other,
      reconnect_delay = merge_option (reconnect_delay self) (reconnect_delay other),
      max_reconnects = (if max_reconnects other \<noteq> 0 then max_reconnects other else max_reconnects self),
      use_syslog = (use_syslog self \<or> use_syslog other),
      log_verbosity = log_verbosity other,
      use_resolvconf = use_resolvconf other,
      user_agent = (if user_agent other \<noteq> user_agent config_default then user_agent other else user_agent self),
      hostcheck = merge_option (hostcheck self) (hostcheck other),
      check_virtual_desktop = merge_option (check_virtual_desktop self) (check_virtual_desktop other),
      pppd_use_peerdns = pppd_use_peerdns other,
      pppd_log = merge_option (pppd_log self) (pppd_log other),
      pppd_plugin = merge_option (pppd_plugin self) (pppd_plugin other),
      pppd_ipparam = merge_option (pppd_ipparam self) (pppd_ipparam other),
      pppd_ifname = merge_option (pppd_ifname self) (pppd_ifname other),
      pppd_call = merge_option (pppd_call self) (pppd_call other),
      pppd_accept_remote = pppd_accept_remote other,
      ppp_system = merge_option (ppp_system self) (ppp_system other),
      ca_file = merge_option (ca_file self) (ca_file other),
      user_cert = merge_option (user_cert self) (user_cert other),
      user_key = merge_option (user_key self) (user_key other),
      pem_passphrase = merge_option (pem_passphrase self) (pem_passphrase other),
      insecure_ssl = (insecure_ssl self \<or> insecure_ssl other),
      cipher_list = merge_option (cipher_list self) (cipher_list other),
      min_tls = merge_option (min_tls self) (min_tls other),
      seclevel_1 = (seclevel_1 self \<or> seclevel_1 other),
      trusted_certs = trusted_certs self @ trusted_certs other,
      proxy = merge_option (proxy self) (proxy other)\<rparr>"

definition from_file :: "(string \<Rightarrow> io_error + string) \<Rightarrow> string \<Rightarrow> config res" where
  "from_file read_to_string path =
     and_then (lift_io (read_to_string path)) parse_config_file"

section \<open>The command line\<close>

fun set_if :: "'a option \<Rightarrow> ('a \<Rightarrow> config \<Rightarrow> config) \<Rightarrow> config \<Rightarrow> config" where
  "set_if None u cfg = cfg"
| "set_if (Some v) u cfg = u v cfg"

fun set_flag :: "bool \<Rightarrow> (config \<Rightarrow> config) \<Rightarrow> config \<Rightarrow> config" where
  "set_flag b u cfg = (if b then u cfg else cfg)"

declare set_flag.simps [simp del]

definition apply_cli_gateway :: "cli \<Rightarrow> config \<Rightarrow> config res" where
  "apply_cli_gateway c cfg =
     (case cli_gateway c of
        None \<Rightarrow> Inr cfg
      | Some gateway \<Rightarrow>
          and_then (parse_gateway gateway) (\<lambda>(host, port).
            let cfg = cfg\<lparr>gateway_host := host\<rparr>
            in Inr (case port of Some p \<Rightarrow> cfg\<lparr>gateway_port := p\<rparr> | None \<Rightarrow> cfg)))"

text \<open>The infallible assignments before the digests, between them and the TLS version, and
  after it.\<close>

definition apply_cli_early :: "cli \<Rightarrow> config \<Rightarrow> config" where
  "apply_cli_early c cfg =
     (let cfg = set_if (cli_username c) (\<lambda>v cfg. cfg\<lparr>username := v\<rparr>) cfg;
          cfg = set_if (cli_password c) (\<lambda>v cfg. cfg\<lparr>password := Some v\<rparr>) cfg;
          cfg = set_if (cli_cookie c) (\<lambda>v cfg. cfg\<lparr>cookie := Some (svpn_cookie_with_prefix v)\<rparr>) cfg;
          cfg = set_flag (cli_cookie_on_stdin c) (\<lambda>cfg. cfg\<lparr>cookie_on_stdin := True\<rparr>) cfg;
          cfg = set_if (cli_saml_login c) (\<lambda>v cfg. cfg\<lparr>saml_port := Some v\<rparr>) cfg;
          cfg = set_if (cli_otp c) (\<lambda>v cfg. cfg\<lparr>otp := Some v\<rparr>) cfg;
          cfg = set_if (cli_otp_prompt c) (\<lambda>v cfg. cfg\<lparr>otp_prompt := Some v\<rparr>) cfg;
          cfg = set_if (cli_otp_delay c) (\<lambda>v cfg. cfg\<lparr>otp_delay := v\<rparr>) cfg;
          cfg = set_flag (cli_no_ftm_push c) (\<lambda>cfg. cfg\<lparr>no_ftm_push := True\<rparr>) cfg;
          cfg = set_if (cli_pinentry c) (\<lambda>v cfg. cfg\<lparr>pinentry := Some v\<rparr>) cfg;
          cfg = set_if (cli_realm c) (\<lambda>v cfg. cfg\<lparr>realm := Some v\<rparr>) cfg;
          cfg = set_if (cli_ifname c) (\<lambda>v cfg. cfg\<lparr>iface_name := Some v\<rparr>) cfg;
          cfg = set_if (cli_sni c) (\<lambda>v cfg. cfg\<lparr>sni := Some v\<rparr>) cfg;
          cfg = set_if (cli_set_routes c) (\<lambda>v cfg. cfg\<lparr>set_routes := v\<rparr>) cfg;
          cfg = set_flag (cli_no_routes c) (\<lambda>cfg. cfg\<lparr>set_routes := False\<rparr>) cfg;
          cfg = set_if (cli_half_internet_routes c) (\<lambda>v cfg. cfg\<lparr>half_internet_routes := v\<rparr>) cfg;
          cfg = set_if (cli_set_dns c) (\<lambda>v cfg. cfg\<lparr>set_dns := v\<rparr>) cfg;
          cfg = set_flag (cli_no_dns c) (\<lambda>cfg. cfg\<lparr>set_dns := False\<rparr>) cfg;
          cfg = set_if (cli_ca_file c) (\<lambda>v cfg. cfg\<lparr>ca_file := Some v\<rparr>) cfg;
          cfg = set_if (cli_user_cert c) (\<lambda>v cfg. cfg\<lparr>user_cert := Some v\<rparr>) cfg;
          cfg = set_if (cli_user_key c) (\<lambda>v cfg. cfg\<lparr>user_key := Some v\<rparr>) cfg;
          cfg = set_if (cli_pem_passphrase c) (\<lambda>v cfg. cfg\<lparr>pem_passphrase := Some v\<rparr>) cfg;
          cfg = set_flag (cli_use_syslog c) (\<lambda>cfg. cfg\<lparr>use_syslog := True\<rparr>) cfg;
          cfg = cfg\<lparr>log_verbosity := cli_log_verbosity (cli_verbose c) (cli_quiet c)\<rparr>;
          cfg = set_if (cli_use_resolvconf c) (\<lambda>v cfg. cfg\<lparr>use_resolvconf := v\<rparr>) cfg;
          cfg = set_if (cli_user_agent c) (\<lambda>v cfg. cfg\<lparr>user_agent := v\<rparr>) cfg;
          cfg = set_if (cli_hostcheck c) (\<lambda>v cfg. cfg\<lparr>hostcheck := Some v\<rparr>) cfg;
          cfg = set_if (cli_check_virtual_desktop c) (\<lambda>v cfg. cfg\<lparr>check_virtual_desktop := Some v\<rparr>) cfg
      in cfg)"

fun push_trusted_certs :: "string list \<Rightarrow> config \<Rightarrow> config res" where
  "push_trusted_certs [] cfg = Inr cfg"
| "push_trusted_certs (digest # digests) cfg =
     and_then (push_trusted_cert digest cfg) (push_trusted_certs digests)"

definition apply_cli_middle :: "cli \<Rightarrow> config \<Rightarrow> config" where
  "apply_cli_middle c cfg =
     (let cfg = set_flag (cli_insecure_ssl c) (\<lambda>cfg. cfg\<lparr>insecure_ssl := True\<rparr>) cfg;
          cfg = set_if (cli_cipher_list c) (\<lambda>v cfg. cfg\<lparr>cipher_list := Some v\<rparr>) cfg
      in cfg)"

definition apply_cli_min_tls :: "cli \<Rightarrow> config \<Rightarrow> config res" where
  "apply_cli_min_tls c cfg =
     (case cli_min_tls c of
        None \<Rightarrow> Inr cfg
      | Some value \<Rightarrow> and_then (parse_tls_version value) (\<lambda>v. Inr (cfg\<lparr>min_tls := Some v\<rparr>)))"

definition apply_cli_late :: "cli \<Rightarrow> config \<Rightarrow> config" where
  "apply_cli_late c cfg =
     (let cfg = set_flag (cli_seclevel_1 c) (\<lambda>cfg. cfg\<lparr>seclevel_1 := True\<rparr>) cfg;
          cfg = set_if (case cli_reconnect_delay c of Some v \<Rightarrow> Some v | None \<Rightarrow> cli_persistent c) (\<lambda>v cfg. cfg\<lparr>reconnect_delay := Some v\<rparr>) cfg;
          cfg = set_if (cli_max_reconnects c) (\<lambda>v cfg. cfg\<lparr>max_reconnects := v\<rparr>) cfg;
          cfg = set_if (cli_pppd_use_peerdns c) (\<lambda>v cfg. cfg\<lparr>pppd_use_peerdns := v\<rparr>) cfg;
          cfg = set_flag (cli_pppd_no_peerdns c) (\<lambda>cfg. cfg\<lparr>pppd_use_peerdns := False\<rparr>) cfg;
          cfg = set_if (cli_pppd_log c) (\<lambda>v cfg. cfg\<lparr>pppd_log := Some v\<rparr>) cfg;
          cfg = set_if (cli_pppd_plugin c) (\<lambda>v cfg. cfg\<lparr>pppd_plugin := Some v\<rparr>) cfg;
          cfg = set_if (cli_pppd_ifname c) (\<lambda>v cfg. cfg\<lparr>pppd_ifname := Some v\<rparr>) cfg;
          cfg = set_if (cli_pppd_ipparam c) (\<lambda>v cfg. cfg\<lparr>pppd_ipparam := Some v\<rparr>) cfg;
          cfg = set_if (cli_pppd_call c) (\<lambda>v cfg. cfg\<lparr>pppd_call := Some v\<rparr>) cfg;
          cfg = set_if (cli_pppd_accept_remote c) (\<lambda>v cfg. cfg\<lparr>pppd_accept_remote := v\<rparr>) cfg;
          cfg = set_if (cli_ppp_system c) (\<lambda>v cfg. cfg\<lparr>ppp_system := Some v\<rparr>) cfg;
          cfg = set_if (cli_proxy c) (\<lambda>v cfg. cfg\<lparr>proxy := Some v\<rparr>) cfg
      in cfg)"

definition apply_cli :: "cli \<Rightarrow> config \<Rightarrow> config res" where
  "apply_cli c cfg =
     and_then (apply_cli_gateway c cfg) (\<lambda>cfg.
     and_then (push_trusted_certs (cli_trusted_cert c) (apply_cli_early c cfg)) (\<lambda>cfg.
     and_then (apply_cli_min_tls c (apply_cli_middle c cfg)) (\<lambda>cfg.
       Inr (apply_cli_late c cfg))))"

definition from_sources :: "(string \<Rightarrow> io_error + string) \<Rightarrow> cli \<Rightarrow> config res" where
  "from_sources read_to_string c =
     and_then
       (case cli_config c of
          Some path \<Rightarrow> and_then (from_file read_to_string path) (\<lambda>file. Inr (merge config_default file))
        | None \<Rightarrow> Inr config_default)
       (apply_cli c)"

section \<open>The merge into the defaults\<close>

lemma merge_option_None [simp]: "merge_option None x = x"
  by (cases x) simp_all

lemma merge_default: "merge config_default cfg = cfg"
  by (cases cfg) (simp add: merge_def config_default_def)

lemma from_sources_eq:
  "from_sources read c =
     and_then (case cli_config c of Some path \<Rightarrow> from_file read path | None \<Rightarrow> Inr config_default)
       (apply_cli c)"
proof (cases "cli_config c")
  case (Some path)
  then show ?thesis by (cases "from_file read path") (simp_all add: from_sources_def merge_default)
qed (simp add: from_sources_def)

section \<open>Well-formed configurations\<close>

definition digest_ok :: "string \<Rightarrow> bool" where
  "digest_ok d \<longleftrightarrow> length d = 64 \<and> list_all is_ascii_hexdigit d \<and> to_ascii_lowercase d = d"

definition config_wf :: "config \<Rightarrow> bool" where
  "config_wf cfg \<longleftrightarrow>
     list_all digest_ok (trusted_certs cfg)
   \<and> gateway_port cfg \<noteq> 0
   \<and> log_verbosity cfg \<le> 6
   \<and> (case cookie cfg of None \<Rightarrow> True | Some k \<Rightarrow> starts_with k ''SVPNCOOKIE='')"

lemma config_wf_default: "config_wf config_default"
  by (simp add: config_wf_def config_default_def DEFAULT_GATEWAY_PORT_def DEFAULT_LOG_VERBOSITY_def)

lemma digest_ok_lower:
  assumes "length d = 64" "list_all is_ascii_hexdigit d"
  shows "digest_ok (to_ascii_lowercase d)"
  using assms by (auto simp: digest_ok_def to_ascii_lowercase_def list_all_iff hexdigit_lower)

lemma parse_port_nonzero: "parse_port key value = Inr p \<Longrightarrow> p \<noteq> 0"
  by (auto simp: parse_port_def split: option.splits if_splits)

lemma push_trusted_cert_wf:
  "push_trusted_cert d cfg = Inr cfg' \<Longrightarrow> config_wf cfg \<Longrightarrow> config_wf cfg'"
  by (auto simp: push_trusted_cert_def config_wf_def SHA256_DIGEST_HEX_LEN_def digest_ok_lower
      split: if_splits)

text \<open>A result that is well-formed if it is one; the rules follow the shape of the code.\<close>

definition res_all :: "('a \<Rightarrow> bool) \<Rightarrow> 'a res \<Rightarrow> bool" where
  "res_all P r \<longleftrightarrow> (case r of Inl e \<Rightarrow> True | Inr x \<Rightarrow> P x)"

lemma res_all_if: "res_all P a \<Longrightarrow> res_all P b \<Longrightarrow> res_all P (if c then a else b)"
  by simp

lemma res_all_then: "(\<And>v. m = Inr v \<Longrightarrow> res_all P (f v)) \<Longrightarrow> res_all P (and_then m f)"
  by (cases m) (simp_all add: res_all_def)

lemma res_all_Inr [simp]: "res_all P (Inr x) = P x" "res_all P (Inl e)"
  by (simp_all add: res_all_def)

lemma res_allD: "res_all P r \<Longrightarrow> r = Inr x \<Longrightarrow> P x"
  by (simp add: res_all_def)

lemma apply_pair_wf: "config_wf cfg \<Longrightarrow> res_all config_wf (apply_pair key value cfg)"
  unfolding apply_pair_def
  by (intro res_all_if res_all_then)
    (auto simp: config_wf_def res_all_def push_trusted_cert_def SHA256_DIGEST_HEX_LEN_def digest_ok_lower
      dest: parse_port_nonzero)

lemma apply_lines_wf: "config_wf cfg \<Longrightarrow> res_all config_wf (apply_lines lines cfg)"
proof (induction lines arbitrary: cfg)
  case (Cons raw lines)
  have step: "res_all config_wf (and_then (apply_pair k v cfg) (apply_lines lines))" for k v
    using Cons.IH res_allD [OF apply_pair_wf [OF Cons.prems]] by (intro res_all_then) blast
  show ?case
    using Cons step by (simp add: Let_def split: option.split)
qed simp

text \<open>An assignment leaves alone the fields that it does not write.\<close>

lemma set_if_proj: "(\<And>v c. f (u v c) = f c) \<Longrightarrow> f (set_if x u cfg) = f cfg"
  by (cases x) simp_all

lemma set_flag_proj: "(\<And>c. f (w c) = f c) \<Longrightarrow> f (set_flag b w cfg) = f cfg"
  by (simp add: set_flag.simps)

lemmas field_simps_cli =
  set_if_proj [where f = trusted_certs] set_flag_proj [where f = trusted_certs]
  set_if_proj [where f = gateway_port] set_flag_proj [where f = gateway_port]
  set_if_proj [where f = gateway_host] set_flag_proj [where f = gateway_host]
  set_if_proj [where f = log_verbosity] set_flag_proj [where f = log_verbosity]
  set_if_proj [where f = cookie] set_flag_proj [where f = cookie]
  set_if_proj [where f = username] set_flag_proj [where f = username]
  set_if_proj [where f = password] set_flag_proj [where f = password]
  set_if_proj [where f = set_routes] set_flag_proj [where f = set_routes]
  set_if_proj [where f = set_dns] set_flag_proj [where f = set_dns]
  set_if_proj [where f = pppd_use_peerdns] set_flag_proj [where f = pppd_use_peerdns]
  set_if_proj [where f = reconnect_delay] set_flag_proj [where f = reconnect_delay]
  set_if_proj [where f = min_tls] set_flag_proj [where f = min_tls]

lemma cli_log_verbosity_uint:
  "uint (cli_log_verbosity v q) = max 0 (min (3 + uint v - uint q) 6)"
  by (simp add: cli_log_verbosity_def DEFAULT_LOG_VERBOSITY_def MAX_LOG_VERBOSITY_def Let_def
      unsigned_of_int take_bit_int_eq_self max_def min_def)

lemma cli_log_verbosity_le: "cli_log_verbosity v q \<le> 6"
  by (simp add: word_le_def cli_log_verbosity_uint)

lemma svpn_cookie_prefix: "starts_with (svpn_cookie_with_prefix v) ''SVPNCOOKIE=''"
  by (simp add: svpn_cookie_with_prefix_def starts_with_def)

lemma apply_cli_early_fields:
  "trusted_certs (apply_cli_early c cfg) = trusted_certs cfg"
  "gateway_port (apply_cli_early c cfg) = gateway_port cfg"
  "gateway_host (apply_cli_early c cfg) = gateway_host cfg"
  "min_tls (apply_cli_early c cfg) = min_tls cfg"
  "reconnect_delay (apply_cli_early c cfg) = reconnect_delay cfg"
  "pppd_use_peerdns (apply_cli_early c cfg) = pppd_use_peerdns cfg"
  "log_verbosity (apply_cli_early c cfg) = cli_log_verbosity (cli_verbose c) (cli_quiet c)"
  by (simp_all add: apply_cli_early_def Let_def field_simps_cli)

lemma apply_cli_early_set:
  "username (apply_cli_early c cfg) = (case cli_username c of None \<Rightarrow> username cfg | Some v \<Rightarrow> v)"
  "password (apply_cli_early c cfg) = (case cli_password c of None \<Rightarrow> password cfg | Some v \<Rightarrow> Some v)"
  "cookie (apply_cli_early c cfg) =
     (case cli_cookie c of None \<Rightarrow> cookie cfg | Some v \<Rightarrow> Some (svpn_cookie_with_prefix v))"
  "set_routes (apply_cli_early c cfg) =
     (\<not> cli_no_routes c \<and> (case cli_set_routes c of None \<Rightarrow> set_routes cfg | Some v \<Rightarrow> v))"
  "set_dns (apply_cli_early c cfg) =
     (\<not> cli_no_dns c \<and> (case cli_set_dns c of None \<Rightarrow> set_dns cfg | Some v \<Rightarrow> v))"
  by (simp_all add: apply_cli_early_def Let_def field_simps_cli)
    (simp_all add: field_simps_cli set_flag.simps split: option.split)

lemma apply_cli_middle_fields:
  "trusted_certs (apply_cli_middle c cfg) = trusted_certs cfg"
  "gateway_port (apply_cli_middle c cfg) = gateway_port cfg"
  "gateway_host (apply_cli_middle c cfg) = gateway_host cfg"
  "log_verbosity (apply_cli_middle c cfg) = log_verbosity cfg"
  "cookie (apply_cli_middle c cfg) = cookie cfg"
  "username (apply_cli_middle c cfg) = username cfg"
  "password (apply_cli_middle c cfg) = password cfg"
  "set_routes (apply_cli_middle c cfg) = set_routes cfg"
  "set_dns (apply_cli_middle c cfg) = set_dns cfg"
  "pppd_use_peerdns (apply_cli_middle c cfg) = pppd_use_peerdns cfg"
  "reconnect_delay (apply_cli_middle c cfg) = reconnect_delay cfg"
  "min_tls (apply_cli_middle c cfg) = min_tls cfg"
  by (simp_all add: apply_cli_middle_def Let_def field_simps_cli)

lemma apply_cli_late_fields:
  "trusted_certs (apply_cli_late c cfg) = trusted_certs cfg"
  "gateway_port (apply_cli_late c cfg) = gateway_port cfg"
  "gateway_host (apply_cli_late c cfg) = gateway_host cfg"
  "log_verbosity (apply_cli_late c cfg) = log_verbosity cfg"
  "cookie (apply_cli_late c cfg) = cookie cfg"
  "username (apply_cli_late c cfg) = username cfg"
  "password (apply_cli_late c cfg) = password cfg"
  "set_routes (apply_cli_late c cfg) = set_routes cfg"
  "set_dns (apply_cli_late c cfg) = set_dns cfg"
  "min_tls (apply_cli_late c cfg) = min_tls cfg"
  by (simp_all add: apply_cli_late_def Let_def field_simps_cli)

lemma apply_cli_late_set:
  "reconnect_delay (apply_cli_late c cfg) =
     merge_option (merge_option (reconnect_delay cfg) (cli_persistent c)) (cli_reconnect_delay c)"
  "pppd_use_peerdns (apply_cli_late c cfg) =
     (\<not> cli_pppd_no_peerdns c \<and> (case cli_pppd_use_peerdns c of None \<Rightarrow> pppd_use_peerdns cfg | Some v \<Rightarrow> v))"
proof -
  show "reconnect_delay (apply_cli_late c cfg) =
     merge_option (merge_option (reconnect_delay cfg) (cli_persistent c)) (cli_reconnect_delay c)"
    by (cases "cli_reconnect_delay c"; cases "cli_persistent c")
      (simp_all add: apply_cli_late_def Let_def field_simps_cli)
  show "pppd_use_peerdns (apply_cli_late c cfg) =
     (\<not> cli_pppd_no_peerdns c \<and> (case cli_pppd_use_peerdns c of None \<Rightarrow> pppd_use_peerdns cfg | Some v \<Rightarrow> v))"
    by (cases "cli_pppd_use_peerdns c")
      (simp_all add: apply_cli_late_def Let_def field_simps_cli set_flag.simps)
qed

lemmas apply_cli_fields =
  apply_cli_early_fields apply_cli_early_set apply_cli_middle_fields apply_cli_late_fields
  apply_cli_late_set

lemma config_wf_early: "config_wf cfg \<Longrightarrow> config_wf (apply_cli_early c cfg)"
  using svpn_cookie_prefix
  by (auto simp: config_wf_def apply_cli_fields cli_log_verbosity_le split: option.split)

lemma config_wf_rest:
  "config_wf (apply_cli_middle c cfg) = config_wf cfg"
  "config_wf (apply_cli_late c cfg) = config_wf cfg"
  by (simp_all add: config_wf_def apply_cli_fields)

lemma parse_gateway_port: "parse_gateway g = Inr (h, Some p) \<Longrightarrow> p \<noteq> 0"
  by (auto simp: parse_gateway_def dest: parse_port_nonzero split: option.splits if_splits)

lemma config_wf_gateway: "config_wf cfg \<Longrightarrow> res_all config_wf (apply_cli_gateway c cfg)"
  unfolding apply_cli_gateway_def
  by (auto simp: config_wf_def Let_def dest: parse_gateway_port split: option.split
      intro!: res_all_then)

lemma config_wf_certs: "config_wf cfg \<Longrightarrow> res_all config_wf (push_trusted_certs ds cfg)"
proof (induction ds arbitrary: cfg)
  case (Cons d ds)
  then show ?case by (auto intro!: res_all_then intro: push_trusted_cert_wf)
qed simp

lemma config_wf_min_tls: "config_wf cfg \<Longrightarrow> res_all config_wf (apply_cli_min_tls c cfg)"
  by (auto simp: apply_cli_min_tls_def config_wf_def split: option.split intro!: res_all_then)

lemma apply_cli_wf: "config_wf cfg \<Longrightarrow> res_all config_wf (apply_cli c cfg)"
  unfolding apply_cli_def
  using config_wf_gateway config_wf_certs config_wf_min_tls config_wf_early config_wf_rest
  by (intro res_all_then) (metis res_allD res_all_Inr(1))

lemma from_sources_wf: "res_all config_wf (from_sources read c)"
  unfolding from_sources_eq
proof (intro res_all_then)
  fix cfg
  assume "(case cli_config c of None \<Rightarrow> Inr config_default | Some path \<Rightarrow> from_file read path) = Inr cfg"
  then have "config_wf cfg"
    using config_wf_default apply_lines_wf [OF config_wf_default] res_allD
    by (fastforce simp: from_file_def parse_config_file_def split: option.splits)
  then show "res_all config_wf (apply_cli c cfg)" by (rule apply_cli_wf)
qed

section \<open>Reading a file is applying its pairs\<close>

text \<open>Applying pairs in order, stopping at the first error.\<close>

fun apply_pairs :: "(string \<times> string) list \<Rightarrow> config \<Rightarrow> config res" where
  "apply_pairs [] cfg = Inr cfg"
| "apply_pairs ((key, value) # pairs) cfg = and_then (apply_pair key value cfg) (apply_pairs pairs)"

text \<open>The lines of a file: assignments, comments behind some spaces, blank lines, and lines that
  assign nothing; and the pairs that an assignment can hold.\<close>

datatype config_line = Assign string string | Comment nat string | Blank nat | Stray string

fun line_text :: "config_line \<Rightarrow> string" where
  "line_text (Assign k v) = k @ '' = '' @ v"
| "line_text (Comment n t) = replicate n (CHR '' '') @ CHR ''#'' # t"
| "line_text (Blank n) = replicate n (CHR '' '')"
| "line_text (Stray t) = t"

definition file_text :: "config_line list \<Rightarrow> string" where
  "file_text ls = concat (map (\<lambda>l. line_text l @ [CHR 0x0A]) ls)"

fun assignments :: "config_line list \<Rightarrow> (string \<times> string) list" where
  "assignments [] = []"
| "assignments (Assign k v # ls) = (k, v) # assignments ls"
| "assignments (Comment n t # ls) = assignments ls"
| "assignments (Blank n # ls) = assignments ls"
| "assignments (Stray t # ls) = assignments ls"

definition plain_pair :: "string \<times> string \<Rightarrow> bool" where
  "plain_pair kv \<longleftrightarrow>
     fst kv \<noteq> [] \<and> trimmed (fst kv) \<and> hd (fst kv) \<noteq> CHR ''#''
   \<and> (\<forall>c \<in> set (fst kv). c \<noteq> CHR ''='' \<and> c \<noteq> CHR 0x0A)
   \<and> snd kv \<noteq> [] \<and> trimmed (snd kv) \<and> (\<forall>c \<in> set (snd kv). c \<noteq> CHR 0x0A)"

lemma ws_len_append_space:
  assumes "s \<noteq> []" "ws_len s = 0"
  shows "ws_len (s @ CHR '' '' # t) = 0"
proof -
  consider c where "s = [c]" | c d where "s = [c, d]" | c d e r where "s = c # d # e # r"
    using assms(1) by (metis list.exhaust)
  then show ?thesis
    using assms(2)
    by cases (auto simp: ws_len_def byte_at_def ws2_def ws3_def Let_def split: if_splits)
qed

lemma ws_len_rev_append_space:
  assumes "s \<noteq> []" "ws_len_rev s = 0"
  shows "ws_len_rev (s @ CHR '' '' # t) = 0"
proof -
  consider c where "s = [c]" | c d where "s = [c, d]" | c d e r where "s = c # d # e # r"
    using assms(1) by (metis list.exhaust)
  then show ?thesis
    using assms(2)
    by cases (auto simp: ws_len_rev_def byte_at_def ws2_def ws3_def Let_def split: if_splits)
qed

lemma trim_key_space: "s \<noteq> [] \<Longrightarrow> trimmed s \<Longrightarrow> trim (s @ '' '') = s"
  using trim_trimmed [of s] ws_len_append_space [of s "[]"]
  by (simp add: trim_def trimmed_def trim_start_id)

lemma trim_value_space: "trimmed s \<Longrightarrow> trim ('' '' @ s) = s"
  using trim_trimmed [of s] by (simp add: trim_def)

lemma trim_pair_line:
  assumes "k \<noteq> []" "trimmed k" "v \<noteq> []" "trimmed v"
  shows "trim (k @ '' = '' @ v) = k @ '' = '' @ v"
proof (rule trim_trimmed)
  have "ws_len (k @ CHR '' '' # ''= '' @ v) = 0"
    using assms(1,2) by (intro ws_len_append_space) (auto simp: trimmed_def)
  moreover have "ws_len_rev (rev v @ CHR '' '' # ''= '' @ rev k) = 0"
    using assms(3,4) by (intro ws_len_rev_append_space) (auto simp: trimmed_def)
  ultimately show "trimmed (k @ '' = '' @ v)" by (simp add: trimmed_def)
qed

lemma strip_cr_pair: "v \<noteq> [] \<Longrightarrow> trimmed v \<Longrightarrow> strip_cr (k @ '' = '' @ v) = k @ '' = '' @ v"
proof -
  assume v: "v \<noteq> []" "trimmed v"
  obtain d ds where r: "rev v = d # ds" using v(1) by (cases "rev v") auto
  then have "d \<noteq> CHR 0x0D"
    using v by (auto simp: trimmed_def ws_len_rev_def byte_at_def ws1_def split: if_splits)
  moreover have "last v = d" using r v(1) by (metis hd_rev list.sel(1))
  ultimately show ?thesis using v(1) by (simp add: strip_cr_def)
qed

lemma apply_lines_pair:
  assumes "plain_pair (k, v)"
  shows "apply_lines ((k @ '' = '' @ v) # lines) cfg = and_then (apply_pair k v cfg) (apply_lines lines)"
proof -
  have kv: "k \<noteq> []" "trimmed k" "v \<noteq> []" "trimmed v" "hd k \<noteq> CHR ''#''" "CHR ''='' \<notin> set k"
    using assms by (auto simp: plain_pair_def)
  have "\<not> starts_with (k @ '' = '' @ v) ''#''"
    using kv by (cases k) (auto simp: starts_with_def)
  moreover have "split_once (\<lambda>c. c = CHR ''='') ((k @ '' '') @ CHR ''='' # '' '' @ v) = Some (k @ '' '', '' '' @ v)"
    using kv by (intro split_once_append) auto
  ultimately show ?thesis
    using kv trim_pair_line [of k v] trim_key_space [of k] trim_value_space [of v] by simp
qed

fun plain_config_line :: "config_line \<Rightarrow> bool" where
  "plain_config_line (Assign k v) \<longleftrightarrow> plain_pair (k, v)"
| "plain_config_line (Comment n t) \<longleftrightarrow> CHR 0x0A \<notin> set t"
| "plain_config_line (Blank n) \<longleftrightarrow> True"
| "plain_config_line (Stray t) \<longleftrightarrow> CHR 0x0A \<notin> set t \<and> CHR ''='' \<notin> set t"

lemma trim_spaces: "trim (replicate n (CHR '' '') @ s) = trim s"
  by (induction n) (simp_all add: trim_def)

text \<open>Trimming the end stops at a character that is not white space.\<close>

lemma trim_end_rev_stops:
  assumes "code c < 128" "\<not> ws1 (code c)"
  shows "\<exists>r'. trim_end_rev (r @ [c]) = r' @ [c]"
proof (induction r rule: length_induct)
  case (1 r)
  have stop: "ws_len_rev [c] = 0" "ws_len_rev [d, c] \<le> 1" "ws_len_rev [d, e, c] \<le> 2" for d e
    using assms by (auto simp: ws_len_rev_def byte_at_def ws2_def ws3_def Let_def)
  show ?case
  proof (cases r)
    case (Cons d ds)
    let ?n = "ws_len_rev (r @ [c])"
    have "?n \<le> length r"
    proof (cases ds)
      case Nil
      with Cons stop(2) show ?thesis by simp
    next
      case ds: (Cons e es)
      show ?thesis
      proof (cases es)
        case Nil
        with Cons ds stop(3) [of d e] show ?thesis by simp
      next
        case (Cons f fs)
        have "?n \<le> 3" by (simp add: ws_len_rev_def Let_def)
        with Cons ds \<open>r = d # ds\<close> show ?thesis by simp
      qed
    qed
    then have "drop (?n - 1) (ds @ [c]) = drop (?n - 1) ds @ [c]" using Cons by auto
    moreover have "length (drop (?n - 1) ds) < length r" using Cons by simp
    ultimately show ?thesis using "1.IH" Cons by auto
  qed (use stop(1) in auto)
qed

lemma trim_hash: "\<exists>t'. trim (CHR ''#'' # t) = CHR ''#'' # t'"
proof -
  have h: "code (CHR ''#'') < 128" "\<not> ws1 (code (CHR ''#''))" by (simp_all add: ws1_def)
  have "trim_start (CHR ''#'' # t) = CHR ''#'' # t"
    by (rule trim_start_id) (simp add: ws_len_def byte_at_def ws1_def ws2_def ws3_def)
  with trim_end_rev_stops [OF h, of "rev t"] show ?thesis
    by (auto simp: trim_def trim_end_def simp del: trim_start.simps intro: exI [of _ "rev _"])
qed

lemma set_trim: "set (trim s) \<subseteq> set s"
proof -
  have "set (trim_start s) \<subseteq> set s" for s
    by (induction s rule: trim_start.induct) (auto dest!: in_set_dropD subsetD)
  moreover have "set (trim_end_rev r) \<subseteq> set r" for r
    by (induction r rule: trim_end_rev.induct) (auto dest!: in_set_dropD subsetD)
  ultimately show ?thesis unfolding trim_def trim_end_def by (metis set_rev subset_trans)
qed

lemma strip_cr_prefix: "\<exists>s'. s = strip_cr s @ s' \<and> set s' \<subseteq> {CHR 0x0D}"
  by (cases s rule: rev_cases) (auto simp: strip_cr_def)

lemma apply_lines_comment: "apply_lines (strip_cr (line_text (Comment n t)) # lines) cfg = apply_lines lines cfg"
proof -
  have "\<exists>t'. strip_cr (line_text (Comment n t)) = replicate n (CHR '' '') @ CHR ''#'' # t'"
    by (cases t rule: rev_cases) (auto simp: strip_cr_def butlast_append)
  then obtain t' where "strip_cr (line_text (Comment n t)) = replicate n (CHR '' '') @ CHR ''#'' # t'" by blast
  with trim_hash [of t'] show ?thesis by (auto simp: trim_spaces starts_with_def)
qed

lemma apply_lines_blank: "apply_lines (strip_cr (line_text (Blank n)) # lines) cfg = apply_lines lines cfg"
proof -
  have "strip_cr (replicate n (CHR '' '')) = replicate n (CHR '' '')"
    by (cases n) (simp_all add: strip_cr_def)
  moreover have "trim [] = []" by (simp add: trim_def trim_end_def)
  ultimately show ?thesis using trim_spaces [of n "[]"] by simp
qed

lemma apply_lines_stray:
  assumes "CHR ''='' \<notin> set t"
  shows "apply_lines (strip_cr t # lines) cfg = apply_lines lines cfg"
proof -
  have "set (trim (strip_cr t)) \<subseteq> set t"
    using set_trim [of "strip_cr t"] strip_cr_prefix [of t] by (metis order_trans set_append Un_upper1)
  with assms have "split_once (\<lambda>c. c = CHR ''='') (trim (strip_cr t)) = None"
    by (auto simp: split_once_None)
  then show ?thesis by (simp add: Let_def)
qed

lemma apply_file_lines:
  "list_all plain_config_line ls \<Longrightarrow> apply_lines (str_lines (file_text ls)) cfg = apply_pairs (assignments ls) cfg"
proof (induction ls arbitrary: cfg)
  case Nil
  then show ?case by (simp add: file_text_def)
next
  case (Cons l ls)
  have IH: "apply_lines (str_lines (file_text ls)) = apply_pairs (assignments ls)" using Cons by auto
  have "\<forall>c \<in> set (line_text l). c \<noteq> CHR 0x0A"
    using Cons.prems by (cases l) (auto simp: plain_pair_def)
  then have lines: "str_lines (file_text (l # ls)) = strip_cr (line_text l) # str_lines (file_text ls)"
    using str_lines_line [of "line_text l" "file_text ls"] by (simp add: file_text_def)
  show ?case
  proof (cases l)
    case (Assign k v)
    then have p: "plain_pair (k, v)" using Cons.prems by simp
    then have "strip_cr (k @ '' = '' @ v) = k @ '' = '' @ v" by (intro strip_cr_pair) (auto simp: plain_pair_def)
    with lines Assign apply_lines_pair [OF p] IH show ?thesis by simp
  next
    case (Comment n t)
    with lines apply_lines_comment [of n t] IH show ?thesis by (simp del: line_text.simps)
  next
    case (Blank n)
    with lines apply_lines_blank [of n] IH show ?thesis by (simp del: line_text.simps)
  next
    case (Stray t)
    with Cons.prems lines apply_lines_stray [of t] IH show ?thesis by simp
  qed
qed

section \<open>Effect of the fallible steps\<close>

lemma push_trusted_certs_eq:
  "push_trusted_certs ds cfg = Inr cfg' \<Longrightarrow>
   cfg' = cfg\<lparr>trusted_certs := trusted_certs cfg @ map to_ascii_lowercase ds\<rparr>
   \<and> (\<forall>d \<in> set ds. length d = 64 \<and> list_all is_ascii_hexdigit d)"
proof (induction ds arbitrary: cfg)
  case (Cons d ds)
  then obtain cfg1 where "push_trusted_cert d cfg = Inr cfg1" "push_trusted_certs ds cfg1 = Inr cfg'"
    by auto
  with Cons.IH show ?case
    by (fastforce simp: push_trusted_cert_def SHA256_DIGEST_HEX_LEN_def split: if_splits)
qed simp

text \<open>The value of an option of the command line if it is given, and otherwise the one below it;
  the gateway and the TLS version are parsed first.\<close>

fun chosen :: "'a option \<Rightarrow> 'a \<Rightarrow> 'a" where
  "chosen None d = d"
| "chosen (Some v) d = v"

definition gateway_over :: "cli \<Rightarrow> config \<Rightarrow> string \<times> u16" where
  "gateway_over c base =
     (case cli_gateway c of
        None \<Rightarrow> (gateway_host base, gateway_port base)
      | Some g \<Rightarrow>
          (case parse_gateway g of
             Inl e \<Rightarrow> (gateway_host base, gateway_port base)
           | Inr (host, port) \<Rightarrow> (host, chosen port (gateway_port base))))"

definition min_tls_over :: "cli \<Rightarrow> config \<Rightarrow> tls_version option" where
  "min_tls_over c base =
     (case cli_min_tls c of
        None \<Rightarrow> min_tls base
      | Some t \<Rightarrow> (case parse_tls_version t of Inl e \<Rightarrow> min_tls base | Inr v \<Rightarrow> Some v))"

text \<open>Every assignment writes exactly its field.\<close>

lemma set_updates_string:
  "set_if x (\<lambda>v cfg. cfg\<lparr>username := v\<rparr>) cfg = cfg\<lparr>username := chosen x (username cfg)\<rparr>"
  "set_if x (\<lambda>v cfg. cfg\<lparr>password := Some v\<rparr>) cfg = cfg\<lparr>password := merge_option (password cfg) x\<rparr>"
  "set_if x (\<lambda>v cfg. cfg\<lparr>cookie := Some (svpn_cookie_with_prefix v)\<rparr>) cfg = cfg\<lparr>cookie := merge_option (cookie cfg) (map_option svpn_cookie_with_prefix x)\<rparr>"
  "set_if x (\<lambda>v cfg. cfg\<lparr>otp := Some v\<rparr>) cfg = cfg\<lparr>otp := merge_option (otp cfg) x\<rparr>"
  "set_if x (\<lambda>v cfg. cfg\<lparr>otp_prompt := Some v\<rparr>) cfg = cfg\<lparr>otp_prompt := merge_option (otp_prompt cfg) x\<rparr>"
  "set_if x (\<lambda>v cfg. cfg\<lparr>pinentry := Some v\<rparr>) cfg = cfg\<lparr>pinentry := merge_option (pinentry cfg) x\<rparr>"
  "set_if x (\<lambda>v cfg. cfg\<lparr>realm := Some v\<rparr>) cfg = cfg\<lparr>realm := merge_option (realm cfg) x\<rparr>"
  "set_if x (\<lambda>v cfg. cfg\<lparr>iface_name := Some v\<rparr>) cfg = cfg\<lparr>iface_name := merge_option (iface_name cfg) x\<rparr>"
  "set_if x (\<lambda>v cfg. cfg\<lparr>sni := Some v\<rparr>) cfg = cfg\<lparr>sni := merge_option (sni cfg) x\<rparr>"
  "set_if x (\<lambda>v cfg. cfg\<lparr>ca_file := Some v\<rparr>) cfg = cfg\<lparr>ca_file := merge_option (ca_file cfg) x\<rparr>"
  "set_if x (\<lambda>v cfg. cfg\<lparr>user_cert := Some v\<rparr>) cfg = cfg\<lparr>user_cert := merge_option (user_cert cfg) x\<rparr>"
  "set_if x (\<lambda>v cfg. cfg\<lparr>user_key := Some v\<rparr>) cfg = cfg\<lparr>user_key := merge_option (user_key cfg) x\<rparr>"
  "set_if x (\<lambda>v cfg. cfg\<lparr>pem_passphrase := Some v\<rparr>) cfg = cfg\<lparr>pem_passphrase := merge_option (pem_passphrase cfg) x\<rparr>"
  "set_if x (\<lambda>v cfg. cfg\<lparr>user_agent := v\<rparr>) cfg = cfg\<lparr>user_agent := chosen x (user_agent cfg)\<rparr>"
  "set_if x (\<lambda>v cfg. cfg\<lparr>hostcheck := Some v\<rparr>) cfg = cfg\<lparr>hostcheck := merge_option (hostcheck cfg) x\<rparr>"
  "set_if x (\<lambda>v cfg. cfg\<lparr>check_virtual_desktop := Some v\<rparr>) cfg = cfg\<lparr>check_virtual_desktop := merge_option (check_virtual_desktop cfg) x\<rparr>"
  "set_if x (\<lambda>v cfg. cfg\<lparr>cipher_list := Some v\<rparr>) cfg = cfg\<lparr>cipher_list := merge_option (cipher_list cfg) x\<rparr>"
  "set_if x (\<lambda>v cfg. cfg\<lparr>pppd_log := Some v\<rparr>) cfg = cfg\<lparr>pppd_log := merge_option (pppd_log cfg) x\<rparr>"
  "set_if x (\<lambda>v cfg. cfg\<lparr>pppd_plugin := Some v\<rparr>) cfg = cfg\<lparr>pppd_plugin := merge_option (pppd_plugin cfg) x\<rparr>"
  "set_if x (\<lambda>v cfg. cfg\<lparr>pppd_ifname := Some v\<rparr>) cfg = cfg\<lparr>pppd_ifname := merge_option (pppd_ifname cfg) x\<rparr>"
  "set_if x (\<lambda>v cfg. cfg\<lparr>pppd_ipparam := Some v\<rparr>) cfg = cfg\<lparr>pppd_ipparam := merge_option (pppd_ipparam cfg) x\<rparr>"
  "set_if x (\<lambda>v cfg. cfg\<lparr>pppd_call := Some v\<rparr>) cfg = cfg\<lparr>pppd_call := merge_option (pppd_call cfg) x\<rparr>"
  "set_if x (\<lambda>v cfg. cfg\<lparr>ppp_system := Some v\<rparr>) cfg = cfg\<lparr>ppp_system := merge_option (ppp_system cfg) x\<rparr>"
  by (cases cfg; cases x; simp)+

lemma set_updates_flag:
  "set_flag b (\<lambda>cfg. cfg\<lparr>cookie_on_stdin := True\<rparr>) cfg = cfg\<lparr>cookie_on_stdin := cookie_on_stdin cfg \<or> b\<rparr>"
  "set_flag b (\<lambda>cfg. cfg\<lparr>no_ftm_push := True\<rparr>) cfg = cfg\<lparr>no_ftm_push := no_ftm_push cfg \<or> b\<rparr>"
  "set_flag b (\<lambda>cfg. cfg\<lparr>set_routes := False\<rparr>) cfg = cfg\<lparr>set_routes := set_routes cfg \<and> \<not> b\<rparr>"
  "set_flag b (\<lambda>cfg. cfg\<lparr>set_dns := False\<rparr>) cfg = cfg\<lparr>set_dns := set_dns cfg \<and> \<not> b\<rparr>"
  "set_flag b (\<lambda>cfg. cfg\<lparr>use_syslog := True\<rparr>) cfg = cfg\<lparr>use_syslog := use_syslog cfg \<or> b\<rparr>"
  "set_flag b (\<lambda>cfg. cfg\<lparr>insecure_ssl := True\<rparr>) cfg = cfg\<lparr>insecure_ssl := insecure_ssl cfg \<or> b\<rparr>"
  "set_flag b (\<lambda>cfg. cfg\<lparr>seclevel_1 := True\<rparr>) cfg = cfg\<lparr>seclevel_1 := seclevel_1 cfg \<or> b\<rparr>"
  "set_flag b (\<lambda>cfg. cfg\<lparr>pppd_use_peerdns := False\<rparr>) cfg = cfg\<lparr>pppd_use_peerdns := pppd_use_peerdns cfg \<and> \<not> b\<rparr>"
  by (cases cfg; cases b; simp add: set_flag.simps)+

lemma set_updates_port:
  "set_if x (\<lambda>v cfg. cfg\<lparr>saml_port := Some v\<rparr>) cfg = cfg\<lparr>saml_port := merge_option (saml_port cfg) x\<rparr>"
  by (cases cfg; cases x; simp)+

lemma set_updates_u32:
  "set_if x (\<lambda>v cfg. cfg\<lparr>otp_delay := v\<rparr>) cfg = cfg\<lparr>otp_delay := chosen x (otp_delay cfg)\<rparr>"
  "set_if x (\<lambda>v cfg. cfg\<lparr>max_reconnects := v\<rparr>) cfg = cfg\<lparr>max_reconnects := chosen x (max_reconnects cfg)\<rparr>"
  "set_if x (\<lambda>v cfg. cfg\<lparr>reconnect_delay := Some v\<rparr>) cfg = cfg\<lparr>reconnect_delay := merge_option (reconnect_delay cfg) x\<rparr>"
  by (cases cfg; cases x; simp)+

lemma set_updates_bool:
  "set_if x (\<lambda>v cfg. cfg\<lparr>set_routes := v\<rparr>) cfg = cfg\<lparr>set_routes := chosen x (set_routes cfg)\<rparr>"
  "set_if x (\<lambda>v cfg. cfg\<lparr>half_internet_routes := v\<rparr>) cfg = cfg\<lparr>half_internet_routes := chosen x (half_internet_routes cfg)\<rparr>"
  "set_if x (\<lambda>v cfg. cfg\<lparr>set_dns := v\<rparr>) cfg = cfg\<lparr>set_dns := chosen x (set_dns cfg)\<rparr>"
  "set_if x (\<lambda>v cfg. cfg\<lparr>use_resolvconf := v\<rparr>) cfg = cfg\<lparr>use_resolvconf := chosen x (use_resolvconf cfg)\<rparr>"
  "set_if x (\<lambda>v cfg. cfg\<lparr>pppd_use_peerdns := v\<rparr>) cfg = cfg\<lparr>pppd_use_peerdns := chosen x (pppd_use_peerdns cfg)\<rparr>"
  "set_if x (\<lambda>v cfg. cfg\<lparr>pppd_accept_remote := v\<rparr>) cfg = cfg\<lparr>pppd_accept_remote := chosen x (pppd_accept_remote cfg)\<rparr>"
  by (cases cfg; cases x; simp)+

lemma set_updates_addr:
  "set_if x (\<lambda>v cfg. cfg\<lparr>proxy := Some v\<rparr>) cfg = cfg\<lparr>proxy := merge_option (proxy cfg) x\<rparr>"
  by (cases cfg; cases x; simp)+

lemmas set_updates =
  set_updates_string set_updates_flag set_updates_port set_updates_u32 set_updates_bool set_updates_addr

lemma config_update_self:
  "cfg\<lparr>gateway_host := gateway_host cfg, gateway_port := gateway_port cfg\<rparr> = cfg"
  "cfg\<lparr>gateway_host := h, gateway_port := gateway_port cfg\<rparr> = cfg\<lparr>gateway_host := h\<rparr>"
  "cfg\<lparr>min_tls := min_tls cfg\<rparr> = cfg"
  by (cases cfg; simp)+

lemma apply_cli_gateway_eq:
  assumes "apply_cli_gateway c cfg = Inr cfg'"
  shows "cfg' = cfg\<lparr>gateway_host := fst (gateway_over c cfg), gateway_port := snd (gateway_over c cfg)\<rparr>"
proof (cases "cli_gateway c")
  case None
  with assms show ?thesis by (simp add: apply_cli_gateway_def gateway_over_def config_update_self)
next
  case (Some g)
  with assms obtain h p where p: "parse_gateway g = Inr (h, p)"
    and "cfg' = (case p of Some p \<Rightarrow> cfg\<lparr>gateway_host := h, gateway_port := p\<rparr> | None \<Rightarrow> cfg\<lparr>gateway_host := h\<rparr>)"
    by (auto simp: apply_cli_gateway_def Let_def)
  with Some show ?thesis by (cases p) (simp_all add: gateway_over_def config_update_self)
qed

lemma apply_cli_min_tls_eq:
  assumes "apply_cli_min_tls c cfg = Inr cfg'"
  shows "cfg' = cfg\<lparr>min_tls := min_tls_over c cfg\<rparr>"
proof (cases "cli_min_tls c")
  case None
  with assms show ?thesis by (simp add: apply_cli_min_tls_def min_tls_over_def config_update_self)
next
  case (Some t)
  with assms show ?thesis by (auto simp: apply_cli_min_tls_def min_tls_over_def)
qed

lemma reconnect_delay_option:
  "merge_option d (case r of None \<Rightarrow> p | Some v \<Rightarrow> Some v) = merge_option (merge_option d p) r"
  by (cases r) simp_all

lemma apply_cli_early_eq:
  "apply_cli_early c base = base\<lparr>
      username := chosen (cli_username c) (username base),
      password := merge_option (password base) (cli_password c),
      cookie := merge_option (cookie base) (map_option svpn_cookie_with_prefix (cli_cookie c)),
      cookie_on_stdin := (cookie_on_stdin base \<or> cli_cookie_on_stdin c),
      saml_port := merge_option (saml_port base) (cli_saml_login c),
      otp := merge_option (otp base) (cli_otp c),
      otp_prompt := merge_option (otp_prompt base) (cli_otp_prompt c),
      otp_delay := chosen (cli_otp_delay c) (otp_delay base),
      no_ftm_push := (no_ftm_push base \<or> cli_no_ftm_push c),
      pinentry := merge_option (pinentry base) (cli_pinentry c),
      realm := merge_option (realm base) (cli_realm c),
      iface_name := merge_option (iface_name base) (cli_ifname c),
      sni := merge_option (sni base) (cli_sni c),
      set_routes := (chosen (cli_set_routes c) (set_routes base) \<and> \<not> cli_no_routes c),
      half_internet_routes := chosen (cli_half_internet_routes c) (half_internet_routes base),
      set_dns := (chosen (cli_set_dns c) (set_dns base) \<and> \<not> cli_no_dns c),
      ca_file := merge_option (ca_file base) (cli_ca_file c),
      user_cert := merge_option (user_cert base) (cli_user_cert c),
      user_key := merge_option (user_key base) (cli_user_key c),
      pem_passphrase := merge_option (pem_passphrase base) (cli_pem_passphrase c),
      use_syslog := (use_syslog base \<or> cli_use_syslog c),
      log_verbosity := cli_log_verbosity (cli_verbose c) (cli_quiet c),
      use_resolvconf := chosen (cli_use_resolvconf c) (use_resolvconf base),
      user_agent := chosen (cli_user_agent c) (user_agent base),
      hostcheck := merge_option (hostcheck base) (cli_hostcheck c),
      check_virtual_desktop := merge_option (check_virtual_desktop base) (cli_check_virtual_desktop c)\<rparr>"
  unfolding apply_cli_early_def Let_def by (cases base) (simp add: set_updates)

lemma apply_cli_middle_eq:
  "apply_cli_middle c base = base\<lparr>
      insecure_ssl := (insecure_ssl base \<or> cli_insecure_ssl c),
      cipher_list := merge_option (cipher_list base) (cli_cipher_list c)\<rparr>"
  unfolding apply_cli_middle_def Let_def by (cases base) (simp add: set_updates)

lemma apply_cli_late_eq:
  "apply_cli_late c base = base\<lparr>
      seclevel_1 := (seclevel_1 base \<or> cli_seclevel_1 c),
      reconnect_delay := merge_option (merge_option (reconnect_delay base) (cli_persistent c)) (cli_reconnect_delay c),
      max_reconnects := chosen (cli_max_reconnects c) (max_reconnects base),
      pppd_use_peerdns := (chosen (cli_pppd_use_peerdns c) (pppd_use_peerdns base) \<and> \<not> cli_pppd_no_peerdns c),
      pppd_log := merge_option (pppd_log base) (cli_pppd_log c),
      pppd_plugin := merge_option (pppd_plugin base) (cli_pppd_plugin c),
      pppd_ifname := merge_option (pppd_ifname base) (cli_pppd_ifname c),
      pppd_ipparam := merge_option (pppd_ipparam base) (cli_pppd_ipparam c),
      pppd_call := merge_option (pppd_call base) (cli_pppd_call c),
      pppd_accept_remote := chosen (cli_pppd_accept_remote c) (pppd_accept_remote base),
      ppp_system := merge_option (ppp_system base) (cli_ppp_system c),
      proxy := merge_option (proxy base) (cli_proxy c)\<rparr>"
  unfolding apply_cli_late_def Let_def by (cases base) (simp add: set_updates reconnect_delay_option)

lemma word_not_number:
  assumes "eq_ignore_ascii_case s w" "w \<noteq> []" "is_ascii_lower (hd w)"
  shows "parse_u8 s = None"
proof -
  obtain c cs where s: "s = c # cs" and c: "ascii_lower_char c = ascii_lower_char (hd w)"
    using assms(1,2) by (cases s; cases w) (auto simp: eq_ignore_ascii_case_def to_ascii_lowercase_def)
  have "\<not> is_ascii_digit c" "c \<noteq> CHR ''+''"
    using c assms(3)
    by (auto simp: ascii_lower_char_def is_ascii_digit_def is_ascii_lower_def is_ascii_upper_def split: if_splits)
  then show ?thesis
    using s by (simp add: parse_u8_def parse_unsigned_def)
qed

section \<open>Properties\<close>

text \<open>C20. Whatever the command line and the file contain, a configuration that \<open>from_sources\<close>
  accepts is well-formed: certificate digests are 64 lower-case hexadecimal digits, the
  gateway port is not zero, the verbosity is at most 6, and a cookie carries its name.\<close>

theorem from_sources_well_formed:
  assumes "from_sources read_to_string c = Inr cfg"
  shows "list_all digest_ok (trusted_certs cfg) \<and> gateway_port cfg \<noteq> 0 \<and> log_verbosity cfg \<le> 6
    \<and> (case cookie cfg of None \<Rightarrow> True | Some k \<Rightarrow> starts_with k ''SVPNCOOKIE='')"
  using res_allD [OF from_sources_wf assms] by (simp add: config_wf_def)

text \<open>C27. Which source wins, for every field of the configuration. Without the option on the
  command line the value of the file, or the default, stays; an option of the command line
  replaces it, and a switch can only turn its field on. The switches \<open>--no-routes\<close>,
  \<open>--no-dns\<close> and \<open>--pppd-no-peerdns\<close> win over everything; \<open>--reconnect-delay\<close> wins over its
  alias; a gateway without a port keeps the port; the digests of the command line are
  appended to those of the file; and the verbosity comes from the command line alone.\<close>

theorem command_line_precedence:
  assumes "from_sources read_to_string c = Inr cfg"
    and "(case cli_config c of None \<Rightarrow> Inr config_default | Some path \<Rightarrow> from_file read_to_string path) = Inr base"
  shows "cfg = base\<lparr>
      gateway_host := fst (gateway_over c base),
      gateway_port := snd (gateway_over c base),
      username := chosen (cli_username c) (username base),
      password := merge_option (password base) (cli_password c),
      cookie := merge_option (cookie base) (map_option svpn_cookie_with_prefix (cli_cookie c)),
      cookie_on_stdin := (cookie_on_stdin base \<or> cli_cookie_on_stdin c),
      saml_port := merge_option (saml_port base) (cli_saml_login c),
      otp := merge_option (otp base) (cli_otp c),
      otp_prompt := merge_option (otp_prompt base) (cli_otp_prompt c),
      otp_delay := chosen (cli_otp_delay c) (otp_delay base),
      no_ftm_push := (no_ftm_push base \<or> cli_no_ftm_push c),
      pinentry := merge_option (pinentry base) (cli_pinentry c),
      realm := merge_option (realm base) (cli_realm c),
      iface_name := merge_option (iface_name base) (cli_ifname c),
      sni := merge_option (sni base) (cli_sni c),
      set_routes := (chosen (cli_set_routes c) (set_routes base) \<and> \<not> cli_no_routes c),
      half_internet_routes := chosen (cli_half_internet_routes c) (half_internet_routes base),
      set_dns := (chosen (cli_set_dns c) (set_dns base) \<and> \<not> cli_no_dns c),
      ca_file := merge_option (ca_file base) (cli_ca_file c),
      user_cert := merge_option (user_cert base) (cli_user_cert c),
      user_key := merge_option (user_key base) (cli_user_key c),
      pem_passphrase := merge_option (pem_passphrase base) (cli_pem_passphrase c),
      use_syslog := (use_syslog base \<or> cli_use_syslog c),
      log_verbosity := cli_log_verbosity (cli_verbose c) (cli_quiet c),
      use_resolvconf := chosen (cli_use_resolvconf c) (use_resolvconf base),
      user_agent := chosen (cli_user_agent c) (user_agent base),
      hostcheck := merge_option (hostcheck base) (cli_hostcheck c),
      check_virtual_desktop := merge_option (check_virtual_desktop base) (cli_check_virtual_desktop c),
      insecure_ssl := (insecure_ssl base \<or> cli_insecure_ssl c),
      cipher_list := merge_option (cipher_list base) (cli_cipher_list c),
      seclevel_1 := (seclevel_1 base \<or> cli_seclevel_1 c),
      max_reconnects := chosen (cli_max_reconnects c) (max_reconnects base),
      pppd_use_peerdns := (chosen (cli_pppd_use_peerdns c) (pppd_use_peerdns base) \<and> \<not> cli_pppd_no_peerdns c),
      pppd_log := merge_option (pppd_log base) (cli_pppd_log c),
      pppd_plugin := merge_option (pppd_plugin base) (cli_pppd_plugin c),
      pppd_ifname := merge_option (pppd_ifname base) (cli_pppd_ifname c),
      pppd_ipparam := merge_option (pppd_ipparam base) (cli_pppd_ipparam c),
      pppd_call := merge_option (pppd_call base) (cli_pppd_call c),
      pppd_accept_remote := chosen (cli_pppd_accept_remote c) (pppd_accept_remote base),
      ppp_system := merge_option (ppp_system base) (cli_ppp_system c),
      proxy := merge_option (proxy base) (cli_proxy c),
      reconnect_delay := merge_option (merge_option (reconnect_delay base) (cli_persistent c)) (cli_reconnect_delay c),
      min_tls := min_tls_over c base,
      trusted_certs := trusted_certs base @ map to_ascii_lowercase (cli_trusted_cert c)\<rparr>"
proof -
  have "apply_cli c base = Inr cfg"
    using assms unfolding from_sources_eq by (auto split: option.splits)
  then obtain c1 c2 c3 where "apply_cli_gateway c base = Inr c1"
    "push_trusted_certs (cli_trusted_cert c) (apply_cli_early c c1) = Inr c2"
    "apply_cli_min_tls c (apply_cli_middle c c2) = Inr c3" and cfg: "cfg = apply_cli_late c c3"
    by (auto simp: apply_cli_def)
  then have c: "c1 = base\<lparr>gateway_host := fst (gateway_over c base), gateway_port := snd (gateway_over c base)\<rparr>"
    "c2 = (apply_cli_early c c1)\<lparr>trusted_certs := trusted_certs (apply_cli_early c c1)
        @ map to_ascii_lowercase (cli_trusted_cert c)\<rparr>"
    "c3 = (apply_cli_middle c c2)\<lparr>min_tls := min_tls_over c (apply_cli_middle c c2)\<rparr>"
    using apply_cli_gateway_eq push_trusted_certs_eq apply_cli_min_tls_eq by blast+
  have m: "min_tls_over c (apply_cli_middle c c2) = min_tls_over c base"
    by (auto simp: min_tls_over_def apply_cli_fields c split: option.split sum.split)
  show ?thesis
    unfolding cfg c(3) m unfolding c
    by (cases base) (simp add: apply_cli_early_eq apply_cli_middle_eq apply_cli_late_eq)
qed

text \<open>C28. A configuration file is read as the sequence of its assignments: comments, also
  indented ones and ones that comment out an assignment, blank lines and lines without an
  assignment are skipped, and the result, or the first error, is that of applying the
  remaining pairs in order to the defaults.\<close>

theorem file_is_its_pairs:
  assumes "list_all plain_config_line ls"
  shows "parse_config_file (file_text ls) = apply_pairs (assignments ls) config_default"
  unfolding parse_config_file_def using assms by (rule apply_file_lines)

text \<open>Both boolean parsers agree: the one of the command line and the one of the file
  accept the same strings with the same values; they accept exactly the empty string, the
  words true and false in any case, and the numerals of 0 and 1.\<close>

theorem parse_bool_agrees:
  "(case parse_bool s of Inl e \<Rightarrow> None | Inr b \<Rightarrow> Some b) =
     (case parse_cli_bool s of Inl e \<Rightarrow> None | Inr b \<Rightarrow> Some b)
   \<and> (parse_bool s = Inr True \<longleftrightarrow> eq_ignore_ascii_case s ''true'' \<or> parse_u8 s = Some 1)
   \<and> (parse_bool s = Inr False \<longleftrightarrow> s = [] \<or> eq_ignore_ascii_case s ''false'' \<or> parse_u8 s = Some 0)"
proof -
  have t: "parse_u8 s = None \<and> s \<noteq> [] \<and> \<not> eq_ignore_ascii_case s ''false''"
    if "eq_ignore_ascii_case s ''true''"
    using word_not_number [OF that] that
    by (auto simp: eq_ignore_ascii_case_def to_ascii_lowercase_def is_ascii_lower_def ascii_lower_char_def is_ascii_upper_def)
  have f: "parse_u8 s = None \<and> s \<noteq> []" if "eq_ignore_ascii_case s ''false''"
    using word_not_number [OF that] that
    by (auto simp: eq_ignore_ascii_case_def to_ascii_lowercase_def is_ascii_lower_def)
  have n: "parse_u8 [] = None" by (simp add: parse_u8_def parse_unsigned_def)
  show ?thesis
    using t f n unfolding parse_bool_def parse_cli_bool_def by (auto split: option.split)
qed

text \<open>A command line without a configuration file that sets the user and one digest.\<close>

definition sample_cli :: cli where
  "sample_cli = cli_empty\<lparr>cli_username := Some ''joe'', cli_no_dns := True,
     cli_trusted_cert := [replicate 64 CHR ''A'']\<rparr>"

lemma sample_sources: "\<exists>cfg. from_sources (\<lambda>path. Inl (IoError NotFound ''missing'')) sample_cli = Inr cfg"
  by (simp add: from_sources_def apply_cli_def sample_cli_def cli_empty_def apply_cli_gateway_def
      push_trusted_cert_def SHA256_DIGEST_HEX_LEN_def apply_cli_min_tls_def list_all_iff
      is_ascii_hexdigit_def)

theorem from_sources_well_formed_witness:
  "\<exists>cfg. from_sources (\<lambda>path. Inl (IoError NotFound ''missing'')) sample_cli = Inr cfg
     \<and> list_all digest_ok (trusted_certs cfg) \<and> gateway_port cfg \<noteq> 0"
  using sample_sources from_sources_well_formed by blast

theorem command_line_precedence_witness:
  "\<exists>cfg. from_sources (\<lambda>path. Inl (IoError NotFound ''missing'')) sample_cli = Inr cfg
     \<and> username cfg = ''joe'' \<and> \<not> set_dns cfg \<and> set_routes cfg
     \<and> trusted_certs cfg = map to_ascii_lowercase [replicate 64 CHR ''A'']"
proof -
  obtain cfg where cfg: "from_sources (\<lambda>path. Inl (IoError NotFound ''missing'')) sample_cli = Inr cfg"
    using sample_sources by blast
  have "(case cli_config sample_cli of None \<Rightarrow> Inr config_default
      | Some path \<Rightarrow> from_file (\<lambda>path. Inl (IoError NotFound ''missing'')) path) = Inr config_default"
    by (simp add: sample_cli_def cli_empty_def)
  note wins = command_line_precedence [OF cfg this]
  have "username cfg = ''joe''" "\<not> set_dns cfg" "set_routes cfg"
    "trusted_certs cfg = map to_ascii_lowercase [replicate 64 CHR ''A'']"
    by (subst wins, simp add: sample_cli_def cli_empty_def config_default_def)+
  with cfg show ?thesis by blast
qed

theorem file_is_its_pairs_witness:
  "parse_config_file (file_text [Comment 1 '' gateway'', Assign ''host'' ''vpn'', Blank 2, Comment 0 ''port = 80'',
       Stray ''realm'', Assign ''port'' ''8443''])
     = apply_pairs [(''host'', ''vpn''), (''port'', ''8443'')] config_default"
proof -
  have "list_all plain_config_line [Comment 1 '' gateway'', Assign ''host'' ''vpn'', Blank 2, Comment 0 ''port = 80'',
       Stray ''realm'', Assign ''port'' ''8443'']"
    by (simp add: plain_pair_def trimmed_def ws_len_def ws_len_rev_def byte_at_def ws1_def ws2_def ws3_def)
  from file_is_its_pairs [OF this] show ?thesis by simp
qed

end
