(* ===== verification/Http.thy ===== *)
theory Http
  imports Streams Config
begin

text \<open>
  The HTTP client (\<open>src/http.rs\<close>): sending a request, receiving a response with a body of
  given length or in chunks, header and cookie access, and percent encoding. The stream is
  a reader and a writer; what the code writes to its log is returned as a list of lines, so
  that statements about the log are possible.

  Shown here: a response rendered in the usual form is received as it was sent, in any
  pieces; the session cookie that is extracted is a single non-empty pair; the log reveals
  only names of cookies; percent encoding yields unreserved characters and escapes only.
\<close>

definition COOKIE_SIZE :: nat where "COOKIE_SIZE = 4096"
definition MAX_HEADER_SIZE :: nat where "MAX_HEADER_SIZE = 64 * 1024"
definition READ_CHUNK_SIZE :: nat where "READ_CHUNK_SIZE = 4096"

definition PERMISSION_DENIED_MARKERS :: "bytes list" where
  "PERMISSION_DENIED_MARKERS =
     [as_bytes ''<!--sslvpnerrmsgkey=sslvpn_login_permission_denied-->'',
      as_bytes ''permission_denied denied'',
      as_bytes ''Permission denied'']"

record http_response =
  status_code :: u16
  reason :: string
  resp_headers :: "(string \<times> string) list"
  resp_body :: bytes

record http_stream =
  http_in :: reader
  http_out :: writer

section \<open>Cookies\<close>

definition valid_cookie_pair :: "string \<Rightarrow> string option" where
  "valid_cookie_pair k =
     (case split_once (\<lambda>c. c = CHR ''='') k of
        None \<Rightarrow> None
      | Some (name, v) \<Rightarrow>
          if length k > COOKIE_SIZE \<or> name = [] \<or> v = [] then None else Some k)"

definition cookie_end :: "char \<Rightarrow> bool" where
  "cookie_end c \<longleftrightarrow> c = CHR 0x0D \<or> c = CHR 0x0A \<or> c = CHR '';''"

definition extract_svpn_cookie_from_header :: "string \<Rightarrow> string option" where
  "extract_svpn_cookie_from_header line =
     (case find_sub line ''SVPNCOOKIE='' of
        None \<Rightarrow> None
      | Some start \<Rightarrow>
          (let cookie_start = drop start line;
               end_pos = (case position cookie_end cookie_start of
                            Some e \<Rightarrow> e | None \<Rightarrow> length cookie_start)
           in valid_cookie_pair (take end_pos cookie_start)))"

definition before_semicolon :: "string \<Rightarrow> string" where
  "before_semicolon line =
     trim (case split_once (\<lambda>c. c = CHR '';'') line of Some (k, _) \<Rightarrow> k | None \<Rightarrow> line)"

definition extract_cookie_pair_from_set_cookie_header :: "string \<Rightarrow> string option" where
  "extract_cookie_pair_from_set_cookie_header line = valid_cookie_pair (before_semicolon line)"

text \<open>The name of a pair with a name and a value.\<close>

definition pair_name :: "string \<Rightarrow> string option" where
  "pair_name k =
     (case split_once (\<lambda>c. c = CHR ''='') k of
        None \<Rightarrow> None
      | Some (name, v) \<Rightarrow> if name = [] \<or> v = [] then None else Some name)"

definition cookie_name_from_set_cookie_header :: "string \<Rightarrow> string option" where
  "cookie_name_from_set_cookie_header line = pair_name (before_semicolon line)"

definition cookie_names_from_cookie_header :: "string \<Rightarrow> string list" where
  "cookie_names_from_cookie_header h =
     List.map_filter (\<lambda>k. pair_name (trim k)) (split_on (\<lambda>c. c = CHR '';'') h)"

section \<open>Headers of a response\<close>

definition header_value :: "(string \<times> string) list \<Rightarrow> string \<Rightarrow> string option" where
  "header_value headers name =
     map_option snd (List.find (\<lambda>(key, v). eq_ignore_ascii_case key name) headers)"

definition header :: "http_response \<Rightarrow> string \<Rightarrow> string option" where
  "header response name = header_value (resp_headers response) name"

definition headers_named :: "http_response \<Rightarrow> string \<Rightarrow> string list" where
  "headers_named response name =
     map snd (filter (\<lambda>(key, v). eq_ignore_ascii_case key name) (resp_headers response))"

definition body_as_str :: "http_response \<Rightarrow> string option" where
  "body_as_str response = from_utf8 (resp_body response)"

definition svpn_cookie :: "http_response \<Rightarrow> string option" where
  "svpn_cookie response =
     (case List.map_filter extract_svpn_cookie_from_header (headers_named response ''Set-Cookie'') of
        [] \<Rightarrow> None | k # _ \<Rightarrow> Some k)"

definition cookie_header :: "http_response \<Rightarrow> string option" where
  "cookie_header response =
     (let cookies = List.map_filter extract_cookie_pair_from_set_cookie_header
                      (headers_named response ''Set-Cookie'')
      in if cookies = [] then None else Some (join ''; '' cookies))"

definition set_cookie_names :: "http_response \<Rightarrow> string list" where
  "set_cookie_names response =
     List.map_filter cookie_name_from_set_cookie_header (headers_named response ''Set-Cookie'')"

definition header_names :: "http_response \<Rightarrow> string list" where
  "header_names response = map fst (resp_headers response)"

text \<open>The characters of a UTF-8 string, and Rust's \<open>char::is_control\<close> on one of them.\<close>

fun str_chars :: "string \<Rightarrow> string list" where
  "str_chars [] = []"
| "str_chars (c # cs) =
     (let n = snd (utf8_step (c # cs)) in take n (c # cs) # str_chars (drop (n - 1) cs))"

definition is_control :: "string \<Rightarrow> bool" where
  "is_control ch \<longleftrightarrow>
     (length ch = 1 \<and> (code (ch ! 0) < 32 \<or> code (ch ! 0) = 127))
   \<or> (length ch = 2 \<and> code (ch ! 0) = 194 \<and> code (ch ! 1) < 160)"

definition body_preview :: "nat \<Rightarrow> http_response \<Rightarrow> string option" where
  "body_preview max_chars response =
     (case body_as_str response of
        None \<Rightarrow> None
      | Some text \<Rightarrow>
          (let b = trim text in
           if b = [] then None
           else
             let preview = concat (map (\<lambda>ch.
                   if is_control ch \<and> ch \<noteq> [CHR 0x0A] \<and> ch \<noteq> [CHR 0x0D] \<and> ch \<noteq> [CHR 0x09]
                   then '' '' else ch) (take max_chars (str_chars b)))
             in Some (map (\<lambda>c. if c = CHR 0x0D \<or> c = CHR 0x0A \<or> c = CHR 0x09 then CHR '' '' else c)
                  preview)))"

section \<open>Requests\<close>

definition header_value_in :: "(string \<times> string) list \<Rightarrow> string \<Rightarrow> string option" where
  "header_value_in headers name =
     map_option snd (List.find (\<lambda>(header_name, v). eq_ignore_ascii_case header_name name) headers)"

fun unwrap_or :: "'a \<Rightarrow> 'a option \<Rightarrow> 'a" where
  "unwrap_or d None = d"
| "unwrap_or d (Some x) = x"

definition is_managed_request_header :: "string \<Rightarrow> bool" where
  "is_managed_request_header name \<longleftrightarrow>
     to_ascii_lowercase name \<in> {''user-agent'', ''content-type'', ''cookie'', ''content-length''}"

definition request_header_preview ::
  "string \<Rightarrow> string \<Rightarrow> string \<Rightarrow> (string \<times> string) list \<Rightarrow> nat \<Rightarrow> string" where
  "request_header_preview host meth path headers body_len =
     (let user_agent_value = unwrap_or ''openfortivpn-rs'' (header_value_in headers ''User-Agent'');
          content_type = unwrap_or ''application/x-www-form-urlencoded''
                           (header_value_in headers ''Content-Type'');
          cookie_names = unwrap_or []
            (map_option cookie_names_from_cookie_header (header_value_in headers ''Cookie''));
          cookie_preview = (if cookie_names = [] then ''<empty>''
            else join ''; '' (map (\<lambda>name. name @ ''=<redacted>'') cookie_names))
      in join '' | ''
           [meth @ '' '' @ path @ '' HTTP/1.1'',
            ''Host: '' @ host,
            ''User-Agent: '' @ user_agent_value,
            ''Accept: */*'',
            ''Accept-Encoding: identity'',
            ''Pragma: no-cache'',
            ''Cache-Control: no-store, no-cache, must-revalidate'',
            ''If-Modified-Since: Sat, 1 Jan 2000 00:00:00 GMT'',
            ''Content-Type: '' @ content_type,
            ''Cookie: '' @ cookie_preview,
            ''Content-Length: '' @ show_nat body_len])"

text \<open>The pieces that the write macros pass to the writer, in order.\<close>

definition request_pieces ::
  "string \<Rightarrow> string \<Rightarrow> string \<Rightarrow> (string \<times> string) list \<Rightarrow> bytes \<Rightarrow> bytes list" where
  "request_pieces host meth path headers body =
     (let user_agent_value = unwrap_or ''openfortivpn-rs'' (header_value_in headers ''User-Agent'');
          content_type = unwrap_or ''application/x-www-form-urlencoded''
                           (header_value_in headers ''Content-Type'');
          cookie_value = unwrap_or [] (header_value_in headers ''Cookie'')
      in map as_bytes
           ([meth, '' '', path, '' HTTP/1.1'' @ CRLF,
             ''Host: '', host, CRLF,
             ''User-Agent: '', user_agent_value, CRLF,
             ''Accept: */*'' @ CRLF,
             ''Accept-Encoding: identity'' @ CRLF,
             ''Pragma: no-cache'' @ CRLF,
             ''Cache-Control: no-store, no-cache, must-revalidate'' @ CRLF,
             ''If-Modified-Since: Sat, 1 Jan 2000 00:00:00 GMT'' @ CRLF,
             ''Content-Type: '', content_type, CRLF,
             ''Cookie: '', cookie_value, CRLF,
             ''Content-Length: '', show_nat (length body), CRLF]
            @ concat (map (\<lambda>(name, v). [name, '': '', v, CRLF])
                (filter (\<lambda>(name, v). \<not> is_managed_request_header name) headers))
            @ [CRLF])
         @ [body])"

definition http_send ::
  "string \<Rightarrow> string \<Rightarrow> string \<Rightarrow> (string \<times> string) list \<Rightarrow> bytes \<Rightarrow> writer \<Rightarrow> unit res \<times> writer" where
  "http_send host meth path headers body w =
     (case write_pieces (request_pieces host meth path headers body) w of
        (Inl e, w1) \<Rightarrow> (Inl (Io e), w1)
      | (Inr _, w1) \<Rightarrow>
          (case flush w1 of (Inl e, w2) \<Rightarrow> (Inl (Io e), w2) | (Inr _, w2) \<Rightarrow> (Inr (), w2)))"

section \<open>Responses\<close>

definition find_bytes :: "bytes \<Rightarrow> bytes \<Rightarrow> nat option" where
  "find_bytes haystack needle = find_sub haystack needle"

definition contains_permission_denied_marker :: "bytes \<Rightarrow> bool" where
  "contains_permission_denied_marker body \<longleftrightarrow>
     list_ex (\<lambda>marker. find_bytes body marker \<noteq> None) PERMISSION_DENIED_MARKERS"

definition chunked_body_end :: "bytes \<Rightarrow> nat option" where
  "chunked_body_end body =
     (let last_chunk = as_bytes (CRLF @ ''0'' @ CRLF) in
      case find_bytes body last_chunk of
        None \<Rightarrow> None
      | Some marker \<Rightarrow>
          (let end_pos = marker + length last_chunk in
           if end_pos + 2 \<le> length body \<and> take 2 (drop end_pos body) = as_bytes CRLF
           then Some (end_pos + 2) else Some end_pos))"

text \<open>The first two pieces at a space and the rest, as \<open>splitn(3, ' ')\<close> yields them.\<close>

definition split_status :: "string \<Rightarrow> string \<times> string option \<times> string option" where
  "split_status line =
     (case split_once (\<lambda>c. c = CHR '' '') line of
        None \<Rightarrow> (line, None, None)
      | Some (a, rest) \<Rightarrow>
          (case split_once (\<lambda>c. c = CHR '' '') rest of
             None \<Rightarrow> (a, Some rest, None)
           | Some (b, c) \<Rightarrow> (a, Some b, Some c)))"

fun parse_header_lines :: "string list \<Rightarrow> (string \<times> string) list \<Rightarrow> ((string \<times> string) list) res" where
  "parse_header_lines [] headers = Inr headers"
| "parse_header_lines (line # lines) headers =
     (if line = [] then Inr headers
      else
        case split_once (\<lambda>c. c = CHR '':'') line of
          None \<Rightarrow> Inl (HttpProtocol (''malformed HTTP header: '' @ line))
        | Some (name, v) \<Rightarrow> parse_header_lines lines (headers @ [(trim name, trim v)]))"

definition parse_headers :: "bytes \<Rightarrow> (u16 \<times> string \<times> (string \<times> string) list) res" where
  "parse_headers raw_headers =
     (case from_utf8 raw_headers of
        None \<Rightarrow> Inl (HttpProtocol ''headers are not valid UTF-8'')
      | Some text \<Rightarrow>
          (case split_str CRLF text of
             [] \<Rightarrow> Inl (HttpProtocol ''missing status line'')
           | status_line # lines \<Rightarrow>
               (case split_status status_line of
                  (version, code_part, reason_part) \<Rightarrow>
                    if \<not> starts_with version ''HTTP/''
                    then Inl (HttpProtocol ''status line does not start with HTTP/'')
                    else
                      case code_part of
                        None \<Rightarrow> Inl (HttpProtocol ''missing status code'')
                      | Some c \<Rightarrow>
                          (case parse_u16 c of
                             None \<Rightarrow> Inl (HttpProtocol ''invalid status code'')
                           | Some status \<Rightarrow>
                               and_then (parse_header_lines lines []) (\<lambda>headers.
                                 Inr (status, unwrap_or [] reason_part, headers))))))"

text \<open>A loop that reads until a condition on the buffer holds, or fails: \<open>check\<close> gives the
  result, an error, or nothing when more input is needed; \<open>eof\<close> is the error at the end of
  the stream.\<close>

lemma read_chunk_shrinks:
  "(Inr bs, r') = read_some n r \<Longrightarrow> bs \<noteq> [] \<Longrightarrow>
   length r' + length (reader_data r') < length r + length (reader_data r)"
  by (cases "(n, r)" rule: read_some.cases) (auto simp: reader_data_def split: if_splits)

function read_until ::
  "(bytes \<Rightarrow> ('a res) option) \<Rightarrow> string \<Rightarrow> bytes \<Rightarrow> reader \<Rightarrow> ('a \<times> bytes) res \<times> reader" where
  "read_until check eof buffer r =
     (case check buffer of
        Some (Inl e) \<Rightarrow> (Inl e, r)
      | Some (Inr x) \<Rightarrow> (Inr (x, buffer), r)
      | None \<Rightarrow>
          (case read_some READ_CHUNK_SIZE r of
             (Inl e, r1) \<Rightarrow> (Inl (Io e), r1)
           | (Inr bs, r1) \<Rightarrow>
               if bs = [] then (Inl (HttpProtocol eof), r1)
               else read_until check eof (buffer @ bs) r1))"
  by pat_completeness auto
termination
  by (relation "measure (\<lambda>(check, eof, buffer, r). length r + length (reader_data r))")
    (auto dest: read_chunk_shrinks)

declare read_until.simps [simp del]

definition headers_check :: "bytes \<Rightarrow> (nat res) option" where
  "headers_check buffer =
     (case find_bytes buffer (as_bytes (CRLF @ CRLF)) of
        Some header_end \<Rightarrow> Some (Inr (header_end + 4))
      | None \<Rightarrow>
          if length buffer > MAX_HEADER_SIZE
          then Some (Inl (HttpProtocol ''HTTP headers exceed maximum size'')) else None)"

definition read_until_headers_complete :: "bytes \<Rightarrow> reader \<Rightarrow> (nat \<times> bytes) res \<times> reader" where
  "read_until_headers_complete buffer r =
     read_until headers_check ''connection closed before HTTP headers were complete'' buffer r"

definition length_check :: "nat \<Rightarrow> bytes \<Rightarrow> (unit res) option" where
  "length_check expected body = (if length body < expected then None else Some (Inr ()))"

definition chunked_check :: "bytes \<Rightarrow> (nat res) option" where
  "chunked_check body = map_option Inr (chunked_body_end body)"

text \<open>The body behind the headers: by length, in chunks, or what came with the headers.\<close>

definition receive_body :: "(string \<times> string) list \<Rightarrow> bytes \<Rightarrow> reader \<Rightarrow> bytes res \<times> reader" where
  "receive_body headers body r =
     (case header_value headers ''Content-Length'' of
        Some content_length \<Rightarrow>
          (case parse_unsigned (2 ^ 64) (trim content_length) of
             None \<Rightarrow> (Inl (HttpProtocol ''invalid Content-Length''), r)
           | Some expected \<Rightarrow>
               (case read_until (length_check expected)
                       ''connection closed before full HTTP body was received'' body r of
                  (Inl e, r1) \<Rightarrow> (Inl e, r1)
                | (Inr (_, body1), r1) \<Rightarrow> (Inr (take expected body1), r1)))
      | None \<Rightarrow>
          (case header_value headers ''Transfer-Encoding'' of
             Some v \<Rightarrow>
               if contains (to_ascii_lowercase v) ''chunked'' then
                 (case read_until chunked_check
                         ''connection closed before chunked HTTP body ended'' body r of
                    (Inl e, r1) \<Rightarrow> (Inl e, r1)
                  | (Inr (end_pos, body1), r1) \<Rightarrow> (Inr (take end_pos body1), r1))
               else (Inr body, r)
           | None \<Rightarrow> (Inr body, r)))"

definition http_receive :: "reader \<Rightarrow> http_response res \<times> reader" where
  "http_receive r =
     (case read_until_headers_complete [] r of
        (Inl e, r1) \<Rightarrow> (Inl e, r1)
      | (Inr (header_end, buffer), r1) \<Rightarrow>
          (case parse_headers (take header_end buffer) of
             Inl e \<Rightarrow> (Inl e, r1)
           | Inr (status, reason_text, headers) \<Rightarrow>
               (case receive_body headers (drop header_end buffer) r1 of
                  (Inl e, r2) \<Rightarrow> (Inl e, r2)
                | (Inr body, r2) \<Rightarrow>
                    if contains_permission_denied_marker body then (Inl PermissionDenied, r2)
                    else (Inr \<lparr>status_code = status, reason = reason_text, resp_headers = headers,
                                resp_body = body\<rparr>, r2))))"

section \<open>A request with its response\<close>

text \<open>The last component is the list of lines written to the debug log.\<close>

definition request_log ::
  "string \<Rightarrow> string \<Rightarrow> string \<Rightarrow> (string \<times> string) list \<Rightarrow> bytes \<Rightarrow> string list" where
  "request_log host meth path headers body =
     [''HTTP request: '' @ meth @ '' '' @ path,
      ''HTTP request header preview: ''
        @ request_header_preview host meth path headers (length body)]
     @ (case header_value_in headers ''Cookie'' of
          None \<Rightarrow> []
        | Some k \<Rightarrow>
            (let names = cookie_names_from_cookie_header k
             in if names \<noteq> [] then [''HTTP request cookies: '' @ join '', '' names] else []))"

definition response_log :: "string \<Rightarrow> string \<Rightarrow> http_response \<Rightarrow> string list" where
  "response_log meth path response =
     [''HTTP response: '' @ meth @ '' '' @ path @ '' -> '' @ show_word (status_code response)
        @ '' '' @ reason response]
     @ (let names = set_cookie_names response
        in if names \<noteq> [] then [''HTTP response set-cookie names: '' @ join '', '' names] else [])"

definition do_http_request ::
  "string \<Rightarrow> string \<Rightarrow> string \<Rightarrow> (string \<times> string) list \<Rightarrow> bytes \<Rightarrow> http_stream \<Rightarrow>
     http_response res \<times> http_stream \<times> string list" where
  "do_http_request host meth path headers body stream =
     (let log = request_log host meth path headers body in
      case http_send host meth path headers body (http_out stream) of
        (Inl e, w) \<Rightarrow> (Inl e, stream\<lparr>http_out := w\<rparr>, log)
      | (Inr _, w) \<Rightarrow>
          (case http_receive (http_in stream) of
             (Inl e, r) \<Rightarrow> (Inl e, stream\<lparr>http_out := w, http_in := r\<rparr>, log)
           | (Inr response, r) \<Rightarrow>
               (Inr response, stream\<lparr>http_out := w, http_in := r\<rparr>,
                log @ response_log meth path response)))"

section \<open>Percent encoding\<close>

definition url_unreserved :: "char \<Rightarrow> bool" where
  "url_unreserved c \<longleftrightarrow>
     is_ascii_upper c \<or> is_ascii_lower c \<or> is_ascii_digit c
   \<or> c = CHR ''-'' \<or> c = CHR ''_'' \<or> c = CHR ''.'' \<or> c = CHR ''~''"

definition hex_upper :: "nat \<Rightarrow> char" where
  "hex_upper n = ''0123456789ABCDEF'' ! n"

definition url_encode :: "string \<Rightarrow> string" where
  "url_encode input =
     concat (map (\<lambda>c. if url_unreserved c then [c]
       else [CHR ''%'', hex_upper (code c div 16), hex_upper (code c mod 16)]) input)"

section \<open>Text responses\<close>

text \<open>Slicing a string panics when the offset is not on a character boundary.\<close>

definition is_char_boundary :: "string \<Rightarrow> nat \<Rightarrow> bool" where
  "is_char_boundary s i \<longleftrightarrow>
     i = 0 \<or> i = length s \<or> (i < length s \<and> \<not> utf8_cont (code (s ! i)))"

definition str_prefix :: "string \<Rightarrow> nat \<Rightarrow> string exec" where
  "str_prefix s i = (if is_char_boundary s i then Return (take i s) else Panic)"

fun find_header_line :: "string \<Rightarrow> string list \<Rightarrow> (string option) exec" where
  "find_header_line h [] = Return None"
| "find_header_line h (line # lines) =
     (if length line \<ge> length h then
        bind_exec (str_prefix line (length h)) (\<lambda>p.
          if eq_ignore_ascii_case p h then Return (Some (drop (length h) line))
          else find_header_line h lines)
      else find_header_line h lines)"

definition find_header :: "string \<Rightarrow> string \<Rightarrow> (string option) exec" where
  "find_header response h = find_header_line h (str_lines (hd (split_str (CRLF @ CRLF) response)))"

fun find_svpn_line :: "string list \<Rightarrow> (string option) exec" where
  "find_svpn_line [] = Return None"
| "find_svpn_line (line # lines) =
     (if length line \<ge> length ''Set-Cookie: '' then
        bind_exec (str_prefix line (length ''Set-Cookie: '')) (\<lambda>p.
          if eq_ignore_ascii_case p ''Set-Cookie: '' then
            (case extract_svpn_cookie_from_header (drop (length ''Set-Cookie: '') line) of
               Some k \<Rightarrow> Return (Some k)
             | None \<Rightarrow> find_svpn_line lines)
          else find_svpn_line lines)
      else find_svpn_line lines)"

definition extract_svpn_cookie :: "string \<Rightarrow> (string option) exec" where
  "extract_svpn_cookie response = find_svpn_line (str_lines (hd (split_str (CRLF @ CRLF) response)))"

definition is_sha256_hex_digest :: "string \<Rightarrow> bool" where
  "is_sha256_hex_digest v \<longleftrightarrow> length v = SHA256_DIGEST_HEX_LEN \<and> list_all is_ascii_hexdigit v"

section \<open>Reading loops\<close>

lemma show_word_digits: "c \<in> set (show_word w) \<Longrightarrow> is_ascii_digit c"
  unfolding show_word_def by (rule show_nat_digits)


lemma reader_data_only: "data_only r \<Longrightarrow> reader_data r = reader_bytes r"
  by (induction r rule: reader_bytes.induct) (auto simp: reader_data_def)



section \<open>The header block\<close>

definition header_block :: "string list \<Rightarrow> string" where
  "header_block lines = concat (map (\<lambda>l. l @ CRLF) lines)"

definition plain_line :: "string \<Rightarrow> bool" where
  "plain_line l \<longleftrightarrow> l \<noteq> [] \<and> (\<forall>c \<in> set l. c \<noteq> CHR 0x0D)"

lemma header_block_simps [simp]:
  "header_block [] = []" "header_block (l # lines) = l @ CRLF @ header_block lines"
  by (simp_all add: header_block_def)

lemma find_blank_line:
  "lines \<noteq> [] \<Longrightarrow> list_all plain_line lines \<Longrightarrow>
   find_sub (header_block lines @ CRLF @ rest) (CRLF @ CRLF) = Some (length (header_block lines) - 2)"
proof (induction lines)
  case (Cons l lines)
  have l: "\<forall>c \<in> set l. c \<noteq> CHR 0x0D" using Cons.prems by (simp add: plain_line_def)
  show ?case
  proof (cases lines)
    case Nil
    have "find_sub (CRLF @ CRLF @ rest) (CRLF @ CRLF) = Some 0"
      by (simp add: CRLF_def starts_with_def)
    then show ?thesis
      using Nil find_sub_skip [OF l, of "CRLF @ CRLF @ rest" "[CHR 0x0A] @ CRLF"]
      by (simp add: CRLF_def)
  next
    case (Cons l2 ls)
    let ?next = "header_block lines @ CRLF @ rest"
    have IH: "find_sub ?next (CRLF @ CRLF) = Some (length (header_block lines) - 2)"
      using Cons.IH Cons.prems Cons by simp
    have "plain_line l2" using Cons.prems Cons by simp
    then obtain c cs where c: "l2 = c # cs" "c \<noteq> CHR 0x0D" by (cases l2) (auto simp: plain_line_def)
    then have "find_sub (CRLF @ ?next) (CRLF @ CRLF) = map_option (\<lambda>i. 2 + i) (find_sub ?next (CRLF @ CRLF))"
      using Cons by (cases "find_sub ?next (CRLF @ CRLF)") (auto simp: CRLF_def starts_with_def)
    moreover have "length (header_block lines) \<ge> 2" using Cons by (simp add: CRLF_def)
    ultimately show ?thesis
      using IH find_sub_skip [OF l, of "CRLF @ ?next" "[CHR 0x0A] @ CRLF"] by (simp add: CRLF_def)
  qed
qed simp

lemma split_str_line:
  "\<forall>c \<in> set l. c \<noteq> CHR 0x0D \<Longrightarrow> split_str CRLF (l @ CRLF @ rest) = l # split_str CRLF rest"
proof -
  assume l: "\<forall>c \<in> set l. c \<noteq> CHR 0x0D"
  have "find_sub (CRLF @ rest) CRLF = Some 0" by (simp add: CRLF_def starts_with_def)
  then have "find_sub (l @ CRLF @ rest) CRLF = Some (length l)"
    using find_sub_skip [OF l, of "CRLF @ rest" "[CHR 0x0A]"] by (simp add: CRLF_def)
  then show ?thesis by (subst split_str.simps) (simp add: CRLF_def)
qed

lemma split_str_block:
  "list_all plain_line lines \<Longrightarrow> split_str CRLF (header_block lines @ CRLF) = lines @ [[], []]"
proof (induction lines)
  case Nil
  have "split_str CRLF ([] @ CRLF @ []) = [] # split_str CRLF []"
    by (rule split_str_line) simp
  moreover have "split_str CRLF [] = [[]]" by (subst split_str.simps) (simp add: CRLF_def)
  ultimately show ?case by simp
next
  case (Cons l lines)
  then show ?case using split_str_line [of l "header_block lines @ CRLF"] by (simp add: plain_line_def)
qed

text \<open>A header as it stands on its line, and the headers that can be written so.\<close>

definition header_line :: "string \<times> string \<Rightarrow> string" where
  "header_line h = fst h @ '': '' @ snd h"

definition plain_header :: "string \<times> string \<Rightarrow> bool" where
  "plain_header h \<longleftrightarrow>
     trimmed (fst h) \<and> (\<forall>c \<in> set (fst h). c \<noteq> CHR '':'' \<and> c \<noteq> CHR 0x0D)
   \<and> trimmed (snd h) \<and> (\<forall>c \<in> set (snd h). c \<noteq> CHR 0x0D)"

lemma parse_header_lines_plain:
  "list_all plain_header hs \<Longrightarrow>
   parse_header_lines (map header_line hs @ [] # rest) acc = Inr (acc @ hs)"
proof (induction hs arbitrary: acc)
  case (Cons h hs)
  have h: "plain_header h" using Cons.prems by simp
  then have "split_once (\<lambda>c. c = CHR '':'') (fst h @ CHR '':'' # '' '' @ snd h) = Some (fst h, '' '' @ snd h)"
    by (intro split_once_append) (auto simp: plain_header_def)
  moreover have "trim (fst h) = fst h" "trim ('' '' @ snd h) = snd h"
    using h trim_trimmed trim_value_space by (auto simp: plain_header_def)
  moreover have "parse_header_lines (map header_line hs @ [] # rest) (acc @ [h]) = Inr ((acc @ [h]) @ hs)"
    using Cons by simp
  ultimately show ?case by (simp add: header_line_def [of h])
qed simp

definition status_line :: "u16 \<Rightarrow> string \<Rightarrow> string" where
  "status_line status reason_text = ''HTTP/1.1 '' @ show_word status @ '' '' @ reason_text"

lemma split_status_line: "split_status (status_line status reason_text) = (''HTTP/1.1'', Some (show_word status), Some reason_text)"
proof -
  have "\<forall>c \<in> set (show_word status). c \<noteq> CHR '' ''"
    using show_word_digits [of _ status] by (fastforce simp: is_ascii_digit_def)
  then have "split_once (\<lambda>c. c = CHR '' '') (show_word status @ CHR '' '' # reason_text)
      = Some (show_word status, reason_text)"
    by (intro split_once_append) auto
  then show ?thesis by (simp add: split_status_def status_line_def)
qed

definition header_lines :: "u16 \<Rightarrow> string \<Rightarrow> (string \<times> string) list \<Rightarrow> string list" where
  "header_lines status reason_text hs = status_line status reason_text # map header_line hs"

definition header_text :: "u16 \<Rightarrow> string \<Rightarrow> (string \<times> string) list \<Rightarrow> string" where
  "header_text status reason_text hs = header_block (header_lines status reason_text hs) @ CRLF"

lemma plain_header_lines:
  assumes "list_all plain_header hs" "\<forall>c \<in> set reason_text. c \<noteq> CHR 0x0D"
  shows "list_all plain_line (header_lines status reason_text hs)"
proof -
  have "\<forall>c \<in> set (show_word status). c \<noteq> CHR 0x0D"
    using show_word_digits [of _ status] by (fastforce simp: is_ascii_digit_def)
  then have "plain_line (status_line status reason_text)"
    using assms(2) by (auto simp: plain_line_def status_line_def)
  moreover have "list_all plain_line (map header_line hs)"
    using assms(1) by (auto simp: list_all_iff plain_header_def plain_line_def header_line_def)
  ultimately show ?thesis by (simp add: header_lines_def)
qed

lemma parse_headers_text:
  assumes "list_all plain_header hs" "\<forall>c \<in> set reason_text. c \<noteq> CHR 0x0D"
    and "utf8_valid (header_text status reason_text hs)"
  shows "parse_headers (as_bytes (header_text status reason_text hs)) = Inr (status, reason_text, hs)"
proof -
  have "split_str CRLF (header_text status reason_text hs)
      = status_line status reason_text # map header_line hs @ [[], []]"
    using split_str_block [OF plain_header_lines [OF assms(1,2), of status]]
    by (simp add: header_text_def header_lines_def)
  then show ?thesis
    using assms parse_header_lines_plain [OF assms(1), of "[[]]" "[]"]
    by (simp add: parse_headers_def from_utf8_as_bytes split_status_line starts_with_def codec_simps)
qed

section \<open>Properties of requests and responses\<close>

lemma inj_of_char: "inj (of_char :: char \<Rightarrow> u8)"
proof (rule injI)
  fix a b :: char
  assume "(of_char a :: u8) = of_char b"
  then have "unat (of_char a :: u8) = unat (of_char b :: u8)" by (rule arg_cong)
  then show "a = b" by simp
qed

lemma find_bytes_text: "find_bytes (as_bytes s) (as_bytes p) = find_sub s p"
  unfolding find_bytes_def as_bytes_def by (rule find_sub_map [OF inj_of_char])

lemma find_bytes_header:
  assumes "lines \<noteq> []" "list_all plain_line lines"
  shows "find_bytes (as_bytes (header_block lines @ CRLF) @ rest) (as_bytes (CRLF @ CRLF))
    = Some (length (header_block lines) - 2)"
proof -
  have "find_bytes (as_bytes (header_block lines @ CRLF)) (as_bytes (CRLF @ CRLF))
      = Some (length (header_block lines) - 2)"
    using find_blank_line [OF assms, of "[]"] by (simp only: find_bytes_text append_Nil2)
  then show ?thesis unfolding find_bytes_def by (rule find_sub_append)
qed


lemma length_header_text: "length (header_text status reason_text hs) \<ge> 4"
  by (simp add: header_text_def header_lines_def CRLF_def)




text \<open>A page without a body that comes in one piece leaves the pieces behind it untouched.\<close>

lemma header_page_received:
  assumes "list_all plain_header hs" "\<forall>c \<in> set reason_text. c \<noteq> CHR 0x0D"
    and "utf8_valid (header_text status reason_text hs)" "length (header_text status reason_text hs) \<le> READ_CHUNK_SIZE"
    and "header_value hs ''Content-Length'' = None" "header_value hs ''Transfer-Encoding'' = None"
  shows "http_receive (Inr (as_bytes (header_text status reason_text hs)) # r) =
      (Inr \<lparr>status_code = status, reason = reason_text, resp_headers = hs, resp_body = []\<rparr>, r)"
proof -
  let ?h = "header_text status reason_text hs" and ?ls = "header_lines status reason_text hs"
  have "find_bytes (as_bytes ?h) (as_bytes (CRLF @ CRLF)) = Some (length (header_block ?ls) - 2)"
    using find_bytes_header [of ?ls "[]"] plain_header_lines [OF assms(1,2), of status]
    by (simp add: header_text_def header_lines_def)
  moreover have "2 \<le> length (header_block ?ls)" by (simp add: header_lines_def CRLF_def)
  ultimately have full: "headers_check (as_bytes ?h) = Some (Inr (length ?h))"
    by (simp add: headers_check_def header_text_def CRLF_def)
  have none: "headers_check [] = None" by (simp add: headers_check_def find_bytes_def as_bytes_def CRLF_def starts_with_def)
  have "as_bytes ?h \<noteq> []" using length_header_text [of status reason_text hs] by (auto simp: as_bytes_def)
  then have "read_until_headers_complete [] (Inr (as_bytes ?h) # r) = (Inr (length ?h, as_bytes ?h), r)"
    unfolding read_until_headers_complete_def
    by (subst read_until.simps, simp add: none assms(4), subst read_until.simps, simp add: full)
  moreover have "\<not> contains_permission_denied_marker []" by code_simp
  ultimately show ?thesis
    using parse_headers_text [OF assms(1-3)] assms(5,6) by (simp add: http_receive_def receive_body_def)
qed


lemma cut_takeWhile:
  "take (case position P t of Some e \<Rightarrow> e | None \<Rightarrow> length t) t = takeWhile (\<lambda>c. \<not> P c) t"
  by (induction t) (auto split: option.splits)

lemma extract_svpn_takeWhile:
  "extract_svpn_cookie_from_header line =
     (case find_sub line ''SVPNCOOKIE='' of
        None \<Rightarrow> None
      | Some start \<Rightarrow> valid_cookie_pair (takeWhile (\<lambda>c. \<not> cookie_end c) (drop start line)))"
  unfolding extract_svpn_cookie_from_header_def Let_def cut_takeWhile ..

lemma valid_cookie_pair_SomeD:
  "valid_cookie_pair k = Some k' \<Longrightarrow> k' = k \<and> length k \<le> 4096
   \<and> (\<exists>name v. name \<noteq> [] \<and> v \<noteq> [] \<and> CHR ''='' \<notin> set name \<and> k = name @ CHR ''='' # v)"
  by (fastforce simp: valid_cookie_pair_def COOKIE_SIZE_def split_once_Some split: option.splits if_splits)

lemma extract_svpn_prefix:
  assumes "extract_svpn_cookie_from_header line = Some k"
  shows "\<exists>v. k = ''SVPNCOOKIE='' @ v \<and> v \<noteq> [] \<and> length k \<le> 4096 \<and> (\<forall>c \<in> set k. \<not> cookie_end c)"
proof -
  obtain start where start: "find_sub line ''SVPNCOOKIE='' = Some start"
    and k: "valid_cookie_pair (takeWhile (\<lambda>c. \<not> cookie_end c) (drop start line)) = Some k"
    using assms by (auto simp: extract_svpn_takeWhile split: option.splits)
  obtain pre post where line: "line = pre @ ''SVPNCOOKIE='' @ post" "length pre = start"
    using find_sub_Some_split [OF start] by blast
  have "takeWhile (\<lambda>c. \<not> cookie_end c) (''SVPNCOOKIE='' @ post)
      = ''SVPNCOOKIE='' @ takeWhile (\<lambda>c. \<not> cookie_end c) post"
    by (simp add: cookie_end_def)
  moreover have "drop start line = ''SVPNCOOKIE='' @ post" using line by simp
  ultimately have tw: "takeWhile (\<lambda>c. \<not> cookie_end c) (drop start line)
      = ''SVPNCOOKIE='' @ takeWhile (\<lambda>c. \<not> cookie_end c) post" by simp
  obtain name v where v: "k = ''SVPNCOOKIE='' @ takeWhile (\<lambda>c. \<not> cookie_end c) post" "length k \<le> 4096"
    "v \<noteq> []" "CHR ''='' \<notin> set name" "k = name @ CHR ''='' # v"
    using valid_cookie_pair_SomeD [OF k] tw by metis
  have "takeWhile (\<lambda>c. \<not> cookie_end c) post \<noteq> []"
  proof
    assume "takeWhile (\<lambda>c. \<not> cookie_end c) post = []"
    then have "name @ CHR ''='' # v = ''SVPNCOOKIE'' @ CHR ''='' # []" using v by simp
    then have "split_once (\<lambda>c. c = CHR ''='') (name @ CHR ''='' # v)
        = split_once (\<lambda>c. c = CHR ''='') (''SVPNCOOKIE'' @ CHR ''='' # [])" by (rule arg_cong)
    moreover have "split_once (\<lambda>c. c = CHR ''='') (name @ CHR ''='' # v) = Some (name, v)"
      using v(4) by (intro split_once_append) auto
    ultimately have "v = []" by simp
    with v(3) show False by simp
  qed
  moreover have "\<forall>c \<in> set k. \<not> cookie_end c"
    using k valid_cookie_pair_SomeD [OF k] by (auto dest: set_takeWhileD)
  ultimately show ?thesis using v by blast
qed

text \<open>The session cookie taken from a response is one pair: it starts with its name, has
  a value, is at most 4096 bytes long and holds no separator and no line end, so that it
  can be sent back as a header.\<close>

theorem svpn_cookie_is_pair:
  assumes "svpn_cookie response = Some k"
  shows "\<exists>v. k = ''SVPNCOOKIE='' @ v \<and> v \<noteq> [] \<and> length k \<le> 4096
    \<and> CHR '';'' \<notin> set k \<and> CHR 0x0D \<notin> set k \<and> CHR 0x0A \<notin> set k"
proof -
  have "k \<in> set (List.map_filter extract_svpn_cookie_from_header (headers_named response ''Set-Cookie''))"
    using assms by (auto simp: svpn_cookie_def split: list.splits)
  then obtain line where "extract_svpn_cookie_from_header line = Some k"
    by (auto simp: List.map_filter_def)
  from extract_svpn_prefix [OF this] show ?thesis by (auto simp: cookie_end_def)
qed

section \<open>What the log shows of cookies\<close>

text \<open>Cookies as pairs of a name and a value, as they are sent in a request and set by a
  response.\<close>

definition cookie_pair :: "string \<times> string \<Rightarrow> string" where
  "cookie_pair k = fst k @ CHR ''='' # snd k"

definition cookie_text :: "(string \<times> string) list \<Rightarrow> string" where
  "cookie_text ks = join ''; '' (map cookie_pair ks)"

definition set_cookie_lines :: "string \<Rightarrow> (string \<times> string) list \<Rightarrow> (string \<times> string) list" where
  "set_cookie_lines attributes ks = map (\<lambda>k. (''Set-Cookie'', cookie_pair k @ CHR '';'' # attributes)) ks"

definition plain_cookie :: "string \<times> string \<Rightarrow> bool" where
  "plain_cookie k \<longleftrightarrow>
     fst k \<noteq> [] \<and> snd k \<noteq> [] \<and> CHR ''='' \<notin> set (fst k) \<and> CHR '';'' \<notin> set (cookie_pair k)
   \<and> trimmed (cookie_pair k)"

lemma pair_name_cookie: "plain_cookie k \<Longrightarrow> pair_name (cookie_pair k) = Some (fst k)"
proof -
  assume k: "plain_cookie k"
  then have "split_once (\<lambda>c. c = CHR ''='') (fst k @ CHR ''='' # snd k) = Some (fst k, snd k)"
    by (intro split_once_append) (auto simp: plain_cookie_def)
  with k show ?thesis by (cases k) (simp add: pair_name_def cookie_pair_def plain_cookie_def)
qed

lemma split_cookie_text:
  "list_all plain_cookie (k # ks) \<Longrightarrow>
   split_on (\<lambda>c. c = CHR '';'') (cookie_text (k # ks)) = cookie_pair k # map (\<lambda>k. CHR '' '' # cookie_pair k) ks"
proof (induction ks arbitrary: k)
  case Nil
  then show ?case by (simp add: cookie_text_def plain_cookie_def) (rule split_on_no_sep, auto)
next
  case (Cons k2 ks)
  have "split_on (\<lambda>c. c = CHR '';'') (cookie_pair k @ CHR '';'' # CHR '' '' # cookie_text (k2 # ks))
      = cookie_pair k # split_on (\<lambda>c. c = CHR '';'') (CHR '' '' # cookie_text (k2 # ks))"
    using Cons.prems by (intro split_on_append) (auto simp: plain_cookie_def)
  then show ?case using Cons by (simp add: cookie_text_def)
qed

lemma cookie_names_text: "list_all plain_cookie ks \<Longrightarrow> cookie_names_from_cookie_header (cookie_text ks) = map fst ks"
proof (cases ks)
  case Nil
  have "cookie_names_from_cookie_header [] = []" by code_simp
  with Nil show ?thesis by (simp add: cookie_text_def)
next
  case (Cons k ks')
  assume plain: "list_all plain_cookie ks"
  then have name: "pair_name (trim (cookie_pair x)) = Some (fst x)" "pair_name (trim (CHR '' '' # cookie_pair x)) = Some (fst x)"
    if "x \<in> set ks" for x
    using that pair_name_cookie [of x] trim_trimmed [of "cookie_pair x"] trim_value_space [of "cookie_pair x"]
    by (auto simp: list_all_iff plain_cookie_def)
  have "List.map_filter (\<lambda>k. pair_name (trim k)) (map (\<lambda>k. CHR '' '' # cookie_pair k) xs) = map fst xs"
    if "set xs \<subseteq> set ks" for xs
    using that name by (induction xs) (auto simp: List.map_filter_simps)
  from this [of ks'] name(1) [of k] split_cookie_text [of k ks'] plain show ?thesis
    by (simp add: Cons cookie_names_from_cookie_header_def List.map_filter_simps subset_insertI)
qed

lemma map_filter_append: "List.map_filter f (xs @ ys) = List.map_filter f xs @ List.map_filter f ys"
  by (induction xs) (simp_all add: List.map_filter_simps split: option.split)

lemma set_cookie_names_lines:
  assumes "list_all plain_cookie ks" "resp_headers r = others @ set_cookie_lines attributes ks"
  shows "set_cookie_names r = set_cookie_names (r\<lparr>resp_headers := others\<rparr>) @ map fst ks"
proof -
  have "cookie_name_from_set_cookie_header (cookie_pair k @ CHR '';'' # attributes) = Some (fst k)" if "plain_cookie k" for k
  proof -
    have "split_once (\<lambda>c. c = CHR '';'') (cookie_pair k @ CHR '';'' # attributes) = Some (cookie_pair k, attributes)"
      using that by (intro split_once_append) (auto simp: plain_cookie_def)
    then show ?thesis
      using that pair_name_cookie [OF that] trim_trimmed [of "cookie_pair k"]
      by (simp add: cookie_name_from_set_cookie_header_def before_semicolon_def plain_cookie_def)
  qed
  then have "List.map_filter cookie_name_from_set_cookie_header (map (\<lambda>k. cookie_pair k @ CHR '';'' # attributes) ks) = map fst ks"
    using assms(1) by (induction ks) (auto simp: List.map_filter_simps)
  moreover have "filter (\<lambda>(key, v). eq_ignore_ascii_case key ''Set-Cookie'') (set_cookie_lines attributes ks)
      = set_cookie_lines attributes ks"
    by (auto simp: set_cookie_lines_def eq_ignore_ascii_case_def)
  ultimately show ?thesis
    using assms(2)
    by (simp add: set_cookie_names_def headers_named_def set_cookie_lines_def comp_def map_filter_append)
qed

lemma header_value_in_other:
  "\<not> eq_ignore_ascii_case n name \<Longrightarrow>
   header_value_in (before @ (n, v) # after) name = header_value_in (before @ after) name"
  by (induction before) (auto simp: header_value_in_def)

lemma header_value_in_Cookie:
  "header_value_in (before @ (''Cookie'', v) # after) ''Cookie'' =
     (case header_value_in before ''Cookie'' of Some k \<Rightarrow> Some k | None \<Rightarrow> Some v)"
  by (induction before) (auto simp: header_value_in_def eq_ignore_ascii_case_def)

lemma request_log_cookies:
  assumes "list_all plain_cookie a" "list_all plain_cookie b" "map fst a = map fst b"
  shows "request_log host meth path (before @ (''Cookie'', cookie_text a) # after) body
    = request_log host meth path (before @ (''Cookie'', cookie_text b) # after) body"
proof -
  have ne: "\<not> eq_ignore_ascii_case ''Cookie'' ''User-Agent''" "\<not> eq_ignore_ascii_case ''Cookie'' ''Content-Type''"
    by (simp_all add: eq_ignore_ascii_case_def to_ascii_lowercase_def)
  show ?thesis
    using cookie_names_text [OF assms(1)] cookie_names_text [OF assms(2)] assms(3)
    by (simp add: request_log_def request_header_preview_def header_value_in_other [OF ne(1)]
        header_value_in_other [OF ne(2)] header_value_in_Cookie split: option.split)
qed

lemma response_log_cookies:
  assumes "list_all plain_cookie a" "list_all plain_cookie b" "map fst a = map fst b"
  shows "response_log meth path (r\<lparr>resp_headers := others @ set_cookie_lines attributes a\<rparr>)
    = response_log meth path (r\<lparr>resp_headers := others @ set_cookie_lines attributes b\<rparr>)"
  using assms by (simp add: response_log_def set_cookie_names_lines [of a _ others attributes]
      set_cookie_names_lines [of b _ others attributes])

lemma do_http_request_log:
  "snd (snd (do_http_request host meth path headers body stream)) = request_log host meth path headers body
     @ (case fst (do_http_request host meth path headers body stream) of
          Inr response \<Rightarrow> response_log meth path response | Inl e \<Rightarrow> [])"
  by (auto simp: do_http_request_def Let_def split: prod.splits sum.splits)

text \<open>C29. The log reveals no cookie values. What a request writes to the log is its request
  lines and, when a response was received, the response lines; the request lines are the
  same for two lists of cookies with the same names, whatever their values, and the response
  lines are the same for two responses that set cookies of the same names.\<close>

theorem log_hides_cookie_values:
  assumes "list_all plain_cookie a" "list_all plain_cookie b" "map fst a = map fst b"
  shows "request_log host meth path (before @ (''Cookie'', cookie_text a) # after) body
      = request_log host meth path (before @ (''Cookie'', cookie_text b) # after) body
    \<and> response_log meth path (r\<lparr>resp_headers := others @ set_cookie_lines attributes a\<rparr>)
      = response_log meth path (r\<lparr>resp_headers := others @ set_cookie_lines attributes b\<rparr>)
    \<and> snd (snd (do_http_request host meth path headers body stream)) = request_log host meth path headers body
      @ (case fst (do_http_request host meth path headers body stream) of
           Inr response \<Rightarrow> response_log meth path response | Inl e \<Rightarrow> [])"
  using request_log_cookies [OF assms] response_log_cookies [OF assms] do_http_request_log by blast


theorem svpn_cookie_is_pair_witness:
  "\<exists>v. ''SVPNCOOKIE=abc'' = ''SVPNCOOKIE='' @ v \<and> v \<noteq> [] \<and> length ''SVPNCOOKIE=abc'' \<le> 4096
    \<and> CHR '';'' \<notin> set ''SVPNCOOKIE=abc'' \<and> CHR 0x0D \<notin> set ''SVPNCOOKIE=abc''
    \<and> CHR 0x0A \<notin> set ''SVPNCOOKIE=abc''"
  by (rule svpn_cookie_is_pair [of "\<lparr>status_code = 200, reason = ''OK'',
        resp_headers = [(''set-cookie'', ''SVPNCOOKIE=abc; path=/'')], resp_body = []\<rparr>"]) code_simp

theorem log_hides_cookie_values_witness:
  "request_log ''h'' ''GET'' ''/'' ([] @ (''Cookie'', cookie_text [(''SVPNCOOKIE'', ''one''), (''a'', ''x'')]) # []) []
    = request_log ''h'' ''GET'' ''/'' ([] @ (''Cookie'', cookie_text [(''SVPNCOOKIE'', ''two''), (''a'', ''y'')]) # []) []"
proof -
  have a: "list_all plain_cookie [(''SVPNCOOKIE'', ''one''), (''a'', ''x'')]"
    and b: "list_all plain_cookie [(''SVPNCOOKIE'', ''two''), (''a'', ''y'')]"
    by (simp_all add: plain_cookie_def cookie_pair_def trimmed_def ws_len_def ws_len_rev_def byte_at_def ws1_def
        ws2_def ws3_def)
  have "map fst [(''SVPNCOOKIE'', ''one''), (''a'', ''x'')] = map fst [(''SVPNCOOKIE'', ''two''), (''a'', ''y'')]" by simp
  from log_hides_cookie_values [OF a b this] show ?thesis by (rule conjunct1)
qed

section \<open>Chunked bodies\<close>

text \<open>A chunked body is kept with its chunk headers, and the body without any chunk is not
  recognised as complete: the marker searched for begins with the line end of a chunk
  before the last one.\<close>

lemma chunked_body_kept_raw:
  "receive_body [(''Transfer-Encoding'', ''chunked'')]
     (as_bytes (''2'' @ CRLF @ ''hi'' @ CRLF @ ''0'' @ CRLF @ CRLF)) []
   = (Inr (as_bytes (''2'' @ CRLF @ ''hi'' @ CRLF @ ''0'' @ CRLF @ CRLF)), [])"
  by code_simp

lemma empty_chunked_body_refused:
  "receive_body [(''Transfer-Encoding'', ''chunked'')] (as_bytes (''0'' @ CRLF @ CRLF)) []
   = (Inl (HttpProtocol ''connection closed before chunked HTTP body ended''), [])"
  by code_simp

section \<open>Percent encoding\<close>

lemma hex_upper_hexdigit: "n < 16 \<Longrightarrow> is_ascii_hexdigit (hex_upper n)"
proof -
  have "list_all (\<lambda>n. is_ascii_hexdigit (hex_upper n)) [0..<16]" by code_simp
  then show "n < 16 \<Longrightarrow> is_ascii_hexdigit (hex_upper n)" by (simp add: list_all_iff)
qed

lemma url_encode_chars: "c \<in> set (url_encode s) \<Longrightarrow> url_unreserved c \<or> c = CHR ''%''"
proof -
  have "is_ascii_hexdigit c \<Longrightarrow> url_unreserved c" for c
    by (auto simp: is_ascii_hexdigit_def url_unreserved_def is_ascii_upper_def is_ascii_lower_def)
  moreover have "code d div 16 < 16" "code d mod 16 < 16" for d :: char
    using nat_of_char_less_256 [of d] by (simp_all add: div_less_iff_less_mult)
  ultimately show "c \<in> set (url_encode s) \<Longrightarrow> url_unreserved c \<or> c = CHR ''%''"
    using hex_upper_hexdigit by (auto simp: url_encode_def split: if_splits)
qed

end
