(* ===== verification/Portal.thy ===== *)
theory Portal
  imports Http
begin

text \<open>
  The portal requests after the login (\<open>src/auth/portal.rs\<close>): the requests that allocate the
  tunnel, fetch its configuration and log out, and the reader of the XML configuration.
  The search loops of the reader keep an offset into the text; here they run on the suffix
  that begins at the offset. Requests return what they add to the log.

  Shown here: a configuration document rendered from a gateway, DNS servers, a suffix and
  split routes is read back as these values.
\<close>

record ipv4_route =
  destination :: string
  mask :: string
  route_gateway :: "string option"

record vpn_config_xml =
  raw_xml :: string
  gateway :: "string option"
  assigned_ip :: "string option"
  dns_servers :: "string list"
  dns_suffix :: "string option"
  split_routes :: "ipv4_route list"

section \<open>Reading the configuration\<close>

definition xml_unescape :: "string \<Rightarrow> string" where
  "xml_unescape v =
     replace_str ''&apos;'' [CHR 0x27]
       (replace_str ''&quot;'' [CHR 0x22]
         (replace_str ''&amp;'' ''&''
           (replace_str ''&gt;'' ''>'' (replace_str ''&lt;'' ''<'' v))))"

text \<open>\<open>char::is_ascii_whitespace\<close>, which unlike the Unicode test excludes the vertical tab.\<close>

definition is_ascii_whitespace :: "char \<Rightarrow> bool" where
  "is_ascii_whitespace c \<longleftrightarrow> code c = 32 \<or> code c = 9 \<or> code c = 10 \<or> code c = 12 \<or> code c = 13"

definition starts_char :: "char \<Rightarrow> string \<Rightarrow> bool" where
  "starts_char c s \<longleftrightarrow> s \<noteq> [] \<and> hd s = c"

text \<open>The end of a tag name: the end of the text, white space, a slash or the closing bracket.\<close>

definition tag_boundary :: "string \<Rightarrow> bool" where
  "tag_boundary s \<longleftrightarrow>
     s = [] \<or> is_ascii_whitespace (hd s) \<or> hd s = CHR ''/'' \<or> hd s = CHR ''>''"

lemma position_bound: "position P xs = Some i \<Longrightarrow> i < length xs"
  by (simp add: position_Some)

function start_tags :: "string \<Rightarrow> string \<Rightarrow> string list" where
  "start_tags tag xml =
     (case position (\<lambda>c. c = CHR ''<'') xml of
        None \<Rightarrow> []
      | Some start \<Rightarrow>
          (let after_lt = drop (start + 1) xml; after_name = drop (length tag) after_lt in
           if starts_char (CHR ''/'') after_lt \<or> starts_char (CHR ''!'') after_lt
              \<or> starts_char (CHR ''?'') after_lt
           then start_tags tag after_lt
           else if starts_with after_lt tag \<and> tag_boundary after_name then
             (case position (\<lambda>c. c = CHR ''>'') after_name of
                Some e \<Rightarrow> take (length tag + e) after_lt # start_tags tag (drop (e + 1) after_name)
              | None \<Rightarrow> [])
           else start_tags tag after_lt))"
  by pat_completeness auto
termination
  by (relation "measure (\<lambda>(tag, xml). length xml)") (auto dest!: position_bound)

declare start_tags.simps [simp del]

definition ends_with :: "string \<Rightarrow> string \<Rightarrow> bool" where
  "ends_with s p \<longleftrightarrow> starts_with (rev s) (rev p)"

function element_bodies :: "string \<Rightarrow> string \<Rightarrow> string list" where
  "element_bodies tag xml =
     (case position (\<lambda>c. c = CHR ''<'') xml of
        None \<Rightarrow> []
      | Some start \<Rightarrow>
          (let after_lt = drop (start + 1) xml; after_name = drop (length tag) after_lt in
           if \<not> starts_with after_lt tag then element_bodies tag after_lt
           else if \<not> tag_boundary after_name then element_bodies tag after_lt
           else
             case position (\<lambda>c. c = CHR ''>'') after_name of
               None \<Rightarrow> []
             | Some e \<Rightarrow>
                 (let from_body = drop (e + 1) after_name;
                      close = ''</'' @ tag @ ''>''
                  in
                  if ends_with (trim_end (''<'' @ take (length tag + e + 1) after_lt)) ''/>''
                  then element_bodies tag from_body
                  else
                    case find_sub from_body close of
                      None \<Rightarrow> []
                    | Some n \<Rightarrow> take n from_body # element_bodies tag (drop (n + length close) from_body))))"
  by pat_completeness auto
termination
  by (relation "measure (\<lambda>(tag, xml). length xml)") (auto dest!: position_bound)

declare element_bodies.simps [simp del]

text \<open>\<open>split_once(char::is_whitespace)\<close>: the text before and after the first white space.\<close>

fun split_once_ws :: "string \<Rightarrow> (string \<times> string) option" where
  "split_once_ws [] = None"
| "split_once_ws (c # cs) =
     (if ws_len (c # cs) = 0 then map_option (\<lambda>(a, b). (c # a, b)) (split_once_ws cs)
      else Some ([], drop (ws_len (c # cs) - 1) cs))"

definition attr_name_end :: "char \<Rightarrow> bool" where
  "attr_name_end c \<longleftrightarrow>
     is_ascii_whitespace c \<or> c = CHR ''='' \<or> c = CHR ''/'' \<or> c = CHR ''>''"

lemma length_trim_start_le: "length (trim_start s) \<le> length s"
  by (induction s rule: trim_start.induct) (auto intro: le_trans)

definition split_name :: "string \<Rightarrow> string \<times> string" where
  "split_name r =
     (let name_end = (case position attr_name_end r of Some e \<Rightarrow> e | None \<Rightarrow> length r)
      in (take name_end r, drop name_end r))"

lemma cut_dropWhile:
  "drop (case position P t of Some e \<Rightarrow> e | None \<Rightarrow> length t) t = dropWhile (\<lambda>c. \<not> P c) t"
  by (induction t) (auto split: option.splits)

lemma split_name_takeWhile:
  "split_name r = (takeWhile (\<lambda>c. \<not> attr_name_end c) r, dropWhile (\<lambda>c. \<not> attr_name_end c) r)"
  unfolding split_name_def Let_def cut_takeWhile cut_dropWhile ..

lemma split_name_length: "split_name r = (a, b) \<Longrightarrow> length a + length b = length r"
  unfolding split_name_takeWhile
  by (metis Pair_inject length_append takeWhile_dropWhile_id)

function attr_loop :: "string \<Rightarrow> string \<Rightarrow> string option" where
  "attr_loop attr rest =
     (if rest = [] then None
      else
        let r = trim_start rest in
        if starts_char (CHR ''/'') r then None
        else
          case split_name r of
            (name, after_name) \<Rightarrow>
              if name = [] then None
              else
                let r1 = trim_start after_name in
                if \<not> starts_char (CHR ''='') r1 then attr_loop attr r1
                else
                  let r2 = trim_start (drop 1 r1) in
                  if r2 = [] then None
                  else
                    let quote = hd r2 in
                    if quote \<noteq> CHR 0x27 \<and> quote \<noteq> CHR 0x22 then None
                    else
                      case position (\<lambda>c. c = quote) (drop 1 r2) of
                        None \<Rightarrow> None
                      | Some value_end \<Rightarrow>
                          if name = attr then Some (xml_unescape (take value_end (drop 1 r2)))
                          else attr_loop attr (drop (value_end + 1) (drop 1 r2)))"
  by pat_completeness auto
termination
proof (relation "measure (\<lambda>(attr, rest). length rest)", goal_cases)
  case 1
  then show ?case by simp
next
  case (2 attr rest r name after_name r1)
  then show ?case
    using length_trim_start_le [of rest] length_trim_start_le [of after_name]
      split_name_length [of r name after_name]
    by (cases name) auto
next
  case (3 attr rest r name after_name r1 r2 quote value_end)
  then show ?case
    using length_trim_start_le [of rest] length_trim_start_le [of after_name]
      length_trim_start_le [of "drop 1 r1"] split_name_length [of r name after_name]
    by (cases name) auto
qed

declare attr_loop.simps [simp del]

definition attr_value :: "string \<Rightarrow> string \<Rightarrow> string option" where
  "attr_value start_tag attr =
     (case split_once_ws (trim_start start_tag) of
        None \<Rightarrow> None
      | Some (_, after_name) \<Rightarrow> attr_loop attr after_name)"


definition tag_attr_values :: "string \<Rightarrow> string \<Rightarrow> string \<Rightarrow> string list" where
  "tag_attr_values xml tag attr =
     List.map_filter (\<lambda>start_tag. attr_value start_tag attr) (start_tags tag xml)"

fun next_of :: "'a list \<Rightarrow> 'a option" where
  "next_of [] = None"
| "next_of (x # xs) = Some x"

definition first_tag_attr :: "string \<Rightarrow> string \<Rightarrow> string \<Rightarrow> string option" where
  "first_tag_attr xml tag attr = next_of (tag_attr_values xml tag attr)"

function xml_values :: "string \<Rightarrow> string \<Rightarrow> string list" where
  "xml_values tag rest =
     (let open_tag = ''<'' @ tag @ ''>''; close = ''</'' @ tag @ ''>'' in
      case find_sub rest open_tag of
        None \<Rightarrow> []
      | Some start \<Rightarrow>
          (let from_value = drop (start + length open_tag) rest in
           case find_sub from_value close of
             None \<Rightarrow> []
           | Some e \<Rightarrow>
               xml_unescape (trim (take e from_value))
                 # xml_values tag (drop (e + length close) from_value)))"
  by pat_completeness auto
termination
  by (relation "measure (\<lambda>(tag, rest). length rest)") (auto dest!: find_sub_bound)

declare xml_values.simps [simp del]

definition first_xml_value :: "string \<Rightarrow> string \<Rightarrow> string option" where
  "first_xml_value xml tag = next_of (xml_values tag xml)"

definition parse_split_routes :: "string \<Rightarrow> string option \<Rightarrow> ipv4_route list" where
  "parse_split_routes xml gw =
     List.map_filter (\<lambda>start_tag.
         case attr_value start_tag ''ip'' of
           None \<Rightarrow> None
         | Some dest \<Rightarrow>
             (case attr_value start_tag ''mask'' of
                None \<Rightarrow> None
              | Some msk \<Rightarrow> Some \<lparr>destination = dest, mask = msk, route_gateway = gw\<rparr>))
       (concat (map (start_tags ''addr'') (element_bodies ''split-tunnel-info'' xml)))"

fun or_else :: "'a option \<Rightarrow> 'a option \<Rightarrow> 'a option" where
  "or_else (Some x) y = Some x"
| "or_else None y = y"

definition parse_vpn_config_xml :: "string \<Rightarrow> vpn_config_xml" where
  "parse_vpn_config_xml xml =
     (let gw = first_tag_attr xml ''assigned-addr'' ''ipv4'';
          ip = or_else (or_else (or_else gw (first_xml_value xml ''assigned-addr''))
                 (first_xml_value xml ''ip'')) (first_xml_value xml ''addr'');
          servers = tag_attr_values xml ''dns'' ''ip'' @ xml_values ''dns-server'' xml;
          servers = (if servers = [] then xml_values ''dns'' xml else servers);
          suffix = or_else (or_else (first_tag_attr xml ''dns'' ''domain'')
                     (first_xml_value xml ''dns-suffix'')) (first_xml_value xml ''domain'')
      in \<lparr>raw_xml = xml, gateway = gw, assigned_ip = ip, dns_servers = servers,
          dns_suffix = suffix, split_routes = parse_split_routes xml gw\<rparr>)"

section \<open>Requests\<close>

definition valid_redirect_path :: "string option \<Rightarrow> string option" where
  "valid_redirect_path path =
     (case path of
        None \<Rightarrow> None
      | Some p \<Rightarrow> if starts_char (CHR ''/'') p \<and> \<not> starts_with p ''//'' then Some p else None)"

definition http_host :: "config \<Rightarrow> string" where
  "http_host cfg =
     (if gateway_port cfg = 443 then gateway_host cfg
      else gateway_host cfg @ '':'' @ show_word (gateway_port cfg))"

definition log_http_error_context :: "string \<Rightarrow> http_response \<Rightarrow> string list" where
  "log_http_error_context path response =
     (let names = header_names response
      in if names \<noteq> [] then [''HTTP error response headers for '' @ path @ '': '' @ join '', '' names] else [])
     @ (case body_preview 512 response of
          None \<Rightarrow> []
        | Some preview \<Rightarrow> [''HTTP error response body preview for '' @ path @ '': '' @ preview])"

definition ensure_success :: "string \<Rightarrow> http_response \<Rightarrow> unit res \<times> string list" where
  "ensure_success path response =
     (if 200 \<le> status_code response \<and> status_code response < 300 then (Inr (), [])
      else (Inl (HttpProtocol (path @ '': unexpected HTTP status: '' @ show_word (status_code response)
                   @ '' '' @ reason response)),
            log_http_error_context path response))"

text \<open>A \<open>GET\<close> request with the session headers, and the check of its status.\<close>

definition session_headers :: "config \<Rightarrow> string \<Rightarrow> (string \<times> string) list" where
  "session_headers cfg k = [(''Cookie'', k), (''User-Agent'', user_agent cfg)]"

definition get_checked ::
  "config \<Rightarrow> string \<Rightarrow> string \<Rightarrow> http_stream \<Rightarrow> http_response res \<times> http_stream \<times> string list" where
  "get_checked cfg k path stream =
     (case do_http_request (http_host cfg) ''GET'' path (session_headers cfg k) [] stream of
        (Inl e, s, log) \<Rightarrow> (Inl e, s, log)
      | (Inr response, s, log) \<Rightarrow>
          (case ensure_success path response of
             (Inl e, l) \<Rightarrow> (Inl e, s, log @ l)
           | (Inr _, l) \<Rightarrow> (Inr response, s, log @ l)))"

definition request_vpn_allocation ::
  "config \<Rightarrow> string \<Rightarrow> string option \<Rightarrow> http_stream \<Rightarrow> unit res \<times> http_stream \<times> string list" where
  "request_vpn_allocation cfg k portal_redirect stream =
     (let (path, log0) =
            (case valid_redirect_path portal_redirect of
               Some path \<Rightarrow> (path, [''following post-login portal redirect: '' @ path])
             | None \<Rightarrow> (''/remote/index'', []))
      in case get_checked cfg k path stream of
           (Inl e, s, l) \<Rightarrow> (Inl e, s, log0 @ l)
         | (Inr _, s, l) \<Rightarrow>
             (case get_checked cfg k ''/remote/fortisslvpn'' s of
                (Inl e, s2, l2) \<Rightarrow> (Inl e, s2, log0 @ l @ l2)
              | (Inr _, s2, l2) \<Rightarrow> (Inr (), s2, log0 @ l @ l2)))"

definition get_vpn_config ::
  "config \<Rightarrow> string \<Rightarrow> http_stream \<Rightarrow> vpn_config_xml res \<times> http_stream \<times> string list" where
  "get_vpn_config cfg k stream =
     (case get_checked cfg k ''/remote/fortisslvpn_xml'' stream of
        (Inl e, s, l) \<Rightarrow> (Inl e, s, l)
      | (Inr response, s, l) \<Rightarrow>
          (case body_as_str response of
             None \<Rightarrow> (Inl (HttpProtocol ''VPN config XML is not UTF-8''), s, l)
           | Some xml \<Rightarrow> (Inr (parse_vpn_config_xml xml), s, l)))"

definition log_out :: "config \<Rightarrow> string \<Rightarrow> http_stream \<Rightarrow> unit res \<times> http_stream \<times> string list" where
  "log_out cfg k stream =
     (case get_checked cfg k ''/remote/logout'' stream of
        (Inl e, s, l) \<Rightarrow> (Inl e, s, l)
      | (Inr _, s, l) \<Rightarrow> (Inr (), s, l))"

section \<open>Documents\<close>

text \<open>The documents for which the reader is characterised: opening tags (with attributes, possibly
  self-closing), closing tags, and text between them.\<close>

datatype item = Open string string | Close string | Text string

fun item_text :: "item \<Rightarrow> string" where
  "item_text (Open name body) = ''<'' @ name @ body @ ''>''"
| "item_text (Close name) = ''</'' @ name @ ''>''"
| "item_text (Text t) = t"

definition doc :: "item list \<Rightarrow> string" where
  "doc items = concat (map item_text items)"

definition name_char :: "char \<Rightarrow> bool" where
  "name_char c \<longleftrightarrow> is_ascii_lower c \<or> is_ascii_digit c \<or> c = CHR ''-''"

definition plain_name :: "string \<Rightarrow> bool" where
  "plain_name name \<longleftrightarrow> name \<noteq> [] \<and> list_all name_char name"

fun plain_item :: "item \<Rightarrow> bool" where
  "plain_item (Open name body) \<longleftrightarrow>
     plain_name name \<and> CHR ''<'' \<notin> set body \<and> CHR ''>'' \<notin> set body \<and> tag_boundary body"
| "plain_item (Close name) \<longleftrightarrow> plain_name name"
| "plain_item (Text t) \<longleftrightarrow> CHR ''<'' \<notin> set t"

lemma doc_simps [simp]:
  "doc [] = []" "doc (i # is) = item_text i @ doc is" "doc (is @ js) = doc is @ doc js"
  by (simp_all add: doc_def)

lemma name_char_simps [simp]:
  "\<not> name_char (CHR ''<'')" "\<not> name_char (CHR ''>'')" "\<not> name_char (CHR ''/'')"
  "\<not> name_char (CHR ''!'')" "\<not> name_char (CHR ''?'')" "\<not> name_char (CHR ''='')" "\<not> name_char (CHR '' '')"
  by (simp_all add: name_char_def is_ascii_lower_def is_ascii_digit_def)

lemma name_char_not_boundary: "name_char c \<Longrightarrow> \<not> is_ascii_whitespace c"
  by (auto simp: name_char_def is_ascii_lower_def is_ascii_digit_def is_ascii_whitespace_def)

lemma plain_name_not_in: "plain_name name \<Longrightarrow> \<not> name_char c \<Longrightarrow> c \<notin> set name"
  by (auto simp: plain_name_def list_all_iff)

lemma plain_name_hd:
  assumes "plain_name name" "\<not> name_char c"
  shows "\<not> starts_char c (name @ r)"
  using assms by (cases name) (auto simp: plain_name_def starts_char_def)

text \<open>Matching a name up to its boundary is equality of names.\<close>

lemma starts_with_boundary:
  assumes "plain_name name" "plain_name tag" "tag_boundary r"
  shows "starts_with (name @ r) tag \<and> tag_boundary (drop (length tag) (name @ r)) \<longleftrightarrow> name = tag"
proof
  assume h: "starts_with (name @ r) tag \<and> tag_boundary (drop (length tag) (name @ r))"
  then obtain t where t: "name @ r = tag @ t" by (auto simp: starts_with_iff)
  with h have "tag_boundary t" by (metis append_eq_conv_conj)
  note t = t this
  then consider (shorter) us where "name = tag @ us" "t = us @ r" | (longer) us where "tag = name @ us" "r = us @ t"
    by (auto simp: append_eq_append_conv2)
  then show "name = tag"
  proof cases
    case shorter
    then have "us = []" using t(2) assms(1)
      by (cases us) (auto simp: tag_boundary_def plain_name_def dest: name_char_not_boundary)
    with shorter show ?thesis by simp
  next
    case longer
    then have "us = []" using assms(2,3)
      by (cases us) (auto simp: tag_boundary_def plain_name_def dest: name_char_not_boundary)
    with longer show ?thesis by simp
  qed
next
  assume "name = tag"
  with assms(3) show "starts_with (name @ r) tag \<and> tag_boundary (drop (length tag) (name @ r))"
    by simp
qed

lemma tag_boundary_append: "tag_boundary body \<Longrightarrow> tag_boundary (body @ CHR ''>'' # r)"
  by (cases body) (auto simp: tag_boundary_def)

lemma start_tags_skip: "CHR ''<'' \<notin> set t \<Longrightarrow> start_tags tag (t @ r) = start_tags tag r"
proof -
  assume "CHR ''<'' \<notin> set t"
  then have "position (\<lambda>c. c = CHR ''<'') t = None" by (auto simp: position_None)
  then have "position (\<lambda>c. c = CHR ''<'') (t @ r) = map_option (\<lambda>i. length t + i) (position (\<lambda>c. c = CHR ''<'') r)"
    by (simp add: position_append)
  then show ?thesis
    by (subst (1 2) start_tags.simps) (cases "position (\<lambda>c. c = CHR ''<'') r"; simp)
qed

lemma start_tags_close: "start_tags tag (''</'' @ r) = start_tags tag r"
proof -
  have "start_tags tag (''</'' @ r) = start_tags tag (''/'' @ r)"
    by (subst start_tags.simps) (simp add: starts_char_def)
  then show ?thesis using start_tags_skip [of "''/''" tag r] by simp
qed

lemma start_tags_open:
  assumes "plain_item (Open name body)" "plain_name tag"
  shows "start_tags tag (item_text (Open name body) @ r)
    = (if name = tag then [name @ body] else []) @ start_tags tag r"
proof -
  let ?after = "name @ body @ CHR ''>'' # r"
  have b: "starts_with ?after tag \<and> tag_boundary (drop (length tag) ?after) \<longleftrightarrow> name = tag"
    using assms by (intro starts_with_boundary) (auto intro: tag_boundary_append)
  have n: "\<not> starts_char c ?after" if "\<not> name_char c" for c
    using plain_name_hd [OF _ that] assms(1) by simp
  have p: "position (\<lambda>c. c = CHR ''>'') (body @ CHR ''>'' # r) = Some (length body)"
    using assms by (intro position_append_hit) auto
  have st: "start_tags tag (item_text (Open name body) @ r) =
     (if starts_with ?after tag \<and> tag_boundary (drop (length tag) ?after) then
        (case position (\<lambda>c. c = CHR ''>'') (drop (length tag) ?after) of
           Some e \<Rightarrow> take (length tag + e) ?after # start_tags tag (drop (e + 1) (drop (length tag) ?after))
         | None \<Rightarrow> [])
      else start_tags tag ?after)"
    by (subst start_tags.simps) (simp add: n Let_def)
  show ?thesis
  proof (cases "name = tag")
    case True
    have "take (length tag + length body) (name @ body @ CHR ''>'' # r) = name @ body"
      "drop (Suc (length body)) (body @ CHR ''>'' # r) = r"
      using True by simp_all
    then show ?thesis unfolding st using b True p by simp
  next
    case False
    have "CHR ''<'' \<notin> set (name @ body @ ''>'')" using assms plain_name_not_in [of name] by auto
    then have "start_tags tag ((name @ body @ ''>'') @ r) = start_tags tag r"
      by (rule start_tags_skip)
    moreover have "start_tags tag (item_text (Open name body) @ r) = start_tags tag ?after"
      unfolding st using b False by (simp only: if_False)
    ultimately show ?thesis using False by simp
  qed
qed

fun opens :: "string \<Rightarrow> item \<Rightarrow> bool" where
  "opens tag (Open name body) \<longleftrightarrow> name = tag"
| "opens tag _ \<longleftrightarrow> False"

fun open_text :: "item \<Rightarrow> string" where
  "open_text (Open name body) = name @ body"
| "open_text (Close name) = []"
| "open_text (Text t) = []"

lemma start_tags_doc:
  assumes "list_all plain_item is" "plain_name tag"
  shows "start_tags tag (doc is) = map open_text (filter (opens tag) is)"
  using assms(1)
proof (induction "is")
  case Nil
  then show ?case by (simp add: start_tags.simps)
next
  case (Cons i "is")
  then have IH: "start_tags tag (doc is) = map open_text (filter (opens tag) is)" by simp
  show ?case
  proof (cases i)
    case (Open name body)
    with Cons.prems assms(2) have "start_tags tag (doc (i # is))
        = (if name = tag then [name @ body] else []) @ start_tags tag (doc is)"
      using start_tags_open [of name body tag "doc is"] by simp
    with Open IH show ?thesis by simp
  next
    case (Close name)
    have "CHR ''<'' \<notin> set (name @ ''>'')" using Close Cons.prems plain_name_not_in [of name] by auto
    with start_tags_skip [of "name @ ''>''" tag "doc is"] start_tags_close [of tag "name @ ''>'' @ doc is"]
    have "start_tags tag (doc (i # is)) = start_tags tag (doc is)" using Close by simp
    with Close IH show ?thesis by simp
  next
    case (Text t)
    with Cons.prems start_tags_skip [of t tag "doc is"] IH show ?thesis by simp
  qed
qed

text \<open>Searching for a complete tag in a document.\<close>

lemma find_tag_skip:
  assumes "CHR ''<'' \<notin> set t"
  shows "find_sub (t @ r) (''<'' @ p) = map_option (\<lambda>i. length t + i) (find_sub r (''<'' @ p))"
  using find_sub_skip [of t "CHR ''<''" r p] assms by auto

lemma starts_with_Cons: "starts_with (x # xs) (y # ys) \<longleftrightarrow> x = y \<and> starts_with xs ys"
  by (auto simp: starts_with_def)

lemma starts_with_full:
  assumes "plain_name tag" "CHR ''>'' \<notin> set t"
  shows "starts_with (t @ CHR ''>'' # r) (tag @ ''>'') \<longleftrightarrow> t = tag"
proof -
  have "CHR ''>'' \<notin> set tag" using assms(1) by (rule plain_name_not_in) simp
  then have "split_once (\<lambda>c. c = CHR ''>'') (tag @ CHR ''>'' # ys) = Some (tag, ys)" for ys
    by (intro split_once_append) auto
  moreover have "split_once (\<lambda>c. c = CHR ''>'') (t @ CHR ''>'' # r) = Some (t, r)"
    using assms(2) by (intro split_once_append) auto
  ultimately have "t @ CHR ''>'' # r = tag @ CHR ''>'' # ys \<longleftrightarrow> t = tag \<and> r = ys" for ys
    by (metis option.inject prod.inject)
  then show ?thesis by (auto simp: starts_with_iff)
qed

text \<open>One item that is not the tag searched for moves the result by its length.\<close>

lemma find_open_item:
  assumes "plain_item i" "plain_name tag" "i \<noteq> Open tag []"
  shows "find_sub (item_text i @ r) (''<'' @ tag @ ''>'')
    = map_option (\<lambda>n. length (item_text i) + n) (find_sub r (''<'' @ tag @ ''>''))"
proof (cases i)
  case (Open name body)
  have lt: "CHR ''<'' \<notin> set (name @ body @ ''>'')" and gt: "CHR ''>'' \<notin> set (name @ body)"
    using assms(1) Open plain_name_not_in [of name] by auto
  have "name @ body \<noteq> tag"
  proof
    assume eq: "name @ body = tag"
    with assms Open have "body = []"
      by (cases body) (auto simp: tag_boundary_def plain_name_def dest: name_char_not_boundary)
    with eq assms(3) Open show False by simp
  qed
  then have "\<not> starts_with (name @ body @ CHR ''>'' # r) (tag @ ''>'')"
    using starts_with_full [OF assms(2) gt, of r] by simp
  with find_tag_skip [OF lt, of r "tag @ ''>''"] Open show ?thesis
    by (cases "find_sub r (''<'' @ tag @ ''>'')") (simp_all add: starts_with_Cons)
next
  case (Close name)
  have lt: "CHR ''<'' \<notin> set (''/'' @ name @ ''>'')"
    using assms(1) Close plain_name_not_in [of name] by auto
  have "\<not> starts_with (''/'' @ name @ CHR ''>'' # r) (tag @ ''>'')"
    using assms(2) by (cases tag) (auto simp: plain_name_def starts_with_Cons)
  with find_tag_skip [OF lt, of r "tag @ ''>''"] Close show ?thesis
    by (cases "find_sub r (''<'' @ tag @ ''>'')") (simp_all add: starts_with_Cons)
next
  case (Text t)
  with assms find_tag_skip [of t r "tag @ ''>''"] show ?thesis by simp
qed

lemma find_close_item:
  assumes "plain_item i" "plain_name tag" "i \<noteq> Close tag"
  shows "find_sub (item_text i @ r) (''</'' @ tag @ ''>'')
    = map_option (\<lambda>n. length (item_text i) + n) (find_sub r (''</'' @ tag @ ''>''))"
proof (cases i)
  case (Open name body)
  have lt: "CHR ''<'' \<notin> set (name @ body @ ''>'')"
    using assms(1) Open plain_name_not_in [of name] by auto
  have "\<not> starts_with (name @ body @ CHR ''>'' # r) (''/'' @ tag @ ''>'')"
    using assms(1) Open by (cases name) (auto simp: plain_name_def starts_with_Cons)
  with find_tag_skip [OF lt, of r "''/'' @ tag @ ''>''"] Open show ?thesis
    by (cases "find_sub r (''</'' @ tag @ ''>'')") (simp_all add: starts_with_Cons)
next
  case (Close name)
  have lt: "CHR ''<'' \<notin> set (''/'' @ name @ ''>'')" and gt: "CHR ''>'' \<notin> set name"
    using assms(1) Close plain_name_not_in [of name] by auto
  have "\<not> starts_with (name @ CHR ''>'' # r) (tag @ ''>'')"
    using starts_with_full [OF assms(2) gt, of r] assms(3) Close by simp
  with find_tag_skip [OF lt, of r "''/'' @ tag @ ''>''"] Close show ?thesis
    by (cases "find_sub r (''</'' @ tag @ ''>'')") (simp_all add: starts_with_Cons)
next
  case (Text t)
  with assms find_tag_skip [of t r "''/'' @ tag @ ''>''"] show ?thesis by simp
qed

lemma find_open_doc:
  assumes "list_all plain_item is" "plain_name tag" "Open tag [] \<notin> set is"
  shows "find_sub (doc is) (''<'' @ tag @ ''>'') = None"
  using assms(1,3)
proof (induction "is")
  case (Cons i "is")
  then have "find_sub (item_text i @ doc is) (''<'' @ tag @ ''>'') = None"
    by (subst find_open_item [OF _ assms(2)]) auto
  then show ?case by simp
qed simp

lemma find_close_doc:
  assumes "list_all plain_item is" "plain_name tag" "Close tag \<notin> set is"
  shows "find_sub (doc is @ ''</'' @ tag @ ''>'' @ r) (''</'' @ tag @ ''>'') = Some (length (doc is))"
  using assms(1,3)
proof (induction "is")
  case Nil
  have "starts_with ((''</'' @ tag @ ''>'') @ r) (''</'' @ tag @ ''>'')" by (rule starts_with_append)
  then show ?case by simp
next
  case (Cons i "is")
  then have "find_sub (item_text i @ doc is @ ''</'' @ tag @ ''>'' @ r) (''</'' @ tag @ ''>'')
      = Some (length (item_text i) + length (doc is))"
    by (subst find_close_item [OF _ assms(2)]) auto
  then show ?case by simp
qed

lemma xml_values_doc:
  assumes "list_all plain_item is" "plain_name tag" "Open tag [] \<notin> set is"
  shows "xml_values tag (doc is) = []"
  using find_open_doc [OF assms] by (subst xml_values.simps) simp

text \<open>The body of the one element with a given name.\<close>

lemma element_bodies_skip:
  assumes "CHR ''<'' \<notin> set t"
  shows "element_bodies tag (t @ r) = element_bodies tag r"
proof -
  have "position (\<lambda>c. c = CHR ''<'') t = None" using assms by (auto simp: position_None)
  then have "position (\<lambda>c. c = CHR ''<'') (t @ r) = map_option (\<lambda>i. length t + i) (position (\<lambda>c. c = CHR ''<'') r)"
    by (simp add: position_append)
  then show ?thesis
    by (subst (1 2) element_bodies.simps) (cases "position (\<lambda>c. c = CHR ''<'') r"; simp)
qed

lemma element_bodies_item:
  assumes "plain_item i" "plain_name tag" "\<not> opens tag i"
  shows "element_bodies tag (item_text i @ r) = element_bodies tag r"
proof (cases i)
  case (Open name body)
  let ?after = "name @ body @ CHR ''>'' # r"
  have b: "\<not> (starts_with ?after tag \<and> tag_boundary (drop (length tag) ?after))"
    using starts_with_boundary [of name tag "body @ CHR ''>'' # r"] assms Open
    by (auto dest: tag_boundary_append)
  have lt: "CHR ''<'' \<notin> set (name @ body @ ''>'')"
    using assms(1) Open plain_name_not_in [of name] by auto
  have "element_bodies tag (item_text i @ r) = element_bodies tag ?after"
    using b Open by (subst element_bodies.simps) (simp add: Let_def)
  with element_bodies_skip [OF lt, of tag r] show ?thesis by simp
next
  case (Close name)
  have "\<not> starts_with (''/'' @ name @ CHR ''>'' # r) tag"
    using assms(2) by (cases tag) (auto simp: plain_name_def starts_with_Cons)
  then have "element_bodies tag (item_text i @ r) = element_bodies tag (''/'' @ name @ ''>'' @ r)"
    using Close by (subst element_bodies.simps) (simp add: Let_def)
  moreover have "CHR ''<'' \<notin> set (''/'' @ name @ ''>'')"
    using assms(1) Close plain_name_not_in [of name] by auto
  ultimately show ?thesis using element_bodies_skip [of "''/'' @ name @ ''>''" tag r] by simp
next
  case (Text t)
  with assms element_bodies_skip [of t tag r] show ?thesis by simp
qed

lemma element_bodies_none:
  assumes "list_all plain_item is" "plain_name tag" "list_all (\<lambda>i. \<not> opens tag i) is"
  shows "element_bodies tag (doc is @ r) = element_bodies tag r"
  using assms(1,3) by (induction "is") (auto simp: element_bodies_item [OF _ assms(2)] simp del: item_text.simps)

lemma not_self_closing:
  assumes "plain_name tag"
  shows "\<not> ends_with (trim_end (''<'' @ tag @ ''>'')) ''/>''"
proof -
  have "trim_end_rev (CHR ''>'' # t) = CHR ''>'' # t" for t
    by (intro trim_end_rev_id) (simp add: ws_len_rev_def byte_at_def ws1_def ws2_def ws3_def)
  then have "trim_end (''<'' @ tag @ ''>'') = ''<'' @ tag @ ''>''"
    by (simp add: trim_end_def)
  moreover obtain c cs where c: "rev tag = c # cs" "name_char c"
    using assms by (cases "rev tag") (auto simp: plain_name_def list_all_iff simp flip: set_rev [of tag])
  ultimately show ?thesis by (auto simp: ends_with_def starts_with_Cons)
qed

lemma element_bodies_element:
  assumes "plain_name tag" "list_all plain_item is" "Close tag \<notin> set is"
  shows "element_bodies tag (doc (Open tag [] # is @ Close tag # js)) = doc is # element_bodies tag (doc js)"
proof -
  let ?rest = "doc is @ ''</'' @ tag @ ''>'' @ doc js"
  have s: "starts_with (tag @ CHR ''>'' # ?rest) tag" by simp
  have f: "find_sub ?rest (''</'' @ tag @ ''>'') = Some (length (doc is))"
    using find_close_doc [OF assms(2,1,3), of "doc js"] by simp
  have "element_bodies tag (doc (Open tag [] # is @ Close tag # js))
      = element_bodies tag (CHR ''<'' # tag @ CHR ''>'' # ?rest)" by simp
  also have "\<dots> = take (length (doc is)) ?rest
      # element_bodies tag (drop (length (doc is) + length (''</'' @ tag @ ''>'')) ?rest)"
    using s f not_self_closing [OF assms(1)]
    by (subst element_bodies.simps) (simp add: Let_def tag_boundary_def)
  also have "\<dots> = doc is # element_bodies tag (doc js)" by (simp add: eval_nat_numeral)
  finally show ?thesis .
qed

section \<open>Attributes\<close>

fun render_attr :: "string \<times> string \<Rightarrow> string" where
  "render_attr (name, v) = '' '' @ name @ ''='' @ [CHR 0x22] @ v @ [CHR 0x22]"

definition attrs_text :: "(string \<times> string) list \<Rightarrow> string" where
  "attrs_text attrs = concat (map render_attr attrs) @ '' /''"

text \<open>Values with none of the characters that need escaping.\<close>

definition plain_value :: "string \<Rightarrow> bool" where
  "plain_value v \<longleftrightarrow>
     CHR ''<'' \<notin> set v \<and> CHR ''>'' \<notin> set v \<and> CHR ''&'' \<notin> set v \<and> CHR 0x22 \<notin> set v"

lemma replace_str_absent: "c \<notin> set v \<Longrightarrow> replace_str (c # p) rep v = v"
  by (induction v) (auto simp: starts_with_def)

lemma xml_unescape_plain: "plain_value v \<Longrightarrow> xml_unescape v = v"
  by (simp add: xml_unescape_def plain_value_def replace_str_absent)

lemma name_char_code: "name_char c \<Longrightarrow> 45 \<le> code c \<and> code c < 128"
  by (auto simp: name_char_def is_ascii_lower_def is_ascii_digit_def)

lemma name_char_ws:
  assumes "name_char c"
  shows "ws_len (c # cs) = 0"
proof -
  have "byte_at (c # cs) 0 = code c" by (simp add: byte_at_def)
  moreover have "\<not> ws1 (code c)" "\<not> ws2 (code c) b" "\<not> ws3 (code c) b d" for b d
    using name_char_code [OF assms] by (simp_all add: ws1_def ws2_def ws3_def)
  ultimately show ?thesis by (simp add: ws_len_def Let_def)
qed

lemma trim_start_plain: "plain_name name \<Longrightarrow> trim_start (name @ r) = name @ r"
  by (cases name) (auto simp: plain_name_def name_char_ws)

lemma ws_len_punct [simp]:
  "ws_len (CHR ''='' # r) = 0" "ws_len (CHR 0x22 # r) = 0" "ws_len (CHR ''/'' # r) = 0"
  by (simp_all add: ws_len_def byte_at_def ws1_def ws2_def ws3_def)

lemma split_name_plain:
  assumes "plain_name name"
  shows "split_name (name @ CHR ''='' # r) = (name, CHR ''='' # r)"
proof -
  have "\<not> attr_name_end c" if "c \<in> set name" for c
    using assms that name_char_not_boundary [of c]
    by (auto simp: attr_name_end_def plain_name_def list_all_iff)
  moreover have "attr_name_end (CHR ''='')" by (simp add: attr_name_end_def)
  ultimately show ?thesis by (simp add: split_name_takeWhile)
qed

lemma attr_loop_space: "attr_loop attr (CHR '' '' # r) = attr_loop attr r"
proof (cases "r = []")
  case True
  then show ?thesis by (simp add: attr_loop.simps split_name_def starts_char_def)
next
  case False
  then show ?thesis by (subst (1 2) attr_loop.simps) simp
qed

lemma attr_loop_attr:
  assumes "plain_name name" "CHR 0x22 \<notin> set v"
  shows "attr_loop attr (render_attr (name, v) @ r)
    = (if name = attr then Some (xml_unescape v) else attr_loop attr r)"
proof -
  let ?t = "name @ CHR ''='' # CHR 0x22 # v @ CHR 0x22 # r"
  have ne: "name \<noteq> []" using assms(1) by (simp add: plain_name_def)
  have p: "position (\<lambda>c. c = CHR 0x22) (v @ CHR 0x22 # r) = Some (length v)"
    using assms(2) by (intro position_append_hit) auto
  have sl: "\<not> starts_char (CHR ''/'') ?t" using assms(1) by (rule plain_name_hd) simp
  have "attr_loop attr (render_attr (name, v) @ r) = attr_loop attr ?t"
    by (simp add: attr_loop_space)
  also have "\<dots> = (if name = attr then Some (xml_unescape v) else attr_loop attr r)"
    using ne p sl
    by (subst attr_loop.simps)
      (simp add: trim_start_plain [OF assms(1)] split_name_plain [OF assms(1)] Let_def starts_char_def)
  finally show ?thesis .
qed

lemma attr_loop_attrs:
  assumes "list_all (\<lambda>(name, v). plain_name name \<and> plain_value v) attrs"
  shows "attr_loop attr (attrs_text attrs) = map_of attrs attr"
  using assms
proof (induction attrs)
  case Nil
  have "attr_loop attr ''/'' = None" by (simp add: attr_loop.simps starts_char_def)
  then show ?case by (simp add: attrs_text_def attr_loop_space)
next
  case (Cons a attrs)
  obtain name v where a: "a = (name, v)" by (cases a)
  have "attr_loop attr (render_attr (name, v) @ attrs_text attrs)
      = (if name = attr then Some (xml_unescape v) else attr_loop attr (attrs_text attrs))"
    using Cons.prems a by (intro attr_loop_attr) (auto simp: plain_value_def)
  with Cons a show ?case by (auto simp: attrs_text_def xml_unescape_plain)
qed

lemma split_once_ws_plain:
  assumes "list_all name_char name"
  shows "split_once_ws (name @ CHR '' '' # r) = Some (name, r)"
  using assms by (induction name) (auto simp: name_char_ws)

lemma attr_value_tag:
  assumes "plain_name tag" "attrs \<noteq> []"
    and "list_all (\<lambda>(name, v). plain_name name \<and> plain_value v) attrs"
  shows "attr_value (tag @ attrs_text attrs) attr = map_of attrs attr"
proof -
  obtain r where r: "attrs_text attrs = CHR '' '' # r"
    using assms(2) by (cases attrs) (auto simp: attrs_text_def)
  have "split_once_ws (tag @ CHR '' '' # r) = Some (tag, r)"
    using assms(1) by (intro split_once_ws_plain) (simp add: plain_name_def)
  then have "attr_value (tag @ attrs_text attrs) attr = attr_loop attr r"
    by (simp add: attr_value_def trim_start_plain [OF assms(1)] r)
  also have "\<dots> = attr_loop attr (attrs_text attrs)" by (simp add: r attr_loop_space)
  finally show ?thesis using attr_loop_attrs [OF assms(3)] by simp
qed

lemma plain_item_tag:
  assumes "plain_name tag" "list_all (\<lambda>(name, v). plain_name name \<and> plain_value v) attrs"
  shows "plain_item (Open tag (attrs_text attrs))"
proof -
  have "CHR ''<'' \<notin> set (render_attr a) \<and> CHR ''>'' \<notin> set (render_attr a)" if "a \<in> set attrs" for a
    using assms(2) that plain_name_not_in [of "fst a"]
    by (cases a) (fastforce simp: list_all_iff plain_value_def)
  then have "CHR ''<'' \<notin> set (attrs_text attrs)" "CHR ''>'' \<notin> set (attrs_text attrs)"
    by (auto simp: attrs_text_def)
  moreover have "tag_boundary (attrs_text attrs)"
    by (cases attrs) (auto simp: attrs_text_def tag_boundary_def is_ascii_whitespace_def)
  ultimately show ?thesis using assms(1) by simp
qed

section \<open>The configuration document\<close>

fun route_item :: "string \<times> string \<Rightarrow> item" where
  "route_item (d, m) = Open ''addr'' (attrs_text [(''ip'', d), (''mask'', m)])"

definition dns_items :: "string list \<Rightarrow> string option \<Rightarrow> item list" where
  "dns_items servers suffix =
     map (\<lambda>d. Open ''dns'' (attrs_text [(''ip'', d)])) servers
     @ (case suffix of None \<Rightarrow> [] | Some x \<Rightarrow> [Open ''dns'' (attrs_text [(''domain'', x)])])"

definition portal_items ::
  "string \<Rightarrow> string list \<Rightarrow> string option \<Rightarrow> (string \<times> string) list \<Rightarrow> item list" where
  "portal_items gw servers suffix routes =
     [Open ''sslvpn-tunnel'' [], Open ''assigned-addr'' (attrs_text [(''ipv4'', gw)])]
     @ dns_items servers suffix
     @ Open ''split-tunnel-info'' [] # map route_item routes
     @ [Close ''split-tunnel-info'', Close ''sslvpn-tunnel'']"

definition plain_document ::
  "string \<Rightarrow> string list \<Rightarrow> string option \<Rightarrow> (string \<times> string) list \<Rightarrow> bool" where
  "plain_document gw servers suffix routes \<longleftrightarrow>
     plain_value gw \<and> list_all plain_value servers \<and> pred_option plain_value suffix
     \<and> list_all (\<lambda>(d, m). plain_value d \<and> plain_value m) routes"

lemma plain_names [simp]:
  "plain_name ''sslvpn-tunnel''" "plain_name ''assigned-addr''" "plain_name ''ipv4''"
  "plain_name ''dns''" "plain_name ''ip''" "plain_name ''domain''" "plain_name ''addr''"
  "plain_name ''mask''" "plain_name ''split-tunnel-info''" "plain_name ''dns-server''"
  "plain_name ''dns-suffix''"
  by (simp_all add: plain_name_def name_char_def is_ascii_lower_def is_ascii_digit_def)

lemma attrs_text_not_Nil [simp]: "attrs_text attrs \<noteq> []"
  by (simp add: attrs_text_def)

lemma plain_dns_items:
  assumes "list_all plain_value servers" "pred_option plain_value suffix"
  shows "list_all plain_item (dns_items servers suffix)"
  using assms
  by (auto simp: dns_items_def list_all_iff split: option.splits simp del: plain_item.simps
      intro!: plain_item_tag)

lemma plain_route_items:
  assumes "list_all (\<lambda>(d, m). plain_value d \<and> plain_value m) routes"
  shows "list_all plain_item (map route_item routes)"
  using assms
  by (induction routes) (auto simp del: plain_item.simps intro!: plain_item_tag)

lemma plain_portal_items:
  assumes "plain_document gw servers suffix routes"
  shows "list_all plain_item (portal_items gw servers suffix routes)"
proof -
  have "plain_item (Open ''assigned-addr'' (attrs_text [(''ipv4'', gw)]))"
    using assms by (intro plain_item_tag) (auto simp: plain_document_def)
  then show ?thesis
    using assms plain_dns_items [of servers suffix] plain_route_items [of routes]
    by (simp add: portal_items_def plain_document_def tag_boundary_def)
qed

lemma opens_dns_items [simp]:
  "filter (opens ''dns'') (dns_items servers suffix) = dns_items servers suffix"
  "tag \<noteq> ''dns'' \<Longrightarrow> filter (opens tag) (dns_items servers suffix) = []"
  by (auto simp: dns_items_def filter_empty_conv split: option.splits intro!: filter_True)

lemma opens_route_items [simp]:
  "filter (opens ''addr'') (map route_item routes) = map route_item routes"
  "tag \<noteq> ''addr'' \<Longrightarrow> filter (opens tag) (map route_item routes) = []"
  by (auto simp: filter_empty_conv intro!: filter_True)

lemmas attr_value_tags =
  attr_value_tag [where tag = "''dns''", simplified]
  attr_value_tag [where tag = "''addr''", simplified]
  attr_value_tag [where tag = "''assigned-addr''", simplified]

lemma dns_attr_ip:
  assumes "list_all plain_value servers" "pred_option plain_value suffix"
  shows "List.map_filter (\<lambda>t. attr_value t ''ip'') (map open_text (dns_items servers suffix)) = servers"
proof -
  have "List.map_filter (\<lambda>t. attr_value t ''ip'') (map open_text (map (\<lambda>d. Open ''dns'' (attrs_text [(''ip'', d)])) servers)) = servers"
    using assms(1) by (induction servers) (auto simp: List.map_filter_simps attr_value_tags)
  with assms(2) show ?thesis
    by (auto simp: dns_items_def List.map_filter_def attr_value_tags split: option.splits)
qed

lemma dns_attr_domain:
  assumes "list_all plain_value servers" "pred_option plain_value suffix"
  shows "List.map_filter (\<lambda>t. attr_value t ''domain'') (map open_text (dns_items servers suffix))
    = (case suffix of None \<Rightarrow> [] | Some x \<Rightarrow> [x])"
proof -
  have "List.map_filter (\<lambda>t. attr_value t ''domain'') (map open_text (map (\<lambda>d. Open ''dns'' (attrs_text [(''ip'', d)])) servers)) = []"
    using assms(1) by (induction servers) (auto simp: List.map_filter_simps attr_value_tags)
  with assms(2) show ?thesis
    by (auto simp: dns_items_def List.map_filter_def attr_value_tags split: option.splits)
qed

lemma opens_portal_items:
  "filter (opens ''assigned-addr'') (portal_items gw servers suffix routes)
    = [Open ''assigned-addr'' (attrs_text [(''ipv4'', gw)])]"
  "filter (opens ''dns'') (portal_items gw servers suffix routes) = dns_items servers suffix"
  by (simp_all add: portal_items_def)

lemma attrs_not_open [simp]:
  "Open tag [] \<notin> set (dns_items servers suffix)" "Open tag [] \<notin> route_item ` set routes"
proof -
  have ne: "Open tag [] \<noteq> Open t (attrs_text a)" for t a
    using attrs_text_not_Nil [of a] by (metis item.inject(1))
  then show "Open tag [] \<notin> set (dns_items servers suffix)"
    unfolding dns_items_def by (cases suffix) (auto simp del: item.inject)
  have "Open tag [] \<noteq> route_item r" for r
    using ne by (cases r) (simp del: item.inject)
  then show "Open tag [] \<notin> route_item ` set routes" by blast
qed

lemma open_portal_items:
  assumes "Open tag [] \<in> set (portal_items gw servers suffix routes)"
  shows "tag = ''sslvpn-tunnel'' \<or> tag = ''split-tunnel-info''"
proof -
  have "[] \<noteq> attrs_text a" for a using attrs_text_not_Nil [of a] by metis
  with assms show ?thesis by (simp add: portal_items_def)
qed

lemma split_routes_doc:
  assumes "plain_document gw servers suffix routes"
  shows "parse_split_routes (doc (portal_items gw servers suffix routes)) g
    = map (\<lambda>(d, m). \<lparr>destination = d, mask = m, route_gateway = g\<rparr>) routes"
proof -
  let ?tag = "''split-tunnel-info''"
  let ?pre = "[Open ''sslvpn-tunnel'' [], Open ''assigned-addr'' (attrs_text [(''ipv4'', gw)])] @ dns_items servers suffix"
  have routes: "list_all plain_item (map route_item routes)"
    using assms by (intro plain_route_items) (simp add: plain_document_def)
  have pre: "list_all plain_item ?pre" using plain_portal_items [OF assms] by (simp add: portal_items_def)
  moreover have "list_all (\<lambda>i. \<not> opens ?tag i) ?pre"
    by (auto simp: list_all_iff dns_items_def split: option.splits)
  ultimately have "element_bodies ?tag (doc (portal_items gw servers suffix routes))
      = element_bodies ?tag (doc (Open ?tag [] # map route_item routes @ Close ?tag # [Close ''sslvpn-tunnel'']))"
    using element_bodies_none [of ?pre ?tag] by (simp add: portal_items_def)
  also have "\<dots> = doc (map route_item routes) # element_bodies ?tag (doc [Close ''sslvpn-tunnel''])"
    using routes by (intro element_bodies_element) auto
  also have "element_bodies ?tag (doc [Close ''sslvpn-tunnel'']) = element_bodies ?tag []"
    using element_bodies_none [of "[Close ''sslvpn-tunnel'']" ?tag "[]"] by simp
  also have "\<dots> = []" by (simp add: element_bodies.simps)
  finally have "concat (map (start_tags ''addr'') (element_bodies ?tag (doc (portal_items gw servers suffix routes))))
      = map open_text (map route_item routes)"
    using start_tags_doc [OF routes, of "''addr''"] by simp
  moreover have "List.map_filter (\<lambda>start_tag.
         case attr_value start_tag ''ip'' of
           None \<Rightarrow> None
         | Some dest \<Rightarrow>
             (case attr_value start_tag ''mask'' of
                None \<Rightarrow> None
              | Some msk \<Rightarrow> Some \<lparr>destination = dest, mask = msk, route_gateway = g\<rparr>))
       (map open_text (map route_item routes))
     = map (\<lambda>(d, m). \<lparr>destination = d, mask = m, route_gateway = g\<rparr>) routes"
    using assms by (induction routes) (auto simp: List.map_filter_simps attr_value_tags plain_document_def)
  ultimately show ?thesis by (simp add: parse_split_routes_def)
qed

text \<open>C19. The XML reader understands the gateway's document: for a document with an assigned
  address, DNS servers, an optional suffix and split routes, whose vs need no escaping,
  \<open>parse_vpn_config_xml\<close> returns exactly these vs, in order, with the assigned address as
  gateway of every route.\<close>

theorem vpn_config_round_trip:
  assumes "plain_document gw servers suffix routes"
  shows "parse_vpn_config_xml (doc (portal_items gw servers suffix routes)) =
    \<lparr>raw_xml = doc (portal_items gw servers suffix routes), gateway = Some gw, assigned_ip = Some gw,
     dns_servers = servers, dns_suffix = suffix,
     split_routes = map (\<lambda>(d, m). \<lparr>destination = d, mask = m, route_gateway = Some gw\<rparr>) routes\<rparr>"
proof -
  let ?is = "portal_items gw servers suffix routes"
  note plain = plain_portal_items [OF assms]
  have vs: "plain_value gw" "list_all plain_value servers" "pred_option plain_value suffix"
    using assms by (simp_all add: plain_document_def)
  have gw: "tag_attr_values (doc ?is) ''assigned-addr'' ''ipv4'' = [gw]"
    unfolding tag_attr_values_def start_tags_doc [OF plain plain_names(2)] opens_portal_items
    using vs by (simp add: List.map_filter_simps attr_value_tags)
  have dns: "tag_attr_values (doc ?is) ''dns'' a
      = List.map_filter (\<lambda>t. attr_value t a) (map open_text (dns_items servers suffix))" for a
    unfolding tag_attr_values_def start_tags_doc [OF plain plain_names(4)] opens_portal_items ..
  have none: "xml_values tag (doc ?is) = []"
    if "plain_name tag" "tag \<noteq> ''sslvpn-tunnel''" "tag \<noteq> ''split-tunnel-info''" for tag
    using that open_portal_items by (intro xml_values_doc [OF plain]) blast+
  have nones: "xml_values ''dns'' (doc ?is) = []" "xml_values ''dns-server'' (doc ?is) = []"
    "xml_values ''dns-suffix'' (doc ?is) = []" "xml_values ''domain'' (doc ?is) = []"
    by (rule none; simp)+
  show ?thesis
    using vs split_routes_doc [OF assms, of "Some gw"]
    unfolding parse_vpn_config_xml_def Let_def first_tag_attr_def first_xml_value_def gw dns nones
      dns_attr_ip [OF vs(2,3)] dns_attr_domain [OF vs(2,3)]
    by (cases suffix) simp_all
qed

theorem vpn_config_round_trip_witness:
  "parse_vpn_config_xml (doc (portal_items ''10.0.0.1'' [''10.0.0.53''] (Some ''corp'') [(''10.1.0.0'', ''255.255.0.0'')])) =
    \<lparr>raw_xml = doc (portal_items ''10.0.0.1'' [''10.0.0.53''] (Some ''corp'') [(''10.1.0.0'', ''255.255.0.0'')]),
     gateway = Some ''10.0.0.1'', assigned_ip = Some ''10.0.0.1'',
     dns_servers = [''10.0.0.53''], dns_suffix = Some ''corp'',
     split_routes = map (\<lambda>(d, m). \<lparr>destination = d, mask = m, route_gateway = Some ''10.0.0.1''\<rparr>)
       [(''10.1.0.0'', ''255.255.0.0'')]\<rparr>"
  by (rule vpn_config_round_trip) (simp add: plain_document_def plain_value_def)

text \<open>The order of the replacements unescapes an escaped ampersand before a quote twice: the
  text \<open>&quot;\<close>, escaped as \<open>&amp;quot;\<close>, is read as a quote.\<close>

lemma xml_unescape_twice: "xml_unescape ''&amp;quot;'' = [CHR 0x22]"
  by code_simp

text \<open>A configuration is returned only for a response with a success status.\<close>

lemma get_checked_success:
  "get_checked cfg k path stream = (Inr response, s, l) \<Longrightarrow>
   200 \<le> status_code response \<and> status_code response < 300"
  by (auto simp: get_checked_def ensure_success_def split: sum.splits prod.splits if_splits)

end
