(* ===== verification/Net_Plan.thy ===== *)
theory Net_Plan
  imports Portal
begin

text \<open>
  The plan of network changes (\<open>src/net_plan.rs\<close>): which routes, commands and DNS settings a
  tunnel needs on each platform, computed from the configuration and the document of the
  gateway, with the conversion of a dotted network mask to a prefix length.

  Shown here: the conversion accepts exactly the contiguous masks and returns their length,
  and a contiguous mask is the word with that many leading ones.
\<close>

datatype platform = Linux | MacOs

datatype network_action =
    DropWrongTunnelRoute platform ipv4_addr string
  | ProtectTunnelRoute platform ipv4_addr
  | RunCommand string "string list"
  | ReplaceDefaultRoute platform string
  | ConfigureDns platform string "string list" "string option"

type_synonym network_plan = "network_action list"

section \<open>Masks\<close>

text \<open>The two nested loops: over the bits of an octet, most significant first, and over the
  octets. The counter is a byte, as in the source.\<close>

fun mask_bits :: "u8 \<Rightarrow> nat list \<Rightarrow> u8 \<Rightarrow> bool \<Rightarrow> (u8 \<times> bool) option" where
  "mask_bits octet [] prefix saw_zero = Some (prefix, saw_zero)"
| "mask_bits octet (b # bs) prefix saw_zero =
     (if octet AND push_bit b 1 \<noteq> 0
      then if saw_zero then None else mask_bits octet bs (prefix + 1) saw_zero
      else mask_bits octet bs prefix True)"

fun mask_octets :: "string list \<Rightarrow> u8 \<Rightarrow> bool \<Rightarrow> (u8 \<times> bool) option" where
  "mask_octets [] prefix saw_zero = Some (prefix, saw_zero)"
| "mask_octets (text # texts) prefix saw_zero =
     (case parse_u8 text of
        None \<Rightarrow> None
      | Some octet \<Rightarrow>
          (case mask_bits octet (rev [0..<8]) prefix saw_zero of
             None \<Rightarrow> None
           | Some (prefix, saw_zero) \<Rightarrow> mask_octets texts prefix saw_zero))"

definition ipv4_mask_to_prefix :: "string \<Rightarrow> u8 option" where
  "ipv4_mask_to_prefix msk =
     (case mask_octets (split_on (\<lambda>c. c = CHR ''.'') msk) 0 False of
        None \<Rightarrow> None
      | Some (prefix, _) \<Rightarrow>
          if length (split_on (\<lambda>c. c = CHR ''.'') msk) = 4 then Some prefix else None)"

section \<open>Routes\<close>

definition route_action_from_parts ::
  "string \<Rightarrow> string \<Rightarrow> string option \<Rightarrow> platform \<Rightarrow> string \<Rightarrow> network_action" where
  "route_action_from_parts dest msk gw plat interface =
     (case plat of
        Linux \<Rightarrow>
          (let dest1 = (case ipv4_mask_to_prefix msk of
                          Some prefix \<Rightarrow> dest @ ''/'' @ show_word prefix
                        | None \<Rightarrow> dest @ ''/'' @ msk)
           in RunCommand ''ip''
                ([''route'', ''add'', dest1]
                 @ (case gw of Some g \<Rightarrow> [''via'', g] | None \<Rightarrow> [])
                 @ [''dev'', interface]))
      | MacOs \<Rightarrow>
          RunCommand ''/sbin/route''
            ([''add'', ''-net'', dest, ''-netmask'', msk]
             @ (case gw of Some g \<Rightarrow> [g] | None \<Rightarrow> [''-interface'', interface])))"

definition route_action :: "ipv4_route \<Rightarrow> platform \<Rightarrow> string \<Rightarrow> network_action option" where
  "route_action route plat interface =
     (case route_gateway route of
        None \<Rightarrow> None
      | Some g \<Rightarrow> Some (route_action_from_parts (destination route) (mask route) (Some g) plat interface))"

definition plan_routes ::
  "ipv4_route list \<Rightarrow> bool \<Rightarrow> string option \<Rightarrow> platform \<Rightarrow> string \<Rightarrow> network_action list" where
  "plan_routes routes half_internet gw plat interface =
     (if routes \<noteq> [] then List.map_filter (\<lambda>r. route_action r plat interface) routes
      else if half_internet then
        [route_action_from_parts ''0.0.0.0'' ''128.0.0.0'' None plat interface,
         route_action_from_parts ''128.0.0.0'' ''128.0.0.0'' None plat interface]
      else [ReplaceDefaultRoute plat interface])"

definition plan_network_actions ::
  "config \<Rightarrow> vpn_config_xml \<Rightarrow> platform \<Rightarrow> string \<Rightarrow> ipv4_addr option \<Rightarrow> network_plan" where
  "plan_network_actions cfg vpn plat interface tunnel_endpoint =
     (if set_routes cfg then
        (case tunnel_endpoint of
           Some endpoint \<Rightarrow>
             [DropWrongTunnelRoute plat endpoint interface, ProtectTunnelRoute plat endpoint]
         | None \<Rightarrow> [])
        @ plan_routes (split_routes vpn) (half_internet_routes cfg) (gateway vpn) plat interface
      else [])
     @ (if set_dns cfg \<and> (dns_servers vpn \<noteq> [] \<or> dns_suffix vpn \<noteq> None)
        then [ConfigureDns plat interface (dns_servers vpn) (dns_suffix vpn)] else [])"

section \<open>Masks as words\<close>

text \<open>The reference: scan a list of bits for ones followed by zeros.\<close>

fun scan_ones :: "bool list \<Rightarrow> nat \<Rightarrow> bool \<Rightarrow> (nat \<times> bool) option" where
  "scan_ones [] n z = Some (n, z)"
| "scan_ones (b # bs) n z = (if b then if z then None else scan_ones bs (Suc n) z else scan_ones bs n True)"

lemma scan_ones_append:
  "scan_ones (xs @ ys) n z = (case scan_ones xs n z of None \<Rightarrow> None | Some (m, z') \<Rightarrow> scan_ones ys m z')"
  by (induction xs arbitrary: n z) auto

lemma scan_ones_zero: "scan_ones bs n True = (if True \<in> set bs then None else Some (n, True))"
  by (induction bs) auto

lemma scan_ones_Some:
  "(\<exists>z. scan_ones bs n False = Some (m, z)) \<longleftrightarrow>
   (\<exists>k. k \<le> length bs \<and> m = n + k \<and> bs = replicate k True @ replicate (length bs - k) False)"
proof (induction bs arbitrary: n)
  case Nil
  then show ?case by auto
next
  case (Cons b bs)
  show ?case
  proof (cases b)
    case True
    have "(\<exists>k. k \<le> length (b # bs) \<and> m = n + k \<and> b # bs = replicate k True @ replicate (length (b # bs) - k) False)
        \<longleftrightarrow> (\<exists>k. k \<le> length bs \<and> m = Suc n + k \<and> bs = replicate k True @ replicate (length bs - k) False)"
      (is "(\<exists>k. ?P k) \<longleftrightarrow> (\<exists>k. ?Q k)")
    proof
      assume "\<exists>k. ?P k"
      then obtain k where k: "?P k" by blast
      with True obtain j where "k = Suc j" by (cases k) auto
      with k have "?Q j" by simp
      then show "\<exists>k. ?Q k" by blast
    next
      assume "\<exists>k. ?Q k"
      then obtain k where "?Q k" by blast
      with True have "?P (Suc k)" by simp
      then show "\<exists>k. ?P k" by blast
    qed
    with True Cons.IH [of "Suc n"] show ?thesis by simp
  next
    case False
    have "True \<notin> set bs \<longleftrightarrow> bs = replicate (length bs) False"
      by (metis (full_types) in_set_replicate replicate_length_same)
    moreover have "(\<exists>k. k \<le> length (b # bs) \<and> m = n + k \<and> b # bs = replicate k True @ replicate (length (b # bs) - k) False)
        \<longleftrightarrow> m = n \<and> bs = replicate (length bs) False" (is "(\<exists>k. ?P k) \<longleftrightarrow> ?R")
    proof
      assume "\<exists>k. ?P k"
      then obtain k where k: "?P k" by blast
      with False have "k = 0" by (cases k) auto
      with k show ?R by simp
    next
      assume ?R
      with False have "?P 0" by simp
      then show "\<exists>k. ?P k" by blast
    qed
    ultimately show ?thesis using False by (auto simp: scan_ones_zero)
  qed
qed

lemma scan_ones_bound: "scan_ones bs n z = Some (m, z') \<Longrightarrow> m \<le> n + length bs"
  by (induction bs arbitrary: n z) (fastforce split: if_splits)+

lemma and_push_bit_1: "(w :: u8) AND 2 ^ b = 0 \<longleftrightarrow> \<not> bit w b"
  by (simp add: bit_iff_and_push_bit_not_eq_0)

lemma mask_bits_scan:
  "mask_bits octet bs (of_nat n) z
    = map_option (\<lambda>(m, z). (of_nat m, z)) (scan_ones (map (bit octet) bs) n z)"
proof (induction bs arbitrary: n z)
  case (Cons b bs)
  have "(of_nat n :: u8) + 1 = of_nat (Suc n)" by simp
  with Cons show ?case by (simp add: and_push_bit_1 del: of_nat_Suc)
qed simp

definition octet_bits :: "u8 \<Rightarrow> bool list" where
  "octet_bits w = map (bit w) (rev [0..<8])"

lemma mask_octets_scan:
  "mask_octets (map show_word ws) (of_nat n) z
    = map_option (\<lambda>(m, z). (of_nat m, z)) (scan_ones (concat (map octet_bits ws)) n z)"
proof (induction ws arbitrary: n z)
  case (Cons w ws)
  have "parse_u8 (show_word w) = Some w"
    using unat_u8_less [of w] by (simp add: parse_u8_def show_word_def parse_unsigned_show_nat)
  with Cons show ?case
    by (simp add: mask_bits_scan scan_ones_append octet_bits_def option.map_comp
        split: option.splits del: upt_Suc upt_rec_numeral)
qed simp

definition word_bits :: "u32 \<Rightarrow> bool list" where
  "word_bits w = map (bit w) (rev [0..<32])"

lemma bits_of_octets: "concat (map octet_bits (octets a)) = word_bits (ipv4_to_u32 a)"
proof -
  have eight: "rev [0..<8] = [7, 6, 5, 4, 3, 2, 1, 0 :: nat]" by code_simp
  have all: "rev [0..<32] = [31, 30, 29, 28, 27, 26, 25, 24, 23, 22, 21, 20, 19, 18, 17, 16,
      15, 14, 13, 12, 11, 10, 9, 8, 7, 6, 5, 4, 3, 2, 1, 0 :: nat]" by code_simp
  show ?thesis
    unfolding octet_bits_def word_bits_def eight all by (cases a) (simp add: bit_simps)
qed

lemma split_show_ipv4:
  "split_on (\<lambda>c. c = CHR ''.'') (show_ipv4 a) = map show_word (octets a)"
proof (cases a)
  case (Ipv4Addr w x y z)
  have nd: "\<forall>c \<in> set (show_word (v :: u8)). c \<noteq> CHR ''.''" for v
    by (auto simp: show_word_def is_ascii_digit_def dest: show_nat_digits)
  have "split_on (\<lambda>c. c = CHR ''.'') (show_word v @ CHR ''.'' # r)
      = show_word v # split_on (\<lambda>c. c = CHR ''.'') r" for v :: u8 and r
    using nd by (intro split_on_append) auto
  with Ipv4Addr nd show ?thesis by (simp add: split_on_no_sep)
qed

lemma mask_to_prefix_bits:
  "ipv4_mask_to_prefix (show_ipv4 a) = Some p \<longleftrightarrow>
   unat p \<le> 32 \<and> word_bits (ipv4_to_u32 a) = replicate (unat p) True @ replicate (32 - unat p) False"
proof -
  let ?bs = "word_bits (ipv4_to_u32 a)"
  have len: "length ?bs = 32" by (simp add: word_bits_def)
  have eq: "ipv4_mask_to_prefix (show_ipv4 a) = map_option (\<lambda>(m, z). of_nat m) (scan_ones ?bs 0 False)"
    using mask_octets_scan [of "octets a" 0 False]
    by (simp add: ipv4_mask_to_prefix_def split_show_ipv4 bits_of_octets split: option.splits)
  have "ipv4_mask_to_prefix (show_ipv4 a) = Some p \<longleftrightarrow> (\<exists>m z. scan_ones ?bs 0 False = Some (m, z) \<and> p = of_nat m)"
    unfolding eq by auto
  also have "\<dots> \<longleftrightarrow> (\<exists>m. (\<exists>z. scan_ones ?bs 0 False = Some (m, z)) \<and> p = of_nat m)" by blast
  also have "\<dots> \<longleftrightarrow> (\<exists>k. k \<le> 32 \<and> ?bs = replicate k True @ replicate (32 - k) False \<and> p = of_nat k)"
    unfolding scan_ones_Some len by auto
  also have "\<dots> \<longleftrightarrow> unat p \<le> 32 \<and> ?bs = replicate (unat p) True @ replicate (32 - unat p) False"
  proof
    assume "\<exists>k. k \<le> 32 \<and> ?bs = replicate k True @ replicate (32 - k) False \<and> p = of_nat k"
    then obtain k where k: "k \<le> 32" "?bs = replicate k True @ replicate (32 - k) False" "p = of_nat k" by blast
    then have "unat p = k" by (simp add: unat_of_nat take_bit_nat_eq_self)
    with k show "unat p \<le> 32 \<and> ?bs = replicate (unat p) True @ replicate (32 - unat p) False" by simp
  next
    assume "unat p \<le> 32 \<and> ?bs = replicate (unat p) True @ replicate (32 - unat p) False"
    then show "\<exists>k. k \<le> 32 \<and> ?bs = replicate k True @ replicate (32 - k) False \<and> p = of_nat k"
      by (intro exI [of _ "unat p"]) simp
  qed
  finally show ?thesis .
qed

end
