(* ===== verification/Route_Table.thy ===== *)
theory Route_Table
  imports Net_Plan
begin

text \<open>
  The route table of proxy mode (\<open>src/proxy/route_table.rs\<close>): the networks that the tunnel
  serves, and whether an address belongs to one of them. The file has its own conversion of
  a mask to a prefix length.

  Shown here: the conversion of a mask is exact and agrees with the one of the route plan,
  membership is agreement on the leading bits, and which addresses a table routes.
\<close>

definition prefix_mask :: "u8 \<Rightarrow> u32" where
  "prefix_mask prefix = (if prefix = 0 then 0 else push_bit (unat (32 - prefix)) (- 1))"

text \<open>As in the route plan, with a counter of octets in the loop.\<close>

fun counted_octets :: "string list \<Rightarrow> nat \<Rightarrow> u8 \<Rightarrow> bool \<Rightarrow> (nat \<times> u8) option" where
  "counted_octets [] n prefix saw_zero = Some (n, prefix)"
| "counted_octets (text # texts) n prefix saw_zero =
     (case parse_u8 text of
        None \<Rightarrow> None
      | Some octet \<Rightarrow>
          (case mask_bits octet (rev [0..<8]) prefix saw_zero of
             None \<Rightarrow> None
           | Some (prefix, saw_zero) \<Rightarrow> counted_octets texts (n + 1) prefix saw_zero))"

definition table_mask_to_prefix :: "string \<Rightarrow> u8 option" where
  "table_mask_to_prefix msk =
     (case counted_octets (split_on (\<lambda>c. c = CHR ''.'') msk) 0 0 False of
        None \<Rightarrow> None
      | Some (n, prefix) \<Rightarrow> if n = 4 then Some prefix else None)"

record ipv4_net =
  network :: ipv4_addr
  prefix :: u8

definition ipv4_net_new :: "ipv4_addr \<Rightarrow> u8 \<Rightarrow> ipv4_net" where
  "ipv4_net_new net p =
     (let p = min p 32
      in \<lparr>network = u32_to_ipv4 (ipv4_to_u32 net AND prefix_mask p), prefix = p\<rparr>)"

definition from_addr_and_mask :: "string \<Rightarrow> string \<Rightarrow> ipv4_net option" where
  "from_addr_and_mask addr msk =
     (case parse_ipv4 addr of
        None \<Rightarrow> None
      | Some a \<Rightarrow>
          (case table_mask_to_prefix msk of
             None \<Rightarrow> None
           | Some p \<Rightarrow> Some (ipv4_net_new a p)))"

definition net_contains :: "ipv4_net \<Rightarrow> ipv4_addr \<Rightarrow> bool" where
  "net_contains net addr \<longleftrightarrow>
     ipv4_to_u32 addr AND prefix_mask (prefix net) = ipv4_to_u32 (network net)"

record proxy_route_table =
  routes :: "ipv4_net list"

definition from_config :: "config \<Rightarrow> vpn_config_xml \<Rightarrow> proxy_route_table" where
  "from_config cfg vpn =
     (if \<not> set_routes cfg then \<lparr>routes = []\<rparr>
      else if split_routes vpn \<noteq> [] then
        \<lparr>routes = List.map_filter (\<lambda>r. from_addr_and_mask (destination r) (mask r)) (split_routes vpn)\<rparr>
      else if half_internet_routes cfg then
        \<lparr>routes = [ipv4_net_new (Ipv4Addr 0 0 0 0) 1, ipv4_net_new (Ipv4Addr 128 0 0 0) 1]\<rparr>
      else \<lparr>routes = [ipv4_net_new (Ipv4Addr 0 0 0 0) 0]\<rparr>)"

definition table_len :: "proxy_route_table \<Rightarrow> nat" where
  "table_len t = length (routes t)"

definition table_is_empty :: "proxy_route_table \<Rightarrow> bool" where
  "table_is_empty t \<longleftrightarrow> routes t = []"

definition can_route :: "proxy_route_table \<Rightarrow> ipv4_addr \<Rightarrow> bool" where
  "can_route t dest \<longleftrightarrow> list_ex (\<lambda>route. net_contains route dest) (routes t)"

section \<open>Masks\<close>

lemma counted_octets_mask:
  "counted_octets texts n p z = map_option (\<lambda>(p, z). (n + length texts, p)) (mask_octets texts p z)"
  by (induction texts arbitrary: n p z) (auto split: option.splits)

lemma table_mask_agrees: "table_mask_to_prefix msk = ipv4_mask_to_prefix msk"
  by (auto simp: table_mask_to_prefix_def ipv4_mask_to_prefix_def counted_octets_mask
      split: option.splits)

lemma prefix_le_unat: "p \<le> (32 :: u8) \<longleftrightarrow> unat p \<le> 32"
  by (simp add: word_le_nat_alt)

lemma unat_32_minus: "unat p \<le> 32 \<Longrightarrow> unat (32 - p :: u8) = 32 - unat p"
  by (subst unat_sub) (simp_all add: prefix_le_unat)

lemma bit_prefix_mask:
  assumes "unat p \<le> 32" "n < 32"
  shows "bit (prefix_mask p) n \<longleftrightarrow> 32 \<le> n + unat p"
proof (cases "p = 0")
  case True
  with assms show ?thesis by (simp add: prefix_mask_def)
next
  case False
  then have "bit (prefix_mask p) n \<longleftrightarrow> 32 - unat p \<le> n"
    using assms by (auto simp: prefix_mask_def unat_32_minus bit_simps not_less)
  then show ?thesis by linarith
qed

lemma word_bits_prefix:
  assumes "unat p \<le> 32"
  shows "word_bits w = replicate (unat p) True @ replicate (32 - unat p) False \<longleftrightarrow> w = prefix_mask p"
proof -
  let ?rhs = "replicate (unat p) True @ replicate (32 - unat p) False"
  have nth: "word_bits w ! i = bit w (31 - i)" if "i < 32" for i
    using that by (simp add: word_bits_def rev_nth del: upt_rec_numeral)
  have rep: "?rhs ! i \<longleftrightarrow> i < unat p" if "i < 32" for i
    using that by (simp add: nth_append)
  have "word_bits w = ?rhs \<longleftrightarrow> (\<forall>i < 32. bit w (31 - i) \<longleftrightarrow> i < unat p)"
    using assms nth rep by (auto simp: list_eq_iff_nth_eq word_bits_def simp del: upt_rec_numeral)
  also have "\<dots> \<longleftrightarrow> (\<forall>n < 32. bit w n \<longleftrightarrow> bit (prefix_mask p) n)"
  proof (rule iffI; intro allI impI)
    fix n :: nat assume h: "\<forall>i < 32. bit w (31 - i) \<longleftrightarrow> i < unat p" and n: "n < 32"
    then have "bit w (31 - (31 - n)) \<longleftrightarrow> 31 - n < unat p" by (intro h [rule_format]) simp
    with n assms show "bit w n \<longleftrightarrow> bit (prefix_mask p) n" by (auto simp: bit_prefix_mask)
  next
    fix i :: nat assume h: "\<forall>n < 32. bit w n \<longleftrightarrow> bit (prefix_mask p) n" and i: "i < 32"
    then have "bit w (31 - i) \<longleftrightarrow> bit (prefix_mask p) (31 - i)" by simp
    with i assms show "bit w (31 - i) \<longleftrightarrow> i < unat p" by (auto simp: bit_prefix_mask)
  qed
  also have "\<dots> \<longleftrightarrow> w = prefix_mask p" by (auto intro: bit_word_eqI)
  finally show ?thesis .
qed

text \<open>C30. The conversion of a mask is exact: a dotted mask converts to the prefix length \<open>p\<close>
  if and only if \<open>p\<close> is at most 32 and the mask is the word with \<open>p\<close> leading ones, in both
  copies of the function, which agree on every string.\<close>

theorem mask_to_prefix_exact:
  "(ipv4_mask_to_prefix (show_ipv4 a) = Some p \<longleftrightarrow> p \<le> 32 \<and> ipv4_to_u32 a = prefix_mask p)
   \<and> table_mask_to_prefix msk = ipv4_mask_to_prefix msk"
  using mask_to_prefix_bits [of a p] word_bits_prefix [of p "ipv4_to_u32 a"]
  by (auto simp: prefix_le_unat table_mask_agrees)

section \<open>Membership\<close>

lemma and_prefix_mask_eq:
  assumes "unat p \<le> 32"
  shows "v AND prefix_mask p = w AND prefix_mask p \<longleftrightarrow> drop_bit (32 - unat p) v = drop_bit (32 - unat p) w"
proof -
  have "v AND prefix_mask p = w AND prefix_mask p \<longleftrightarrow> (\<forall>n < 32. 32 \<le> n + unat p \<longrightarrow> bit v n = bit w n)"
    using assms by (auto simp: bit_eq_iff bit_simps bit_prefix_mask)
  also have "\<dots> \<longleftrightarrow> (\<forall>n < 32. bit (drop_bit (32 - unat p) v) n = bit (drop_bit (32 - unat p) w) n)"
  proof (rule iffI; intro allI impI)
    fix n :: nat assume h: "\<forall>n < 32. 32 \<le> n + unat p \<longrightarrow> bit v n = bit w n" and "n < 32"
    show "bit (drop_bit (32 - unat p) v) n = bit (drop_bit (32 - unat p) w) n"
      using h [rule_format, of "32 - unat p + n"] assms
      by (cases "32 - unat p + n < 32") (auto simp: bit_drop_bit_eq dest: bit_imp_le_length)
  next
    fix n :: nat assume h: "\<forall>n < 32. bit (drop_bit (32 - unat p) v) n = bit (drop_bit (32 - unat p) w) n"
      and n: "n < 32" "32 \<le> n + unat p"
    then have "bit (drop_bit (32 - unat p) v) (n - (32 - unat p)) = bit (drop_bit (32 - unat p) w) (n - (32 - unat p))"
      by (intro h [rule_format]) simp
    with n assms show "bit v n = bit w n" by (simp add: bit_drop_bit_eq)
  qed
  also have "\<dots> \<longleftrightarrow> drop_bit (32 - unat p) v = drop_bit (32 - unat p) w" by (auto intro: bit_word_eqI)
  finally show ?thesis .
qed

definition same_network :: "nat \<Rightarrow> ipv4_addr \<Rightarrow> ipv4_addr \<Rightarrow> bool" where
  "same_network p a b \<longleftrightarrow> drop_bit (32 - p) (ipv4_to_u32 a) = drop_bit (32 - p) (ipv4_to_u32 b)"

lemma net_contains_new:
  "net_contains (ipv4_net_new net p) addr \<longleftrightarrow> same_network (min (unat p) 32) addr net"
proof -
  have u: "unat (min p 32) = min (unat p) 32"
    by (auto simp: min_def prefix_le_unat)
  then have "unat (min p 32) \<le> 32" by simp
  from and_prefix_mask_eq [OF this] show ?thesis
    by (simp add: net_contains_def ipv4_net_new_def Let_def codec_simps same_network_def u)
qed

lemma same_network_0 [simp]: "same_network 0 a b"
  unfolding same_network_def
  by (auto intro!: bit_word_eqI simp: bit_drop_bit_eq dest: bit_imp_le_length)

lemma halves_cover: "same_network 1 a (Ipv4Addr 0 0 0 0) \<or> same_network 1 a (Ipv4Addr 128 0 0 0)"
proof -
  let ?w = "ipv4_to_u32 a"
  have high: "drop_bit 31 ?w = (if bit ?w 31 then 1 else 0)"
  proof (rule bit_word_eqI)
    fix n :: nat
    show "bit (drop_bit 31 ?w) n = bit (if bit ?w 31 then 1 else (0 :: u32)) n"
      by (cases n) (auto simp: bit_drop_bit_eq bit_1_iff dest: bit_imp_le_length)
  qed
  have "drop_bit 31 (ipv4_to_u32 (Ipv4Addr 0 0 0 0)) = 0" "drop_bit 31 (ipv4_to_u32 (Ipv4Addr 128 0 0 0)) = 1"
    by simp_all
  with high show ?thesis by (simp add: same_network_def)
qed

lemma from_addr_and_mask_Some:
  "from_addr_and_mask addr msk = Some n \<longleftrightarrow>
   (\<exists>net p. parse_ipv4 addr = Some net \<and> ipv4_mask_to_prefix msk = Some p \<and> n = ipv4_net_new net p)"
  by (auto simp: from_addr_and_mask_def table_mask_agrees split: option.splits)

text \<open>The address \<open>a\<close> belongs to the network that a split route names.\<close>

definition route_covers :: "ipv4_route \<Rightarrow> ipv4_addr \<Rightarrow> bool" where
  "route_covers r a \<longleftrightarrow>
     (\<exists>net p. parse_ipv4 (destination r) = Some net \<and> ipv4_mask_to_prefix (mask r) = Some p
            \<and> same_network (min (unat p) 32) a net)"

lemma list_ex_map_filter:
  "list_ex P (List.map_filter f xs) \<longleftrightarrow> list_ex (\<lambda>x. \<exists>y. f x = Some y \<and> P y) xs"
  by (induction xs) (auto simp: List.map_filter_simps split: option.splits)

lemma mask_route_covers:
  "route_covers r a \<longleftrightarrow> (\<exists>n. from_addr_and_mask (destination r) (mask r) = Some n \<and> net_contains n a)"
  by (auto simp: route_covers_def from_addr_and_mask_Some net_contains_new)

lemma can_route_split:
  "set_routes cfg \<Longrightarrow> split_routes vpn \<noteq> [] \<Longrightarrow>
   can_route (from_config cfg vpn) a \<longleftrightarrow> list_ex (\<lambda>r. route_covers r a) (split_routes vpn)"
  by (simp add: can_route_def from_config_def list_ex_map_filter mask_route_covers)

lemma can_route_iff:
  "can_route (from_config cfg vpn) a \<longleftrightarrow>
     set_routes cfg \<and> (split_routes vpn = [] \<or> list_ex (\<lambda>r. route_covers r a) (split_routes vpn))"
proof (cases "set_routes cfg \<and> split_routes vpn \<noteq> []")
  case True
  then show ?thesis using can_route_split [of cfg vpn a] by simp
next
  case False
  then show ?thesis
    using halves_cover [of a]
    by (auto simp: can_route_def from_config_def net_contains_new)
qed

text \<open>C18. Proxy mode routes exactly what the configuration asks for: nothing when routes are
  switched off, the addresses that agree with some split route on its leading bits when
  there are split routes, and otherwise every address, with or without the option of two
  half-Internet routes.\<close>

theorem can_route_exact:
  "can_route (from_config cfg vpn) a \<longleftrightarrow>
     set_routes cfg \<and> (split_routes vpn = [] \<or> list_ex (\<lambda>r. route_covers r a) (split_routes vpn))"
  by (rule can_route_iff)

end
