(* ===== verification/Op_Monad.thy ===== *)
theory Op_Monad
  imports Errors
begin

text \<open>
  Operations on a state that may fail: functions from a state to a result and the next
  state, used for code that changes a machine, a connection or a session. The state is kept
  on failure, as the effects of Rust code before a \<open>?\<close> are. \<open>bind_op\<close> is the sequence of two
  steps with \<open>?\<close> between them, \<open>with_result\<close> hands a result of either kind to the next step,
  and \<open>io_op\<close> lifts an operation of the standard library.
\<close>

type_synonym ('s, 'a) op = "'s \<Rightarrow> 'a res \<times> 's"

definition return_op :: "'a \<Rightarrow> ('s, 'a) op" where
  "return_op x s = (Inr x, s)"

definition fail_op :: "error \<Rightarrow> ('s, 'a) op" where
  "fail_op e s = (Inl e, s)"

definition bind_op :: "('s, 'a) op \<Rightarrow> ('a \<Rightarrow> ('s, 'b) op) \<Rightarrow> ('s, 'b) op" where
  "bind_op m f s = (case m s of (Inl e, s1) \<Rightarrow> (Inl e, s1) | (Inr x, s1) \<Rightarrow> f x s1)"

definition with_result :: "('s, 'a) op \<Rightarrow> ('a res \<Rightarrow> ('s, 'b) op) \<Rightarrow> ('s, 'b) op" where
  "with_result m f s = (case m s of (r, s1) \<Rightarrow> f r s1)"

definition io_op :: "('s \<Rightarrow> (io_error + 'a) \<times> 's) \<Rightarrow> ('s, 'a) op" where
  "io_op m s = (case m s of (Inl e, s1) \<Rightarrow> (Inl (Io e), s1) | (Inr x, s1) \<Rightarrow> (Inr x, s1))"

lemma bind_op_Inr [simp]:
  "bind_op m f s = (Inr y, s') \<longleftrightarrow> (\<exists>x s1. m s = (Inr x, s1) \<and> f x s1 = (Inr y, s'))"
  by (auto simp: bind_op_def split: prod.splits sum.splits)

lemma bind_op_Inl:
  "bind_op m f s = (Inl e, s') \<longleftrightarrow> m s = (Inl e, s') \<or> (\<exists>x s1. m s = (Inr x, s1) \<and> f x s1 = (Inl e, s'))"
  by (auto simp: bind_op_def split: prod.splits sum.splits)

lemma return_op_eq [simp]: "return_op x s = (r, s') \<longleftrightarrow> r = Inr x \<and> s' = s"
  by (auto simp: return_op_def)

lemma fail_op_eq [simp]: "fail_op e s = (r, s') \<longleftrightarrow> r = Inl e \<and> s' = s"
  by (auto simp: fail_op_def)

lemma io_op_Inr [simp]: "io_op m s = (Inr x, s') \<longleftrightarrow> m s = (Inr x, s')"
  by (auto simp: io_op_def split: prod.splits sum.splits)

lemma io_op_Inl: "io_op m s = (Inl e, s') \<longleftrightarrow> (\<exists>e'. e = Io e' \<and> m s = (Inl e', s'))"
  by (auto simp: io_op_def split: prod.splits sum.splits)

lemma with_result_return [simp]: "with_result m return_op s = (Inr r, s') \<longleftrightarrow> m s = (r, s')"
  by (auto simp: with_result_def split: prod.splits)

lemma with_result_not_Inl [simp]: "with_result m return_op s \<noteq> (Inl e, s')"
  by (auto simp: with_result_def split: prod.splits)

section \<open>Operations that may panic\<close>

text \<open>Where a step slices a string at a computed offset, the whole operation may panic; then no
  result and no state is left.\<close>

type_synonym ('s, 'a) xop = "'s \<Rightarrow> ('a res \<times> 's) exec"

definition lift_op :: "('s, 'a) op \<Rightarrow> ('s, 'a) xop" where
  "lift_op m s = Return (m s)"

definition bind_xop :: "('s, 'a) xop \<Rightarrow> ('a \<Rightarrow> ('s, 'b) xop) \<Rightarrow> ('s, 'b) xop" where
  "bind_xop m f s = bind_exec (m s) (\<lambda>(r, s1).
     case r of Inl e \<Rightarrow> Return (Inl e, s1) | Inr x \<Rightarrow> f x s1)"

definition pure_xop :: "('a res) exec \<Rightarrow> ('s, 'a) xop" where
  "pure_xop m s = bind_exec m (\<lambda>r. Return (r, s))"

lemma lift_op_eq [simp]: "lift_op m s = Return x \<longleftrightarrow> m s = x"
  by (simp add: lift_op_def)

lemma bind_xop_Inr [simp]:
  "bind_xop m f s = Return (Inr y, s') \<longleftrightarrow>
   (\<exists>x s1. m s = Return (Inr x, s1) \<and> f x s1 = Return (Inr y, s'))"
  unfolding bind_xop_def by (cases "m s") (auto split: sum.splits)

lemma pure_xop_Inr [simp]: "pure_xop m s = Return (r, s') \<longleftrightarrow> m = Return r \<and> s' = s"
  by (auto simp: pure_xop_def)

end
