(* ===== verification/Net_Apply.thy ===== *)
theory Net_Apply
  imports Net_Plan Op_Monad
begin

text \<open>
  Applying a network plan and rolling it back (\<open>src/net_apply.rs\<close>). The operating system is
  an argument: a record of the operations the code calls (running a program, reading and
  writing a file, the tests for a file, the search path, a warning to the log) on a machine
  state of any type. An operation of the program maps a machine state to a result and the
  next machine state.

  Shown here: undoing the change of the resolver file restores it; a rollback undoes every
  applied action, last first, and reports the first error; on a machine on which deleting a
  route undoes adding it, a rollback restores the machine; and what a plan that fails leaves
  behind, also when it replaces the default route.
\<close>

section \<open>The operating system\<close>

record cmd_output =
  out_success :: bool
  out_status :: string
  out_stdout :: bytes
  out_stderr :: bytes

record 's os_ops =
  os_exec :: "string \<Rightarrow> string list \<Rightarrow> 's \<Rightarrow> (io_error + cmd_output) \<times> 's"
  os_exec_stdin :: "string \<Rightarrow> string list \<Rightarrow> bytes \<Rightarrow> 's \<Rightarrow> (io_error + cmd_output) \<times> 's"
  os_read :: "string \<Rightarrow> 's \<Rightarrow> (io_error + bytes) \<times> 's"
  os_write :: "string \<Rightarrow> bytes \<Rightarrow> 's \<Rightarrow> (io_error + unit) \<times> 's"
  os_exists :: "string \<Rightarrow> 's \<Rightarrow> bool"
  os_is_file :: "string \<Rightarrow> 's \<Rightarrow> bool"
  os_path :: "string option"
  os_warn :: "string \<Rightarrow> 's \<Rightarrow> 's"

definition warn_op :: "'s os_ops \<Rightarrow> string \<Rightarrow> ('s, unit) op" where
  "warn_op os text s = (Inr (), os_warn os text s)"

section \<open>Commands\<close>

definition RESOLV_CONF_PATH :: string where "RESOLV_CONF_PATH = ''/etc/resolv.conf''"

definition RESOLVCONF_CANDIDATES :: "string list" where
  "RESOLVCONF_CANDIDATES = [''/sbin/resolvconf'', ''/usr/sbin/resolvconf'', ''resolvconf'']"

definition SCUTIL_CANDIDATES :: "string list" where
  "SCUTIL_CANDIDATES = [''/usr/sbin/scutil'', ''/usr/bin/scutil'', ''scutil'']"

record apply_options =
  opt_use_resolvconf :: bool

definition apply_options_default :: apply_options where
  "apply_options_default = \<lparr>opt_use_resolvconf = True\<rparr>"

datatype applied_network_action =
    ProtectedTunnelRoute string "string list"
  | AppliedCommand string "string list"
  | DefaultRoute platform string "(string \<times> string list) option"
  | Resolvconf string string
  | MacOsScutilDns string string
  | ResolvConfFile "string list"

type_synonym applied_network_plan = "applied_network_action list"

definition command_error :: "string \<Rightarrow> string list \<Rightarrow> bytes \<Rightarrow> bytes \<Rightarrow> string \<Rightarrow> error" where
  "command_error program args stdout stderr status =
     (let err = trim (from_utf8_lossy stderr);
          out = trim (from_utf8_lossy stdout);
          detail = (if err \<noteq> [] then err else if out \<noteq> [] then out else status)
      in Network (''command failed: '' @ program @ '' '' @ join '' '' args @ '': '' @ detail))"

definition check_output :: "string \<Rightarrow> string list \<Rightarrow> cmd_output \<Rightarrow> ('s, unit) op" where
  "check_output program args output =
     (if out_success output then return_op ()
      else fail_op (command_error program args (out_stdout output) (out_stderr output) (out_status output)))"

definition run_command :: "'s os_ops \<Rightarrow> string \<Rightarrow> string list \<Rightarrow> ('s, unit) op" where
  "run_command os program args =
     bind_op (io_op (os_exec os program args)) (check_output program args)"

definition run_command_with_stdin :: "'s os_ops \<Rightarrow> string \<Rightarrow> string list \<Rightarrow> bytes \<Rightarrow> ('s, unit) op" where
  "run_command_with_stdin os program args stdin =
     bind_op (io_op (os_exec_stdin os program args stdin)) (check_output program args)"

definition command_output_mentions_existing_route :: "bytes \<Rightarrow> bytes \<Rightarrow> bool" where
  "command_output_mentions_existing_route stdout stderr \<longleftrightarrow>
     (let text = to_ascii_lowercase (from_utf8_lossy stdout) @ to_ascii_lowercase (from_utf8_lossy stderr)
      in contains text ''file exists'' \<or> contains text ''route already exists'')"

definition run_command_ignore_existing_route :: "'s os_ops \<Rightarrow> string \<Rightarrow> string list \<Rightarrow> ('s, bool) op" where
  "run_command_ignore_existing_route os program args =
     bind_op (io_op (os_exec os program args)) (\<lambda>output.
       if out_success output then return_op True
       else if command_output_mentions_existing_route (out_stdout output) (out_stderr output) then
         bind_op (warn_op os (''route already exists, leaving it unchanged: '' @ program @ '' '' @ join '' '' args))
           (\<lambda>_. return_op False)
       else fail_op (command_error program args (out_stdout output) (out_stderr output) (out_status output)))"

definition rollback_args_for_command :: "string \<Rightarrow> string list \<Rightarrow> string list option" where
  "rollback_args_for_command program args =
     (if program = ''ip'' \<and> 3 \<le> length args \<and> args ! 0 = ''route'' \<and> args ! 1 = ''add''
      then Some (args[1 := ''del''])
      else if ends_with program ''route'' \<and> args \<noteq> [] \<and> args ! 0 = ''add''
      then Some (args[0 := ''delete''])
      else None)"

section \<open>Output of the route tools\<close>

fun token_after :: "string list \<Rightarrow> string \<Rightarrow> string option" where
  "token_after (a # b # rest) needle = (if a = needle then Some b else token_after (b # rest) needle)"
| "token_after _ needle = None"

definition macos_route_value :: "string \<Rightarrow> string \<Rightarrow> string option" where
  "macos_route_value output key =
     next_of (List.map_filter (\<lambda>line. map_option trim (strip_prefix key (trim line))) (str_lines output))"

definition parse_linux_route_get_for_host_route :: "string \<Rightarrow> string \<Rightarrow> (string list) option" where
  "parse_linux_route_get_for_host_route output endpoint =
     (case str_lines output of
        [] \<Rightarrow> None
      | first # _ \<Rightarrow>
          (let line = trim first in
           if line = [] \<or> contains line '' dev ppp'' then None
           else
             let tokens = split_whitespace line in
             case token_after tokens ''dev'' of
               None \<Rightarrow> None
             | Some dev \<Rightarrow>
                 Some ([''route'', ''add'', endpoint @ ''/32'']
                   @ (case token_after tokens ''via'' of Some via \<Rightarrow> [''via'', via] | None \<Rightarrow> [])
                   @ [''dev'', dev])))"

definition parse_macos_route_get_for_host_route :: "string \<Rightarrow> string \<Rightarrow> (string list) option" where
  "parse_macos_route_get_for_host_route output endpoint =
     (case macos_route_value output ''interface:'' of
        None \<Rightarrow> None
      | Some interface \<Rightarrow>
          if starts_with interface ''ppp'' then None
          else
            Some ([''add'', ''-host'', endpoint]
              @ (case macos_route_value output ''gateway:'' of
                   Some g \<Rightarrow> if g \<noteq> [] then [g] else [''-interface'', interface]
                 | None \<Rightarrow> [''-interface'', interface])))"

definition parse_linux_default_route :: "string \<Rightarrow> (string list) option" where
  "parse_linux_default_route output =
     (case str_lines output of
        [] \<Rightarrow> None
      | first # _ \<Rightarrow>
          (let line = trim first in
           if line = [] then None else Some ([''route'', ''add''] @ split_whitespace line)))"

definition parse_macos_default_route :: "string \<Rightarrow> (string list) option" where
  "parse_macos_default_route output =
     (case macos_route_value output ''gateway:'' of
        None \<Rightarrow> None
      | Some g \<Rightarrow> if g = [] then None else Some [''add'', ''default'', g])"

section \<open>The route to the gateway\<close>

definition drop_wrong_linux_tunnel_route :: "'s os_ops \<Rightarrow> ipv4_addr \<Rightarrow> string \<Rightarrow> ('s, unit) op" where
  "drop_wrong_linux_tunnel_route os endpoint interface =
     (let dest = show_ipv4 endpoint @ ''/32'' in
      bind_op (io_op (os_exec os ''ip'' [''route'', ''show'', dest, ''dev'', interface])) (\<lambda>output.
        if \<not> out_success output \<or> out_stdout output = [] then return_op ()
        else
          bind_op (warn_op os (''removing wrong route to VPN endpoint '' @ show_ipv4 endpoint @ '' via '' @ interface))
            (\<lambda>_. run_command os ''ip'' [''route'', ''del'', dest, ''dev'', interface])))"

definition drop_wrong_macos_tunnel_route :: "'s os_ops \<Rightarrow> ipv4_addr \<Rightarrow> string \<Rightarrow> ('s, unit) op" where
  "drop_wrong_macos_tunnel_route os endpoint interface =
     (let dest = show_ipv4 endpoint in
      bind_op (io_op (os_exec os ''/sbin/route'' [''-n'', ''get'', dest])) (\<lambda>output.
        if \<not> out_success output then return_op ()
        else if macos_route_value (from_utf8_lossy (out_stdout output)) ''interface:'' \<noteq> Some interface
        then return_op ()
        else
          bind_op (warn_op os (''removing wrong route to VPN endpoint '' @ dest @ '' via '' @ interface))
            (\<lambda>_. run_command os ''/sbin/route'' [''delete'', ''-host'', dest])))"

definition drop_wrong_tunnel_route :: "'s os_ops \<Rightarrow> platform \<Rightarrow> ipv4_addr \<Rightarrow> string \<Rightarrow> ('s, unit) op" where
  "drop_wrong_tunnel_route os plat endpoint interface =
     with_result
       (case plat of
          Linux \<Rightarrow> drop_wrong_linux_tunnel_route os endpoint interface
        | MacOs \<Rightarrow> drop_wrong_macos_tunnel_route os endpoint interface)
       (\<lambda>r. case r of
          Inl err \<Rightarrow> warn_op os
            (''issue while checking/removing wrong route to VPN endpoint: '' @ display_error err)
        | Inr _ \<Rightarrow> return_op ())"

definition build_linux_protect_tunnel_route_commands ::
  "'s os_ops \<Rightarrow> ipv4_addr \<Rightarrow> ('s, (string \<times> string list \<times> string list) option) op" where
  "build_linux_protect_tunnel_route_commands os endpoint =
     (let dest = show_ipv4 endpoint in
      bind_op (io_op (os_exec os ''ip'' [''route'', ''get'', dest])) (\<lambda>output.
        if \<not> out_success output then return_op None
        else return_op
          (map_option (\<lambda>args. (''ip'', args, [''route'', ''del'', dest @ ''/32'']))
            (parse_linux_route_get_for_host_route (from_utf8_lossy (out_stdout output)) dest))))"

definition build_macos_protect_tunnel_route_commands ::
  "'s os_ops \<Rightarrow> ipv4_addr \<Rightarrow> ('s, (string \<times> string list \<times> string list) option) op" where
  "build_macos_protect_tunnel_route_commands os endpoint =
     (let dest = show_ipv4 endpoint in
      bind_op (io_op (os_exec os ''/sbin/route'' [''-n'', ''get'', dest])) (\<lambda>output.
        if \<not> out_success output then return_op None
        else return_op
          (map_option (\<lambda>args. (''/sbin/route'', args, [''delete'', ''-host'', dest]))
            (parse_macos_route_get_for_host_route (from_utf8_lossy (out_stdout output)) dest))))"

definition build_protect_tunnel_route_commands ::
  "'s os_ops \<Rightarrow> platform \<Rightarrow> ipv4_addr \<Rightarrow> ('s, (string \<times> string list \<times> string list) option) op" where
  "build_protect_tunnel_route_commands os plat endpoint =
     (case plat of
        Linux \<Rightarrow> build_linux_protect_tunnel_route_commands os endpoint
      | MacOs \<Rightarrow> build_macos_protect_tunnel_route_commands os endpoint)"

text \<open>An operation that records what it applied returns the extended list; where it fails the
  list is the one before.\<close>

definition protect_tunnel_route ::
  "'s os_ops \<Rightarrow> platform \<Rightarrow> ipv4_addr \<Rightarrow> applied_network_plan \<Rightarrow> ('s, applied_network_plan) op" where
  "protect_tunnel_route os plat endpoint applied =
     bind_op (build_protect_tunnel_route_commands os plat endpoint) (\<lambda>cmds.
       case cmds of
         None \<Rightarrow> return_op applied
       | Some (program, args, rollback_args) \<Rightarrow>
           bind_op (run_command_ignore_existing_route os program args) (\<lambda>added.
             if \<not> added then return_op applied
             else return_op (applied @ [ProtectedTunnelRoute program rollback_args])))"

section \<open>The default route\<close>

definition delete_default_route :: "'s os_ops \<Rightarrow> platform \<Rightarrow> string \<Rightarrow> ('s, unit) op" where
  "delete_default_route os plat interface =
     with_result
       (case plat of
          Linux \<Rightarrow>
            with_result (run_command os ''ip'' [''route'', ''del'', ''default'', ''dev'', interface])
              (\<lambda>r. case r of
                 Inl _ \<Rightarrow> run_command os ''ip'' [''route'', ''del'', ''default'']
               | Inr u \<Rightarrow> return_op u)
        | MacOs \<Rightarrow>
            with_result (run_command os ''/sbin/route'' [''delete'', ''default'', ''-interface'', interface])
              (\<lambda>r. case r of
                 Inl _ \<Rightarrow> run_command os ''/sbin/route'' [''delete'', ''default'']
               | Inr u \<Rightarrow> return_op u))
       (\<lambda>r. case r of
          Inl err \<Rightarrow> warn_op os (''could not delete current default route: '' @ display_error err)
        | Inr _ \<Rightarrow> return_op ())"

definition add_default_route :: "'s os_ops \<Rightarrow> platform \<Rightarrow> string \<Rightarrow> ('s, unit) op" where
  "add_default_route os plat interface =
     (case plat of
        Linux \<Rightarrow> run_command os ''ip'' [''route'', ''add'', ''default'', ''dev'', interface]
      | MacOs \<Rightarrow> run_command os ''/sbin/route'' [''add'', ''default'', ''-interface'', interface])"

definition capture_linux_default_route :: "'s os_ops \<Rightarrow> ('s, (string \<times> string list) option) op" where
  "capture_linux_default_route os =
     bind_op (io_op (os_exec os ''ip'' [''route'', ''show'', ''default''])) (\<lambda>output.
       if \<not> out_success output then return_op None
       else return_op (map_option (\<lambda>args. (''ip'', args))
              (parse_linux_default_route (from_utf8_lossy (out_stdout output)))))"

definition capture_macos_default_route :: "'s os_ops \<Rightarrow> ('s, (string \<times> string list) option) op" where
  "capture_macos_default_route os =
     bind_op (io_op (os_exec os ''/sbin/route'' [''-n'', ''get'', ''default''])) (\<lambda>output.
       if \<not> out_success output then return_op None
       else return_op (map_option (\<lambda>args. (''/sbin/route'', args))
              (parse_macos_default_route (from_utf8_lossy (out_stdout output)))))"

definition capture_default_route :: "'s os_ops \<Rightarrow> platform \<Rightarrow> ('s, (string \<times> string list) option) op" where
  "capture_default_route os plat =
     (case plat of Linux \<Rightarrow> capture_linux_default_route os | MacOs \<Rightarrow> capture_macos_default_route os)"

definition apply_default_route ::
  "'s os_ops \<Rightarrow> platform \<Rightarrow> string \<Rightarrow> applied_network_plan \<Rightarrow> ('s, applied_network_plan) op" where
  "apply_default_route os plat interface applied =
     bind_op (capture_default_route os plat) (\<lambda>restore.
     bind_op (delete_default_route os plat interface) (\<lambda>_.
       with_result (add_default_route os plat interface) (\<lambda>r.
         case r of
           Inr _ \<Rightarrow> return_op (applied @ [DefaultRoute plat interface restore])
         | Inl err \<Rightarrow>
             (case restore of
                None \<Rightarrow> fail_op err
              | Some (program, args) \<Rightarrow>
                  with_result (run_command os program args) (\<lambda>r2.
                    case r2 of
                      Inl restore_err \<Rightarrow>
                        fail_op (Network (display_error err
                          @ ''; failed to restore previous default route: '' @ display_error restore_err))
                    | Inr _ \<Rightarrow> fail_op err)))))"

definition rollback_default_route ::
  "'s os_ops \<Rightarrow> platform \<Rightarrow> string \<Rightarrow> (string \<times> string list) option \<Rightarrow> ('s, unit) op" where
  "rollback_default_route os plat interface restore =
     bind_op (delete_default_route os plat interface) (\<lambda>_.
       case restore of
         None \<Rightarrow> return_op ()
       | Some (program, args) \<Rightarrow> run_command os program args)"

section \<open>DNS\<close>

definition is_ascii_alphanumeric :: "char \<Rightarrow> bool" where
  "is_ascii_alphanumeric c \<longleftrightarrow> is_ascii_upper c \<or> is_ascii_lower c \<or> is_ascii_digit c"

text \<open>A character that is not kept becomes one hyphen, however many bytes it has.\<close>

definition sanitize_scutil_key_component :: "string \<Rightarrow> string" where
  "sanitize_scutil_key_component v =
     (let sanitized = concat (map (\<lambda>ch.
            if length ch = 1 \<and> (is_ascii_alphanumeric (ch ! 0) \<or> ch = ''-'' \<or> ch = ''_'')
            then ch else ''-'') (str_chars v))
      in if sanitized = [] then ''vpn'' else sanitized)"

definition macos_scutil_dns_key :: "string \<Rightarrow> string" where
  "macos_scutil_dns_key interface =
     ''State:/Network/Service/openfortivpn-'' @ sanitize_scutil_key_component interface @ ''/DNS''"

definition scutil_plain :: "char \<Rightarrow> bool" where
  "scutil_plain c \<longleftrightarrow> is_ascii_alphanumeric c
     \<or> c = CHR ''.'' \<or> c = CHR ''-'' \<or> c = CHR ''_'' \<or> c = CHR '':'' \<or> c = CHR ''/''"

definition scutil_value :: "string \<Rightarrow> string" where
  "scutil_value v =
     (if list_all scutil_plain v then v
      else [CHR 0x22]
        @ concat (map (\<lambda>c. if c = CHR 0x5C \<or> c = CHR 0x22 then [CHR 0x5C, c] else [c]) v)
        @ [CHR 0x22])"

definition split_dns_search_domains :: "string option \<Rightarrow> string list" where
  "split_dns_search_domains search_domain =
     filter (\<lambda>part. part \<noteq> [])
       (split_on (\<lambda>c. c = CHR '';'' \<or> c = CHR '' '' \<or> c = CHR 0x09) (unwrap_or [] search_domain))"

definition NL :: string where "NL = [CHR 0x0A]"

definition scutil_list :: "string \<Rightarrow> string list \<Rightarrow> string" where
  "scutil_list name vs =
     ''d.add '' @ name @ '' *'' @ concat (map (\<lambda>v. '' '' @ scutil_value v) vs) @ NL"

definition build_macos_scutil_dns_script ::
  "string \<Rightarrow> string \<Rightarrow> string list \<Rightarrow> string option \<Rightarrow> string" where
  "build_macos_scutil_dns_script key interface servers search_domain =
     ''d.init'' @ NL
     @ ''d.add InterfaceName '' @ scutil_value interface @ NL
     @ (if servers \<noteq> [] then scutil_list ''ServerAddresses'' servers else [])
     @ (let search_domains = split_dns_search_domains search_domain in
        if search_domains \<noteq> []
        then scutil_list ''SearchDomains'' search_domains
             @ scutil_list ''SupplementalMatchDomains'' search_domains
        else [])
     @ ''set '' @ key @ NL"

definition build_macos_scutil_remove_script :: "string \<Rightarrow> string" where
  "build_macos_scutil_remove_script key = ''remove '' @ key @ NL"

text \<open>\<open>Path::join\<close> of a directory and a relative file name.\<close>

definition path_join :: "string \<Rightarrow> string \<Rightarrow> string" where
  "path_join dir file =
     (if dir = [] then file else if last dir = CHR ''/'' then dir @ file else dir @ ''/'' @ file)"

definition find_program_in_path :: "'s os_ops \<Rightarrow> string \<Rightarrow> 's \<Rightarrow> string option" where
  "find_program_in_path os program s =
     (case os_path os of
        None \<Rightarrow> None
      | Some paths \<Rightarrow>
          List.find (\<lambda>candidate. os_is_file os candidate s)
            (map (\<lambda>dir. path_join dir program) (split_on (\<lambda>c. c = CHR '':'') paths)))"

definition find_program_from_candidates :: "'s os_ops \<Rightarrow> string list \<Rightarrow> 's \<Rightarrow> string option" where
  "find_program_from_candidates os candidates s =
     next_of (List.map_filter (\<lambda>candidate.
       if CHR ''/'' \<in> set candidate
       then if os_exists os candidate s then Some candidate else None
       else map_option utf8_lossy (find_program_in_path os candidate s)) candidates)"

definition find_resolvconf :: "'s os_ops \<Rightarrow> 's \<Rightarrow> string option" where
  "find_resolvconf os s = find_program_from_candidates os RESOLVCONF_CANDIDATES s"

definition find_scutil :: "'s os_ops \<Rightarrow> 's \<Rightarrow> string option" where
  "find_scutil os s = find_program_from_candidates os SCUTIL_CANDIDATES s"

definition search_line :: "string option \<Rightarrow> string list" where
  "search_line search_domain =
     (case search_domain of
        None \<Rightarrow> []
      | Some d \<Rightarrow> if d = [] then [] else [''search '' @ replace_str '';'' '' '' d])"

definition build_resolvconf_body :: "string list \<Rightarrow> string option \<Rightarrow> string" where
  "build_resolvconf_body servers search_domain =
     concat (map (\<lambda>server. ''nameserver '' @ server @ NL) servers)
     @ concat (map (\<lambda>line. line @ NL) (search_line search_domain))"

definition build_dns_lines :: "string list \<Rightarrow> string option \<Rightarrow> string list" where
  "build_dns_lines servers search_domain =
     map (\<lambda>server. ''nameserver '' @ server) servers @ search_line search_domain"

definition dns_lines_to_add :: "bytes \<Rightarrow> string list \<Rightarrow> string option \<Rightarrow> string list" where
  "dns_lines_to_add original servers search_domain =
     (let original_text = from_utf8_lossy original in
      filter (\<lambda>line. \<not> list_ex (\<lambda>existing. existing = line) (str_lines original_text))
        (build_dns_lines servers search_domain))"

definition prepend_dns_lines_to_resolv_conf :: "bytes \<Rightarrow> string list \<Rightarrow> bytes" where
  "prepend_dns_lines_to_resolv_conf original added_lines =
     concat (map (\<lambda>line. as_bytes line @ [10]) added_lines) @ original"

fun remove_lines :: "string list \<Rightarrow> string list \<Rightarrow> string" where
  "remove_lines [] pending = []"
| "remove_lines (line # lines) pending =
     (case position (\<lambda>added. added = line) pending of
        Some pos \<Rightarrow> remove_lines lines (take pos pending @ drop (pos + 1) pending)
      | None \<Rightarrow> line @ NL @ remove_lines lines pending)"

definition remove_added_dns_lines :: "bytes \<Rightarrow> string list \<Rightarrow> bytes" where
  "remove_added_dns_lines current added_lines =
     as_bytes (remove_lines (str_lines (from_utf8_lossy current)) added_lines)"

text \<open>The flag is whether DNS was configured; the list what was recorded.\<close>

definition apply_macos_scutil_dns ::
  "'s os_ops \<Rightarrow> string \<Rightarrow> string list \<Rightarrow> string option \<Rightarrow> applied_network_plan \<Rightarrow>
     ('s, bool \<times> applied_network_plan) op" where
  "apply_macos_scutil_dns os interface servers search_domain applied s =
     (case find_scutil os s of
        None \<Rightarrow> return_op (False, applied) s
      | Some program \<Rightarrow>
          (let key = macos_scutil_dns_key interface;
               script = build_macos_scutil_dns_script key interface servers search_domain
           in with_result (run_command_with_stdin os program [] (as_bytes script)) (\<lambda>r.
                case r of
                  Inl err \<Rightarrow>
                    bind_op (warn_op os (''could not configure macOS DNS with scutil, falling back to resolv.conf/resolvconf: ''
                        @ display_error err)) (\<lambda>_. return_op (False, applied))
                | Inr _ \<Rightarrow> return_op (True, applied @ [MacOsScutilDns program key])) s))"

definition apply_resolv_conf ::
  "'s os_ops \<Rightarrow> string list \<Rightarrow> string option \<Rightarrow> applied_network_plan \<Rightarrow> ('s, applied_network_plan) op" where
  "apply_resolv_conf os servers search_domain applied =
     bind_op (io_op (os_read os RESOLV_CONF_PATH)) (\<lambda>original.
       let added_lines = dns_lines_to_add original servers search_domain in
       if added_lines = [] then return_op applied
       else
         bind_op (io_op (os_write os RESOLV_CONF_PATH (prepend_dns_lines_to_resolv_conf original added_lines)))
           (\<lambda>_. return_op (applied @ [ResolvConfFile added_lines])))"

definition apply_dns ::
  "'s os_ops \<Rightarrow> platform \<Rightarrow> string \<Rightarrow> string list \<Rightarrow> string option \<Rightarrow> apply_options \<Rightarrow>
     applied_network_plan \<Rightarrow> ('s, applied_network_plan) op" where
  "apply_dns os plat interface servers search_domain options applied =
     (if servers = [] \<and> search_domain = None then return_op applied
      else
        bind_op (if plat = MacOs then apply_macos_scutil_dns os interface servers search_domain applied
                 else return_op (False, applied)) (\<lambda>(configured, applied) s.
          if configured then return_op applied s
          else
            case (if opt_use_resolvconf options then find_resolvconf os s else None) of
              Some program \<Rightarrow>
                bind_op (run_command_with_stdin os program [''-a'', interface @ ''.openfortivpn'']
                    (as_bytes (build_resolvconf_body servers search_domain)))
                  (\<lambda>_. return_op (applied @ [Resolvconf program interface])) s
            | None \<Rightarrow> apply_resolv_conf os servers search_domain applied s))"

section \<open>Rollback\<close>

text \<open>Undoing one action: the outer error is the early return of a failing read, the inner
  result that of the action.\<close>

definition undo_action :: "'s os_ops \<Rightarrow> applied_network_action \<Rightarrow> ('s, unit res) op" where
  "undo_action os action =
     (case action of
        ProtectedTunnelRoute program rollback_args \<Rightarrow>
          with_result (run_command os program rollback_args) return_op
      | AppliedCommand program rollback_args \<Rightarrow>
          with_result (run_command os program rollback_args) return_op
      | DefaultRoute plat interface restore \<Rightarrow>
          with_result (rollback_default_route os plat interface restore) return_op
      | Resolvconf program interface \<Rightarrow>
          with_result (run_command os program [''-d'', interface @ ''.openfortivpn'']) return_op
      | MacOsScutilDns program key \<Rightarrow>
          with_result (run_command_with_stdin os program []
            (as_bytes (build_macos_scutil_remove_script key))) return_op
      | ResolvConfFile added_lines \<Rightarrow>
          bind_op (io_op (os_read os RESOLV_CONF_PATH)) (\<lambda>current.
            with_result (io_op (os_write os RESOLV_CONF_PATH (remove_added_dns_lines current added_lines)))
              return_op))"

text \<open>The loop pops from the end of the list; here it runs over the reversed list.\<close>

fun rollback_loop :: "'s os_ops \<Rightarrow> applied_network_action list \<Rightarrow> error option \<Rightarrow> ('s, unit) op" where
  "rollback_loop os [] first_error s =
     (case first_error of Some err \<Rightarrow> (Inl err, s) | None \<Rightarrow> (Inr (), s))"
| "rollback_loop os (action # actions) first_error s =
     (case undo_action os action s of
        (Inl e, s1) \<Rightarrow> (Inl e, s1)
      | (Inr (Inl err), s1) \<Rightarrow>
          rollback_loop os actions (case first_error of None \<Rightarrow> Some err | Some e \<Rightarrow> Some e) s1
      | (Inr (Inr _), s1) \<Rightarrow> rollback_loop os actions first_error s1)"

definition rollback :: "'s os_ops \<Rightarrow> applied_network_plan \<Rightarrow> ('s, unit) op" where
  "rollback os applied = rollback_loop os (rev applied) None"

section \<open>Applying a plan\<close>

text \<open>One action of the plan. As in \<open>undo_action\<close>, the outer error is an early return: the
  failure of a plain command leaves the function without a rollback.\<close>

definition apply_action ::
  "'s os_ops \<Rightarrow> apply_options \<Rightarrow> network_action \<Rightarrow> applied_network_plan \<Rightarrow>
     ('s, applied_network_plan res) op" where
  "apply_action os options action applied =
     (case action of
        DropWrongTunnelRoute plat endpoint interface \<Rightarrow>
          with_result (drop_wrong_tunnel_route os plat endpoint interface) (\<lambda>_. return_op (Inr applied))
      | ProtectTunnelRoute plat endpoint \<Rightarrow>
          with_result (protect_tunnel_route os plat endpoint applied) return_op
      | RunCommand program args \<Rightarrow>
          bind_op (run_command os program args) (\<lambda>_.
            return_op (Inr (case rollback_args_for_command program args of
              Some rollback_args \<Rightarrow> applied @ [AppliedCommand program rollback_args]
            | None \<Rightarrow> applied)))
      | ReplaceDefaultRoute plat interface \<Rightarrow>
          with_result (apply_default_route os plat interface applied) return_op
      | ConfigureDns plat interface servers search_domain \<Rightarrow>
          with_result (apply_dns os plat interface servers search_domain options applied) return_op)"

fun apply_loop ::
  "'s os_ops \<Rightarrow> apply_options \<Rightarrow> network_action list \<Rightarrow> applied_network_plan \<Rightarrow>
     ('s, applied_network_plan) op" where
  "apply_loop os options [] applied s = (Inr applied, s)"
| "apply_loop os options (action # actions) applied s =
     (case apply_action os options action applied s of
        (Inl e, s1) \<Rightarrow> (Inl e, s1)
      | (Inr (Inr applied1), s1) \<Rightarrow> apply_loop os options actions applied1 s1
      | (Inr (Inl err), s1) \<Rightarrow>
          (case rollback os applied s1 of
             (Inl rollback_err, s2) \<Rightarrow>
               (Inl (Network (display_error err @ ''; rollback also failed: '' @ display_error rollback_err)), s2)
           | (Inr _, s2) \<Rightarrow> (Inl err, s2)))"

definition apply_network_plan ::
  "'s os_ops \<Rightarrow> network_plan \<Rightarrow> apply_options \<Rightarrow> ('s, applied_network_plan) op" where
  "apply_network_plan os plan options = apply_loop os options plan []"

definition applied_is_empty :: "applied_network_plan \<Rightarrow> bool" where
  "applied_is_empty applied \<longleftrightarrow> applied = []"

section \<open>The resolver file\<close>

text \<open>A text file: lines without line breaks of their own, each ended by a line feed.\<close>

definition plain_text_line :: "string \<Rightarrow> bool" where
  "plain_text_line l \<longleftrightarrow> CHR 0x0A \<notin> set l \<and> strip_cr l = l"

definition unlines :: "string list \<Rightarrow> string" where
  "unlines ls = concat (map (\<lambda>l. l @ NL) ls)"

definition text_file :: "bytes \<Rightarrow> bool" where
  "text_file content \<longleftrightarrow>
     (let text = bytes_to_string content in
      utf8_valid text \<and> list_all plain_text_line (str_lines text) \<and> unlines (str_lines text) = text)"

lemma unlines_simps [simp]:
  "unlines [] = []" "unlines (l # ls) = l @ NL @ unlines ls" "unlines (ks @ ls) = unlines ks @ unlines ls"
  by (simp_all add: unlines_def)

lemma str_lines_unlines: "list_all plain_text_line ls \<Longrightarrow> str_lines (unlines ls) = ls"
proof (induction ls)
  case (Cons l ls)
  then show ?case
    using str_lines_line [of l "unlines ls"] by (auto simp: plain_text_line_def NL_def)
qed simp

lemma text_file_unlines:
  "list_all plain_text_line ls \<Longrightarrow> utf8_valid (unlines ls) \<Longrightarrow> text_file (as_bytes (unlines ls))"
  by (simp add: text_file_def str_lines_unlines codec_simps)

lemma remove_lines_none: "remove_lines ls [] = unlines ls"
  by (induction ls) auto

lemma remove_lines_prefix: "remove_lines (added @ ls) added = unlines ls"
  by (induction added) (auto simp: remove_lines_none)

lemma prepend_unlines:
  "prepend_dns_lines_to_resolv_conf (as_bytes t) added = as_bytes (unlines added @ t)"
proof -
  have "as_bytes NL = [10]" by (simp add: as_bytes_def NL_def)
  then show ?thesis
    by (induction added) (simp_all add: prepend_dns_lines_to_resolv_conf_def)
qed

lemma utf8_valid_unlines: "list_all utf8_valid ls \<Longrightarrow> utf8_valid (unlines ls)"
proof (induction ls)
  case (Cons l ls)
  have "utf8_valid NL" by (rule utf8_valid_ascii) (simp add: NL_def)
  with Cons show ?case by (simp add: utf8_valid_append)
qed simp

text \<open>The lines that a plan adds are those of the DNS settings that the file does not have.\<close>

definition plain_dns :: "string list \<Rightarrow> string option \<Rightarrow> bool" where
  "plain_dns servers search_domain \<longleftrightarrow>
     list_all (\<lambda>l. plain_text_line l \<and> utf8_valid l) (build_dns_lines servers search_domain)"

lemma plain_dns_lines_to_add:
  assumes "plain_dns servers search_domain"
  shows "list_all plain_text_line (dns_lines_to_add original servers search_domain)"
    "list_all utf8_valid (dns_lines_to_add original servers search_domain)"
  using assms by (auto simp: plain_dns_def dns_lines_to_add_def list_all_iff Let_def)

lemma prepend_remove:
  assumes "text_file original" "list_all plain_text_line added" "list_all utf8_valid added"
  shows "remove_added_dns_lines (prepend_dns_lines_to_resolv_conf original added) added = original"
    "text_file (prepend_dns_lines_to_resolv_conf original added)"
proof -
  let ?text = "bytes_to_string original"
  let ?ls = "str_lines ?text"
  have t: "utf8_valid ?text" "list_all plain_text_line ?ls" "unlines ?ls = ?text"
    using assms(1) by (simp_all add: text_file_def Let_def)
  have o: "original = as_bytes ?text" by (simp add: codec_simps)
  have p: "prepend_dns_lines_to_resolv_conf original added = as_bytes (unlines (added @ ?ls))"
    by (subst o) (simp add: prepend_unlines t(3))
  have v: "utf8_valid (unlines (added @ ?ls))"
    using t utf8_valid_unlines [OF assms(3)] by (simp add: utf8_valid_append)
  have l: "str_lines (unlines (added @ ?ls)) = added @ ?ls"
    using t assms(2) by (intro str_lines_unlines) simp
  have "remove_added_dns_lines (prepend_dns_lines_to_resolv_conf original added) added = as_bytes (unlines ?ls)"
    unfolding p remove_added_dns_lines_def from_utf8_lossy_def
    using v l by (simp add: codec_simps utf8_lossy_valid remove_lines_prefix del: unlines_simps)
  with t o show "remove_added_dns_lines (prepend_dns_lines_to_resolv_conf original added) added = original"
    by simp
  show "text_file (prepend_dns_lines_to_resolv_conf original added)"
    unfolding p using t assms(2) v by (intro text_file_unlines) (simp_all del: unlines_simps)
qed

text \<open>C31. Undoing the change of the resolver file restores it: removing the added lines from
  the file with the lines in front gives back the file byte for byte, also when the file
  already contains some of the lines or the settings repeat a line.\<close>

theorem resolv_conf_round_trip:
  assumes "text_file original" "plain_dns servers search_domain"
  shows "remove_added_dns_lines
      (prepend_dns_lines_to_resolv_conf original (dns_lines_to_add original servers search_domain))
      (dns_lines_to_add original servers search_domain) = original"
  using assms by (intro prepend_remove plain_dns_lines_to_add)

theorem resolv_conf_round_trip_witness:
  "remove_added_dns_lines
      (prepend_dns_lines_to_resolv_conf (as_bytes (''nameserver 1.1.1.1'' @ NL))
        (dns_lines_to_add (as_bytes (''nameserver 1.1.1.1'' @ NL)) [''1.1.1.1'', ''10.0.0.1''] (Some ''a;b'')))
      (dns_lines_to_add (as_bytes (''nameserver 1.1.1.1'' @ NL)) [''1.1.1.1'', ''10.0.0.1''] (Some ''a;b''))
    = as_bytes (''nameserver 1.1.1.1'' @ NL)"
proof (rule resolv_conf_round_trip)
  show "text_file (as_bytes (''nameserver 1.1.1.1'' @ NL))" by code_simp
  show "plain_dns [''1.1.1.1'', ''10.0.0.1''] (Some ''a;b'')" by code_simp
qed

text \<open>A file whose last line has no line feed gets one by the rollback.\<close>

lemma rollback_adds_final_newline:
  "remove_added_dns_lines (prepend_dns_lines_to_resolv_conf (as_bytes ''x'') [''nameserver 1.1.1.1''])
     [''nameserver 1.1.1.1''] = as_bytes (''x'' @ NL)"
  by code_simp

section \<open>Operations on the machine\<close>

lemma warn_op_eq [simp]: "warn_op os t s = (r, s') \<longleftrightarrow> r = Inr () \<and> s' = os_warn os t s"
  by (auto simp: warn_op_def)

lemma check_output_eq:
  "check_output p args out s = (Inr u, s') \<longleftrightarrow> out_success out \<and> s' = s"
  "check_output p args out s = (Inl e, s') \<longleftrightarrow> \<not> out_success out \<and> s' = s
     \<and> e = command_error p args (out_stdout out) (out_stderr out) (out_status out)"
  by (auto simp: check_output_def)

lemma run_command_Inr:
  "run_command os p args s = (Inr u, s') \<longleftrightarrow> (\<exists>out. os_exec os p args s = (Inr out, s') \<and> out_success out)"
  by (auto simp: run_command_def check_output_eq)

lemma run_command_with_stdin_Inr:
  "run_command_with_stdin os p args b s = (Inr u, s') \<longleftrightarrow>
   (\<exists>out. os_exec_stdin os p args b s = (Inr out, s') \<and> out_success out)"
  by (auto simp: run_command_with_stdin_def check_output_eq)

section \<open>Rolling back on a well-behaved machine\<close>

text \<open>
  What the code relies on of the machine: a failing operation and a query change nothing;
  deleting a route that was just added restores the routes, whether the route is named in
  full or by its destination; \<open>resolvconf -d\<close> undoes \<open>resolvconf -a\<close>; and the resolver file
  is a text file whose content is what was last written.
\<close>

definition succeeds :: "(io_error + cmd_output) \<times> 's \<Rightarrow> 's \<Rightarrow> bool" where
  "succeeds r s \<longleftrightarrow> (\<exists>out. r = (Inr out, s) \<and> out_success out)"

definition quiet_failures :: "'s os_ops \<Rightarrow> bool" where
  "quiet_failures os \<longleftrightarrow>
     (\<forall>p args s r s'. os_exec os p args s = (r, s') \<longrightarrow> succeeds (r, s') s' \<or> s' = s)
   \<and> (\<forall>p args b s r s'. os_exec_stdin os p args b s = (r, s') \<longrightarrow> succeeds (r, s') s' \<or> s' = s)
   \<and> (\<forall>f c s e s'. os_write os f c s = (Inl e, s') \<longrightarrow> s' = s)
   \<and> (\<forall>t s. os_warn os t s = s)"

definition pure_queries :: "'s os_ops \<Rightarrow> bool" where
  "pure_queries os \<longleftrightarrow>
     (\<forall>args s. snd (os_exec os ''ip'' (''route'' # ''get'' # args) s) = s)
   \<and> (\<forall>args s. snd (os_exec os ''/sbin/route'' (''-n'' # ''get'' # args) s) = s)
   \<and> (\<forall>f s. snd (os_read os f s) = s)"

definition undoes :: "'s os_ops \<Rightarrow> string \<Rightarrow> string list \<Rightarrow> string list \<Rightarrow> bool" where
  "undoes os p args undo \<longleftrightarrow>
     (\<forall>s s'. succeeds (os_exec os p args s) s' \<longrightarrow> succeeds (os_exec os p undo s') s)"

definition deletes_undo_adds :: "'s os_ops \<Rightarrow> bool" where
  "deletes_undo_adds os \<longleftrightarrow>
     (\<forall>p args undo. rollback_args_for_command p args = Some undo \<longrightarrow> undoes os p args undo)
   \<and> (\<forall>d rest. undoes os ''ip'' (''route'' # ''add'' # d # rest) [''route'', ''del'', d])
   \<and> (\<forall>d rest. undoes os ''/sbin/route'' (''add'' # ''-host'' # d # rest) [''delete'', ''-host'', d])"

definition resolvconf_undone :: "'s os_ops \<Rightarrow> bool" where
  "resolvconf_undone os \<longleftrightarrow>
     (\<forall>p i b s s'. succeeds (os_exec_stdin os p [''-a'', i] b s) s' \<longrightarrow> succeeds (os_exec os p [''-d'', i] s') s)"

definition resolver_file :: "'s os_ops \<Rightarrow> bool" where
  "resolver_file os \<longleftrightarrow>
     (\<forall>s c. fst (os_read os RESOLV_CONF_PATH s) = Inr c \<longrightarrow> text_file c)
   \<and> (\<forall>s c s'. text_file c \<longrightarrow> os_write os RESOLV_CONF_PATH c s = (Inr (), s') \<longrightarrow>
        fst (os_read os RESOLV_CONF_PATH s') = Inr c
      \<and> (\<forall>c0. fst (os_read os RESOLV_CONF_PATH s) = Inr c0 \<longrightarrow> os_write os RESOLV_CONF_PATH c0 s' = (Inr (), s)))"

definition well_behaved :: "'s os_ops \<Rightarrow> bool" where
  "well_behaved os \<longleftrightarrow> quiet_failures os \<and> pure_queries os \<and> deletes_undo_adds os
     \<and> resolvconf_undone os \<and> resolver_file os"

text \<open>The actions that a rollback undoes: commands with a rollback form, the route to the
  gateway, and DNS settings outside macOS. Dropping a wrong route is not undone, and what the
  default route was is only known from the output of the route tool.\<close>

fun undoable :: "network_action \<Rightarrow> bool" where
  "undoable (RunCommand p args) \<longleftrightarrow> rollback_args_for_command p args \<noteq> None"
| "undoable (ProtectTunnelRoute plat endpoint) \<longleftrightarrow> True"
| "undoable (ConfigureDns plat interface servers search_domain) \<longleftrightarrow>
     plat = Linux \<and> plain_dns servers search_domain"
| "undoable (DropWrongTunnelRoute plat endpoint interface) \<longleftrightarrow> False"
| "undoable (ReplaceDefaultRoute plat interface) \<longleftrightarrow> False"

fun is_command :: "network_action \<Rightarrow> bool" where
  "is_command (RunCommand p args) \<longleftrightarrow> True"
| "is_command _ \<longleftrightarrow> False"

text \<open>A step that leaves the machine as it was, or one that the recorded action undoes.\<close>

definition undone_step :: "'s os_ops \<Rightarrow> applied_network_plan \<Rightarrow> 's \<Rightarrow> applied_network_plan \<Rightarrow> 's \<Rightarrow> bool" where
  "undone_step os applied s applied' s' \<longleftrightarrow>
     applied' = applied \<and> s' = s
   \<or> (\<exists>a. applied' = applied @ [a] \<and> undo_action os a s' = (Inr (Inr ()), s))"

lemma run_command_succeeds: "run_command os p args s = (Inr (), s') \<longleftrightarrow> succeeds (os_exec os p args s) s'"
  by (auto simp: run_command_Inr succeeds_def)

lemma run_stdin_succeeds:
  "run_command_with_stdin os p args b s = (Inr (), s') \<longleftrightarrow> succeeds (os_exec_stdin os p args b s) s'"
  by (auto simp: run_command_with_stdin_Inr succeeds_def)

lemma run_command_failure:
  assumes "quiet_failures os" "run_command os p args s = (Inl e, s')"
  shows "s' = s"
  using assms by (fastforce simp: run_command_def bind_op_Inl io_op_Inl check_output_eq quiet_failures_def succeeds_def)

lemma run_stdin_failure:
  assumes "quiet_failures os" "run_command_with_stdin os p args b s = (Inl e, s')"
  shows "s' = s"
  using assms by (fastforce simp: run_command_with_stdin_def bind_op_Inl io_op_Inl check_output_eq quiet_failures_def succeeds_def)

lemma ignore_existing_False:
  assumes "quiet_failures os" "run_command_ignore_existing_route os p args s = (Inr False, s')"
  shows "s' = s"
  using assms
  by (fastforce simp: run_command_ignore_existing_route_def quiet_failures_def succeeds_def split: if_splits)

lemma ignore_existing_True:
  assumes "run_command_ignore_existing_route os p args s = (Inr True, s')"
  shows "succeeds (os_exec os p args s) s'"
  using assms by (fastforce simp: run_command_ignore_existing_route_def succeeds_def split: if_splits)

lemma ignore_existing_failure:
  assumes "quiet_failures os" "run_command_ignore_existing_route os p args s = (Inl e, s')"
  shows "s' = s"
  using assms
  by (fastforce simp: run_command_ignore_existing_route_def bind_op_Inl io_op_Inl quiet_failures_def succeeds_def split: if_splits)

lemma build_protect_pure:
  assumes "pure_queries os" "build_protect_tunnel_route_commands os plat endpoint s = (r, s')"
  shows "s' = s"
proof (cases plat)
  case Linux
  obtain x where "os_exec os ''ip'' [''route'', ''get'', show_ipv4 endpoint] s = (x, s)"
    using assms(1) unfolding pure_queries_def by (metis prod.collapse)
  with assms(2) Linux show ?thesis
    by (cases x) (auto simp: build_protect_tunnel_route_commands_def build_linux_protect_tunnel_route_commands_def
        bind_op_def io_op_def Let_def split: if_splits)
next
  case MacOs
  obtain x where "os_exec os ''/sbin/route'' [''-n'', ''get'', show_ipv4 endpoint] s = (x, s)"
    using assms(1) unfolding pure_queries_def by (metis prod.collapse)
  with assms(2) MacOs show ?thesis
    by (cases x) (auto simp: build_protect_tunnel_route_commands_def build_macos_protect_tunnel_route_commands_def
        bind_op_def io_op_def Let_def split: if_splits)
qed

lemma parse_linux_host_route_form:
  "parse_linux_route_get_for_host_route output dest = Some args \<Longrightarrow>
   \<exists>rest. args = ''route'' # ''add'' # (dest @ ''/32'') # rest"
  by (auto simp: parse_linux_route_get_for_host_route_def Let_def split: list.splits if_splits option.splits)

lemma parse_macos_host_route_form:
  "parse_macos_route_get_for_host_route output dest = Some args \<Longrightarrow>
   \<exists>rest. args = ''add'' # ''-host'' # dest # rest"
  by (auto simp: parse_macos_route_get_for_host_route_def split: if_splits option.splits)

lemma Some_eq_map_option: "Some y = map_option f x \<longleftrightarrow> (\<exists>z. x = Some z \<and> f z = y)"
  by (cases x) auto

lemma build_protect_undone:
  assumes "deletes_undo_adds os"
    and "build_protect_tunnel_route_commands os plat endpoint s = (Inr (Some (p, args, undo)), s')"
  shows "undoes os p args undo"
  using assms
  by (cases plat)
    (auto simp: build_protect_tunnel_route_commands_def build_linux_protect_tunnel_route_commands_def
      build_macos_protect_tunnel_route_commands_def deletes_undo_adds_def Let_def Some_eq_map_option split: if_splits
      dest!: parse_linux_host_route_form parse_macos_host_route_form)

lemma protect_undone:
  assumes "well_behaved os" "protect_tunnel_route os plat endpoint applied s = (Inr applied', s')"
  shows "undone_step os applied s applied' s'"
proof -
  have laws: "quiet_failures os" "pure_queries os" "deletes_undo_adds os"
    using assms(1) by (simp_all add: well_behaved_def)
  obtain cmds s1 where b: "build_protect_tunnel_route_commands os plat endpoint s = (Inr cmds, s1)"
    and rest: "(case cmds of None \<Rightarrow> return_op applied
       | Some (program, args, rollback_args) \<Rightarrow>
           bind_op (run_command_ignore_existing_route os program args) (\<lambda>added.
             if \<not> added then return_op applied
             else return_op (applied @ [ProtectedTunnelRoute program rollback_args]))) s1 = (Inr applied', s')"
    using assms(2) by (auto simp: protect_tunnel_route_def)
  have s1: "s1 = s" using build_protect_pure [OF laws(2) b] .
  show ?thesis
  proof (cases cmds)
    case None
    with rest s1 show ?thesis by (simp add: undone_step_def)
  next
    case (Some c)
    obtain p args undo where c: "c = (p, args, undo)" by (cases c)
    then obtain added where r: "run_command_ignore_existing_route os p args s = (Inr added, s')"
      and a: "applied' = (if added then applied @ [ProtectedTunnelRoute p undo] else applied)"
      using rest Some s1 by (auto split: if_splits)
    show ?thesis
    proof (cases added)
      case True
      with r have "succeeds (os_exec os p args s) s'" by (simp add: ignore_existing_True)
      with build_protect_undone [OF laws(3)] b Some c have "succeeds (os_exec os p undo s') s"
        unfolding undoes_def by blast
      with True a show ?thesis
        by (simp add: undone_step_def undo_action_def run_command_succeeds)
    next
      case False
      with r a laws(1) show ?thesis by (auto simp: undone_step_def dest: ignore_existing_False)
    qed
  qed
qed

lemma apply_resolv_conf_eq:
  assumes "os_read os RESOLV_CONF_PATH s = (Inr original, s)"
  shows "apply_resolv_conf os servers search_domain applied s =
    (let added = dns_lines_to_add original servers search_domain in
     if added = [] then (Inr applied, s)
     else bind_op (io_op (os_write os RESOLV_CONF_PATH (prepend_dns_lines_to_resolv_conf original added)))
       (\<lambda>_. return_op (applied @ [ResolvConfFile added])) s)"
  unfolding apply_resolv_conf_def using assms
  by (simp add: bind_op_def io_op_def return_op_def Let_def)

lemma apply_resolv_conf_undone:
  assumes "well_behaved os" "plain_dns servers search_domain"
    and "apply_resolv_conf os servers search_domain applied s = (Inr applied', s')"
  shows "undone_step os applied s applied' s'"
proof -
  have laws: "pure_queries os" "resolver_file os"
    using assms(1) by (simp_all add: well_behaved_def)
  have pure: "snd (os_read os RESOLV_CONF_PATH t) = t" for t using laws(1) by (simp add: pure_queries_def)
  obtain original where o: "os_read os RESOLV_CONF_PATH s = (Inr original, s)"
  proof (cases "os_read os RESOLV_CONF_PATH s")
    case (Pair r s1)
    with pure [of s] have "s1 = s" by simp
    with Pair assms(3) that show ?thesis
      by (cases r) (simp_all add: apply_resolv_conf_def bind_op_def io_op_def)
  qed
  have now: "fst (os_read os RESOLV_CONF_PATH s) = Inr original" using o by simp
  then have tf: "text_file original" using laws(2) unfolding resolver_file_def by blast
  let ?added = "dns_lines_to_add original servers search_domain"
  let ?new = "prepend_dns_lines_to_resolv_conf original ?added"
  note restored = prepend_remove [OF tf plain_dns_lines_to_add [OF assms(2), of original]]
  note eq = assms(3) [unfolded apply_resolv_conf_eq [OF o] Let_def]
  show ?thesis
  proof (cases "?added = []")
    case True
    with eq show ?thesis by (simp add: undone_step_def)
  next
    case False
    with eq have w: "os_write os RESOLV_CONF_PATH ?new s = (Inr (), s')" and a: "applied' = applied @ [ResolvConfFile ?added]"
      by simp_all
    from now have r: "fst (os_read os RESOLV_CONF_PATH s') = Inr ?new" "os_write os RESOLV_CONF_PATH original s' = (Inr (), s)"
      using laws(2) w restored(2) unfolding resolver_file_def by blast+
    from r(1) pure [of s'] have "os_read os RESOLV_CONF_PATH s' = (Inr ?new, s')"
      by (cases "os_read os RESOLV_CONF_PATH s'") simp
    with r(2) a restored(1) show ?thesis by (simp add: undone_step_def undo_action_def)
  qed
qed

lemma apply_dns_undone:
  assumes "well_behaved os" "plain_dns servers search_domain"
    and "apply_dns os Linux interface servers search_domain options applied s = (Inr applied', s')"
  shows "undone_step os applied s applied' s'"
proof (cases "servers = [] \<and> search_domain = None")
  case True
  with assms(3) show ?thesis by (simp add: apply_dns_def undone_step_def)
next
  case False
  show ?thesis
  proof (cases "if opt_use_resolvconf options then find_resolvconf os s else None")
    case None
    with False assms(3) have "apply_resolv_conf os servers search_domain applied s = (Inr applied', s')"
      by (auto simp: apply_dns_def)
    with assms show ?thesis by (intro apply_resolv_conf_undone)
  next
    case (Some program)
    with False assms(3) have
      "succeeds (os_exec_stdin os program [''-a'', interface @ ''.openfortivpn'']
          (as_bytes (build_resolvconf_body servers search_domain)) s) s'"
      and a: "applied' = applied @ [Resolvconf program interface]"
      by (auto simp: apply_dns_def run_stdin_succeeds)
    then have "succeeds (os_exec os program [''-d'', interface @ ''.openfortivpn''] s') s"
      using assms(1) unfolding well_behaved_def resolvconf_undone_def by blast
    with a show ?thesis by (simp add: undone_step_def undo_action_def run_command_succeeds)
  qed
qed

lemma apply_action_undone:
  assumes "well_behaved os" "undoable a" "apply_action os options a applied s = (Inr (Inr applied'), s')"
  shows "undone_step os applied s applied' s'"
proof (cases a)
  case (RunCommand p args)
  with assms(2) obtain undo where u: "rollback_args_for_command p args = Some undo" by auto
  with RunCommand assms(3) have "succeeds (os_exec os p args s) s'" "applied' = applied @ [AppliedCommand p undo]"
    by (auto simp: apply_action_def run_command_succeeds)
  with u assms(1) show ?thesis
    by (auto simp: undone_step_def undo_action_def run_command_succeeds well_behaved_def deletes_undo_adds_def undoes_def)
next
  case (ProtectTunnelRoute plat endpoint)
  with assms show ?thesis by (auto simp: apply_action_def intro: protect_undone)
next
  case (ConfigureDns plat interface servers search_domain)
  with assms show ?thesis by (auto simp: apply_action_def intro: apply_dns_undone)
qed (use assms(2) in auto)

lemma rollback_undone_step:
  assumes "undone_step os applied s applied' s'" "rollback os applied s = (Inr (), s0)"
  shows "rollback os applied' s' = (Inr (), s0)"
  using assms by (auto simp: undone_step_def rollback_def)

lemma apply_loop_undone:
  assumes "well_behaved os" "list_all undoable plan"
    and "rollback os applied s = (Inr (), s0)" "apply_loop os options plan applied s = (Inr applied', s')"
  shows "rollback os applied' s' = (Inr (), s0)"
  using assms(2-)
proof (induction plan arbitrary: applied s)
  case (Cons a plan)
  obtain applied1 s1 where a: "apply_action os options a applied s = (Inr (Inr applied1), s1)"
    and rest: "apply_loop os options plan applied1 s1 = (Inr applied', s')"
    using Cons.prems(3) by (auto split: prod.splits sum.splits)
  have "rollback os applied1 s1 = (Inr (), s0)"
    using apply_action_undone [OF assms(1) _ a] Cons.prems(1,2) rollback_undone_step by fastforce
  with Cons rest show ?case by simp
qed simp

text \<open>C2. Rolling back an applied plan restores the machine: on a machine on which deleting
  what was just added undoes it, applying a plan of route commands, the route to the gateway
  and DNS settings, and then rolling it back, succeeds and leaves the machine as it was.\<close>

theorem rollback_restores_machine:
  assumes "well_behaved os" "list_all undoable plan"
    and "apply_network_plan os plan options s = (Inr applied, s')"
  shows "rollback os applied s' = (Inr (), s)"
  using assms apply_loop_undone [of os plan "[]" s s options applied s']
  by (simp add: apply_network_plan_def rollback_def)

section \<open>Failing plans\<close>

lemma protect_failure:
  assumes "well_behaved os" "protect_tunnel_route os plat endpoint applied s = (Inl e, s')"
  shows "s' = s"
proof -
  have laws: "quiet_failures os" "pure_queries os" using assms(1) by (simp_all add: well_behaved_def)
  obtain r s1 where b: "build_protect_tunnel_route_commands os plat endpoint s = (r, s1)" by fastforce
  then have "s1 = s" using build_protect_pure [OF laws(2)] by blast
  with b assms(2) laws(1) show ?thesis
    by (auto simp: protect_tunnel_route_def bind_op_Inl split: option.splits if_splits
        dest: ignore_existing_False ignore_existing_failure)
qed

lemma apply_resolv_conf_failure:
  assumes "well_behaved os" "apply_resolv_conf os servers search_domain applied s = (Inl e, s')"
  shows "s' = s"
proof -
  have laws: "quiet_failures os" "pure_queries os" using assms(1) by (simp_all add: well_behaved_def)
  obtain r where r: "os_read os RESOLV_CONF_PATH s = (r, s)"
    using laws(2) unfolding pure_queries_def by (metis prod.collapse)
  show ?thesis
  proof (cases r)
    case (Inl err)
    with r assms(2) show ?thesis by (simp add: apply_resolv_conf_def bind_op_def io_op_def)
  next
    case (Inr original)
    with r have o: "os_read os RESOLV_CONF_PATH s = (Inr original, s)" by simp
    show ?thesis
      using assms(2) [unfolded apply_resolv_conf_eq [OF o] Let_def] laws(1)
      by (auto simp: bind_op_Inl io_op_Inl quiet_failures_def split: if_splits)
  qed
qed

lemma apply_dns_failure:
  assumes "well_behaved os" "apply_dns os Linux interface servers search_domain options applied s = (Inl e, s')"
  shows "s' = s"
proof -
  have "quiet_failures os" using assms(1) by (simp add: well_behaved_def)
  with assms show ?thesis
    by (auto simp: apply_dns_def bind_op_Inl split: if_splits option.splits
        dest: run_stdin_failure apply_resolv_conf_failure [OF assms(1)])
qed

subsection \<open>The default route\<close>

text \<open>
  What replacing the default route relies on (Linux): \<open>ip route show default\<close> changes nothing
  and, when it answers, prints either nothing, and then there is no default route to delete,
  or the default route; that one can be deleted, and adding the line that was printed, after
  the default route has been deleted, brings it back.
\<close>

definition default_route_laws :: "'s os_ops \<Rightarrow> bool" where
  "default_route_laws os \<longleftrightarrow>
     (\<forall>s. case os_exec os ''ip'' [''route'', ''show'', ''default''] s of
        (Inl e, s') \<Rightarrow> s' = s
      | (Inr out, s') \<Rightarrow> s' = s \<and> out_success out \<and>
          (case str_lines (from_utf8_lossy (out_stdout out)) of
             [] \<Rightarrow> \<forall>rest s1. \<not> succeeds (os_exec os ''ip'' (''route'' # ''del'' # ''default'' # rest) s) s1
           | line # _ \<Rightarrow> trim line \<noteq> []
               \<and> (\<exists>s1. succeeds (os_exec os ''ip'' [''route'', ''del'', ''default''] s) s1)
               \<and> (\<forall>rest s1. succeeds (os_exec os ''ip'' (''route'' # ''del'' # ''default'' # rest) s) s1 \<longrightarrow>
                    succeeds (os_exec os ''ip'' ([''route'', ''add''] @ split_whitespace (trim line)) s1) s)))"

lemma run_command_fails:
  assumes "quiet_failures os" "\<And>s1. \<not> succeeds (os_exec os p args s) s1"
  shows "\<exists>e. run_command os p args s = (Inl e, s)"
proof -
  obtain r s1 where r: "run_command os p args s = (r, s1)" by fastforce
  with assms(2) obtain e where "r = Inl e" by (cases r) (auto simp: run_command_succeeds)
  with r run_command_failure [OF assms(1)] show ?thesis by blast
qed

lemma run_command_cases:
  assumes "quiet_failures os"
  obtains s1 where "run_command os p args s = (Inr (), s1)" "succeeds (os_exec os p args s) s1"
  | e where "run_command os p args s = (Inl e, s)"
  using run_command_fails [OF assms, of p args s] run_command_succeeds [of os p args s] by metis

lemma warn_quiet: "quiet_failures os \<Longrightarrow> os_warn os t s = s"
  by (simp add: quiet_failures_def)

lemma delete_no_default:
  assumes "quiet_failures os"
    and "\<And>rest s1. \<not> succeeds (os_exec os ''ip'' (''route'' # ''del'' # ''default'' # rest) s) s1"
  shows "delete_default_route os Linux i s = (Inr (), s)"
proof -
  obtain e1 e2 where "run_command os ''ip'' [''route'', ''del'', ''default'', ''dev'', i] s = (Inl e1, s)"
    "run_command os ''ip'' [''route'', ''del'', ''default''] s = (Inl e2, s)"
    using run_command_fails [OF assms(1)] assms(2) by metis
  then show ?thesis
    by (simp add: delete_default_route_def with_result_def warn_op_def warn_quiet [OF assms(1)])
qed

lemma delete_shown_default:
  assumes "quiet_failures os" "succeeds (os_exec os ''ip'' [''route'', ''del'', ''default''] s) s0"
  shows "\<exists>rest s1. delete_default_route os Linux i s = (Inr (), s1)
    \<and> succeeds (os_exec os ''ip'' (''route'' # ''del'' # ''default'' # rest) s) s1"
proof (rule run_command_cases [OF assms(1), of "''ip''" "[''route'', ''del'', ''default'', ''dev'', i]" s])
  fix s1
  assume "run_command os ''ip'' [''route'', ''del'', ''default'', ''dev'', i] s = (Inr (), s1)"
    "succeeds (os_exec os ''ip'' [''route'', ''del'', ''default'', ''dev'', i] s) s1"
  then show ?thesis by (auto simp: delete_default_route_def with_result_def return_op_def)
next
  fix e
  assume "run_command os ''ip'' [''route'', ''del'', ''default'', ''dev'', i] s = (Inl e, s)"
  moreover have "run_command os ''ip'' [''route'', ''del'', ''default''] s = (Inr (), s0)"
    using assms(2) by (simp add: run_command_succeeds)
  ultimately have "delete_default_route os Linux i s = (Inr (), s0)"
    by (simp add: delete_default_route_def with_result_def return_op_def)
  with assms(2) show ?thesis by blast
qed

lemma delete_added_default:
  assumes "deletes_undo_adds os" "succeeds (os_exec os ''ip'' [''route'', ''add'', ''default'', ''dev'', i] s) s1"
  shows "delete_default_route os Linux i s1 = (Inr (), s)"
proof -
  have "rollback_args_for_command ''ip'' [''route'', ''add'', ''default'', ''dev'', i]
      = Some [''route'', ''del'', ''default'', ''dev'', i]"
    by (simp add: rollback_args_for_command_def)
  with assms have "succeeds (os_exec os ''ip'' [''route'', ''del'', ''default'', ''dev'', i] s1) s"
    unfolding deletes_undo_adds_def undoes_def by blast
  then show ?thesis by (simp add: delete_default_route_def with_result_def return_op_def run_command_succeeds [symmetric])
qed

text \<open>The two parts of the exchange: what was captured brings back the route that was deleted.\<close>

lemma capture_and_delete:
  assumes "well_behaved os" "default_route_laws os" "capture_default_route os Linux s = (Inr restore, s1)"
  shows "s1 = s \<and> (\<exists>s2. delete_default_route os Linux i s = (Inr (), s2)
    \<and> (case restore of None \<Rightarrow> s2 = s | Some (p, args) \<Rightarrow> succeeds (os_exec os p args s2) s))"
proof -
  have quiet: "quiet_failures os" using assms(1) by (simp add: well_behaved_def)
  from assms(3) obtain out where x: "os_exec os ''ip'' [''route'', ''show'', ''default''] s = (Inr out, s1)"
    by (auto simp: capture_default_route_def capture_linux_default_route_def split: if_splits)
  from assms(2) have law: "case os_exec os ''ip'' [''route'', ''show'', ''default''] s of
        (Inl e, s') \<Rightarrow> s' = s
      | (Inr out, s') \<Rightarrow> s' = s \<and> out_success out \<and>
          (case str_lines (from_utf8_lossy (out_stdout out)) of
             [] \<Rightarrow> \<forall>rest s1. \<not> succeeds (os_exec os ''ip'' (''route'' # ''del'' # ''default'' # rest) s) s1
           | line # _ \<Rightarrow> trim line \<noteq> []
               \<and> (\<exists>s1. succeeds (os_exec os ''ip'' [''route'', ''del'', ''default''] s) s1)
               \<and> (\<forall>rest s1. succeeds (os_exec os ''ip'' (''route'' # ''del'' # ''default'' # rest) s) s1 \<longrightarrow>
                    succeeds (os_exec os ''ip'' ([''route'', ''add''] @ split_whitespace (trim line)) s1) s))"
    unfolding default_route_laws_def by (rule spec)
  have s1: "s1 = s" "out_success out" using law by (simp_all add: x)
  have r: "restore = map_option (\<lambda>args. (''ip'', args)) (parse_linux_default_route (from_utf8_lossy (out_stdout out)))"
    using assms(3) x s1 by (simp add: capture_default_route_def capture_linux_default_route_def)
  show ?thesis
  proof (cases "str_lines (from_utf8_lossy (out_stdout out))")
    case Nil
    then have "delete_default_route os Linux i s = (Inr (), s)"
      using law by (intro delete_no_default [OF quiet]) (simp add: x)
    with Nil r s1 show ?thesis by (simp add: parse_linux_default_route_def)
  next
    case (Cons line ls)
    with law obtain s0 where d: "trim line \<noteq> []" "succeeds (os_exec os ''ip'' [''route'', ''del'', ''default''] s) s0"
      and restores: "\<And>rest s1. succeeds (os_exec os ''ip'' (''route'' # ''del'' # ''default'' # rest) s) s1 \<Longrightarrow>
         succeeds (os_exec os ''ip'' ([''route'', ''add''] @ split_whitespace (trim line)) s1) s"
      by (auto simp: x)
    from Cons r d(1) have "restore = Some (''ip'', [''route'', ''add''] @ split_whitespace (trim line))"
      by (simp add: parse_linux_default_route_def Let_def)
    with delete_shown_default [OF quiet d(2), of i] restores s1 show ?thesis by fastforce
  qed
qed

lemma default_route_outcome:
  assumes "well_behaved os" "default_route_laws os" "apply_default_route os Linux i applied s = (r, s')"
  shows "case r of Inr applied' \<Rightarrow> undone_step os applied s applied' s' | Inl e \<Rightarrow> s' = s"
proof -
  have laws: "quiet_failures os" "deletes_undo_adds os" using assms(1) by (simp_all add: well_behaved_def)
  obtain c s1 where c: "capture_default_route os Linux s = (c, s1)" by fastforce
  show ?thesis
  proof (cases c)
    case (Inl e)
    then have "s1 = s"
      using c assms(2) [unfolded default_route_laws_def, rule_format, of s]
      by (auto simp: capture_default_route_def capture_linux_default_route_def bind_op_Inl io_op_Inl split: if_splits)
    with Inl c assms(3) show ?thesis by (auto simp: apply_default_route_def bind_op_def)
  next
    case (Inr restore)
    from capture_and_delete [OF assms(1,2), of s restore s1 i] c Inr obtain s2 where s1: "s1 = s"
      and d: "delete_default_route os Linux i s = (Inr (), s2)"
      and restores: "case restore of None \<Rightarrow> s2 = s | Some (p, args) \<Rightarrow> succeeds (os_exec os p args s2) s"
      by blast
    show ?thesis
    proof (rule run_command_cases [OF laws(1), of "''ip''" "[''route'', ''add'', ''default'', ''dev'', i]" s2])
      fix s3
      assume add: "run_command os ''ip'' [''route'', ''add'', ''default'', ''dev'', i] s2 = (Inr (), s3)"
        "succeeds (os_exec os ''ip'' [''route'', ''add'', ''default'', ''dev'', i] s2) s3"
      then have r: "r = Inr (applied @ [DefaultRoute Linux i restore])" "s' = s3"
        using assms(3) c Inr s1 d
        by (auto simp: apply_default_route_def bind_op_def add_default_route_def with_result_def return_op_def)
      have "undo_action os (DefaultRoute Linux i restore) s3 = (Inr (Inr ()), s)"
        using delete_added_default [OF laws(2) add(2)] restores
        by (auto simp: undo_action_def rollback_default_route_def bind_op_def with_result_def return_op_def
            run_command_succeeds [symmetric] split: option.splits)
      with r show ?thesis by (simp add: undone_step_def)
    next
      fix e
      assume "run_command os ''ip'' [''route'', ''add'', ''default'', ''dev'', i] s2 = (Inl e, s2)"
      then show ?thesis
        using assms(3) c Inr s1 d restores
        by (cases restore)
          (auto simp: apply_default_route_def bind_op_def add_default_route_def with_result_def return_op_def
            fail_op_def run_command_succeeds [symmetric])
    qed
  qed
qed

subsection \<open>The outcome of a plan\<close>

text \<open>The actions of a plan that are taken back: those of a rollback, and on Linux the replaced
  default route. A wrong route to the gateway, which only the beginning of a plan drops, is
  dropped for good.\<close>

fun reversible :: "network_action \<Rightarrow> bool" where
  "reversible (ReplaceDefaultRoute plat interface) \<longleftrightarrow> plat = Linux"
| "reversible a \<longleftrightarrow> undoable a"

fun kept :: "network_plan \<Rightarrow> network_plan" where
  "kept (DropWrongTunnelRoute plat endpoint interface # plan) = kept plan"
| "kept plan = plan"

fun dropped :: "'s os_ops \<Rightarrow> network_plan \<Rightarrow> 's \<Rightarrow> 's" where
  "dropped os (DropWrongTunnelRoute plat endpoint interface # plan) s =
     dropped os plan (snd (drop_wrong_tunnel_route os plat endpoint interface s))"
| "dropped os plan s = s"

lemma apply_kept: "apply_loop os options plan applied s = apply_loop os options (kept plan) applied (dropped os plan s)"
  by (induction os plan s rule: dropped.induct)
    (auto simp: apply_action_def with_result_def return_op_def split: prod.splits)

text \<open>What one action does: a success that the recorded action takes back, or a failure that
  changes nothing; only the failure of a command leaves the loop at once.\<close>

lemma apply_action_outcome:
  assumes "well_behaved os" "default_route_laws os" "reversible a" "apply_action os options a applied s = (r, s')"
  shows "case r of
      Inr (Inr applied') \<Rightarrow> undone_step os applied s applied' s'
    | Inr (Inl e) \<Rightarrow> s' = s
    | Inl e \<Rightarrow> s' = s \<and> (\<exists>p args. a = RunCommand p args \<and> run_command os p args s = (Inl e, s))"
proof (cases a)
  case (DropWrongTunnelRoute plat endpoint interface)
  with assms(3) show ?thesis by simp
next
  case (ReplaceDefaultRoute plat interface)
  with assms(3) have [simp]: "plat = Linux" by simp
  from ReplaceDefaultRoute assms(4) obtain x where "r = Inr x" "apply_default_route os Linux interface applied s = (x, s')"
    by (auto simp: apply_action_def with_result_def return_op_def split: prod.splits)
  with default_route_outcome [OF assms(1,2)] show ?thesis by (auto split: sum.split)
next
  case (RunCommand p args)
  show ?thesis
  proof (cases r)
    case (Inl e)
    with RunCommand assms(4) have "run_command os p args s = (Inl e, s')"
      by (auto simp: apply_action_def bind_op_Inl)
    with Inl RunCommand run_command_failure assms(1) show ?thesis by (fastforce simp: well_behaved_def)
  next
    case (Inr x)
    with RunCommand assms(4) obtain applied' where "x = Inr applied'" by (auto simp: apply_action_def)
    with Inr RunCommand assms(3,4) apply_action_undone [OF assms(1), of a options applied s applied' s']
    show ?thesis by simp
  qed
next
  case (ProtectTunnelRoute plat endpoint)
  with assms(4) obtain x where x: "r = Inr x" "protect_tunnel_route os plat endpoint applied s = (x, s')"
    by (auto simp: apply_action_def with_result_def return_op_def split: prod.splits)
  with protect_undone [OF assms(1)] protect_failure [OF assms(1)] show ?thesis by (auto split: sum.split)
next
  case (ConfigureDns plat interface servers search_domain)
  with assms(3) have l: "plat = Linux" "plain_dns servers search_domain" by simp_all
  with ConfigureDns assms(4) obtain x where x: "r = Inr x"
    "apply_dns os Linux interface servers search_domain options applied s = (x, s')"
    by (auto simp: apply_action_def with_result_def return_op_def split: prod.splits)
  with apply_dns_undone [OF assms(1) l(2)] apply_dns_failure [OF assms(1)] show ?thesis by (auto split: sum.split)
qed

text \<open>A command of the plan fails after the actions before it have been applied: they stay.\<close>

definition command_failed ::
  "'s os_ops \<Rightarrow> apply_options \<Rightarrow> network_plan \<Rightarrow> applied_network_plan \<Rightarrow> 's \<Rightarrow> error \<Rightarrow> 's \<Rightarrow> bool" where
  "command_failed os options plan applied s e s' \<longleftrightarrow>
     (\<exists>before p args after applied'. plan = before @ RunCommand p args # after
        \<and> apply_loop os options before applied s = (Inr applied', s')
        \<and> run_command os p args s' = (Inl e, s'))"

lemma command_failed_Cons:
  assumes "apply_action os options a applied s = (Inr (Inr applied1), s1)"
    and "command_failed os options plan applied1 s1 e s'"
  shows "command_failed os options (a # plan) applied s e s'"
proof -
  from assms(2) obtain before p args after applied' where c: "plan = before @ RunCommand p args # after"
    "apply_loop os options before applied1 s1 = (Inr applied', s')" "run_command os p args s' = (Inl e, s')"
    unfolding command_failed_def by blast
  then have "a # plan = (a # before) @ RunCommand p args # after"
    "apply_loop os options (a # before) applied s = (Inr applied', s')"
    using assms(1) by simp_all
  with c(3) show ?thesis unfolding command_failed_def by blast
qed

lemma apply_loop_outcome:
  assumes "well_behaved os" "default_route_laws os" "list_all reversible plan"
    and "rollback os applied s = (Inr (), s0)" "apply_loop os options plan applied s = (r, s')"
  shows "case r of
      Inr applied' \<Rightarrow> rollback os applied' s' = (Inr (), s0)
    | Inl e \<Rightarrow> s' = s0 \<or> command_failed os options plan applied s e s'"
  using assms(3-)
proof (induction plan arbitrary: applied s)
  case Nil
  then show ?case by (auto split: sum.split)
next
  case (Cons a plan)
  obtain x s1 where a: "apply_action os options a applied s = (x, s1)" by fastforce
  have out: "case x of
      Inr (Inr applied') \<Rightarrow> undone_step os applied s applied' s1
    | Inr (Inl e) \<Rightarrow> s1 = s
    | Inl e \<Rightarrow> s1 = s \<and> (\<exists>p args. a = RunCommand p args \<and> run_command os p args s = (Inl e, s))"
    using apply_action_outcome [OF assms(1,2) _ a] Cons.prems(1) by simp
  consider e where "x = Inl e" | e where "x = Inr (Inl e)" | applied1 where "x = Inr (Inr applied1)"
    by (metis sum.exhaust)
  then show ?case
  proof cases
    case (1 e)
    with out obtain p args where c: "s1 = s" "a = RunCommand p args" "run_command os p args s = (Inl e, s)" by auto
    then have "command_failed os options (a # plan) applied s e s"
      unfolding command_failed_def
      by (intro exI [of _ "[]"] exI [of _ p] exI [of _ args] exI [of _ plan] exI [of _ applied]) simp
    with 1 c a Cons.prems(3) show ?thesis by auto
  next
    case (2 e)
    with out a Cons.prems(2,3) show ?thesis by auto
  next
    case (3 applied1)
    with out have "rollback os applied1 s1 = (Inr (), s0)"
      using rollback_undone_step [of os applied s applied1 s1 s0] Cons.prems(2) by simp
    with Cons 3 a have "case r of
        Inr applied' \<Rightarrow> rollback os applied' s' = (Inr (), s0)
      | Inl e \<Rightarrow> s' = s0 \<or> command_failed os options plan applied1 s1 e s'"
      by simp
    with command_failed_Cons [OF a [unfolded 3]] show ?thesis by (auto split: sum.splits)
  qed
qed

lemma apply_plan_outcome:
  assumes "well_behaved os" "default_route_laws os" "list_all reversible (kept plan)"
    and "apply_network_plan os plan options s = (r, s')"
  shows "case r of
      Inr applied \<Rightarrow> rollback os applied s' = (Inr (), dropped os plan s)
    | Inl e \<Rightarrow> s' = dropped os plan s \<or> command_failed os options (kept plan) [] (dropped os plan s) e s'"
proof -
  have "rollback os [] (dropped os plan s) = (Inr (), dropped os plan s)" by (simp add: rollback_def)
  from apply_loop_outcome [OF assms(1-3) this] assms(4) show ?thesis
    by (simp add: apply_network_plan_def apply_kept [of os options plan])
qed

text \<open>C22. What a plan that fails leaves behind: on a machine as for the rollback, whose default
  route can be replaced, either everything that the plan had applied has been undone, and
  the machine is as it was but for a wrong route to the gateway, which the beginning of the
  plan drops for good; or it was a command of the plan that failed, and then the actions
  before it stay applied.\<close>

theorem failed_plan_is_undone:
  assumes "well_behaved os" "default_route_laws os" "list_all reversible (kept plan)"
    and "apply_network_plan os plan options s = (Inl e, s')"
  shows "s' = dropped os plan s
    \<or> (\<exists>before p args after applied. kept plan = before @ RunCommand p args # after
        \<and> apply_network_plan os before options (dropped os plan s) = (Inr applied, s')
        \<and> run_command os p args s' = (Inl e, s'))"
  using apply_plan_outcome [OF assms] by (simp add: command_failed_def apply_network_plan_def)

text \<open>On Linux the plans of the program are of this kind.\<close>

lemma kept_reversible: "list_all reversible plan \<Longrightarrow> kept plan = plan"
  by (cases plan rule: kept.cases) simp_all

lemma planned_reversible:
  assumes "set_dns cfg \<Longrightarrow> plain_dns (dns_servers vpn) (dns_suffix vpn)"
  shows "list_all reversible (kept (plan_network_actions cfg vpn Linux interface endpoint))"
proof -
  have route: "reversible (route_action_from_parts d m g Linux interface)" for d m g
    by (simp add: route_action_from_parts_def rollback_args_for_command_def Let_def)
  have routes: "list_all reversible (plan_routes (split_routes vpn) (half_internet_routes cfg) (gateway vpn) Linux interface)"
    using route by (auto simp: plan_routes_def list_all_iff List.map_filter_def route_action_def split: option.splits)
  let ?rest = "(if set_routes cfg then plan_routes (split_routes vpn) (half_internet_routes cfg) (gateway vpn) Linux interface
      else []) @ (if set_dns cfg \<and> (dns_servers vpn \<noteq> [] \<or> dns_suffix vpn \<noteq> None)
        then [ConfigureDns Linux interface (dns_servers vpn) (dns_suffix vpn)] else [])"
  have rest: "list_all reversible ?rest" using routes assms by simp
  have "kept (plan_network_actions cfg vpn Linux interface endpoint) = ?rest
      \<or> (\<exists>e. kept (plan_network_actions cfg vpn Linux interface endpoint) = ProtectTunnelRoute Linux e # ?rest)"
    using kept_reversible [OF rest] by (cases endpoint) (auto simp: plan_network_actions_def)
  with rest show ?thesis by (auto simp del: append.simps)
qed

text \<open>With a plain command it is different: its failure returns at once, without undoing the
  actions before it.\<close>

lemma failed_command_not_undone:
  assumes "apply_loop os options before [] s = (Inr applied, s1)"
    and "run_command os p args s1 = (Inl e, s2)"
  shows "apply_network_plan os (before @ RunCommand p args # after) options s = (Inl e, s2)"
proof -
  have "apply_loop os options (before @ RunCommand p args # after) acc t = (Inl e, s2)"
    if "apply_loop os options before acc t = (Inr applied, s1)" for acc t
    using that
  proof (induction before arbitrary: acc t)
    case Nil
    with assms(2) show ?case by (simp add: apply_action_def bind_op_def)
  next
    case (Cons a before)
    then show ?case by (auto split: prod.splits sum.splits)
  qed
  with assms(1) show ?thesis by (simp add: apply_network_plan_def)
qed

section \<open>A machine\<close>

text \<open>A small machine with at most one default route, a list of other routes and a resolver
  file, on which the laws hold. A default route with tokens that cannot be printed is not
  shown.\<close>

record machine =
  m_default :: "string list option"
  m_routes :: "string list list"
  m_file :: bytes

definition output_ok :: "string \<Rightarrow> io_error + cmd_output" where
  "output_ok out = Inr \<lparr>out_success = True, out_status = ''exit status: 0'', out_stdout = as_bytes out, out_stderr = []\<rparr>"

definition output_failed :: "string \<Rightarrow> io_error + cmd_output" where
  "output_failed err = Inr \<lparr>out_success = False, out_status = ''exit status: 2'', out_stdout = [], out_stderr = as_bytes err\<rparr>"

fun remove_route :: "string list \<Rightarrow> string list list \<Rightarrow> (string list list) option" where
  "remove_route r [] = None"
| "remove_route r (x # xs) = (if starts_with x r then Some xs else map_option (Cons x) (remove_route r xs))"

definition printable :: "string list \<Rightarrow> bool" where
  "printable r \<longleftrightarrow> (let l = join '' '' r in
     list_all (\<lambda>c. code c < 128) l \<and> str_lines l = [l] \<and> trim l = l \<and> l \<noteq> [] \<and> split_whitespace l = r)"

definition machine_add :: "string list \<Rightarrow> machine \<Rightarrow> (io_error + cmd_output) \<times> machine" where
  "machine_add r m =
     (if hd r = ''default'' then
        if m_default m \<noteq> None then (output_failed ''RTNETLINK answers: File exists'', m)
        else (output_ok [], m\<lparr>m_default := Some r\<rparr>)
      else if list_ex (\<lambda>x. starts_with x [hd r]) (m_routes m) then (output_failed ''RTNETLINK answers: File exists'', m)
      else (output_ok [], m\<lparr>m_routes := r # m_routes m\<rparr>))"

definition machine_del :: "string list \<Rightarrow> machine \<Rightarrow> (io_error + cmd_output) \<times> machine" where
  "machine_del r m =
     (if hd r = ''default'' then
        (case m_default m of
           None \<Rightarrow> (output_failed ''RTNETLINK answers: No such process'', m)
         | Some d \<Rightarrow> if starts_with d r then (output_ok [], m\<lparr>m_default := None\<rparr>)
                    else (output_failed ''RTNETLINK answers: No such process'', m))
      else
        (case remove_route r (m_routes m) of
           None \<Rightarrow> (output_failed ''RTNETLINK answers: No such process'', m)
         | Some rs \<Rightarrow> (output_ok [], m\<lparr>m_routes := rs\<rparr>)))"

definition machine_show :: "string list \<Rightarrow> machine \<Rightarrow> (io_error + cmd_output) \<times> machine" where
  "machine_show r m =
     (if r = [''default''] then
        (case m_default m of
           None \<Rightarrow> (output_ok [], m)
         | Some d \<Rightarrow> if hd d = ''default'' \<and> d \<noteq> [] \<and> printable d then (output_ok (join '' '' d), m)
                    else (Inl (IoError OtherKind ''not printable''), m))
      else (output_ok (join NL (map (join '' '') (filter (\<lambda>x. starts_with x r) (m_routes m)))), m))"

definition machine_exec :: "string \<Rightarrow> string list \<Rightarrow> machine \<Rightarrow> (io_error + cmd_output) \<times> machine" where
  "machine_exec p args m =
     (if p = ''ip'' \<and> 3 \<le> length args \<and> args ! 0 = ''route'' then
        (let r = drop 2 args in
         if args ! 1 = ''add'' then machine_add r m
         else if args ! 1 = ''del'' then machine_del r m
         else if args ! 1 = ''show'' then machine_show r m
         else if args ! 1 = ''get'' then (output_ok (hd r @ '' via 192.168.0.1 dev eth0''), m)
         else (output_failed ''unknown command'', m))
      else (Inl (IoError NotFound ''No such file or directory''), m))"

lemmas machine_exec_defs = machine_exec_def machine_add_def machine_del_def machine_show_def

definition machine_os :: "machine os_ops" where
  "machine_os =
     \<lparr>os_exec = machine_exec,
      os_exec_stdin = (\<lambda>p args b m. (Inl (IoError NotFound ''No such file or directory''), m)),
      os_read = (\<lambda>f m. if f = RESOLV_CONF_PATH \<and> text_file (m_file m) then (Inr (m_file m), m)
                       else (Inl (IoError NotFound ''No such file or directory''), m)),
      os_write = (\<lambda>f c m. if f = RESOLV_CONF_PATH \<and> text_file c then (Inr (), m\<lparr>m_file := c\<rparr>)
                          else (Inl (IoError PermissionDeniedKind ''Permission denied''), m)),
      os_exists = (\<lambda>f m. False), os_is_file = (\<lambda>f m. False), os_path = None, os_warn = (\<lambda>t m. m)\<rparr>"

lemma machine_exec_undo:
  assumes "succeeds (machine_exec ''ip'' (''route'' # ''add'' # d # rest) m) m'" "starts_with (d # rest) r" "r \<noteq> []"
  shows "succeeds (machine_exec ''ip'' (''route'' # ''del'' # r) m') m"
proof -
  have h: "hd r = d" using assms(2,3) by (cases r) (auto simp: starts_with_def)
  have "m' = (if d = ''default'' then m\<lparr>m_default := Some (d # rest)\<rparr> else m\<lparr>m_routes := (d # rest) # m_routes m\<rparr>)"
    "d = ''default'' \<longrightarrow> m_default m = None"
    using assms(1) by (auto simp: machine_exec_defs succeeds_def output_failed_def split: if_splits)
  with assms(2,3) h show ?thesis
    by (cases m; cases r) (auto simp: machine_exec_defs succeeds_def output_ok_def)
qed

lemma machine_default_route: "default_route_laws machine_os"
  unfolding default_route_laws_def
proof
  fix m
  show "case os_exec machine_os ''ip'' [''route'', ''show'', ''default''] m of
        (Inl e, s') \<Rightarrow> s' = m
      | (Inr out, s') \<Rightarrow> s' = m \<and> out_success out \<and>
          (case str_lines (from_utf8_lossy (out_stdout out)) of
             [] \<Rightarrow> \<forall>rest s1. \<not> succeeds (os_exec machine_os ''ip'' (''route'' # ''del'' # ''default'' # rest) m) s1
           | line # _ \<Rightarrow> trim line \<noteq> []
               \<and> (\<exists>s1. succeeds (os_exec machine_os ''ip'' [''route'', ''del'', ''default''] m) s1)
               \<and> (\<forall>rest s1. succeeds (os_exec machine_os ''ip'' (''route'' # ''del'' # ''default'' # rest) m) s1 \<longrightarrow>
                    succeeds (os_exec machine_os ''ip'' ([''route'', ''add''] @ split_whitespace (trim line)) s1) m))"
  proof (cases "m_default m")
    case None
    then show ?thesis
      by (simp add: machine_os_def machine_exec_defs output_ok_def output_failed_def succeeds_def from_utf8_lossy_def
          codec_simps)
  next
    case (Some d)
    show ?thesis
    proof (cases "hd d = ''default'' \<and> d \<noteq> [] \<and> printable d")
      case False
      with Some show ?thesis by (auto simp: machine_os_def machine_exec_defs)
    next
      case True
      then obtain rest where d: "d = ''default'' # rest" by (cases d) auto
      let ?l = "join '' '' d"
      have l: "from_utf8_lossy (as_bytes ?l) = ?l" "str_lines ?l = [?l]" "trim ?l = ?l" "?l \<noteq> []" "split_whitespace ?l = d"
        using True by (auto simp: printable_def Let_def from_utf8_lossy_def codec_simps utf8_lossy_ascii list_all_iff)
      show ?thesis
        using Some True l d
        by (cases m) (auto simp: machine_os_def machine_exec_defs output_ok_def output_failed_def succeeds_def
            starts_with_def split: if_splits)
    qed
  qed
qed

lemma machine_deletes_undo_adds: "deletes_undo_adds machine_os"
proof -
  have a: "undoes machine_os p args undo" if rb: "rollback_args_for_command p args = Some undo" for p args undo
  proof (cases "p = ''ip''")
    case True
    with rb have form: "3 \<le> length args" "args ! 0 = ''route''" "args ! 1 = ''add''" "undo = args[1 := ''del'']"
      by (auto simp: rollback_args_for_command_def ends_with_def starts_with_def split: if_splits)
    then obtain d rest where args: "args = ''route'' # ''add'' # d # rest"
      by (cases args; cases "tl args"; cases "tl (tl args)") auto
    with form have "undo = ''route'' # ''del'' # d # rest" by simp
    with args True machine_exec_undo [of d rest _ _ "d # rest"] show ?thesis
      by (auto simp: undoes_def machine_os_def starts_with_def)
  next
    case False
    then show ?thesis by (simp add: undoes_def machine_os_def machine_exec_def succeeds_def)
  qed
  have "undoes machine_os ''ip'' (''route'' # ''add'' # d # rest) [''route'', ''del'', d]" for d rest
    using machine_exec_undo [of d rest _ _ "[d]"] by (auto simp: undoes_def machine_os_def starts_with_def)
  moreover have "undoes machine_os ''/sbin/route'' (''add'' # ''-host'' # d # rest) [''delete'', ''-host'', d]" for d rest
    by (simp add: undoes_def machine_os_def machine_exec_def succeeds_def)
  ultimately show ?thesis using a unfolding deletes_undo_adds_def by blast
qed

lemma machine_well_behaved: "well_behaved machine_os"
proof -
  have "quiet_failures machine_os"
    by (auto simp: quiet_failures_def machine_os_def machine_exec_defs succeeds_def output_ok_def Let_def
        split: if_splits option.splits)
  moreover have "pure_queries machine_os"
    by (simp add: pure_queries_def machine_os_def machine_exec_def Let_def)
  moreover have "resolvconf_undone machine_os"
    by (simp add: resolvconf_undone_def machine_os_def succeeds_def)
  moreover have "resolver_file machine_os"
    by (auto simp: resolver_file_def machine_os_def split: if_splits)
  ultimately show ?thesis using machine_deletes_undo_adds by (simp add: well_behaved_def)
qed

definition sample_machine :: machine where
  "sample_machine = \<lparr>m_default = Some [''default'', ''via'', ''192.168.0.1''], m_routes = [], m_file = []\<rparr>"

definition sample_plan :: network_plan where
  "sample_plan =
     [ProtectTunnelRoute Linux (Ipv4Addr 1 2 3 4),
      RunCommand ''ip'' [''route'', ''add'', ''10.0.0.0/8'', ''via'', ''10.0.0.1'', ''dev'', ''ppp0''],
      ConfigureDns Linux ''ppp0'' [''9.9.9.9''] None]"

theorem rollback_restores_machine_witness:
  "rollback machine_os
     [ProtectedTunnelRoute ''ip'' [''route'', ''del'', ''1.2.3.4/32''],
      AppliedCommand ''ip'' [''route'', ''del'', ''10.0.0.0/8'', ''via'', ''10.0.0.1'', ''dev'', ''ppp0''],
      ResolvConfFile [''nameserver 9.9.9.9'']]
     \<lparr>m_default = Some [''default'', ''via'', ''192.168.0.1''],
      m_routes = [[''10.0.0.0/8'', ''via'', ''10.0.0.1'', ''dev'', ''ppp0''],
        [''1.2.3.4/32'', ''via'', ''192.168.0.1'', ''dev'', ''eth0'']],
      m_file = as_bytes (''nameserver 9.9.9.9'' @ NL)\<rparr>
   = (Inr (), sample_machine)"
proof (rule rollback_restores_machine [OF machine_well_behaved, of sample_plan apply_options_default])
  show "list_all undoable sample_plan" by code_simp
qed code_simp

text \<open>A machine with a wrong route to the gateway and a resolver file that is no text file: the
  plan drops the wrong route, protects the gateway, adds a route, replaces the default route
  and then fails to set the resolver.\<close>

definition failing_plan :: network_plan where
  "failing_plan =
     [DropWrongTunnelRoute Linux (Ipv4Addr 1 2 3 4) ''ppp0'', ProtectTunnelRoute Linux (Ipv4Addr 1 2 3 4),
      RunCommand ''ip'' [''route'', ''add'', ''10.0.0.0/8'', ''via'', ''10.0.0.1'', ''dev'', ''ppp0''],
      ReplaceDefaultRoute Linux ''ppp0'', ConfigureDns Linux ''ppp0'' [''10.0.0.53''] None]"

definition failing_machine :: machine where
  "failing_machine =
     \<lparr>m_default = Some [''default'', ''via'', ''192.168.0.1''], m_routes = [[''1.2.3.4/32'', ''dev'', ''ppp0'']], m_file = [120]\<rparr>"

lemma failing_plan_fails:
  "apply_network_plan machine_os failing_plan apply_options_default failing_machine
     = (Inl (Io (IoError NotFound ''No such file or directory'')), failing_machine\<lparr>m_routes := []\<rparr>)"
  by code_simp

lemma failing_plan_dropped: "dropped machine_os failing_plan failing_machine = failing_machine\<lparr>m_routes := []\<rparr>"
  by code_simp

lemma failing_command_works:
  "fst (run_command machine_os ''ip'' [''route'', ''add'', ''10.0.0.0/8'', ''via'', ''10.0.0.1'', ''dev'', ''ppp0'']
     (failing_machine\<lparr>m_routes := []\<rparr>)) = Inr ()"
  by code_simp

theorem failed_plan_is_undone_witness:
  "snd (apply_network_plan machine_os failing_plan apply_options_default failing_machine)
     = dropped machine_os failing_plan failing_machine"
proof -
  have r: "list_all reversible (kept failing_plan)" by code_simp
  have only: "p = ''ip'' \<and> args = [''route'', ''add'', ''10.0.0.0/8'', ''via'', ''10.0.0.1'', ''dev'', ''ppp0'']"
    if "kept failing_plan = before @ RunCommand p args # after" for before p args after
  proof -
    have "RunCommand p args \<in> set (kept failing_plan)" using that by simp
    then show ?thesis by (simp add: failing_plan_def)
  qed
  from failed_plan_is_undone [OF machine_well_behaved machine_default_route r failing_plan_fails]
  have "failing_machine\<lparr>m_routes := []\<rparr> = dropped machine_os failing_plan failing_machine"
  proof (elim disjE exE conjE)
    fix before p args after applied
    assume "kept failing_plan = before @ RunCommand p args # after"
      and fails: "run_command machine_os p args (failing_machine\<lparr>m_routes := []\<rparr>)
        = (Inl (Io (IoError NotFound ''No such file or directory'')), failing_machine\<lparr>m_routes := []\<rparr>)"
    from only [OF this(1)] fails failing_command_works show ?thesis by simp
  qed
  then show ?thesis by (simp add: failing_plan_fails)
qed

end
