(* ===== verification/Dns.thy ===== *)
theory Dns
  imports Rust_Str
begin

text \<open>
  DNS over TCP as proxy mode uses it (\<open>src/proxy/dns.rs\<close>): the query for the IPv4 addresses
  of a name and the reader of the response. Every access to the message goes through
  \<open>index\<close> or \<open>slice\<close>, so that an access out of range would be the value \<open>Panic\<close>.

  Shown here: the reader never panics on any bytes and for any name, and it reads the
  addresses from a response to the program's own query, skipping records of other kinds.
\<close>

definition DNS_TYPE_A :: u16 where "DNS_TYPE_A = 1"
definition DNS_CLASS_IN :: u16 where "DNS_CLASS_IN = 1"
definition DNS_HEADER_LEN :: nat where "DNS_HEADER_LEN = 12"

section \<open>Queries\<close>

fun encode_labels :: "string \<Rightarrow> string list \<Rightarrow> bytes res" where
  "encode_labels name [] = Inr []"
| "encode_labels name (label # labels) =
     (if label = [] \<or> 63 < length label then Inl (Network (''bad DNS label in '' @ name))
      else and_then (encode_labels name labels) (\<lambda>rest.
        Inr (of_nat (length label) # as_bytes label @ rest)))"

definition encode_name :: "string \<Rightarrow> bytes res" where
  "encode_name name =
     (let trimmed = trim_end_matches (\<lambda>c. c = CHR ''.'') name in
      if trimmed = [] then Inr [0]
      else and_then (encode_labels name (split_on (\<lambda>c. c = CHR ''.'') trimmed)) (\<lambda>out. Inr (out @ [0])))"

definition build_tcp_query :: "u16 \<Rightarrow> string \<Rightarrow> bytes res" where
  "build_tcp_query query_id name =
     and_then (encode_name name) (\<lambda>encoded.
       let msg = u16_to_be_bytes query_id @ u16_to_be_bytes 0x0100 @ u16_to_be_bytes 1
             @ u16_to_be_bytes 0 @ u16_to_be_bytes 0 @ u16_to_be_bytes 0
             @ encoded @ u16_to_be_bytes DNS_TYPE_A @ u16_to_be_bytes DNS_CLASS_IN
       in if 65535 < length msg then Inl (Network (''DNS query for '' @ name @ '' is too large''))
          else Inr (u16_to_be_bytes (of_nat (length msg)) @ msg))"

section \<open>Responses\<close>

function skip_name :: "bytes \<Rightarrow> nat \<Rightarrow> nat \<Rightarrow> (nat res) exec" where
  "skip_name msg offset jumps =
     (if length msg \<le> offset then Return (Inl (Network ''truncated DNS name''))
      else
        bind_exec (index msg offset) (\<lambda>len.
          if len AND 0xc0 = 0xc0 then
            if length msg \<le> offset + 1 then Return (Inl (Network ''truncated DNS name pointer''))
            else Return (Inr (offset + 2))
          else if len = 0 then Return (Inr (offset + 1))
          else if len AND 0xc0 \<noteq> 0 then Return (Inl (Network ''unsupported DNS label encoding''))
          else if 128 < jumps + 1 then Return (Inl (Network ''DNS name too deep''))
          else skip_name msg (offset + (1 + unat len)) (jumps + 1)))"
  by pat_completeness auto
termination
  by (relation "measure (\<lambda>(msg, offset, jumps). length msg - offset)") auto

declare skip_name.simps [simp del]

text \<open>A big-endian number at an offset.\<close>

definition read_u16 :: "bytes \<Rightarrow> nat \<Rightarrow> u16 exec" where
  "read_u16 msg offset =
     bind_exec (index msg offset) (\<lambda>hi.
     bind_exec (index msg (offset + 1)) (\<lambda>lo. Return (u16_from_be_bytes hi lo)))"

fun skip_questions :: "nat \<Rightarrow> bytes \<Rightarrow> nat \<Rightarrow> (nat res) exec" where
  "skip_questions 0 msg offset = Return (Inr offset)"
| "skip_questions (Suc n) msg offset =
     bind_exec (skip_name msg offset 0) (\<lambda>r.
       case r of
         Inl e \<Rightarrow> Return (Inl e)
       | Inr offset \<Rightarrow>
           if length msg < offset + 4 then Return (Inl (Network ''truncated DNS question''))
           else skip_questions n msg (offset + 4))"

definition read_ipv4 :: "bytes \<Rightarrow> nat \<Rightarrow> ipv4_addr exec" where
  "read_ipv4 msg offset =
     bind_exec (index msg offset) (\<lambda>a.
     bind_exec (index msg (offset + 1)) (\<lambda>b.
     bind_exec (index msg (offset + 2)) (\<lambda>c.
     bind_exec (index msg (offset + 3)) (\<lambda>d. Return (Ipv4Addr a b c d)))))"

fun read_answers :: "nat \<Rightarrow> bytes \<Rightarrow> nat \<Rightarrow> ipv4_addr list \<Rightarrow> ((ipv4_addr list) res) exec" where
  "read_answers 0 msg offset addrs = Return (Inr addrs)"
| "read_answers (Suc n) msg offset addrs =
     bind_exec (skip_name msg offset 0) (\<lambda>r.
       case r of
         Inl e \<Rightarrow> Return (Inl e)
       | Inr offset \<Rightarrow>
           if length msg < offset + 10 then Return (Inl (Network ''truncated DNS answer''))
           else
             bind_exec (read_u16 msg offset) (\<lambda>rr_type.
             bind_exec (read_u16 msg (offset + 2)) (\<lambda>cls.
             bind_exec (read_u16 msg (offset + 8)) (\<lambda>rdlen.
               let offset = offset + 10 in
               if length msg < offset + unat rdlen then Return (Inl (Network ''truncated DNS rdata''))
               else if rr_type = DNS_TYPE_A \<and> cls = DNS_CLASS_IN \<and> rdlen = 4 then
                 bind_exec (read_ipv4 msg offset) (\<lambda>a.
                   read_answers n msg (offset + unat rdlen) (addrs @ [a]))
               else read_answers n msg (offset + unat rdlen) addrs))))"

definition parse_message :: "bytes \<Rightarrow> u16 \<Rightarrow> ((ipv4_addr list) res) exec" where
  "parse_message msg expected_id =
     (if length msg < DNS_HEADER_LEN then Return (Inl (Network ''short DNS response''))
      else
        bind_exec (read_u16 msg 0) (\<lambda>msg_id.
          if msg_id \<noteq> expected_id then Return (Inl (Network ''DNS response id mismatch''))
          else
            bind_exec (read_u16 msg 2) (\<lambda>flags.
              if flags AND 0x8000 = 0
              then Return (Inl (Network ''DNS response is not marked as response''))
              else
                let rcode = flags AND 0x000f in
                if rcode \<noteq> 0 then Return (Inl (Network (''DNS response returned rcode '' @ show_word rcode)))
                else
                  bind_exec (read_u16 msg 4) (\<lambda>qdcount.
                  bind_exec (read_u16 msg 6) (\<lambda>ancount.
                  bind_exec (skip_questions (unat qdcount) msg DNS_HEADER_LEN) (\<lambda>r.
                    case r of
                      Inl e \<Rightarrow> Return (Inl e)
                    | Inr offset \<Rightarrow> read_answers (unat ancount) msg offset []))))))"

definition parse_tcp_response :: "bytes \<Rightarrow> u16 \<Rightarrow> ((ipv4_addr list) res) exec" where
  "parse_tcp_response frame expected_id =
     (if length frame < 2 then Return (Inr [])
      else
        bind_exec (read_u16 frame 0) (\<lambda>len.
          if length frame < 2 + unat len then Return (Inr [])
          else bind_exec (slice frame 2 (2 + unat len)) (\<lambda>msg. parse_message msg expected_id)))"

section \<open>No panic\<close>

lemma read_u16_in [slice_simps]:
  "offset + 2 \<le> length msg \<Longrightarrow>
   read_u16 msg offset = Return (u16_from_be_bytes (msg ! offset) (msg ! (offset + 1)))"
  by (simp add: read_u16_def slice_simps)

lemma read_ipv4_in [slice_simps]:
  "offset + 4 \<le> length msg \<Longrightarrow>
   read_ipv4 msg offset = Return (Ipv4Addr (msg ! offset) (msg ! (offset + 1))
     (msg ! (offset + 2)) (msg ! (offset + 3)))"
  by (simp add: read_ipv4_def slice_simps)

lemma skip_name_returns: "\<exists>r. skip_name msg offset jumps = Return r"
proof (induction msg offset jumps rule: skip_name.induct)
  case (1 msg offset jumps)
  show ?case
  proof (cases "length msg \<le> offset")
    case True
    then show ?thesis by (subst skip_name.simps) simp
  next
    case False
    then have i: "index msg offset = Return (msg ! offset)" by (simp add: slice_simps)
    with False "1.IH" show ?thesis by (subst skip_name.simps) auto
  qed
qed

lemma skip_questions_returns: "\<exists>r. skip_questions n msg offset = Return r"
proof (induction n arbitrary: offset)
  case (Suc n)
  obtain r where "skip_name msg offset 0 = Return r" using skip_name_returns by blast
  with Suc show ?case by (cases r) auto
qed simp

lemma read_answers_returns: "\<exists>r. read_answers n msg offset addrs = Return r"
proof (induction n arbitrary: offset addrs)
  case (Suc n)
  obtain r where r: "skip_name msg offset 0 = Return r" using skip_name_returns by blast
  show ?case
  proof (cases r)
    case (Inl e)
    with r show ?thesis by simp
  next
    case (Inr o1)
    show ?thesis
    proof (cases "length msg < o1 + 10")
      case False
      let ?rd = "u16_from_be_bytes (msg ! (o1 + 8)) (msg ! (o1 + 8 + 1))"
      have "read_u16 msg o1 \<noteq> Panic" "read_u16 msg (o1 + 2) \<noteq> Panic"
        "read_u16 msg (o1 + 8) = Return ?rd"
        using False by (simp_all add: slice_simps)
      moreover have "rdlen = 4 \<Longrightarrow> \<not> length msg < o1 + 10 + unat rdlen \<Longrightarrow> read_ipv4 msg (o1 + 10) \<noteq> Panic"
        for rdlen :: u16 by (simp add: slice_simps)
      ultimately show ?thesis
        using r Inr False Suc.IH
        by (cases "read_u16 msg o1"; cases "read_u16 msg (o1 + 2)"; cases "read_ipv4 msg (o1 + 10)")
          (auto simp: Let_def)
    qed (use r Inr in simp)
  qed
qed simp

lemma parse_message_returns: "\<exists>r. parse_message msg expected_id = Return r"
proof (cases "length msg < DNS_HEADER_LEN")
  case False
  then have h: "12 \<le> length msg" by (simp add: DNS_HEADER_LEN_def)
  obtain q where q: "skip_questions (unat (u16_from_be_bytes (msg ! 4) (msg ! 5))) msg DNS_HEADER_LEN = Return q"
    using skip_questions_returns by blast
  show ?thesis
    using h q read_answers_returns
    by (cases q) (auto simp: parse_message_def slice_simps Let_def DNS_HEADER_LEN_def)
qed (simp add: parse_message_def)

lemma tcp_response_returns: "\<exists>r. parse_tcp_response frame expected_id = Return r"
  using parse_message_returns
  by (auto simp: parse_tcp_response_def slice_simps)

text \<open>Reading a DNS response never accesses a byte out of range: for every sequence of
  bytes, however malformed its lengths, counts and names, the reader returns a result.\<close>

theorem dns_response_safe: "\<exists>r. parse_tcp_response frame expected_id = Return r"
  by (rule tcp_response_returns)

section \<open>Responses to the program's queries\<close>

lemma label_length_bits:
  assumes "n \<le> 63"
  shows "(of_nat n :: u8) AND 0xc0 = 0" "unat (of_nat n :: u8) = n"
proof -
  have "list_all (\<lambda>n. (of_nat n :: u8) AND 0xc0 = 0) [0..<64]" by code_simp
  with assms show "(of_nat n :: u8) AND 0xc0 = 0" by (simp add: list_all_iff del: upt_rec_numeral)
  from assms show "unat (of_nat n :: u8) = n" by (simp add: unat_of_nat take_bit_nat_eq_self)
qed

lemma index_append: "index (pre @ b # post) (length pre) = Return b"
  by (simp add: index_def)

lemma skip_labels:
  assumes "encode_labels name labels = Inr out" "jumps + length labels \<le> 128"
  shows "skip_name (pre @ out @ 0 # post) (length pre) jumps = Return (Inr (length pre + length out + 1))"
  using assms
proof (induction labels arbitrary: pre out jumps)
  case Nil
  then show ?case by (subst skip_name.simps) (simp add: index_append)
next
  case (Cons label labels)
  then obtain rest where rest: "encode_labels name labels = Inr rest"
    and out: "out = of_nat (length label) # as_bytes label @ rest" and len: "label \<noteq> []" "length label \<le> 63"
    by (auto split: if_splits)
  let ?l = "of_nat (length label) :: u8"
  let ?pre = "pre @ ?l # as_bytes label"
  note bits = label_length_bits [OF len(2)]
  have ne: "?l \<noteq> 0" using bits(2) len(1) by (metis length_0_conv unat_0)
  have "skip_name (pre @ out @ 0 # post) (length pre) jumps
      = skip_name (?pre @ rest @ 0 # post) (length ?pre) (jumps + 1)"
    using Cons.prems(2) ne bits out
    by (subst skip_name.simps) (simp add: index_append)
  also have "\<dots> = Return (Inr (length ?pre + length rest + 1))"
    using Cons.prems(2) by (intro Cons.IH [OF rest]) simp
  finally show ?case using out by simp
qed

definition name_labels :: "string \<Rightarrow> string list" where
  "name_labels name = split_on (\<lambda>c. c = CHR ''.'') (trim_end_matches (\<lambda>c. c = CHR ''.'') name)"

lemma skip_encoded_name:
  assumes "encode_name name = Inr encoded" "length (name_labels name) \<le> 128"
  shows "skip_name (pre @ encoded @ post) (length pre) 0 = Return (Inr (length pre + length encoded))"
proof (cases "trim_end_matches (\<lambda>c. c = CHR ''.'') name = []")
  case True
  with assms(1) have "encoded = [0]" by (simp add: encode_name_def)
  then show ?thesis by (subst skip_name.simps) (simp add: index_append)
next
  case False
  with assms(1) obtain out where "encode_labels name (name_labels name) = Inr out" "encoded = out @ [0]"
    by (auto simp: encode_name_def name_labels_def)
  with skip_labels [of name "name_labels name" out 0 pre post] assms(2) show ?thesis by simp
qed

text \<open>A record of a response: the name of the question as a pointer, type, class, time to
  live and data.\<close>

datatype dns_record = ARecord u32 ipv4_addr | OtherRecord u16 u32 bytes

fun record_bytes :: "dns_record \<Rightarrow> bytes" where
  "record_bytes (ARecord ttl a) =
     [0xc0, 0x0c] @ u16_to_be_bytes DNS_TYPE_A @ u16_to_be_bytes DNS_CLASS_IN @ u32_to_be_bytes ttl
     @ u16_to_be_bytes 4 @ octets a"
| "record_bytes (OtherRecord rtype ttl rdata) =
     [0xc0, 0x0c] @ u16_to_be_bytes rtype @ u16_to_be_bytes DNS_CLASS_IN @ u32_to_be_bytes ttl
     @ u16_to_be_bytes (of_nat (length rdata)) @ rdata"

fun record_ok :: "dns_record \<Rightarrow> bool" where
  "record_ok (ARecord ttl a) \<longleftrightarrow> True"
| "record_ok (OtherRecord rtype ttl rdata) \<longleftrightarrow> rtype \<noteq> DNS_TYPE_A \<and> length rdata < 65536"

fun record_addrs :: "dns_record \<Rightarrow> ipv4_addr list" where
  "record_addrs (ARecord ttl a) = [a]"
| "record_addrs (OtherRecord rtype ttl rdata) = []"

lemma skip_pointer:
  "skip_name (pre @ 0xc0 # b # post) (length pre) 0 = Return (Inr (length pre + 2))"
  by (subst skip_name.simps) (simp add: index_append)

lemma read_u16_append: "read_u16 (pre @ u16_to_be_bytes w @ post) (length pre) = Return w"
  by (simp add: read_u16_def index_def u16_to_be_bytes_def nth_append codec_simps)

lemma read_answer_fields:
  assumes "msg = pre @ [0xc0, 0x0c] @ u16_to_be_bytes t @ u16_to_be_bytes cls @ u32_to_be_bytes ttl
      @ u16_to_be_bytes l @ rdata @ post" "length rdata = unat l"
  shows "read_answers (Suc n) msg (length pre) addrs =
    (if t = DNS_TYPE_A \<and> cls = DNS_CLASS_IN \<and> l = 4
     then bind_exec (read_ipv4 msg (length pre + 12)) (\<lambda>a.
            read_answers n msg (length pre + 12 + unat l) (addrs @ [a]))
     else read_answers n msg (length pre + 12 + unat l) addrs)"
proof -
  define k where "k = length pre + 2"
  have s: "skip_name msg (length pre) 0 = Return (Inr k)"
    using skip_pointer [of pre] assms(1) by (simp add: k_def)
  have t: "read_u16 msg k = Return t"
    using read_u16_append [of "pre @ [0xc0, 0x0c]" t] assms(1) by (simp add: k_def)
  have c: "read_u16 msg (k + 2) = Return cls"
    using read_u16_append [of "pre @ [0xc0, 0x0c] @ u16_to_be_bytes t" cls] assms(1) by (simp add: k_def add.commute)
  have l: "read_u16 msg (k + 8) = Return l"
    using read_u16_append [of "pre @ [0xc0, 0x0c] @ u16_to_be_bytes t @ u16_to_be_bytes cls @ u32_to_be_bytes ttl" l]
      assms(1) by (simp add: k_def add.commute)
  have n: "k + 10 + unat l \<le> length msg" using assms by (simp add: k_def)
  have k: "length pre + 12 = k + 10" by (simp add: k_def)
  show ?thesis unfolding k using s t c l n by (simp add: Let_def)
qed

lemma unat_4: "unat (4 :: u16) = 4"
  by simp

lemma read_answer_record:
  assumes "record_ok r"
  shows "read_answers (Suc n) (pre @ record_bytes r @ post) (length pre) addrs
    = read_answers n (pre @ record_bytes r @ post) (length pre + length (record_bytes r)) (addrs @ record_addrs r)"
proof (cases r)
  case (ARecord ttl a)
  let ?head = "pre @ [0xc0, 0x0c] @ u16_to_be_bytes DNS_TYPE_A @ u16_to_be_bytes DNS_CLASS_IN @ u32_to_be_bytes ttl
    @ u16_to_be_bytes 4"
  have "read_ipv4 (?head @ octets a @ post) (length ?head) = Return a"
    by (cases a) (simp add: read_ipv4_def index_def nth_append)
  moreover have "length ?head = length pre + 12" by simp
  ultimately have "read_ipv4 (pre @ record_bytes r @ post) (length pre + 12) = Return a"
    using ARecord by simp
  then show ?thesis
    using ARecord read_answer_fields [of "pre @ record_bytes r @ post" pre DNS_TYPE_A DNS_CLASS_IN ttl 4 "octets a" post n addrs]
      unat_4 by (simp add: ac_simps del: read_answers.simps)
next
  case (OtherRecord rtype ttl rdata)
  then have u: "unat (of_nat (length rdata) :: u16) = length rdata"
    using assms by (simp add: unat_u16_of_nat)
  then show ?thesis
    using OtherRecord assms
      read_answer_fields [of "pre @ record_bytes r @ post" pre rtype DNS_CLASS_IN ttl "of_nat (length rdata)" rdata post n addrs]
    by (simp add: ac_simps del: read_answers.simps)
qed

lemma read_answers_records:
  assumes "list_all record_ok rs"
  shows "read_answers (length rs) (pre @ concat (map record_bytes rs)) (length pre) addrs
    = Return (Inr (addrs @ concat (map record_addrs rs)))"
  using assms
proof (induction rs arbitrary: pre addrs)
  case (Cons r rs)
  have "read_answers (length rs) ((pre @ record_bytes r) @ concat (map record_bytes rs)) (length (pre @ record_bytes r))
      (addrs @ record_addrs r) = Return (Inr ((addrs @ record_addrs r) @ concat (map record_addrs rs)))"
    using Cons by (intro Cons.IH) simp
  with read_answer_record [of r "length rs" pre "concat (map record_bytes rs)" addrs] Cons.prems
  show ?case by simp
qed simp

text \<open>The response of a server to a query: the header with the response flag, the question of
  the query, and the records.\<close>

definition response_message :: "u16 \<Rightarrow> bytes \<Rightarrow> dns_record list \<Rightarrow> bytes" where
  "response_message query_id encoded rs =
     u16_to_be_bytes query_id @ u16_to_be_bytes 0x8180 @ u16_to_be_bytes 1 @ u16_to_be_bytes (of_nat (length rs))
     @ u16_to_be_bytes 0 @ u16_to_be_bytes 0
     @ encoded @ u16_to_be_bytes DNS_TYPE_A @ u16_to_be_bytes DNS_CLASS_IN
     @ concat (map record_bytes rs)"

lemma parse_response_message:
  assumes "encode_name name = Inr encoded" "length (name_labels name) \<le> 128"
    and "list_all record_ok rs" "length rs < 65536"
  shows "parse_message (response_message query_id encoded rs) query_id = Return (Inr (concat (map record_addrs rs)))"
proof -
  let ?m = "response_message query_id encoded rs"
  let ?head = "u16_to_be_bytes query_id @ u16_to_be_bytes 0x8180 @ u16_to_be_bytes 1 @ u16_to_be_bytes (of_nat (length rs))
     @ u16_to_be_bytes 0 @ u16_to_be_bytes 0"
  let ?q = "u16_to_be_bytes DNS_TYPE_A @ u16_to_be_bytes DNS_CLASS_IN"
  have "read_u16 ?m 0 = Return query_id"
    using read_u16_append [of "[]" query_id] by (simp add: response_message_def)
  moreover have "read_u16 ?m 2 = Return 0x8180"
    using read_u16_append [of "u16_to_be_bytes query_id" "0x8180"] by (simp add: response_message_def)
  moreover have "read_u16 ?m 4 = Return 1"
    using read_u16_append [of "u16_to_be_bytes query_id @ u16_to_be_bytes 0x8180" 1] by (simp add: response_message_def)
  moreover have "read_u16 ?m 6 = Return (of_nat (length rs))"
    using read_u16_append [of "u16_to_be_bytes query_id @ u16_to_be_bytes 0x8180 @ u16_to_be_bytes 1" "of_nat (length rs)"]
    by (simp add: response_message_def)
  moreover have "skip_name ?m 12 0 = Return (Inr (12 + length encoded))"
    using skip_encoded_name [OF assms(1,2), of ?head] by (simp add: response_message_def)
  then have "skip_questions 1 ?m 12 = Return (Inr (16 + length encoded))"
    by (simp add: response_message_def)
  moreover have "read_answers (length rs) ?m (16 + length encoded) [] = Return (Inr (concat (map record_addrs rs)))"
    using read_answers_records [OF assms(3), of "?head @ encoded @ ?q" "[]"]
    by (simp add: response_message_def)
  moreover have "unat (of_nat (length rs) :: u16) = length rs" using assms(4) by (rule unat_u16_of_nat)
  moreover have "12 \<le> length ?m" by (simp add: response_message_def)
  ultimately show ?thesis
    by (simp add: parse_message_def DNS_HEADER_LEN_def del: skip_questions.simps)
qed

text \<open>C32. A response to the program's own query is understood: when the query for a name with
  at most 128 labels can be built, the reader finds in a response to it exactly the IPv4
  addresses of its records, in order, skipping records of other types.\<close>

theorem dns_query_answered:
  assumes "build_tcp_query query_id name = Inr query" "encode_name name = Inr encoded"
    and "length (name_labels name) \<le> 128" "list_all record_ok rs"
    and "length (response_message query_id encoded rs) < 65536"
  shows "parse_tcp_response
      (u16_to_be_bytes (of_nat (length (response_message query_id encoded rs))) @ response_message query_id encoded rs)
      query_id = Return (Inr (concat (map record_addrs rs)))
    \<and> take (length encoded + 4) (drop 14 query) = take (length encoded + 4) (drop 12 (response_message query_id encoded rs))"
proof -
  let ?m = "response_message query_id encoded rs"
  have "length rs \<le> length (concat (map record_bytes rs))"
  proof (induction rs)
    case (Cons r rs)
    have "1 \<le> length (record_bytes r)" by (cases r) simp_all
    with Cons show ?case by simp
  qed simp
  then have "length rs < 65536" using assms(5) by (simp add: response_message_def)
  note parsed = parse_response_message [OF assms(2-4) this, of query_id]
  have "unat (of_nat (length ?m) :: u16) = length ?m" using assms(5) by (rule unat_u16_of_nat)
  moreover have "read_u16 (u16_to_be_bytes (of_nat (length ?m)) @ ?m) 0 = Return (of_nat (length ?m))"
    using read_u16_append [of "[]" "of_nat (length ?m)" ?m] by simp
  ultimately have "parse_tcp_response (u16_to_be_bytes (of_nat (length ?m)) @ ?m) query_id
      = Return (Inr (concat (map record_addrs rs)))"
    using parsed by (simp add: parse_tcp_response_def slice_simps)
  moreover have "take (length encoded + 4) (drop 14 query) = take (length encoded + 4) (drop 12 ?m)"
    using assms(1,2) by (auto simp: build_tcp_query_def response_message_def Let_def split: if_splits)
  ultimately show ?thesis ..
qed

theorem dns_query_answered_witness:
  "parse_tcp_response
      (u16_to_be_bytes (of_nat (length (response_message 7 [1, 97, 0] [ARecord 0 (Ipv4Addr 10 0 0 1)])))
        @ response_message 7 [1, 97, 0] [ARecord 0 (Ipv4Addr 10 0 0 1)])
      7 = Return (Inr (concat (map record_addrs [ARecord 0 (Ipv4Addr 10 0 0 1)])))
    \<and> take (length [1 :: u8, 97, 0] + 4) (drop 14 [0, 19, 0, 7, 1, 0, 0, 1, 0, 0, 0, 0, 0, 0, 1, 97, 0, 0, 1, 0, 1])
      = take (length [1 :: u8, 97, 0] + 4) (drop 12 (response_message 7 [1, 97, 0] [ARecord 0 (Ipv4Addr 10 0 0 1)]))"
proof (rule dns_query_answered [of 7 "''a''"])
  have e: "encode_name ''a'' = Inr [1, 97, 0]" by code_simp
  then show "encode_name ''a'' = Inr [1, 97, 0]" .
  show "build_tcp_query 7 ''a'' = Inr [0, 19, 0, 7, 1, 0, 0, 1, 0, 0, 0, 0, 0, 0, 1, 97, 0, 0, 1, 0, 1]"
    by (simp add: build_tcp_query_def e u16_to_be_bytes_def DNS_TYPE_A_def DNS_CLASS_IN_def Let_def)
qed (simp_all add: name_labels_def trim_end_matches_def response_message_def)

end
