(* ===== verification/Socks5.thy ===== *)
theory Socks5
  imports Streams Op_Monad
begin

text \<open>
  The SOCKS5 server side of proxy mode (\<open>src/proxy/socks5.rs\<close>): method negotiation, the
  connect request and the replies, on a reader and a writer.

  Shown here: a well-formed request is read as it was sent, in any pieces, leaving what
  follows it in the stream, and an unsupported request is answered with its error code.
\<close>

definition VERSION :: u8 where "VERSION = 0x05"
definition METHOD_NO_AUTH :: u8 where "METHOD_NO_AUTH = 0x00"
definition METHOD_NO_ACCEPTABLE :: u8 where "METHOD_NO_ACCEPTABLE = 0xff"
definition COMMAND_CONNECT :: u8 where "COMMAND_CONNECT = 0x01"
definition ATYP_IPV4 :: u8 where "ATYP_IPV4 = 0x01"
definition ATYP_DOMAIN :: u8 where "ATYP_DOMAIN = 0x03"
definition ATYP_IPV6 :: u8 where "ATYP_IPV6 = 0x04"
definition REPLY_SUCCEEDED :: u8 where "REPLY_SUCCEEDED = 0x00"
definition REPLY_GENERAL_FAILURE :: u8 where "REPLY_GENERAL_FAILURE = 0x01"
definition REPLY_HOST_UNREACHABLE :: u8 where "REPLY_HOST_UNREACHABLE = 0x04"
definition REPLY_COMMAND_NOT_SUPPORTED :: u8 where "REPLY_COMMAND_NOT_SUPPORTED = 0x07"
definition REPLY_ADDRESS_TYPE_NOT_SUPPORTED :: u8 where "REPLY_ADDRESS_TYPE_NOT_SUPPORTED = 0x08"

lemmas socks_consts = VERSION_def METHOD_NO_AUTH_def METHOD_NO_ACCEPTABLE_def COMMAND_CONNECT_def
  ATYP_IPV4_def ATYP_DOMAIN_def ATYP_IPV6_def REPLY_SUCCEEDED_def REPLY_GENERAL_FAILURE_def
  REPLY_HOST_UNREACHABLE_def REPLY_COMMAND_NOT_SUPPORTED_def REPLY_ADDRESS_TYPE_NOT_SUPPORTED_def

datatype socks_target = TargetIpv4 ipv4_addr | TargetDomain string

record socks_connect_request =
  target :: socks_target
  target_port :: u16

record socks_io =
  socks_in :: reader
  socks_out :: writer

section \<open>Reading and writing\<close>

definition socks_read :: "nat \<Rightarrow> (socks_io, bytes) op" where
  "socks_read n = io_op (\<lambda>s. case read_exact n (socks_in s) of (r, i) \<Rightarrow> (r, s\<lparr>socks_in := i\<rparr>))"

text \<open>\<open>write_all\<close> followed by \<open>flush\<close>.\<close>

definition socks_send :: "bytes \<Rightarrow> (socks_io, unit) op" where
  "socks_send bs =
     bind_op (io_op (\<lambda>s. case write_all bs (socks_out s) of (r, w) \<Rightarrow> (r, s\<lparr>socks_out := w\<rparr>))) (\<lambda>_.
       io_op (\<lambda>s. case flush (socks_out s) of (r, w) \<Rightarrow> (r, s\<lparr>socks_out := w\<rparr>)))"

definition write_error :: "u8 \<Rightarrow> (socks_io, unit) op" where
  "write_error reply = socks_send [VERSION, reply, 0x00, ATYP_IPV4, 0, 0, 0, 0, 0, 0]"

definition write_failure :: "u8 \<Rightarrow> (socks_io, unit) op" where
  "write_failure reply = write_error reply"

definition write_success :: "ipv4_addr \<Rightarrow> u16 \<Rightarrow> (socks_io, unit) op" where
  "write_success bound port =
     socks_send ([VERSION, REPLY_SUCCEEDED, 0x00, ATYP_IPV4] @ octets bound @ u16_to_be_bytes port)"

definition discard_bytes :: "nat \<Rightarrow> (socks_io, unit) op" where
  "discard_bytes len = bind_op (socks_read len) (\<lambda>_. return_op ())"

section \<open>Negotiation and request\<close>

definition negotiate_no_auth :: "(socks_io, unit) op" where
  "negotiate_no_auth =
     bind_op (socks_read 2) (\<lambda>header.
       if header ! 0 \<noteq> VERSION
       then fail_op (Network (''unsupported SOCKS version '' @ show_word (header ! 0)))
       else
         bind_op (socks_read (unat (header ! 1))) (\<lambda>methods.
           if METHOD_NO_AUTH \<in> set methods
           then socks_send [VERSION, METHOD_NO_AUTH]
           else
             bind_op (socks_send [VERSION, METHOD_NO_ACCEPTABLE]) (\<lambda>_.
               fail_op (Network ''SOCKS5 client did not offer no-auth method''))))"

definition read_ipv4_connect :: "(socks_io, socks_connect_request) op" where
  "read_ipv4_connect =
     bind_op (socks_read 6) (\<lambda>tail.
       return_op \<lparr>target = TargetIpv4 (Ipv4Addr (tail ! 0) (tail ! 1) (tail ! 2) (tail ! 3)),
                  target_port = u16_from_be_bytes (tail ! 4) (tail ! 5)\<rparr>)"

definition read_domain_connect :: "(socks_io, socks_connect_request) op" where
  "read_domain_connect =
     bind_op (socks_read 1) (\<lambda>len.
     bind_op (socks_read (unat (len ! 0))) (\<lambda>domain.
     bind_op (socks_read 2) (\<lambda>port.
       case from_utf8 domain of
         None \<Rightarrow> fail_op (Network ''SOCKS5 domain target is not valid UTF-8'')
       | Some d \<Rightarrow> return_op \<lparr>target = TargetDomain d,
                             target_port = u16_from_be_bytes (port ! 0) (port ! 1)\<rparr>)))"

definition read_connect_command :: "(socks_io, socks_connect_request) op" where
  "read_connect_command =
     bind_op (socks_read 4) (\<lambda>header.
       if header ! 0 \<noteq> VERSION
       then fail_op (Network (''unsupported SOCKS request version '' @ show_word (header ! 0)))
       else if header ! 1 \<noteq> COMMAND_CONNECT then
         bind_op (write_error REPLY_COMMAND_NOT_SUPPORTED) (\<lambda>_.
           fail_op (Network (''unsupported SOCKS5 command '' @ show_word (header ! 1))))
       else if header ! 3 = ATYP_IPV4 then read_ipv4_connect
       else if header ! 3 = ATYP_DOMAIN then read_domain_connect
       else if header ! 3 = ATYP_IPV6 then
         bind_op (discard_bytes 18) (\<lambda>_.
         bind_op (write_error REPLY_ADDRESS_TYPE_NOT_SUPPORTED) (\<lambda>_.
           fail_op (Network ''SOCKS5 IPv6 requests are not supported in IPv4-only proxy mode'')))
       else
         bind_op (write_error REPLY_ADDRESS_TYPE_NOT_SUPPORTED) (\<lambda>_.
           fail_op (Network (''unsupported SOCKS5 address type '' @ show_word (header ! 3)))))"

definition read_connect_request :: "(socks_io, socks_connect_request) op" where
  "read_connect_request = bind_op negotiate_no_auth (\<lambda>_. read_connect_command)"

section \<open>Well-formed requests\<close>

text \<open>A connection whose reader holds exactly some bytes and whose writer takes everything.\<close>

definition pending :: "bytes \<Rightarrow> bytes \<Rightarrow> socks_io \<Rightarrow> bool" where
  "pending input output s \<longleftrightarrow>
     data_only (socks_in s) \<and> reader_bytes (socks_in s) = input
   \<and> accepts (socks_out s) = [] \<and> flush_answer (socks_out s) = Inr () \<and> sent (socks_out s) = output"

lemma socks_read_pending:
  assumes "pending (bs @ rest) out s" "length bs = n"
  shows "\<exists>s'. socks_read n s = (Inr bs, s') \<and> pending rest out s'"
proof -
  from assms obtain i where "read_exact n (socks_in s) = (Inr bs, i)" "data_only i" "reader_bytes i = rest"
    using read_exact_data [of "socks_in s" n] by (auto simp: pending_def)
  with assms show ?thesis by (auto simp: socks_read_def io_op_def pending_def)
qed

lemma socks_send_pending:
  assumes "pending input out s"
  shows "\<exists>s'. socks_send bs s = (Inr (), s') \<and> pending input (out @ bs) s'"
  using assms
  by (auto simp: socks_send_def bind_op_def io_op_def pending_def write_all_willing flush_def)

lemma bind_op_step: "m s = (Inr x, s1) \<Longrightarrow> bind_op m f s = f x s1"
  by (simp add: bind_op_def)

fun request_bytes :: "u8 \<Rightarrow> socks_target \<Rightarrow> u16 \<Rightarrow> bytes" where
  "request_bytes reserved (TargetIpv4 a) port =
     [VERSION, COMMAND_CONNECT, reserved, ATYP_IPV4] @ octets a @ u16_to_be_bytes port"
| "request_bytes reserved (TargetDomain d) port =
     [VERSION, COMMAND_CONNECT, reserved, ATYP_DOMAIN] @ [of_nat (length d)] @ as_bytes d @ u16_to_be_bytes port"

fun target_ok :: "socks_target \<Rightarrow> bool" where
  "target_ok (TargetIpv4 a) \<longleftrightarrow> True"
| "target_ok (TargetDomain d) \<longleftrightarrow> length d < 256 \<and> utf8_valid d"

lemma negotiate_pending:
  assumes "pending ([VERSION, of_nat (length methods)] @ methods @ rest) out s"
    and "length methods < 256" "METHOD_NO_AUTH \<in> set methods"
  shows "\<exists>s'. negotiate_no_auth s = (Inr (), s') \<and> pending rest (out @ [VERSION, METHOD_NO_AUTH]) s'"
proof -
  obtain s1 where 1: "socks_read 2 s = (Inr [VERSION, of_nat (length methods)], s1)" "pending (methods @ rest) out s1"
    using socks_read_pending [OF assms(1), of 2] by auto
  have u: "unat (of_nat (length methods) :: u8) = length methods"
    using assms(2) by (simp add: unat_of_nat take_bit_nat_eq_self)
  obtain s2 where 2: "socks_read (length methods) s1 = (Inr methods, s2)" "pending rest out s2"
    using socks_read_pending [OF 1(2)] by auto
  with socks_send_pending [OF 2(2), of "[VERSION, METHOD_NO_AUTH]"] 1 assms(3) show ?thesis
    by (auto simp: negotiate_no_auth_def bind_op_step u)
qed

lemma read_command_pending:
  assumes "pending (request_bytes reserved t port @ rest) out s" "target_ok t"
  shows "\<exists>s'. read_connect_command s = (Inr \<lparr>target = t, target_port = port\<rparr>, s') \<and> pending rest out s'"
proof (cases t)
  case (TargetIpv4 a)
  let ?h = "[VERSION, COMMAND_CONNECT, reserved, ATYP_IPV4]"
  obtain s1 where 1: "socks_read 4 s = (Inr ?h, s1)" "pending (octets a @ u16_to_be_bytes port @ rest) out s1"
    using socks_read_pending [of ?h "octets a @ u16_to_be_bytes port @ rest" out s 4] assms(1) TargetIpv4 by auto
  obtain s2 where 2: "socks_read 6 s1 = (Inr (octets a @ u16_to_be_bytes port), s2)" "pending rest out s2"
    using socks_read_pending [of "octets a @ u16_to_be_bytes port" rest out s1 6] 1(2) by auto
  have "read_ipv4_connect s1 = (Inr \<lparr>target = t, target_port = port\<rparr>, s2)"
    using 2(1) TargetIpv4
    by (cases a) (simp add: read_ipv4_connect_def bind_op_step return_op_def u16_to_be_bytes_def codec_simps)
  with 1 2 show ?thesis
    by (auto simp: read_connect_command_def bind_op_step socks_consts)
next
  case (TargetDomain d)
  let ?h = "[VERSION, COMMAND_CONNECT, reserved, ATYP_DOMAIN]"
  let ?l = "[of_nat (length d) :: u8]"
  obtain s1 where 1: "socks_read 4 s = (Inr ?h, s1)" "pending (?l @ as_bytes d @ u16_to_be_bytes port @ rest) out s1"
    using socks_read_pending [of ?h "?l @ as_bytes d @ u16_to_be_bytes port @ rest" out s 4] assms(1) TargetDomain by auto
  obtain s2 where 2: "socks_read 1 s1 = (Inr ?l, s2)" "pending (as_bytes d @ u16_to_be_bytes port @ rest) out s2"
    using socks_read_pending [OF 1(2), of 1] by auto
  have u: "unat (of_nat (length d) :: u8) = length d"
    using assms(2) TargetDomain by (simp add: unat_of_nat take_bit_nat_eq_self)
  obtain s3 where 3: "socks_read (length d) s2 = (Inr (as_bytes d), s3)" "pending (u16_to_be_bytes port @ rest) out s3"
    using socks_read_pending [OF 2(2), of "length d"] by auto
  obtain s4 where 4: "socks_read 2 s3 = (Inr (u16_to_be_bytes port), s4)" "pending rest out s4"
    using socks_read_pending [OF 3(2), of 2] by auto
  have "from_utf8 (as_bytes d) = Some d"
    using assms(2) TargetDomain by (simp add: from_utf8_as_bytes)
  then have "read_domain_connect s1 = (Inr \<lparr>target = t, target_port = port\<rparr>, s4)"
    using 2 3 4 TargetDomain
    by (simp add: read_domain_connect_def bind_op_step u return_op_def u16_to_be_bytes_def codec_simps)
  with 1 4 show ?thesis
    by (auto simp: read_connect_command_def bind_op_step socks_consts)
qed

text \<open>C33. A SOCKS5 request is read as it was sent: a client that offers the method without
  authentication and asks for a connection to an address or a domain gets the method reply,
  and the request is returned with its target and port, in whatever pieces the bytes arrive;
  what the client sends behind the request stays in the stream.\<close>

theorem socks_request_round_trip:
  assumes "pending ([VERSION, of_nat (length methods)] @ methods @ request_bytes reserved t port @ rest) [] s"
    and "length methods < 256" "METHOD_NO_AUTH \<in> set methods" "target_ok t"
  shows "\<exists>s'. read_connect_request s = (Inr \<lparr>target = t, target_port = port\<rparr>, s')
    \<and> pending rest [VERSION, METHOD_NO_AUTH] s'"
proof -
  obtain s1 where 1: "negotiate_no_auth s = (Inr (), s1)"
    "pending (request_bytes reserved t port @ rest) [VERSION, METHOD_NO_AUTH] s1"
    using negotiate_pending [OF assms(1-3)] by auto
  obtain s2 where "read_connect_command s1 = (Inr \<lparr>target = t, target_port = port\<rparr>, s2)"
    "pending rest [VERSION, METHOD_NO_AUTH] s2"
    using read_command_pending [OF 1(2) assms(4)] by auto
  with 1(1) show ?thesis by (auto simp: read_connect_request_def bind_op_step)
qed

theorem socks_request_round_trip_witness:
  "\<exists>s'. read_connect_request
      \<lparr>socks_in = [Inr [5, 1], Inr [0, 5, 1, 0, 1, 10, 0], Inr [0, 1, 0, 80, 71]],
       socks_out = \<lparr>accepts = [], sent = [], flush_answer = Inr ()\<rparr>\<rparr>
     = (Inr \<lparr>target = TargetIpv4 (Ipv4Addr 10 0 0 1), target_port = 80\<rparr>, s')
    \<and> pending [71] [VERSION, METHOD_NO_AUTH] s'"
  by (rule socks_request_round_trip [of "[0]" 0 "TargetIpv4 (Ipv4Addr 10 0 0 1)" 80 "[71]"])
    (simp_all add: pending_def socks_consts u16_to_be_bytes_def)

text \<open>A command other than connect is answered with its error code before the error.\<close>

lemma unsupported_command_answered:
  assumes "pending ([VERSION, cmd, reserved, atyp] @ rest) out s" "cmd \<noteq> COMMAND_CONNECT"
  shows "\<exists>s'. read_connect_command s = (Inl (Network (''unsupported SOCKS5 command '' @ show_word cmd)), s')
    \<and> pending rest (out @ [VERSION, REPLY_COMMAND_NOT_SUPPORTED, 0, ATYP_IPV4, 0, 0, 0, 0, 0, 0]) s'"
proof -
  obtain s1 where 1: "socks_read 4 s = (Inr [VERSION, cmd, reserved, atyp], s1)" "pending rest out s1"
    using socks_read_pending [OF assms(1), of 4] by auto
  with socks_send_pending [OF 1(2), of "[VERSION, REPLY_COMMAND_NOT_SUPPORTED, 0, ATYP_IPV4, 0, 0, 0, 0, 0, 0]"] assms(2)
  show ?thesis by (auto simp: read_connect_command_def bind_op_step write_error_def fail_op_def)
qed

end
