(* ===== verification/Login.thy ===== *)
theory Login
  imports Portal Op_Monad
begin

text \<open>
  The login at the gateway (\<open>src/auth/login.rs\<close>): the form of credentials, the one-time
  password by token information or by an HTML challenge, the host check, SAML sessions, and
  the scanners of the gateway's answers. The state is the connection, the log and the delays
  that were waited for; asking the user for a secret is an argument. Strings are sliced at
  computed offsets, so that the scanners return values of type \<open>exec\<close>.

  Shown here: an authenticated session has the configured cookie, or the cookies of the answer
  that ends this very exchange, every answer before which was accepted; the scanners of key-value answers and forms are
  characterised; and two inputs of the gateway on which the scanners panic.
\<close>

section \<open>Scanning answers\<close>

definition windows :: "nat \<Rightarrow> 'a list \<Rightarrow> 'a list list" where
  "windows k xs = map (\<lambda>i. take k (drop i xs)) [0..<Suc (length xs) - k]"

definition find_ascii_case_insensitive :: "string \<Rightarrow> string \<Rightarrow> nat option" where
  "find_ascii_case_insensitive haystack needle =
     position (\<lambda>window. eq_ignore_ascii_case window needle) (windows (length needle) haystack)"

definition value_end :: "char \<Rightarrow> bool" where
  "value_end c \<longleftrightarrow> c = CHR ''&'' \<or> c = CHR 0x0D \<or> c = CHR 0x0A \<or> c = CHR 0x00"

definition get_value :: "string \<Rightarrow> string \<Rightarrow> string option" where
  "get_value body key =
     (case find_sub body key of
        None \<Rightarrow> None
      | Some i \<Rightarrow>
          (let rest = drop (i + length key) body;
               e = (case position value_end rest of Some e \<Rightarrow> e | None \<Rightarrow> length rest)
           in Some (take e rest)))"

text \<open>The tail of a string from an offset, as \<open>&s[i..]\<close>.\<close>

definition str_from :: "string \<Rightarrow> nat \<Rightarrow> string exec" where
  "str_from s i = (if is_char_boundary s i then Return (drop i s) else Panic)"

definition is_quote :: "char \<Rightarrow> bool" where
  "is_quote c \<longleftrightarrow> c = CHR 0x22 \<or> c = CHR 0x27"

lemma find_ascii_bound:
  "find_ascii_case_insensitive h n = Some i \<Longrightarrow> i + length n \<le> length h"
  by (auto simp: find_ascii_case_insensitive_def windows_def position_Some)

function action_url :: "string \<Rightarrow> (string option) exec" where
  "action_url rest =
     (case find_ascii_case_insensitive rest ''action='' of
        None \<Rightarrow> Return None
      | Some i \<Rightarrow>
          (let after_key = drop (i + 7) rest;
               after_quote = (if after_key \<noteq> [] \<and> is_quote (hd after_key) then tl after_key else after_key);
               e = (case position (\<lambda>c. is_quote c \<or> is_ascii_whitespace c) after_quote of
                      Some e \<Rightarrow> e | None \<Rightarrow> length after_quote)
           in if 0 < e then Return (Some (take e after_quote))
              else bind_exec (str_from after_key (min (length after_key) 1)) action_url))"
  by pat_completeness auto
termination
proof (relation "measure length", goal_cases)
  case (2 rest i after_key after_quote e x)
  then show ?case
    by (auto simp: str_from_def split: if_splits dest!: find_ascii_bound)
qed simp

declare action_url.simps [simp del]

function redirect_loop :: "string \<Rightarrow> string \<Rightarrow> (string option) exec" where
  "redirect_loop marker rest =
     (if marker = [] then Panic
      else case find_ascii_case_insensitive rest marker of
        None \<Rightarrow> Return None
      | Some i \<Rightarrow>
          (let after_marker = drop (i + length marker) rest;
               again = bind_exec (str_from after_marker (min (length after_marker) 1)) (redirect_loop marker);
               t = trim_start after_marker
           in if \<not> starts_char (CHR ''='') t then again
              else
                let after_equals = trim_start (tl t) in
                if after_equals = [] then Return None
                else if \<not> is_quote (hd after_equals) then again
                else
                  case position (\<lambda>c. c = hd after_equals) (tl after_equals) of
                    None \<Rightarrow> Return None
                  | Some value_stop \<Rightarrow>
                      if starts_char (CHR ''/'') (take value_stop (tl after_equals))
                      then Return (Some (take value_stop (tl after_equals)))
                      else again))"
  by pat_completeness auto
termination
  by (relation "measure (\<lambda>(marker, rest). length rest)")
    (auto simp: str_from_def split: if_splits dest!: find_ascii_bound simp flip: length_greater_0_conv)

declare redirect_loop.simps [simp del]

fun first_redirect :: "string \<Rightarrow> string list \<Rightarrow> (string option) exec" where
  "first_redirect body [] = Return None"
| "first_redirect body (marker # markers) =
     bind_exec (redirect_loop marker body) (\<lambda>r.
       case r of Some v \<Rightarrow> Return (Some v) | None \<Rightarrow> first_redirect body markers)"

text \<open>The markers are searched one after the other, each from the start of the body.\<close>

definition portal_redirect :: "string \<Rightarrow> (string option) exec" where
  "portal_redirect body = first_redirect body [''document.location'', ''window.location'', ''location.href'']"

definition html_attr :: "string \<Rightarrow> string \<Rightarrow> string option" where
  "html_attr tag name =
     (let needle = name @ ''='' @ [CHR 0x22] in
      case find_ascii_case_insensitive tag needle of
        None \<Rightarrow> None
      | Some i \<Rightarrow>
          (let rest = drop (i + length needle) tag in
           map_option (\<lambda>e. take e rest) (position (\<lambda>c. c = CHR 0x22) rest)))"

section \<open>Forms\<close>

text \<open>Asking the user: the pinentry program, a hint and a prompt give the secret or an error.\<close>

type_synonym ask = "string option \<Rightarrow> string \<Rightarrow> string \<Rightarrow> string res"

definition secret_hint :: "string \<Rightarrow> string option \<Rightarrow> string \<Rightarrow> string \<Rightarrow> string" where
  "secret_hint user rlm host purpose = user @ ''_'' @ unwrap_or [] rlm @ ''_'' @ host @ ''_'' @ purpose"

definition non_empty :: "string option \<Rightarrow> string option" where
  "non_empty v = (case v of Some x \<Rightarrow> if x = [] then None else Some x | None \<Rightarrow> None)"

definition otp_value_with_purpose :: "ask \<Rightarrow> config \<Rightarrow> string \<Rightarrow> string \<Rightarrow> string res" where
  "otp_value_with_purpose ask cfg purpose prompt =
     (case non_empty (otp cfg) of
        Some v \<Rightarrow> Inr v
      | None \<Rightarrow>
          and_then (ask (pinentry cfg) (secret_hint (username cfg) (realm cfg) (gateway_host cfg) purpose) prompt)
            (\<lambda>v. if v = [] then Inl (Auth ''No token specified'') else Inr v))"

definition hostcheck_fields :: "config \<Rightarrow> string" where
  "hostcheck_fields cfg =
     (if hostcheck cfg = None \<and> check_virtual_desktop cfg = None then []
      else ''&hostcheck='' @ url_encode (unwrap_or [] (hostcheck cfg))
        @ ''&check_virtual_desktop='' @ url_encode (unwrap_or [] (check_virtual_desktop cfg)))"

definition append_hostcheck_fields :: "config \<Rightarrow> string \<Rightarrow> string" where
  "append_hostcheck_fields cfg body = body @ hostcheck_fields cfg"

definition initial_login_body :: "config \<Rightarrow> string" where
  "initial_login_body cfg =
     (let user = url_encode (username cfg); rlm = url_encode (unwrap_or [] (realm cfg)) in
      case password cfg of
        Some pw \<Rightarrow>
          append_hostcheck_fields cfg
            (''username='' @ user @ ''&credential='' @ url_encode pw @ ''&realm='' @ rlm @ ''&ajax=1'')
      | None \<Rightarrow>
          append_hostcheck_fields cfg
            (''username='' @ user @ ''&realm='' @ rlm
              @ ''&ajax=1&redir=%2Fremote%2Findex&just_logged_in=1''))"

definition hostcheck_action_body :: "config \<Rightarrow> string" where
  "hostcheck_action_body cfg =
     ''hostcheck='' @ unwrap_or [] (hostcheck cfg)
     @ ''&check_virtual_desktop='' @ unwrap_or [] (check_virtual_desktop cfg)"

definition otp_login_body :: "ask \<Rightarrow> config \<Rightarrow> string \<Rightarrow> string \<Rightarrow> string res" where
  "otp_login_body ask cfg previous_body tokeninfo =
     (let user = url_encode (username cfg); rlm = url_encode (unwrap_or [] (realm cfg));
          value_of = (\<lambda>key. unwrap_or [] (get_value previous_body key))
      in and_then
           (if otp cfg = None \<and> starts_with tokeninfo ''ftm_push'' \<and> \<not> no_ftm_push cfg
            then Inr ''ftmpush=1''
            else and_then (otp_value_with_purpose ask cfg ''2fa'' ''Two-factor authentication token: '') (\<lambda>v.
                   Inr (''code='' @ url_encode v @ ''&code2=&magic='' @ value_of ''magic='')))
           (\<lambda>tokenparams. Inr
             (''username='' @ user @ ''&realm='' @ rlm @ ''&reqid='' @ value_of ''reqid=''
              @ ''&polid='' @ value_of ''polid='' @ ''&grp='' @ value_of ''grp=''
              @ ''&portal='' @ value_of ''portal='' @ ''&peer='' @ value_of ''peer='' @ ''&'' @ tokenparams)))"

definition otp_challenge_prompt :: "config \<Rightarrow> string \<Rightarrow> string" where
  "otp_challenge_prompt cfg html =
     (let marker = unwrap_or ''Please'' (otp_prompt cfg);
          fallback = ''Please enter one-time password: ''
      in case find_sub html marker of
           None \<Rightarrow> fallback
         | Some start \<Rightarrow>
             (case position (\<lambda>c. c = CHR ''<'') (drop start html) of
                None \<Rightarrow> fallback
              | Some e \<Rightarrow> take e (drop start html)))"

text \<open>The fields of one input element; \<open>None\<close> for an element that is not sent.\<close>

definition input_fields :: "config \<Rightarrow> string \<Rightarrow> string \<Rightarrow> (string list) res" where
  "input_fields cfg otp_text input =
     (let input_type = unwrap_or [] (html_attr input ''type'');
          hidden = eq_ignore_ascii_case input_type ''hidden'';
          pass = eq_ignore_ascii_case input_type ''password''
      in if hidden \<or> pass then
           and_then (ok_or (Auth ''OTP challenge input is missing a name'') (html_attr input ''name'')) (\<lambda>name.
           and_then (if hidden
                     then ok_or (Auth ''OTP challenge hidden input is missing a value'') (html_attr input ''value'')
                     else Inr otp_text) (\<lambda>v.
             Inr ([url_encode name @ ''='' @ url_encode v]
               @ (if pass then case non_empty (realm cfg) of Some r \<Rightarrow> [''realm='' @ url_encode r] | None \<Rightarrow> []
                  else []))))
         else Inr [])"

function otp_inputs :: "config \<Rightarrow> string \<Rightarrow> string \<Rightarrow> nat \<Rightarrow> string list \<Rightarrow> ((string list) res) exec" where
  "otp_inputs cfg otp_text html search_from found =
     bind_exec (str_from html search_from) (\<lambda>rest.
       case find_ascii_case_insensitive rest ''<input'' of
         None \<Rightarrow> Return (Inr found)
       | Some input_rel \<Rightarrow>
           (let input_start = search_from + input_rel;
                input_end = (case position (\<lambda>c. c = CHR ''>'') (drop input_start html) of
                               Some i \<Rightarrow> input_start + i | None \<Rightarrow> length html);
                input = take (input_end - input_start) (drop input_start html)
            in case input_fields cfg otp_text input of
                 Inl e \<Rightarrow> Return (Inl e)
               | Inr new \<Rightarrow> otp_inputs cfg otp_text html (input_end + 1) (found @ new)))"
  by pat_completeness auto
termination
proof (relation "measure (\<lambda>(cfg, otp_text, html, search_from, found). Suc (length html) - search_from)", goal_cases)
  case (2 cfg otp_text html search_from found rest input_rel input_start input_end input new)
  then show ?case
    by (auto simp: str_from_def is_char_boundary_def split: if_splits option.splits dest!: find_ascii_bound)
qed simp

declare otp_inputs.simps [simp del]

definition otp_challenge_form :: "ask \<Rightarrow> config \<Rightarrow> string \<Rightarrow> ((string \<times> string \<times> string) res) exec" where
  "otp_challenge_form ask cfg html =
     (case find_ascii_case_insensitive html ''<form'' of
        None \<Rightarrow> Return (Inl (Auth ''OTP challenge response does not contain a form''))
      | Some form_start \<Rightarrow>
          (let key = ''action='' @ [CHR 0x22] in
           case find_ascii_case_insensitive (drop form_start html) key of
             None \<Rightarrow> Return (Inl (Auth ''OTP challenge form does not contain an action''))
           | Some i \<Rightarrow>
               (let after_key = drop (form_start + i + length key) html in
                case position (\<lambda>c. c = CHR 0x22) after_key of
                  None \<Rightarrow> Return (Inl (Auth ''OTP challenge form action is unterminated''))
                | Some e \<Rightarrow>
                    (let path = take e after_key;
                         prompt = otp_challenge_prompt cfg (drop e after_key)
                     in case otp_value_with_purpose ask cfg ''otp'' prompt of
                          Inl err \<Rightarrow> Return (Inl err)
                        | Inr otp_text \<Rightarrow>
                            bind_exec (otp_inputs cfg otp_text html form_start []) (\<lambda>r.
                              case r of
                                Inl err \<Rightarrow> Return (Inl err)
                              | Inr found \<Rightarrow>
                                  Return (if found = []
                                    then Inl (Auth ''OTP challenge form does not contain hidden or password inputs'')
                                    else Inr (path, join ''&'' found, prompt)))))))"

section \<open>The exchange\<close>

record auth_session =
  session_cookie :: string
  session_redirect :: "string option"

record login_io =
  login_stream :: http_stream
  login_log :: "string list"
  login_delays :: "u32 list"

definition FORM_CONTENT_TYPE :: "string \<times> string" where
  "FORM_CONTENT_TYPE = (''Content-Type'', ''application/x-www-form-urlencoded'')"

definition login_http_host :: "config \<Rightarrow> string" where
  "login_http_host cfg =
     (if gateway_port cfg = 443 then gateway_host cfg
      else gateway_host cfg @ '':'' @ show_word (gateway_port cfg))"

definition login_request ::
  "string \<Rightarrow> string \<Rightarrow> string \<Rightarrow> (string \<times> string) list \<Rightarrow> string \<Rightarrow> (login_io, http_response) op" where
  "login_request host meth path headers body s =
     (case do_http_request host meth path headers (as_bytes body) (login_stream s) of
        (r, stream, log) \<Rightarrow> (r, s\<lparr>login_stream := stream, login_log := login_log s @ log\<rparr>))"

definition post_form :: "config \<Rightarrow> string \<Rightarrow> string \<Rightarrow> string \<Rightarrow> (login_io, http_response) op" where
  "post_form cfg host path body =
     login_request host ''POST'' path [FORM_CONTENT_TYPE, (''User-Agent'', user_agent cfg)] body"

definition post_form_with_cookie ::
  "config \<Rightarrow> string \<Rightarrow> string \<Rightarrow> string \<Rightarrow> string \<Rightarrow> (login_io, http_response) op" where
  "post_form_with_cookie cfg host path body k =
     login_request host ''POST'' path [FORM_CONTENT_TYPE, (''Cookie'', k), (''User-Agent'', user_agent cfg)] body"

definition post_logincheck :: "config \<Rightarrow> string \<Rightarrow> string \<Rightarrow> (login_io, http_response) op" where
  "post_logincheck cfg host body = post_form cfg host ''/remote/logincheck'' body"

definition body_text :: "http_response \<Rightarrow> string" where
  "body_text response = unwrap_or [] (body_as_str response)"

definition auth_markers :: "string \<Rightarrow> string list" where
  "auth_markers body =
     map (trim_end_matches (\<lambda>c. c = CHR ''=''))
       (filter (contains body)
         [''ret='', ''tokeninfo='', ''reqid='', ''polid='', ''grp='', ''portal='', ''magic='', ''peer='', ''action=''])"

definition log_auth_response_summary :: "string \<Rightarrow> http_response \<Rightarrow> (login_io, unit) op" where
  "log_auth_response_summary path response s =
     (let markers = auth_markers (body_text response);
          cookie_names = set_cookie_names response;
          preview = body_preview 512 response
      in if markers = [] \<and> cookie_names = [] \<and> preview = None then (Inr (), s)
         else
           let parts = (if markers \<noteq> [] then [''markers: '' @ join '', '' markers] else [])
                 @ (if cookie_names \<noteq> [] then [''set-cookie: '' @ join '', '' cookie_names] else [])
                 @ (case preview of Some p \<Rightarrow> [''body-preview: '' @ p] | None \<Rightarrow> [])
           in (Inr (), s\<lparr>login_log := login_log s
                 @ [''auth response summary for '' @ path @ '': '' @ join ''; '' parts]\<rparr>))"

definition delay_otp :: "config \<Rightarrow> (login_io, unit) op" where
  "delay_otp cfg s =
     (Inr (), if 0 < otp_delay cfg then s\<lparr>login_delays := login_delays s @ [otp_delay cfg]\<rparr> else s)"

definition validate_auth_response :: "http_response \<Rightarrow> unit res" where
  "validate_auth_response response =
     (case get_value (body_text response) ''ret='' of
        None \<Rightarrow> Inr ()
      | Some ret \<Rightarrow>
          (case parse_u32 ret of
             None \<Rightarrow> Inl (Auth (''invalid authentication result: '' @ ret))
           | Some n \<Rightarrow>
               if n = 0 then Inl PermissionDenied
               else if n = 1 then Inr ()
               else if n = 6
               then Inl (Auth ''gateway replied with an unsupported authentication challenge'')
               else Inl (Auth (''unknown authentication result: '' @ show_word n))))"

definition ensure_status_ok_for_path :: "string \<Rightarrow> http_response \<Rightarrow> unit res" where
  "ensure_status_ok_for_path path response =
     (if status_code response = 200 then Inr ()
      else Inl (HttpProtocol (path @ '': unexpected HTTP status: '' @ show_word (status_code response)
                  @ '' '' @ reason response)))"

definition check_op :: "unit res \<Rightarrow> ('s, unit) xop" where
  "check_op r = pure_xop (Return r)"

definition finish_authenticated_response ::
  "config \<Rightarrow> string \<Rightarrow> http_response \<Rightarrow> (login_io, auth_session) xop" where
  "finish_authenticated_response cfg host response =
     bind_xop (pure_xop (Return (ok_or (Auth ''gateway did not return SVPNCOOKIE'') (svpn_cookie response))))
       (\<lambda>svpn.
         let k = unwrap_or svpn (cookie_header response) in
         bind_xop (pure_xop (bind_exec (action_url (body_text response)) (\<lambda>a. Return (Inr a)))) (\<lambda>action.
         bind_xop
           (case action of
              None \<Rightarrow> lift_op (return_op ())
            | Some action_path \<Rightarrow>
                bind_xop (lift_op (post_form_with_cookie cfg host action_path (hostcheck_action_body cfg) k))
                  (\<lambda>r. check_op (ensure_status_ok_for_path action_path r)))
           (\<lambda>_.
             bind_xop (pure_xop (bind_exec (portal_redirect (body_text response)) (\<lambda>r. Return (Inr r)))) (\<lambda>redirect.
               lift_op (return_op \<lparr>session_cookie = k, session_redirect = redirect\<rparr>)))))"

definition try_otp_challenge ::
  "ask \<Rightarrow> config \<Rightarrow> string \<Rightarrow> http_response \<Rightarrow> (login_io, string \<times> http_response) xop" where
  "try_otp_challenge ask cfg host response =
     (case body_as_str response of
        None \<Rightarrow> lift_op (fail_op (Auth ''OTP challenge response is not valid UTF-8''))
      | Some body \<Rightarrow>
          bind_xop (pure_xop (otp_challenge_form ask cfg body)) (\<lambda>(path, form_body, _).
          bind_xop (lift_op (post_form cfg host path form_body)) (\<lambda>r.
            lift_op (return_op (path, r)))))"

text \<open>What follows every answer: the summary in the log and the check of the result code.\<close>

definition checked_answer :: "string \<Rightarrow> http_response \<Rightarrow> (login_io, unit) xop" where
  "checked_answer path response =
     bind_xop (lift_op (log_auth_response_summary path response)) (\<lambda>_.
       check_op (validate_auth_response response))"

definition no_cookie_error :: error where
  "no_cookie_error = Auth ''gateway did not return SVPNCOOKIE''"

definition second_factor ::
  "ask \<Rightarrow> config \<Rightarrow> string \<Rightarrow> http_response \<Rightarrow> (login_io, auth_session) xop" where
  "second_factor ask cfg host response =
     (case get_value (body_text response) ''tokeninfo='' of
        None \<Rightarrow> lift_op (fail_op no_cookie_error)
      | Some tokeninfo \<Rightarrow>
          bind_xop (pure_xop (Return (otp_login_body ask cfg (body_text response) tokeninfo))) (\<lambda>second_body.
          bind_xop (lift_op (delay_otp cfg)) (\<lambda>_.
          bind_xop (lift_op (post_logincheck cfg host second_body)) (\<lambda>response.
          bind_xop (checked_answer ''/remote/logincheck'' response) (\<lambda>_.
          bind_xop (check_op (ensure_status_ok_for_path ''/remote/logincheck'' response)) (\<lambda>_.
            if svpn_cookie response \<noteq> None then finish_authenticated_response cfg host response
            else lift_op (fail_op no_cookie_error)))))))"

definition first_answer :: "config \<Rightarrow> string \<Rightarrow> (login_io, string \<times> http_response) xop" where
  "first_answer cfg host =
     (let response_path = (if username cfg = [] \<and> password cfg = None then ''/remote/login''
                           else ''/remote/logincheck'')
      in bind_xop
           (lift_op (if response_path = ''/remote/login''
                     then login_request host ''GET'' ''/remote/login'' [(''User-Agent'', user_agent cfg)] []
                     else post_logincheck cfg host (initial_login_body cfg)))
           (\<lambda>response.
             bind_xop (checked_answer response_path response) (\<lambda>_.
               lift_op (return_op (response_path, response)))))"

text \<open>The challenge of an answer with status 401.\<close>

definition answer_challenge ::
  "ask \<Rightarrow> config \<Rightarrow> string \<Rightarrow> string \<times> http_response \<Rightarrow> (login_io, string \<times> http_response) xop" where
  "answer_challenge ask cfg host answer =
     (if status_code (snd answer) = 401 then
        bind_xop (lift_op (delay_otp cfg)) (\<lambda>_.
        bind_xop (try_otp_challenge ask cfg host (snd answer)) (\<lambda>(path, response).
        bind_xop (checked_answer path response) (\<lambda>_.
          lift_op (return_op (path, response)))))
      else lift_op (return_op answer))"

definition authenticate :: "ask \<Rightarrow> config \<Rightarrow> (login_io, auth_session) xop" where
  "authenticate ask cfg =
     (case cookie cfg of
        Some k \<Rightarrow> lift_op (return_op \<lparr>session_cookie = k, session_redirect = None\<rparr>)
      | None \<Rightarrow>
          (let host = login_http_host cfg in
           bind_xop (first_answer cfg host) (\<lambda>answer.
           bind_xop (answer_challenge ask cfg host answer) (\<lambda>(path, response).
           bind_xop (check_op (ensure_status_ok_for_path path response)) (\<lambda>_.
             if svpn_cookie response \<noteq> None then finish_authenticated_response cfg host response
             else second_factor ask cfg host response)))))"

definition is_valid_saml_session_id :: "string \<Rightarrow> bool" where
  "is_valid_saml_session_id v \<longleftrightarrow>
     v \<noteq> [] \<and> list_all (\<lambda>c. is_ascii_upper c \<or> is_ascii_lower c \<or> is_ascii_digit c \<or> c = CHR ''-'') v"

definition authenticate_with_saml_session :: "config \<Rightarrow> string \<Rightarrow> (login_io, auth_session) xop" where
  "authenticate_with_saml_session cfg session_id =
     (if \<not> is_valid_saml_session_id session_id
      then lift_op (fail_op (Auth ''invalid SAML session id''))
      else
        (let host = login_http_host cfg; path = ''/remote/saml/auth_id?id='' @ session_id in
         bind_xop (lift_op (login_request host ''GET'' path [(''User-Agent'', user_agent cfg)] [])) (\<lambda>response.
         bind_xop (lift_op (log_auth_response_summary path response)) (\<lambda>_.
         bind_xop (check_op (ensure_status_ok_for_path path response)) (\<lambda>_.
           if svpn_cookie response \<noteq> None then finish_authenticated_response cfg host response
           else lift_op (fail_op (Auth ''SAML authentication did not return SVPNCOOKIE'')))))))"

section \<open>What an authenticated session is\<close>

lemma redirect_loop_path:
  "redirect_loop marker rest = Return (Some p) \<Longrightarrow> starts_char (CHR ''/'') p"
proof (induction marker rest rule: redirect_loop.induct)
  case (1 marker rest)
  show ?case
  proof (cases "find_ascii_case_insensitive rest marker")
    case None
    with "1.prems" show ?thesis by (simp add: redirect_loop.simps split: if_splits)
  next
    case (Some i)
    let ?after = "drop (i + length marker) rest"
    let ?again = "bind_exec (str_from ?after (min (length ?after) 1)) (redirect_loop marker)"
    have again: "starts_char (CHR ''/'') p" if "marker \<noteq> []" "?again = Return (Some p)"
      using that "1.IH" Some by (auto simp: Let_def)
    with "1.prems" Some show ?thesis
      by (subst (asm) redirect_loop.simps)
        (auto simp: Let_def split: if_splits option.splits)
  qed
qed

lemma portal_redirect_path:
  assumes "portal_redirect body = Return (Some p)"
  shows "starts_char (CHR ''/'') p"
proof -
  have "first_redirect body ms = Return (Some p) \<Longrightarrow> starts_char (CHR ''/'') p" for ms
    by (induction ms) (auto split: option.splits dest: redirect_loop_path)
  with assms show ?thesis unfolding portal_redirect_def by blast
qed

text \<open>The responses that a run takes off a connection, one after the other.\<close>

inductive receives :: "reader \<Rightarrow> http_response list \<Rightarrow> reader \<Rightarrow> bool" where
  receives_none: "receives r [] r"
| receives_one: "http_receive r = (Inr response, r1) \<Longrightarrow> receives r1 responses r2 \<Longrightarrow>
    receives r (response # responses) r2"

inductive_simps receives_Nil [simp]: "receives r [] r'"

lemma receives_append: "receives r xs r1 \<Longrightarrow> receives r1 ys r2 \<Longrightarrow> receives r (xs @ ys) r2"
  by (induction rule: receives.induct) (auto intro: receives.intros)

abbreviation exchanged :: "login_io \<Rightarrow> http_response list \<Rightarrow> login_io \<Rightarrow> bool" where
  "exchanged s responses s' \<equiv> receives (http_in (login_stream s)) responses (http_in (login_stream s'))"

text \<open>An answer whose result code, if it has one, is 1.\<close>

definition accepted :: "http_response \<Rightarrow> bool" where
  "accepted response \<longleftrightarrow>
     (\<forall>ret. get_value (body_text response) ''ret='' = Some ret \<longrightarrow> parse_u32 ret = Some 1)"

definition session_from :: "http_response \<Rightarrow> auth_session \<Rightarrow> bool" where
  "session_from response session \<longleftrightarrow>
     (\<exists>svpn. svpn_cookie response = Some svpn
           \<and> session_cookie session = unwrap_or svpn (cookie_header response))
   \<and> portal_redirect (body_text response) = Return (session_redirect session)"

text \<open>The end of a successful login: an answer with status 200 sets the session cookie, and at
  most the answer to the host check follows, with status 200 too.\<close>

definition session_exchange :: "login_io \<Rightarrow> http_response \<Rightarrow> auth_session \<Rightarrow> login_io \<Rightarrow> bool" where
  "session_exchange s response session s' \<longleftrightarrow>
     status_code response = 200 \<and> session_from response session
   \<and> (\<exists>post. exchanged s (response # post) s' \<and> length post \<le> 1 \<and> list_all (\<lambda>x. status_code x = 200) post)"

lemma login_request_received:
  "login_request h m p hs b s = (Inr response, s') \<Longrightarrow> exchanged s [response] s'"
  by (auto simp: login_request_def do_http_request_def Let_def intro: receives.intros split: prod.splits sum.splits)

lemma post_received:
  "post_form cfg host path body s = (Inr response, s') \<Longrightarrow> exchanged s [response] s'"
  "post_form_with_cookie cfg host path body k s = (Inr response, s') \<Longrightarrow> exchanged s [response] s'"
  "post_logincheck cfg host body s = (Inr response, s') \<Longrightarrow> exchanged s [response] s'"
  by (auto simp: post_form_def post_form_with_cookie_def post_logincheck_def dest: login_request_received)

lemma log_auth_stream: "log_auth_response_summary path response s = (r, s') \<Longrightarrow> login_stream s' = login_stream s"
  by (auto simp: log_auth_response_summary_def Let_def split: if_splits)

lemma delay_otp_stream: "delay_otp cfg s = (r, s') \<Longrightarrow> login_stream s' = login_stream s"
  by (auto simp: delay_otp_def split: if_splits)

lemma check_op_Inr [simp]: "check_op r s = Return (Inr u, s') \<longleftrightarrow> r = Inr u \<and> s' = s"
  by (auto simp: check_op_def)

lemma check_status_ok [simp]: "ensure_status_ok_for_path path response = Inr u \<longleftrightarrow> status_code response = 200"
  by (auto simp: ensure_status_ok_for_path_def split: if_splits)

lemma validate_accepted [simp]: "validate_auth_response response = Inr u \<longleftrightarrow> accepted response"
  by (auto simp: validate_auth_response_def accepted_def split: option.splits if_splits)

lemma checked_answer_accepted:
  "checked_answer path response s = Return (Inr u, s') \<Longrightarrow> accepted response \<and> login_stream s' = login_stream s"
  by (auto simp: checked_answer_def dest: log_auth_stream)

lemma first_answer_received:
  "first_answer cfg host s = Return (Inr answer, s') \<Longrightarrow> exchanged s [snd answer] s' \<and> accepted (snd answer)"
  by (auto simp: first_answer_def Let_def split: if_splits
      dest!: post_received login_request_received checked_answer_accepted)

lemma answer_challenge_received:
  assumes "answer_challenge ask cfg host answer s = Return (Inr answer', s')"
  shows "answer' = answer \<and> s' = s \<or> exchanged s [snd answer'] s' \<and> accepted (snd answer')"
proof (cases "status_code (snd answer) = 401")
  case True
  with assms obtain path body form s1 s2 where
    "delay_otp cfg s = (Inr (), s1)" "post_form cfg host path form s1 = (Inr (snd answer'), s2)"
    "checked_answer path (snd answer') s2 = Return (Inr (), s')"
    by (auto simp: answer_challenge_def try_otp_challenge_def split: option.splits)
  then show ?thesis by (auto dest!: delay_otp_stream post_received checked_answer_accepted)
qed (use assms in \<open>simp add: answer_challenge_def\<close>)

lemma finish_session:
  assumes "finish_authenticated_response cfg host response s = Return (Inr session, s')"
  shows "session_from response session
    \<and> (\<exists>post. exchanged s post s' \<and> length post \<le> 1 \<and> list_all (\<lambda>x. status_code x = 200) post)"
proof -
  from assms obtain svpn action s1 where f: "svpn_cookie response = Some svpn"
    "action_url (body_text response) = Return action"
    "(case action of
        None \<Rightarrow> lift_op (return_op ())
      | Some action_path \<Rightarrow>
          bind_xop (lift_op (post_form_with_cookie cfg host action_path (hostcheck_action_body cfg)
              (unwrap_or svpn (cookie_header response))))
            (\<lambda>r. check_op (ensure_status_ok_for_path action_path r))) s = Return (Inr (), s')"
    "session_from response session"
    by (cases "svpn_cookie response"; cases "action_url (body_text response)")
      (auto simp: finish_authenticated_response_def session_from_def Let_def)
  have "\<exists>post. exchanged s post s' \<and> length post \<le> 1 \<and> list_all (\<lambda>x. status_code x = 200) post"
  proof (cases action)
    case None
    with f(3) show ?thesis by (intro exI [of _ "[]"]) simp
  next
    case (Some p)
    with f(3) obtain r where "exchanged s [r] s'" "status_code r = 200" by (auto dest!: post_received)
    then show ?thesis by (intro exI [of _ "[r]"]) simp
  qed
  with f(4) show ?thesis by simp
qed

lemma finish_exchange:
  assumes "exchanged s [response] s1" "status_code response = 200" "login_stream s2 = login_stream s1"
    and "finish_authenticated_response cfg host response s2 = Return (Inr session, s')"
  shows "session_exchange s response session s'"
  using finish_session [OF assms(4)] receives_append [OF assms(1)] assms(2,3)
  unfolding session_exchange_def by fastforce

lemma second_factor_session:
  assumes "second_factor ask cfg host response s = Return (Inr session, s')"
  shows "\<exists>r. accepted r \<and> session_exchange s r session s'"
proof -
  from assms obtain body r s1 s2 s3 where f: "delay_otp cfg s = (Inr (), s1)"
    "post_logincheck cfg host body s1 = (Inr r, s2)" "checked_answer ''/remote/logincheck'' r s2 = Return (Inr (), s3)"
    "status_code r = 200" "finish_authenticated_response cfg host r s3 = Return (Inr session, s')"
    by (auto simp: second_factor_def split: option.splits if_splits)
  then have "exchanged s [r] s2" "login_stream s3 = login_stream s2" "accepted r"
    by (auto dest!: delay_otp_stream post_received checked_answer_accepted)
  with finish_exchange [OF _ f(4) _ f(5)] show ?thesis by blast
qed

lemma session_exchange_after:
  assumes "exchanged s pre s1" "session_exchange s1 r session s'"
  shows "\<exists>post. exchanged s (pre @ r # post) s' \<and> length post \<le> 1 \<and> list_all (\<lambda>x. status_code x = 200) post"
  using assms receives_append unfolding session_exchange_def by blast

lemma authenticate_exchange:
  assumes "authenticate ask cfg s = Return (Inr session, s')" "cookie cfg = None"
  shows "\<exists>pre r post. exchanged s (pre @ r # post) s' \<and> length pre \<le> 2 \<and> list_all accepted (pre @ [r])
    \<and> status_code r = 200 \<and> session_from r session
    \<and> length post \<le> 1 \<and> list_all (\<lambda>x. status_code x = 200) post"
proof -
  let ?host = "login_http_host cfg"
  from assms obtain answer s1 path response s2 where
    a: "first_answer cfg ?host s = Return (Inr answer, s1)"
    "answer_challenge ask cfg ?host answer s1 = Return (Inr (path, response), s2)" "status_code response = 200"
    "(if svpn_cookie response \<noteq> None then finish_authenticated_response cfg ?host response
      else second_factor ask cfg ?host response) s2 = Return (Inr session, s')"
    by (auto simp: authenticate_def Let_def)
  obtain pre s0 where pre: "exchanged s pre s0" "length pre \<le> 1" "list_all accepted pre" "accepted response"
    "exchanged s0 [response] s2"
  proof (cases "answer = (path, response) \<and> s2 = s1")
    case True
    with that [of "[]" s] first_answer_received [OF a(1)] show ?thesis by simp
  next
    case False
    with that [of "[snd answer]" s1] first_answer_received [OF a(1)] answer_challenge_received [OF a(2)]
    show ?thesis by auto
  qed
  show ?thesis
  proof (cases "svpn_cookie response = None")
    case True
    with a(4) obtain r where r: "accepted r" "session_exchange s2 r session s'"
      by (auto dest: second_factor_session)
    obtain post where "exchanged s ((pre @ [response]) @ r # post) s'" "length post \<le> 1"
      "list_all (\<lambda>x. status_code x = 200) post"
      using session_exchange_after [OF receives_append [OF pre(1,5)] r(2)] by blast
    moreover have "length (pre @ [response]) \<le> 2" "list_all accepted ((pre @ [response]) @ [r])"
      using r pre(2-4) by simp_all
    ultimately show ?thesis using r(2) unfolding session_exchange_def by blast
  next
    case False
    with a(4) finish_exchange [OF pre(5) a(3) refl] have r: "session_exchange s0 response session s'" by simp
    obtain post where "exchanged s (pre @ response # post) s'" "length post \<le> 1"
      "list_all (\<lambda>x. status_code x = 200) post"
      using session_exchange_after [OF pre(1) r] by blast
    moreover have "length pre \<le> 2" "list_all accepted (pre @ [response])" using pre(2-4) by simp_all
    ultimately show ?thesis using r unfolding session_exchange_def by blast
  qed
qed

lemma authenticate_configured:
  "authenticate ask cfg s = Return (Inr session, s') \<Longrightarrow> cookie cfg = Some k \<Longrightarrow>
   session = \<lparr>session_cookie = k, session_redirect = None\<rparr> \<and> s' = s"
  by (auto simp: authenticate_def)

lemma session_from_redirect: "session_from r session \<Longrightarrow> session_redirect session = Some p \<Longrightarrow> starts_char (CHR ''/'') p"
  by (auto simp: session_from_def dest: portal_redirect_path)

text \<open>C34. An authenticated session is genuine. With a configured cookie the session is that
  cookie and nothing is exchanged. Otherwise the answers that this run took off the
  connection are at most two earlier ones (a challenge, a request for the second factor),
  then one with status 200 that set the session cookie, all cookies and the redirect of
  which the session carries, then at most the answer to the host check, with status 200;
  every answer up to the one that set the cookie has result code 1 or none. A redirect of a
  session is a path on the gateway.\<close>

theorem authenticated_session_genuine:
  assumes "authenticate ask cfg s = Return (Inr session, s')"
  shows "(case cookie cfg of
      Some k \<Rightarrow> session = \<lparr>session_cookie = k, session_redirect = None\<rparr> \<and> s' = s
    | None \<Rightarrow> \<exists>pre r post.
        receives (http_in (login_stream s)) (pre @ r # post) (http_in (login_stream s'))
      \<and> length pre \<le> 2 \<and> list_all accepted (pre @ [r]) \<and> status_code r = 200 \<and> session_from r session
      \<and> length post \<le> 1 \<and> list_all (\<lambda>x. status_code x = 200) post)
    \<and> (\<forall>p. session_redirect session = Some p \<longrightarrow> starts_char (CHR ''/'') p)"
proof (cases "cookie cfg")
  case (Some k)
  with authenticate_configured [OF assms] show ?thesis by simp
next
  case None
  from authenticate_exchange [OF assms None] None show ?thesis by (auto dest: session_from_redirect)
qed

text \<open>A gateway that answers the first request with the session cookie.\<close>

definition sample_headers :: "(string \<times> string) list" where
  "sample_headers = [(''Set-Cookie'', ''SVPNCOOKIE=abc'')]"

definition sample_response :: http_response where
  "sample_response = \<lparr>status_code = 200, reason = ''OK'', resp_headers = sample_headers, resp_body = []\<rparr>"

definition sample_bytes :: bytes where
  "sample_bytes = as_bytes (header_text 200 ''OK'' sample_headers)"

definition willing :: "reader \<Rightarrow> http_stream" where
  "willing r = \<lparr>http_in = r, http_out = \<lparr>accepts = [], sent = [], flush_answer = Inr ()\<rparr>\<rparr>"

definition sample_login :: "reader \<Rightarrow> login_io" where
  "sample_login r = \<lparr>login_stream = willing (Inr sample_bytes # r), login_log = [], login_delays = []\<rparr>"

lemma sample_received: "http_receive (Inr sample_bytes # r) = (Inr sample_response, r)"
proof -
  have plain: "list_all plain_header sample_headers"
    by (simp add: sample_headers_def plain_header_def trimmed_def ws_len_def ws_len_rev_def byte_at_def
        ws1_def ws2_def ws3_def)
  have lit: "header_text 200 ''OK'' sample_headers =
     ''HTTP/1.1 200 OK'' @ CRLF @ ''Set-Cookie: SVPNCOOKIE=abc'' @ CRLF @ CRLF"
    by code_simp
  have utf8: "utf8_valid (header_text 200 ''OK'' sample_headers)"
    by (rule utf8_valid_ascii) (simp add: lit CRLF_def)
  have "header_value sample_headers ''Content-Length'' = None" "header_value sample_headers ''Transfer-Encoding'' = None"
    by code_simp+
  moreover have "length (header_text 200 ''OK'' sample_headers) \<le> READ_CHUNK_SIZE"
    by (simp add: lit CRLF_def READ_CHUNK_SIZE_def)
  ultimately show ?thesis
    using header_page_received [OF plain _ utf8] by (simp add: sample_bytes_def sample_response_def)
qed

lemma log_auth_Inr:
  "\<exists>s'. log_auth_response_summary path response s = (Inr (), s') \<and> login_stream s' = login_stream s"
  by (simp add: log_auth_response_summary_def Let_def)

lemma sample_login_succeeds:
  assumes cfg: "cookie cfg = None" "username cfg = []" "password cfg = None"
  shows "\<exists>s'. authenticate ask cfg (sample_login r)
      = Return (Inr \<lparr>session_cookie = ''SVPNCOOKIE=abc'', session_redirect = None\<rparr>, s')
    \<and> http_in (login_stream s') = r \<and> accepts (http_out (login_stream s')) = []
    \<and> flush_answer (http_out (login_stream s')) = Inr ()"
proof -
  obtain s1 where s1: "login_request (login_http_host cfg) ''GET'' ''/remote/login''
      [(''User-Agent'', user_agent cfg)] [] (sample_login r) = (Inr sample_response, s1)"
    "http_in (login_stream s1) = r" "accepts (http_out (login_stream s1)) = []"
    "flush_answer (http_out (login_stream s1)) = Inr ()"
    by (simp add: login_request_def do_http_request_def Let_def sample_received sample_login_def willing_def
        http_send_def write_pieces_willing flush_def)
  have body: "body_text sample_response = []" by code_simp
  have "svpn_cookie sample_response = Some ''SVPNCOOKIE=abc''" "cookie_header sample_response = Some ''SVPNCOOKIE=abc''"
    by code_simp+
  moreover have "get_value [] ''ret='' = None" "action_url [] = Return None" "portal_redirect [] = Return None"
    by code_simp+
  moreover obtain s2 where "log_auth_response_summary ''/remote/login'' sample_response s1 = (Inr (), s2)"
    "login_stream s2 = login_stream s1"
    using log_auth_Inr by blast
  moreover have "status_code sample_response = 200" by (simp add: sample_response_def)
  ultimately show ?thesis
    using s1 body cfg
    by (simp add: authenticate_def first_answer_def answer_challenge_def Let_def bind_xop_def
        lift_op_def return_op_def checked_answer_def check_op_def pure_xop_def validate_auth_response_def
        ensure_status_ok_for_path_def finish_authenticated_response_def)
qed

theorem authenticated_session_genuine_witness:
  "\<exists>(s' :: login_io) pre r post.
     receives (http_in (login_stream (sample_login []))) (pre @ r # post) (http_in (login_stream s'))
     \<and> list_all accepted (pre @ [r]) \<and> status_code r = 200
     \<and> session_from r \<lparr>session_cookie = ''SVPNCOOKIE=abc'', session_redirect = None\<rparr>"
proof -
  have "cookie config_default = None" "username config_default = []" "password config_default = None"
    by (simp_all add: config_default_def)
  then obtain s' where "authenticate (\<lambda>p h q. Inr []) config_default (sample_login [])
    = Return (Inr \<lparr>session_cookie = ''SVPNCOOKIE=abc'', session_redirect = None\<rparr>, s')"
    using sample_login_succeeds by blast
  from authenticated_session_genuine [OF this] have "\<exists>pre r post.
      receives (http_in (login_stream (sample_login []))) (pre @ r # post) (http_in (login_stream s'))
      \<and> length pre \<le> 2 \<and> list_all accepted (pre @ [r]) \<and> status_code r = 200
      \<and> session_from r \<lparr>session_cookie = ''SVPNCOOKIE=abc'', session_redirect = None\<rparr>
      \<and> length post \<le> 1 \<and> list_all (\<lambda>x. status_code x = 200) post"
    by (simp only: config_default_def config.simps option.case)
  then show ?thesis by blast
qed

section \<open>Panics\<close>

text \<open>A challenge form whose last input element has no closing bracket: the search goes on one
  byte behind the end of the text.\<close>

lemma unterminated_input_panics:
  "otp_challenge_form (\<lambda>p h q. Inr ''1'') config_default
     (''<form action='' @ [CHR 0x22] @ ''/x'' @ [CHR 0x22] @ ''><input'') = Panic"
  by code_simp

text \<open>A redirect marker followed by a character of several bytes: the search goes on inside the
  character.\<close>

lemma redirect_marker_panics:
  "portal_redirect (''document.location'' @ [CHR 0xC3, CHR 0xA9]) = Panic"
  by code_simp

text \<open>An invalid SAML session identifier is refused before anything is sent.\<close>

lemma invalid_saml_id_sends_nothing:
  "\<not> is_valid_saml_session_id session_id \<Longrightarrow>
   authenticate_with_saml_session cfg session_id s = Return (Inl (Auth ''invalid SAML session id''), s)"
  by (simp add: authenticate_with_saml_session_def lift_op_def fail_op_def)

end
