(* ===== verification/User_Input.thy ===== *)
theory User_Input
  imports Pinentry
begin

text \<open>
  Asking the user for a secret (\<open>src/user_input.rs\<close>): through the pinentry program when one is
  configured, otherwise on the terminal with its echo switched off. The terminal is a record
  with its echo flag, the answers of its calls and what was printed.

  Shown here: the echo is switched back on after the secret was read, also when reading fails,
  and nothing of the secret is printed.
\<close>

record terminal =
  tty_echo :: bool
  tty_printed :: string
  tty_flush :: "io_error + unit"
  tty_getattr :: "string + unit"
  tty_setattr :: "(string + unit) list"
  tty_line :: "io_error + string"
  tty_echoed :: string

text \<open>\<open>tcsetattr\<close> takes the next of the scripted answers, success when there is none left; the
  attributes change only on success.\<close>

definition tcsetattr :: "bool \<Rightarrow> terminal \<Rightarrow> (string + unit) \<times> terminal" where
  "tcsetattr echo t =
     (case tty_setattr t of
        [] \<Rightarrow> (Inr (), t\<lparr>tty_echo := echo\<rparr>)
      | Inr _ # rest \<Rightarrow> (Inr (), t\<lparr>tty_echo := echo, tty_setattr := rest\<rparr>)
      | Inl e # rest \<Rightarrow> (Inl e, t\<lparr>tty_setattr := rest\<rparr>))"

text \<open>Reading a line: the terminal prints what is typed when its echo is on.\<close>

definition tty_read_line :: "terminal \<Rightarrow> (io_error + string) \<times> terminal" where
  "tty_read_line t =
     (tty_line t,
      (case tty_line t of
         Inr line \<Rightarrow> if tty_echo t then t\<lparr>tty_echoed := tty_echoed t @ line\<rparr> else t
       | Inl e \<Rightarrow> t))"

definition tty_print :: "string \<Rightarrow> terminal \<Rightarrow> terminal" where
  "tty_print text t = t\<lparr>tty_printed := tty_printed t @ text\<rparr>"

definition other_error :: "string \<Rightarrow> string \<Rightarrow> error" where
  "other_error text err = Io (IoError OtherKind (text @ err))"

definition line_end :: "char \<Rightarrow> bool" where
  "line_end c \<longleftrightarrow> c = CHR 0x0D \<or> c = CHR 0x0A"

definition prompt_secret :: "string \<Rightarrow> terminal \<Rightarrow> string res \<times> terminal" where
  "prompt_secret prompt t0 =
     (let t = tty_print prompt t0 in
      case tty_flush t of
        Inl e \<Rightarrow> (Inl (Io e), t)
      | Inr _ \<Rightarrow>
          (case tty_getattr t of
             Inl err \<Rightarrow> (Inl (other_error ''failed to read terminal settings: '' err), t)
           | Inr _ \<Rightarrow>
               (let original = tty_echo t in
                case tcsetattr False t of
                  (Inl err, t1) \<Rightarrow> (Inl (other_error ''failed to disable terminal echo: '' err), t1)
                | (Inr _, t1) \<Rightarrow>
                    (let (read_result, t2) = tty_read_line t1;
                         (restore_result, t3) = tcsetattr original t2;
                         t4 = tty_print [CHR 0x0A] t3
                     in case read_result of
                          Inl e \<Rightarrow> (Inl (Io e), t4)
                        | Inr secret \<Rightarrow>
                            (case restore_result of
                               Inl err \<Rightarrow> (Inl (other_error ''failed to restore terminal echo: '' err), t4)
                             | Inr _ \<Rightarrow> (Inr (trim_end_matches line_end secret), t4))))))"

definition read_secret ::
  "(string \<Rightarrow> string \<Rightarrow> string \<Rightarrow> string res) \<Rightarrow> string option \<Rightarrow> string \<Rightarrow> string \<Rightarrow> terminal \<Rightarrow>
     string res \<times> terminal" where
  "read_secret read_pin pinentry_program hint prompt t =
     (case pinentry_program of
        Some p \<Rightarrow> if p \<noteq> [] then (read_pin p hint prompt, t) else prompt_secret prompt t
      | None \<Rightarrow> prompt_secret prompt t)"

section \<open>The echo\<close>

text \<open>The secret is never echoed, and when the terminal accepts its settings the echo is
  afterwards as it was, whether the secret could be read or not.\<close>

lemma prompt_secret_silent: "tty_echoed (snd (prompt_secret prompt t)) = tty_echoed t"
  by (auto simp: prompt_secret_def tty_print_def tcsetattr_def tty_read_line_def Let_def
      split: sum.splits list.splits prod.splits)

lemma prompt_secret_restores_echo:
  assumes "list_all (\<lambda>r. r = Inr ()) (tty_setattr t)"
  shows "tty_echo (snd (prompt_secret prompt t)) = tty_echo t"
  using assms
  by (auto simp: prompt_secret_def tty_print_def tcsetattr_def tty_read_line_def Let_def
      split: sum.splits list.splits prod.splits)

text \<open>What is returned is the line without its line end.\<close>

lemma prompt_secret_line:
  "prompt_secret prompt t = (Inr secret, t1) \<Longrightarrow>
   \<exists>line. tty_line t = Inr line \<and> secret = trim_end_matches line_end line"
  by (auto simp: prompt_secret_def tty_print_def tcsetattr_def tty_read_line_def Let_def
      split: sum.splits list.splits prod.splits if_splits)

end
