(* ===== verification/Rust_Loop.thy ===== *)
theory Rust_Loop
  imports Op_Monad
begin

text \<open>
  Loops that may run forever, and time.

  \<open>repeat_loop body\<close> is the Rust \<open>loop\<close>: the body ends it with a result or lets it go on. It
  returns \<open>None\<close> when it never ends, so that a claim of termination is a claim about its
  value. The two rules are those of total and of partial correctness. A clock is the part of
  the operating system that \<open>Instant::now\<close> and \<open>thread::sleep\<close> use, counted in
  milliseconds; \<open>loop_deadline\<close> is the rule for loops that wait for a deadline.
\<close>

section \<open>Loops\<close>

datatype ('r, 's) loop_step = Done 'r 's | Again 's

partial_function (option) repeat_loop :: "('s \<Rightarrow> ('r, 's) loop_step) \<Rightarrow> 's \<Rightarrow> ('r \<times> 's) option" where
  "repeat_loop body s = (case body s of Done r s1 \<Rightarrow> Some (r, s1) | Again s1 \<Rightarrow> repeat_loop body s1)"

lemma repeat_loop_Done: "body s = Done r s1 \<Longrightarrow> repeat_loop body s = Some (r, s1)"
  by (subst repeat_loop.simps) simp

lemma repeat_loop_Again: "body s = Again s1 \<Longrightarrow> repeat_loop body s = repeat_loop body s1"
  by (subst repeat_loop.simps) simp

text \<open>Total correctness: with a measure that every further round decreases, the loop ends in a
  state in which its result satisfies the postcondition.\<close>

lemma repeat_loop_total:
  fixes m :: "'s \<Rightarrow> nat"
  assumes again: "\<And>s s1. I s \<Longrightarrow> body s = Again s1 \<Longrightarrow> I s1 \<and> m s1 < m s"
    and "done": "\<And>s r s1. I s \<Longrightarrow> body s = Done r s1 \<Longrightarrow> Q r s1"
    and "I s"
  shows "\<exists>r s1. repeat_loop body s = Some (r, s1) \<and> Q r s1"
  using \<open>I s\<close>
proof (induction s rule: measure_induct_rule [of m])
  case (less s)
  show ?case
  proof (cases "body s")
    case (Done r s1)
    with less.prems show ?thesis by (auto simp: repeat_loop_Done intro: "done")
  next
    case (Again s1)
    with less again show ?thesis by (auto simp: repeat_loop_Again)
  qed
qed

text \<open>Partial correctness: what every round keeps holds when the loop has ended.\<close>

lemma repeat_loop_partial:
  assumes "repeat_loop body s = Some (r, s')" and "I s"
    and "\<And>s s1. I s \<Longrightarrow> body s = Again s1 \<Longrightarrow> I s1"
    and "\<And>s r s1. I s \<Longrightarrow> body s = Done r s1 \<Longrightarrow> Q r s1"
  shows "Q r s'"
proof -
  have "b = body \<longrightarrow> I s \<longrightarrow> Q (fst x) (snd x)" if "repeat_loop b s = Some x" for b x s
    using that
    by (rule repeat_loop.raw_induct [where P = "\<lambda>b s x. b = body \<longrightarrow> I s \<longrightarrow> Q (fst x) (snd x)", rotated])
      (use assms(3,4) in \<open>fastforce split: loop_step.splits\<close>)
  with assms(1,2) show ?thesis by fastforce
qed

section \<open>Clocks\<close>

record 's clock_ops =
  clock_now :: "'s \<Rightarrow> nat"
  clock_sleep :: "nat \<Rightarrow> 's \<Rightarrow> 's"

text \<open>Sleeping takes at least the time asked for; an operation takes time or none.\<close>

definition clock_advances :: "'s clock_ops \<Rightarrow> bool" where
  "clock_advances c \<longleftrightarrow> (\<forall>d s. clock_now c s + d \<le> clock_now c (clock_sleep c d s))"

definition takes_time :: "'s clock_ops \<Rightarrow> ('s \<Rightarrow> 's) \<Rightarrow> bool" where
  "takes_time c f \<longleftrightarrow> (\<forall>s. clock_now c s \<le> clock_now c (f s))"

lemma clock_sleep_later: "clock_advances c \<Longrightarrow> clock_now c s + d \<le> clock_now c (clock_sleep c d s)"
  by (simp add: clock_advances_def)

lemma takes_time_le: "takes_time c f \<Longrightarrow> clock_now c s \<le> clock_now c (f s)"
  by (simp add: takes_time_def)

text \<open>A loop that goes on only before the deadline and sleeps at least one unit ends.\<close>

lemma loop_deadline:
  assumes again: "\<And>s s1. I s \<Longrightarrow> body s = Again s1 \<Longrightarrow> I s1 \<and> clock_now c s < deadline \<and> clock_now c s < clock_now c s1"
    and "done": "\<And>s r s1. I s \<Longrightarrow> body s = Done r s1 \<Longrightarrow> Q r s1"
    and "I s"
  shows "\<exists>r s1. repeat_loop body s = Some (r, s1) \<and> Q r s1"
proof (rule repeat_loop_total [where I = I and m = "\<lambda>s. deadline - clock_now c s"])
  fix s s1 assume "I s" "body s = Again s1"
  with again [of s s1] show "I s1 \<and> deadline - clock_now c s1 < deadline - clock_now c s" by auto
qed (use "done" \<open>I s\<close> in auto)

end
