(* ===== verification/Interface.thy ===== *)
theory Interface
  imports Rust_Loop Net_Addr
begin

text \<open>
  Waiting for the interface of pppd (\<open>src/tunnel/interface.rs\<close>): the search among the
  interfaces of the machine and the loop that repeats it until a timeout. The list of
  interfaces (\<open>getifaddrs\<close>) and the clock are operations of the machine.

  Shown here: the wait always ends when time passes; what it returns is an interface that was
  up, has the expected address and a matching name; and it gives up only after the timeout.
\<close>

section \<open>The machine\<close>

datatype sock_address = SockaddrIn ipv4_addr | SockaddrOther

record interface_address =
  interface_name :: string
  iff_up :: bool
  if_address :: "sock_address option"

record 's if_ops =
  if_list :: "'s \<Rightarrow> (string + interface_address list) \<times> 's"
  if_clock :: "'s clock_ops"

record ppp_interface =
  ppp_if_name :: string
  ppp_if_address :: ipv4_addr

section \<open>Operations\<close>

definition matches_interface_name :: "string \<Rightarrow> string option \<Rightarrow> bool" where
  "matches_interface_name name preferred \<longleftrightarrow>
     (case preferred of Some p \<Rightarrow> p \<noteq> [] \<and> contains name p | None \<Rightarrow> False) \<or> contains name ''ppp''"

fun first_ppp_interface :: "ipv4_addr \<Rightarrow> string option \<Rightarrow> interface_address list \<Rightarrow> ppp_interface option" where
  "first_ppp_interface expected preferred [] = None"
| "first_ppp_interface expected preferred (iface # ifaces) =
     (if \<not> iff_up iface then first_ppp_interface expected preferred ifaces
      else if \<not> matches_interface_name (interface_name iface) preferred
      then first_ppp_interface expected preferred ifaces
      else case if_address iface of
          None \<Rightarrow> first_ppp_interface expected preferred ifaces
        | Some SockaddrOther \<Rightarrow> first_ppp_interface expected preferred ifaces
        | Some (SockaddrIn addr) \<Rightarrow>
            if addr = expected
            then Some \<lparr>ppp_if_name = interface_name iface, ppp_if_address = addr\<rparr>
            else first_ppp_interface expected preferred ifaces)"

definition find_up_ppp_interface ::
  "'s if_ops \<Rightarrow> ipv4_addr \<Rightarrow> string option \<Rightarrow> 's \<Rightarrow> (io_error + ppp_interface option) \<times> 's" where
  "find_up_ppp_interface ops expected preferred s =
     (case if_list ops s of
        (Inl err, s1) \<Rightarrow> (Inl (IoError OtherKind err), s1)
      | (Inr addrs, s1) \<Rightarrow> (Inr (first_ppp_interface expected preferred addrs), s1))"

definition wait_for_up_body ::
  "'s if_ops \<Rightarrow> ipv4_addr \<Rightarrow> string option \<Rightarrow> nat \<Rightarrow> nat \<Rightarrow> nat \<Rightarrow> 's \<Rightarrow>
     (io_error + ppp_interface option, 's) loop_step" where
  "wait_for_up_body ops expected preferred start timeout interval s =
     (case find_up_ppp_interface ops expected preferred s of
        (Inl err, s1) \<Rightarrow> Done (Inl err) s1
      | (Inr (Some interface), s1) \<Rightarrow> Done (Inr (Some interface)) s1
      | (Inr None, s1) \<Rightarrow>
          if timeout \<le> clock_now (if_clock ops) s1 - start then Done (Inr None) s1
          else Again (clock_sleep (if_clock ops) interval s1))"

definition wait_for_up_ppp_interface ::
  "'s if_ops \<Rightarrow> ipv4_addr \<Rightarrow> string option \<Rightarrow> nat \<Rightarrow> nat \<Rightarrow> 's \<Rightarrow>
     ((io_error + ppp_interface option) \<times> 's) option" where
  "wait_for_up_ppp_interface ops expected preferred timeout interval s =
     repeat_loop (wait_for_up_body ops expected preferred (clock_now (if_clock ops) s) timeout interval) s"

section \<open>The wait\<close>

text \<open>An interface that the search may return.\<close>

definition suitable_interface :: "ipv4_addr \<Rightarrow> string option \<Rightarrow> interface_address \<Rightarrow> bool" where
  "suitable_interface expected preferred iface \<longleftrightarrow>
     iff_up iface \<and> matches_interface_name (interface_name iface) preferred
   \<and> if_address iface = Some (SockaddrIn expected)"

lemma first_ppp_interface_Some:
  "first_ppp_interface expected preferred ifaces = Some i \<Longrightarrow>
   \<exists>iface \<in> set ifaces. suitable_interface expected preferred iface
     \<and> i = \<lparr>ppp_if_name = interface_name iface, ppp_if_address = expected\<rparr>"
  by (induction ifaces) (auto simp: suitable_interface_def split: if_splits option.splits sock_address.splits)

lemma first_ppp_interface_None:
  "first_ppp_interface expected preferred ifaces = None \<longleftrightarrow>
   (\<forall>iface \<in> set ifaces. \<not> suitable_interface expected preferred iface)"
  by (induction ifaces) (auto simp: suitable_interface_def split: option.splits sock_address.splits)

text \<open>The laws of the machine: asking for the interfaces takes no negative time.\<close>

definition if_laws :: "'s if_ops \<Rightarrow> bool" where
  "if_laws ops \<longleftrightarrow> clock_advances (if_clock ops) \<and> takes_time (if_clock ops) (snd \<circ> if_list ops)"

lemma if_list_later: "if_laws ops \<Longrightarrow> if_list ops s = (r, s1) \<Longrightarrow> clock_now (if_clock ops) s \<le> clock_now (if_clock ops) s1"
  using takes_time_le [of "if_clock ops" "snd \<circ> if_list ops" s] by (simp add: if_laws_def)

definition interface_outcome ::
  "'s if_ops \<Rightarrow> ipv4_addr \<Rightarrow> string option \<Rightarrow> nat \<Rightarrow> io_error + ppp_interface option \<Rightarrow> 's \<Rightarrow> bool" where
  "interface_outcome ops expected preferred deadline r s \<longleftrightarrow>
     (case r of
        Inl err \<Rightarrow> \<exists>t e. if_list ops t = (Inl e, s) \<and> err = IoError OtherKind e
      | Inr None \<Rightarrow> deadline \<le> clock_now (if_clock ops) s
      | Inr (Some i) \<Rightarrow>
          \<exists>t ifaces. if_list ops t = (Inr ifaces, s) \<and>
            (\<exists>iface \<in> set ifaces. suitable_interface expected preferred iface
               \<and> i = \<lparr>ppp_if_name = interface_name iface, ppp_if_address = expected\<rparr>))"

lemma wait_for_up_Done:
  assumes "start \<le> clock_now (if_clock ops) s" "if_laws ops"
    and "wait_for_up_body ops expected preferred start timeout interval s = Done r s1"
  shows "interface_outcome ops expected preferred (start + timeout) r s1"
proof (cases "if_list ops s")
  case (Pair x s2)
  have later: "clock_now (if_clock ops) s \<le> clock_now (if_clock ops) s2"
    by (rule if_list_later [OF assms(2) Pair])
  show ?thesis
  proof (cases x)
    case (Inl e)
    with assms(3) Pair show ?thesis
      by (auto simp: wait_for_up_body_def find_up_ppp_interface_def interface_outcome_def)
  next
    case (Inr ifaces)
    show ?thesis
    proof (cases "first_ppp_interface expected preferred ifaces")
      case None
      with assms(1,3) Pair Inr later show ?thesis
        by (auto simp: wait_for_up_body_def find_up_ppp_interface_def interface_outcome_def split: if_splits)
    next
      case (Some i)
      with assms(3) Pair Inr have "r = Inr (Some i)" "if_list ops s = (Inr ifaces, s1)"
        by (auto simp: wait_for_up_body_def find_up_ppp_interface_def)
      with first_ppp_interface_Some [OF Some] show ?thesis unfolding interface_outcome_def by auto
    qed
  qed
qed

lemma wait_for_up_Again:
  assumes "if_laws ops" "0 < interval" "start \<le> clock_now (if_clock ops) s"
    and "wait_for_up_body ops expected preferred start timeout interval s = Again s1"
  shows "clock_now (if_clock ops) s < start + timeout \<and> clock_now (if_clock ops) s < clock_now (if_clock ops) s1"
proof (cases "if_list ops s")
  case (Pair x s2)
  with assms(4) have "s1 = clock_sleep (if_clock ops) interval s2" "clock_now (if_clock ops) s2 - start < timeout"
    by (auto simp: wait_for_up_body_def find_up_ppp_interface_def split: sum.splits option.splits if_splits)
  with if_list_later [OF assms(1) Pair] clock_sleep_later [of "if_clock ops" s2 interval] assms(1-3)
  show ?thesis by (auto simp: if_laws_def)
qed

lemma wait_for_interface_returns:
  assumes "if_laws ops" "0 < interval"
  shows "\<exists>r s1. wait_for_up_ppp_interface ops expected preferred timeout interval s = Some (r, s1)
     \<and> interface_outcome ops expected preferred (clock_now (if_clock ops) s + timeout) r s1"
  unfolding wait_for_up_ppp_interface_def
proof (rule loop_deadline [where c = "if_clock ops" and deadline = "clock_now (if_clock ops) s + timeout"
      and I = "\<lambda>t. clock_now (if_clock ops) s \<le> clock_now (if_clock ops) t"])
  fix t t1 assume inv: "clock_now (if_clock ops) s \<le> clock_now (if_clock ops) t"
    and "wait_for_up_body ops expected preferred (clock_now (if_clock ops) s) timeout interval t = Again t1"
  from wait_for_up_Again [OF assms inv this(2)] inv
  show "clock_now (if_clock ops) s \<le> clock_now (if_clock ops) t1
    \<and> clock_now (if_clock ops) t < clock_now (if_clock ops) s + timeout
    \<and> clock_now (if_clock ops) t < clock_now (if_clock ops) t1" by simp
qed (simp_all add: wait_for_up_Done [OF _ assms(1)])

text \<open>Waiting for the interface of pppd ends when time passes: it returns an interface that
  the machine reported as up with the expected address and a matching name, or nothing once
  the timeout has passed, or the error of the machine.\<close>

theorem wait_for_interface_ends:
  assumes "if_laws ops" "0 < interval"
  shows "\<exists>r s1. wait_for_up_ppp_interface ops expected preferred timeout interval s = Some (r, s1)
     \<and> interface_outcome ops expected preferred (clock_now (if_clock ops) s + timeout) r s1"
  using assms by (rule wait_for_interface_returns)

text \<open>A machine on which the interface comes up after two seconds.\<close>

definition sample_interfaces :: "nat if_ops" where
  "sample_interfaces =
     \<lparr>if_list = (\<lambda>t. (Inr [\<lparr>interface_name = ''lo'', iff_up = True, if_address = Some (SockaddrIn (Ipv4Addr 127 0 0 1))\<rparr>,
        \<lparr>interface_name = ''ppp0'', iff_up = 2000 \<le> t, if_address = Some (SockaddrIn (Ipv4Addr 10 0 0 2))\<rparr>], t + 1)),
      if_clock = \<lparr>clock_now = (\<lambda>t. t), clock_sleep = (\<lambda>d t. t + d)\<rparr>\<rparr>"

lemma sample_interfaces_laws: "if_laws sample_interfaces"
  by (simp add: if_laws_def sample_interfaces_def clock_advances_def takes_time_def)

theorem wait_for_interface_ends_witness:
  "\<exists>r s1. wait_for_up_ppp_interface sample_interfaces (Ipv4Addr 10 0 0 2) None 60000 200 0 = Some (r, s1)
     \<and> interface_outcome sample_interfaces (Ipv4Addr 10 0 0 2) None 60000 r s1"
  using wait_for_interface_ends [OF sample_interfaces_laws, of 200 "Ipv4Addr 10 0 0 2" None 60000 0]
  by (simp add: sample_interfaces_def)

end
