(* ===== verification/Pppd.thy ===== *)
theory Pppd
  imports Rust_Loop Config
begin

text \<open>
  The process of pppd (\<open>src/tunnel/pppd.rs\<close>): its command line, what the child of \<open>forkpty\<close>
  does, and its termination. Signals, \<open>waitpid\<close> and the clock are operations of the
  machine.

  Shown here: the child runs the program with the arguments of the command; terminating the process ends and, when it reports success, the child
  has been reaped, with the signal that cannot be ignored sent only after the grace period.
\<close>

section \<open>Command lines\<close>

definition DEFAULT_PPPD_PATH :: string where "DEFAULT_PPPD_PATH = ''/usr/sbin/pppd''"
definition DEFAULT_PPP_PATH :: string where "DEFAULT_PPP_PATH = ''/usr/sbin/ppp''"

record pppd_command =
  program :: string
  args :: "string list"

definition argv :: "pppd_command \<Rightarrow> string list" where
  "argv cmd = program cmd # args cmd"

definition build_ppp_command :: "config \<Rightarrow> string \<Rightarrow> pppd_command" where
  "build_ppp_command cfg ppp_path =
     \<lparr>program = ppp_path,
      args = [''-direct'']
        @ (case ppp_system cfg of Some system \<Rightarrow> if system = [] then [] else [system] | None \<Rightarrow> [])\<rparr>"

definition option_args :: "string list \<Rightarrow> string option \<Rightarrow> string list" where
  "option_args names v = (case v of Some x \<Rightarrow> names @ [x] | None \<Rightarrow> [])"

definition build_pppd_command :: "config \<Rightarrow> string \<Rightarrow> pppd_command" where
  "build_pppd_command cfg pppd_path =
     \<lparr>program = pppd_path,
      args =
        (case pppd_call cfg of
           Some call \<Rightarrow> [''call'', call]
         | None \<Rightarrow>
             [''230400'', '':169.254.2.1'', ''noipdefault'', ''ipcp-accept-local'', ''noaccomp'', ''noauth'',
              ''default-asyncmap'', ''nopcomp'', ''receive-all'', ''nodefaultroute'', ''nodetach'',
              ''lcp-max-configure'', ''40'', ''mru'', ''1354''])
        @ (if pppd_accept_remote cfg then [''ipcp-accept-remote''] else [])
        @ (if pppd_use_peerdns cfg then [''usepeerdns''] else [])
        @ (case pppd_log cfg of
             Some l \<Rightarrow> [''debug'', ''logfile'', l]
           | None \<Rightarrow> [''logfd'', ''2''])
        @ option_args [''plugin''] (pppd_plugin cfg)
        @ option_args [''ipparam''] (pppd_ipparam cfg)
        @ option_args [''ifname''] (pppd_ifname cfg)\<rparr>"

section \<open>The child\<close>

text \<open>The outcome of \<open>forkpty\<close> is an argument. In the child, an argument with a NUL byte cannot
  be passed on, and the program is replaced or the process exits.\<close>

datatype child_action = Execvp string "string list" | ProcessExit nat

definition c_string :: "string \<Rightarrow> string option" where
  "c_string text = (if CHR 0x00 \<in> set text then None else Some text)"

definition child_start :: "pppd_command \<Rightarrow> child_action" where
  "child_start cmd =
     (if list_all (\<lambda>a. c_string a \<noteq> None) (argv cmd)
      then Execvp (case argv cmd of a # _ \<Rightarrow> a | [] \<Rightarrow> DEFAULT_PPPD_PATH) (argv cmd)
      else ProcessExit 127)"

datatype 'p fork_result = ForkParent 'p | ForkChild

definition spawn_pppd :: "string + 'p fork_result \<Rightarrow> pppd_command \<Rightarrow> 'p res + child_action" where
  "spawn_pppd fork cmd =
     (case fork of
        Inl err \<Rightarrow> Inl (Inl (Pppd (''forkpty failed: '' @ err)))
      | Inr (ForkParent child) \<Rightarrow> Inl (Inr child)
      | Inr ForkChild \<Rightarrow> Inr (child_start cmd))"

section \<open>Termination of the process\<close>

datatype signal = SIGTERM | SIGKILL

datatype errno = ECHILD | Errno string

datatype wait_status = StillAlive | Exited | Signaled | OtherStatus

record 's proc_ops =
  proc_kill :: "signal \<Rightarrow> 's \<Rightarrow> 's"
  proc_wait :: "bool \<Rightarrow> 's \<Rightarrow> (errno + wait_status) \<times> 's"
  proc_clock :: "'s clock_ops"

fun show_errno :: "errno \<Rightarrow> string" where
  "show_errno ECHILD = ''ECHILD: No child processes''"
| "show_errno (Errno text) = text"

definition is_reaped :: "'s proc_ops \<Rightarrow> ('s, bool) op" where
  "is_reaped ops s =
     (case proc_wait ops True s of
        (Inr StillAlive, s1) \<Rightarrow> (Inr False, s1)
      | (Inr _, s1) \<Rightarrow> (Inr True, s1)
      | (Inl ECHILD, s1) \<Rightarrow> (Inr True, s1)
      | (Inl err, s1) \<Rightarrow> (Inl (Pppd (''waitpid failed: '' @ show_errno err)), s1))"

text \<open>The two loops: polling until the deadline (the result \<open>None\<close> is the deadline), and waiting
  after the process was killed.\<close>

definition grace_body :: "'s proc_ops \<Rightarrow> nat \<Rightarrow> 's \<Rightarrow> ((unit res) option, 's) loop_step" where
  "grace_body ops deadline s =
     (if clock_now (proc_clock ops) s < deadline then
        (case is_reaped ops s of
           (Inl e, s1) \<Rightarrow> Done (Some (Inl e)) s1
         | (Inr True, s1) \<Rightarrow> Done (Some (Inr ())) s1
         | (Inr False, s1) \<Rightarrow> Again (clock_sleep (proc_clock ops) 100 s1))
      else Done None s)"

definition killed_body :: "'s proc_ops \<Rightarrow> 's \<Rightarrow> (unit res, 's) loop_step" where
  "killed_body ops s =
     (case proc_wait ops False s of
        (Inr Exited, s1) \<Rightarrow> Done (Inr ()) s1
      | (Inr Signaled, s1) \<Rightarrow> Done (Inr ()) s1
      | (Inr _, s1) \<Rightarrow> Again s1
      | (Inl ECHILD, s1) \<Rightarrow> Done (Inr ()) s1
      | (Inl err, s1) \<Rightarrow> Done (Inl (Pppd (''waitpid after SIGKILL failed: '' @ show_errno err))) s1)"

definition terminate_pppd :: "'s proc_ops \<Rightarrow> 's \<Rightarrow> (unit res \<times> 's) option" where
  "terminate_pppd ops s =
     (case is_reaped ops s of
        (Inl e, s1) \<Rightarrow> Some (Inl e, s1)
      | (Inr True, s1) \<Rightarrow> Some (Inr (), s1)
      | (Inr False, s1) \<Rightarrow>
          (let s2 = proc_kill ops SIGTERM s1;
               deadline = clock_now (proc_clock ops) s2 + 5000
           in case repeat_loop (grace_body ops deadline) s2 of
                None \<Rightarrow> None
              | Some (Some r, s3) \<Rightarrow> Some (r, s3)
              | Some (None, s3) \<Rightarrow> repeat_loop (killed_body ops) (proc_kill ops SIGKILL s3)))"

section \<open>Laws of the machine\<close>

text \<open>
  What is relied on of the operating system. \<open>gone\<close> says that the child exists no more, and
  \<open>sigs\<close> lists the signals it was sent: \<open>waitpid\<close> without the flags for stopped and
  continued children reports only the end of the child, or, when it must not block, that it is
  alive; after such a report, and when there is no child, the child is gone.
\<close>

definition wait_laws :: "'s proc_ops \<Rightarrow> ('s \<Rightarrow> bool) \<Rightarrow> bool" where
  "wait_laws ops gone \<longleftrightarrow>
     (\<forall>b s r s1. proc_wait ops b s = (r, s1) \<longrightarrow>
        (case r of
           Inl err \<Rightarrow> err = ECHILD \<longrightarrow> gone s1
         | Inr status \<Rightarrow> b \<and> status = StillAlive \<or> (status = Exited \<or> status = Signaled) \<and> gone s1))"

definition signal_laws :: "'s proc_ops \<Rightarrow> ('s \<Rightarrow> signal list) \<Rightarrow> bool" where
  "signal_laws ops sigs \<longleftrightarrow>
     (\<forall>sig s. sigs (proc_kill ops sig s) = sigs s @ [sig])
   \<and> (\<forall>b s. sigs (snd (proc_wait ops b s)) = sigs s)
   \<and> (\<forall>d s. sigs (clock_sleep (proc_clock ops) d s) = sigs s)"

definition time_laws :: "'s proc_ops \<Rightarrow> bool" where
  "time_laws ops \<longleftrightarrow> clock_advances (proc_clock ops)
   \<and> (\<forall>sig. takes_time (proc_clock ops) (proc_kill ops sig))
   \<and> (\<forall>b. takes_time (proc_clock ops) (snd \<circ> proc_wait ops b))"

lemma wait_laws_Inr:
  "wait_laws ops gone \<Longrightarrow> proc_wait ops b s = (Inr status, s1) \<Longrightarrow>
   b \<and> status = StillAlive \<or> (status = Exited \<or> status = Signaled) \<and> gone s1"
  unfolding wait_laws_def by fastforce

lemma wait_laws_ECHILD: "wait_laws ops gone \<Longrightarrow> proc_wait ops b s = (Inl ECHILD, s1) \<Longrightarrow> gone s1"
  unfolding wait_laws_def by fastforce

lemma wait_keeps:
  assumes "signal_laws ops sigs" "time_laws ops" "proc_wait ops b s = (r, s1)"
  shows "sigs s1 = sigs s" "clock_now (proc_clock ops) s \<le> clock_now (proc_clock ops) s1"
proof -
  have "snd (proc_wait ops b s) = s1" using assms(3) by simp
  then show "sigs s1 = sigs s" using assms(1) unfolding signal_laws_def by metis
  have "takes_time (proc_clock ops) (snd \<circ> proc_wait ops b)" using assms(2) by (simp add: time_laws_def)
  from takes_time_le [OF this, of s] assms(3)
  show "clock_now (proc_clock ops) s \<le> clock_now (proc_clock ops) s1" by simp
qed

lemma kill_keeps:
  assumes "signal_laws ops sigs" "time_laws ops"
  shows "sigs (proc_kill ops sig s) = sigs s @ [sig]"
    "clock_now (proc_clock ops) s \<le> clock_now (proc_clock ops) (proc_kill ops sig s)"
  using assms by (simp_all add: signal_laws_def time_laws_def takes_time_def)

lemma is_reaped_result:
  assumes "wait_laws ops gone" "signal_laws ops sigs" "time_laws ops" "is_reaped ops s = (r, s1)"
  shows "(r = Inr True \<longrightarrow> gone s1) \<and> sigs s1 = sigs s
    \<and> clock_now (proc_clock ops) s \<le> clock_now (proc_clock ops) s1"
proof -
  obtain x s2 where w: "proc_wait ops True s = (x, s2)" by (cases "proc_wait ops True s")
  with assms(4) have "s2 = s1"
    by (auto simp: is_reaped_def split: sum.splits wait_status.splits errno.splits)
  moreover have "r = Inr True \<Longrightarrow> gone s2"
    using assms(4) w wait_laws_Inr [OF assms(1), of True s] wait_laws_ECHILD [OF assms(1), of True s]
    by (auto simp: is_reaped_def split: sum.splits wait_status.splits errno.splits)
  ultimately show ?thesis using wait_keeps [OF assms(2,3) w] by auto
qed

section \<open>The child is reaped\<close>

definition grace_outcome ::
  "'s proc_ops \<Rightarrow> ('s \<Rightarrow> bool) \<Rightarrow> nat \<Rightarrow> (unit res) option \<Rightarrow> 's \<Rightarrow> bool" where
  "grace_outcome ops gone deadline r s \<longleftrightarrow>
     (case r of None \<Rightarrow> deadline \<le> clock_now (proc_clock ops) s | Some x \<Rightarrow> x = Inr () \<longrightarrow> gone s)"

lemma grace_ends:
  assumes laws: "wait_laws ops gone" "signal_laws ops sigs" "time_laws ops"
  shows "\<exists>r s1. repeat_loop (grace_body ops deadline) s = Some (r, s1)
     \<and> grace_outcome ops gone deadline r s1 \<and> sigs s1 = sigs s"
proof (rule loop_deadline [where I = "\<lambda>t. sigs t = sigs s" and c = "proc_clock ops" and deadline = deadline])
  fix t t1 assume inv: "sigs t = sigs s" and body: "grace_body ops deadline t = Again t1"
  then obtain u where u: "clock_now (proc_clock ops) t < deadline" "is_reaped ops t = (Inr False, u)"
    "t1 = clock_sleep (proc_clock ops) 100 u"
    by (auto simp: grace_body_def split: if_splits prod.splits sum.splits bool.splits)
  moreover have "sigs t1 = sigs u" using laws(2) u(3) by (simp add: signal_laws_def)
  moreover have "clock_now (proc_clock ops) u + 100 \<le> clock_now (proc_clock ops) t1"
    using laws(3) u(3) by (simp add: time_laws_def clock_sleep_later)
  ultimately show "sigs t1 = sigs s \<and> clock_now (proc_clock ops) t < deadline
      \<and> clock_now (proc_clock ops) t < clock_now (proc_clock ops) t1"
    using is_reaped_result [OF laws u(2)] inv by auto
next
  fix t r t1 assume "sigs t = sigs s" "grace_body ops deadline t = Done r t1"
  then show "grace_outcome ops gone deadline r t1 \<and> sigs t1 = sigs s"
    using is_reaped_result [OF laws, of t]
    by (auto simp: grace_body_def grace_outcome_def split: if_splits prod.splits sum.splits bool.splits)
qed simp

lemma killed_ends:
  assumes laws: "wait_laws ops gone" "signal_laws ops sigs" "time_laws ops"
  shows "\<exists>r s1. repeat_loop (killed_body ops) s = Some (r, s1) \<and> (r = Inr () \<longrightarrow> gone s1)
     \<and> sigs s1 = sigs s \<and> clock_now (proc_clock ops) s \<le> clock_now (proc_clock ops) s1"
proof -
  obtain x s1 where w: "proc_wait ops False s = (x, s1)" by (cases "proc_wait ops False s")
  have "\<exists>r. killed_body ops s = Done r s1 \<and> (r = Inr () \<longrightarrow> gone s1)"
    using w wait_laws_Inr [OF laws(1), of False s] wait_laws_ECHILD [OF laws(1), of False s]
    by (cases x; cases "projl x") (auto simp: killed_body_def)
  then show ?thesis using wait_keeps [OF laws(2,3) w] by (auto simp: repeat_loop_Done)
qed

lemma terminate_returns:
  assumes laws: "wait_laws ops gone" "signal_laws ops sigs" "time_laws ops"
  shows "\<exists>r s1. terminate_pppd ops s = Some (r, s1) \<and> (r = Inr () \<longrightarrow> gone s1)
     \<and> (sigs s1 = sigs s \<or> sigs s1 = sigs s @ [SIGTERM]
        \<or> sigs s1 = sigs s @ [SIGTERM, SIGKILL]
          \<and> clock_now (proc_clock ops) s + 5000 \<le> clock_now (proc_clock ops) s1)"
proof -
  obtain x s1 where r1: "is_reaped ops s = (x, s1)" by (cases "is_reaped ops s")
  note r = is_reaped_result [OF laws r1]
  show ?thesis
  proof (cases "x = Inr False")
    case False
    with r1 r show ?thesis by (cases x) (auto simp: terminate_pppd_def)
  next
    case True
    define s2 where "s2 = proc_kill ops SIGTERM s1"
    note k = kill_keeps [OF laws(2,3), where sig = SIGTERM and s = s1, folded s2_def]
    obtain g s3 where g: "repeat_loop (grace_body ops (clock_now (proc_clock ops) s2 + 5000)) s2 = Some (g, s3)"
      "grace_outcome ops gone (clock_now (proc_clock ops) s2 + 5000) g s3" "sigs s3 = sigs s2"
      using grace_ends [OF laws] by blast
    note k3 = kill_keeps [OF laws(2,3), where sig = SIGKILL and s = s3]
    obtain q s4 where q: "repeat_loop (killed_body ops) (proc_kill ops SIGKILL s3) = Some (q, s4)"
      "q = Inr () \<longrightarrow> gone s4" "sigs s4 = sigs (proc_kill ops SIGKILL s3)"
      "clock_now (proc_clock ops) (proc_kill ops SIGKILL s3) \<le> clock_now (proc_clock ops) s4"
      using killed_ends [OF laws] by blast
    show ?thesis
    proof (cases g)
      case None
      then have "terminate_pppd ops s = Some (q, s4)"
        using r1 True g(1) q(1) by (simp add: terminate_pppd_def s2_def)
      then show ?thesis using None q k k3 g r by (auto simp: grace_outcome_def)
    next
      case (Some y)
      then have "terminate_pppd ops s = Some (y, s3)"
        using r1 True g(1) by (simp add: terminate_pppd_def s2_def)
      then show ?thesis using Some k g r by (auto simp: grace_outcome_def)
    qed
  qed
qed

text \<open>C12. Terminating pppd ends: on a machine with the laws above it returns, and when it reports
  success the child is gone. The signals sent are none when the child had ended already, else
  \<open>SIGTERM\<close>, followed by \<open>SIGKILL\<close> only when five seconds have passed.\<close>

theorem terminate_pppd_ends:
  assumes laws: "wait_laws ops gone" "signal_laws ops sigs" "time_laws ops"
  shows "\<exists>r s1. terminate_pppd ops s = Some (r, s1) \<and> (r = Inr () \<longrightarrow> gone s1)
     \<and> (sigs s1 = sigs s \<or> sigs s1 = sigs s @ [SIGTERM]
        \<or> sigs s1 = sigs s @ [SIGTERM, SIGKILL]
          \<and> clock_now (proc_clock ops) s + 5000 \<le> clock_now (proc_clock ops) s1)"
  using assms by (rule terminate_returns)

text \<open>A process that ignores \<open>SIGTERM\<close>.\<close>

record sample_process =
  sp_time :: nat
  sp_alive :: bool
  sp_signals :: "signal list"

definition sample_proc_ops :: "sample_process proc_ops" where
  "sample_proc_ops =
     \<lparr>proc_kill = (\<lambda>sig p. p\<lparr>sp_signals := sp_signals p @ [sig], sp_alive := sp_alive p \<and> sig = SIGTERM\<rparr>),
      proc_wait = (\<lambda>nohang p. if nohang \<and> sp_alive p then (Inr StillAlive, p) else (Inr Signaled, p\<lparr>sp_alive := False\<rparr>)),
      proc_clock = \<lparr>clock_now = sp_time, clock_sleep = (\<lambda>d p. p\<lparr>sp_time := sp_time p + d\<rparr>)\<rparr>\<rparr>"

lemma sample_proc_laws:
  "wait_laws sample_proc_ops (\<lambda>p. \<not> sp_alive p)" "signal_laws sample_proc_ops sp_signals" "time_laws sample_proc_ops"
  by (auto simp: wait_laws_def signal_laws_def time_laws_def sample_proc_ops_def clock_advances_def
      takes_time_def split: if_splits sum.splits)

theorem terminate_pppd_ends_witness:
  "\<exists>r s1. terminate_pppd sample_proc_ops \<lparr>sp_time = 0, sp_alive = True, sp_signals = []\<rparr> = Some (r, s1)
     \<and> length (sp_signals s1) \<le> 2"
  using terminate_pppd_ends [OF sample_proc_laws, of "\<lparr>sp_time = 0, sp_alive = True, sp_signals = []\<rparr>"]
  by auto

section \<open>The child\<close>

text \<open>Without a NUL byte in its arguments, the child becomes the program with exactly the
  arguments of the command.\<close>

lemma child_runs_program:
  "list_all (\<lambda>a. CHR 0x00 \<notin> set a) (argv cmd) \<Longrightarrow> child_start cmd = Execvp (program cmd) (argv cmd)"
  by (simp add: child_start_def c_string_def argv_def)

end
