(* ===== verification/Tls.thy ===== *)
theory Tls
  imports Portal Op_Monad
begin

text \<open>
  Connections to the gateway (\<open>src/tls.rs\<close>): the TCP connection, directly or through the HTTP
  proxy of the environment, the choice of the options of the TLS library, and the decision
  about the certificate of the gateway.

  The TLS library, its root certificates, the hash function and the operating system are
  arguments: the record \<open>tls_lib\<close> holds the results of the calls to the library, the record
  \<open>tcp_ops\<close> the operations on sockets. A handshake runs the verifier of this program, which
  the definitions below pass to it.

  Shown here: a connection is established only with a certificate that the public key
  infrastructure accepted, whose digest is pinned, or with verification switched off, and it
  reports which of these it was; and the dialogue with a proxy consumes nothing behind the
  answer of the proxy.
\<close>

section \<open>Certificates\<close>

datatype certificate_verification = VerifiedByPki | VerifiedByPinnedDigest | Disabled

definition lower_hex_digit :: "u8 \<Rightarrow> char" where
  "lower_hex_digit n = ''0123456789abcdef'' ! unat n"

definition bytes_to_lower_hex :: "bytes \<Rightarrow> string" where
  "bytes_to_lower_hex bs = concat (map (\<lambda>b. [lower_hex_digit (drop_bit 4 b), lower_hex_digit (b AND 0x0F)]) bs)"

definition cert_sha256_hex :: "(bytes \<Rightarrow> bytes) \<Rightarrow> bytes \<Rightarrow> string" where
  "cert_sha256_hex sha256 cert = bytes_to_lower_hex (sha256 cert)"

record recording_verifier =
  rv_insecure :: bool
  rv_trusted_certs :: "string list"
  last_pki_result :: "(string + unit) option"

definition recording_verifier_new :: "config \<Rightarrow> recording_verifier" where
  "recording_verifier_new cfg =
     \<lparr>rv_insecure = insecure_ssl cfg, rv_trusted_certs = trusted_certs cfg, last_pki_result = None\<rparr>"

definition is_pinned :: "recording_verifier \<Rightarrow> string \<Rightarrow> bool" where
  "is_pinned v digest \<longleftrightarrow> list_ex (\<lambda>d. eq_ignore_ascii_case d digest) (rv_trusted_certs v)"

definition verification_for ::
  "recording_verifier \<Rightarrow> config \<Rightarrow> string \<Rightarrow> certificate_verification res" where
  "verification_for v cfg digest =
     (if insecure_ssl cfg then Inr Disabled
      else if is_pinned v digest then Inr VerifiedByPinnedDigest
      else case last_pki_result v of
          Some (Inr _) \<Rightarrow> Inr VerifiedByPki
        | Some (Inl err) \<Rightarrow>
            Inl (CertificateVerificationError (err @ ''; add '' @ [CHR 0x27] @ ''--trusted-cert '' @ digest @ [CHR 0x27]
              @ '' if this gateway certificate is expected''))
        | None \<Rightarrow>
            Inl (CertificateVerificationError (''certificate was not verified; add '' @ [CHR 0x27]
              @ ''--trusted-cert '' @ digest @ [CHR 0x27] @ '' if this gateway certificate is expected'')))"

text \<open>The callback of the handshake. The verdict of the library on a certificate is \<open>pki\<close>.\<close>

definition verify_server_cert ::
  "(bytes \<Rightarrow> bytes) \<Rightarrow> (bytes \<Rightarrow> string + unit) \<Rightarrow> bytes \<Rightarrow> recording_verifier \<Rightarrow>
     (string + unit) \<times> recording_verifier" where
  "verify_server_cert sha256 pki cert v =
     (let v1 = v\<lparr>last_pki_result := Some (pki cert)\<rparr>
      in if is_ok (pki cert) \<or> rv_insecure v \<or> is_pinned v (cert_sha256_hex sha256 cert)
         then (Inr (), v1) else (pki cert, v1))"

section \<open>Options of the library\<close>

definition reject_unsupported_rustls_options :: "config \<Rightarrow> unit res" where
  "reject_unsupported_rustls_options cfg =
     (if cipher_list cfg \<noteq> None then Inl (TlsHandshake ''--cipher-list is not supported with rustls'')
      else if seclevel_1 cfg then Inl (TlsHandshake ''--seclevel-1 is not supported with rustls'')
      else if min_tls cfg = Some Tls10 \<or> min_tls cfg = Some Tls11
      then Inl (TlsHandshake ''rustls supports TLS 1.2 and newer only'')
      else if (case user_cert cfg of Some cert \<Rightarrow> starts_with cert ''pkcs11:'' | None \<Rightarrow> False)
           \<or> (case user_key cfg of Some key \<Rightarrow> starts_with key ''pkcs11:'' | None \<Rightarrow> False)
      then Inl (TlsHandshake ''PKCS#11 client certificates are not supported with rustls'')
      else Inr ())"

record tcp_stream =
  tcp_io :: http_stream
  tcp_peer :: "io_error + socket_addr"
  tcp_nodelay :: "io_error + unit"

record tls_lib =
  lib_sha256 :: "bytes \<Rightarrow> bytes"
  lib_pki :: "string \<Rightarrow> bytes \<Rightarrow> string + unit"
  lib_server_name :: "string \<Rightarrow> bool"
  lib_native_roots :: "(string + unit) list"
  lib_verifier :: "string + unit"
  lib_versions :: "string + unit"
  lib_open :: "string \<Rightarrow> io_error + bytes"
  lib_certs :: "bytes \<Rightarrow> string + bytes list"
  lib_private_key :: "bytes \<Rightarrow> string + bytes option"
  lib_general :: "string \<Rightarrow> string"
  lib_client_auth :: "bytes list \<Rightarrow> bytes \<Rightarrow> string + unit"
  lib_client :: "string \<Rightarrow> string + unit"
  lib_handshake ::
    "(bytes \<Rightarrow> recording_verifier \<Rightarrow> (string + unit) \<times> recording_verifier) \<Rightarrow> recording_verifier \<Rightarrow> tcp_stream \<Rightarrow>
       (string + bytes list \<times> http_stream) \<times> recording_verifier"

fun root_verifier_add :: "(string + unit) list \<Rightarrow> nat \<Rightarrow> nat res" where
  "root_verifier_add [] n = Inr n"
| "root_verifier_add (Inl err # cs) n = Inl (TlsHandshake (''failed to add native root certificate: '' @ err))"
| "root_verifier_add (Inr _ # cs) n = root_verifier_add cs (Suc n)"

definition root_verifier :: "tls_lib \<Rightarrow> unit res" where
  "root_verifier lib =
     and_then (root_verifier_add (lib_native_roots lib) 0)
       (\<lambda>n. if n = 0 then Inl (TlsHandshake ''no native root certificates found'')
            else map_err TlsHandshake (lib_verifier lib))"

definition server_name :: "tls_lib \<Rightarrow> config \<Rightarrow> string res" where
  "server_name lib cfg =
     (let sni_host = unwrap_or (gateway_host cfg) (sni cfg)
      in if lib_server_name lib sni_host then Inr sni_host
         else Inl (TlsHandshake (''bad SNI host: '' @ sni_host)))"

definition load_client_cert_chain :: "tls_lib \<Rightarrow> config \<Rightarrow> string + bytes list" where
  "load_client_cert_chain lib cfg =
     (case user_cert cfg of
        None \<Rightarrow> Inl (lib_general lib ''no client certificate configured'')
      | Some path \<Rightarrow>
          (case lib_open lib path of
             Inl err \<Rightarrow> Inl (lib_general lib (''failed to open client certificate '' @ path @ '': '' @ message err))
           | Inr file \<Rightarrow>
               map_err (\<lambda>err. lib_general lib (''failed to read client certificate '' @ path @ '': '' @ err))
                 (lib_certs lib file)))"

definition load_client_private_key :: "tls_lib \<Rightarrow> config \<Rightarrow> string + bytes" where
  "load_client_private_key lib cfg =
     (case or_else (user_key cfg) (user_cert cfg) of
        None \<Rightarrow> Inl (lib_general lib ''no client key configured'')
      | Some path \<Rightarrow>
          (case lib_open lib path of
             Inl err \<Rightarrow> Inl (lib_general lib (''failed to open client key '' @ path @ '': '' @ message err))
           | Inr file \<Rightarrow>
               (case lib_private_key lib file of
                  Inl err \<Rightarrow> Inl (lib_general lib (''failed to read client key '' @ path @ '': '' @ err))
                | Inr None \<Rightarrow> Inl (lib_general lib (''no private key found in '' @ path))
                | Inr (Some key) \<Rightarrow> Inr key)))"

definition client_config :: "tls_lib \<Rightarrow> config \<Rightarrow> unit res" where
  "client_config lib cfg =
     and_then (map_err TlsHandshake (lib_versions lib)) (\<lambda>_.
       if user_cert cfg \<noteq> None \<or> user_key cfg \<noteq> None then
         and_then (map_err TlsHandshake (load_client_cert_chain lib cfg)) (\<lambda>chain.
         and_then (map_err TlsHandshake (load_client_private_key lib cfg)) (\<lambda>key.
           map_err TlsHandshake (lib_client_auth lib chain key)))
       else Inr ())"

section \<open>The TLS connection\<close>

record tls_connection =
  conn_stream :: http_stream
  peer_cert_sha256 :: string
  verification :: certificate_verification
  tcp_peer_addr :: socket_addr

definition finish_handshake ::
  "tls_lib \<Rightarrow> config \<Rightarrow> socket_addr \<Rightarrow> string + bytes list \<times> http_stream \<Rightarrow> recording_verifier \<Rightarrow> tls_connection res" where
  "finish_handshake lib cfg peer r v =
     (case r of
        Inl err \<Rightarrow> Inl (TlsHandshake err)
      | Inr ([], stream) \<Rightarrow> Inl MissingPeerCertificate
      | Inr (cert # _, stream) \<Rightarrow>
          (let digest = cert_sha256_hex (lib_sha256 lib) cert
           in and_then (verification_for v cfg digest) (\<lambda>verdict.
                Inr \<lparr>conn_stream = stream, peer_cert_sha256 = digest, verification = verdict,
                     tcp_peer_addr = peer\<rparr>)))"

definition connect_stream :: "tls_lib \<Rightarrow> config \<Rightarrow> tcp_stream \<Rightarrow> tls_connection res" where
  "connect_stream lib cfg tcp =
     and_then (reject_unsupported_rustls_options cfg) (\<lambda>_.
     and_then (lift_io (tcp_peer tcp)) (\<lambda>peer.
     and_then (server_name lib cfg) (\<lambda>name.
     and_then (root_verifier lib) (\<lambda>_.
     and_then (client_config lib cfg) (\<lambda>_.
     and_then (map_err TlsHandshake (lib_client lib name)) (\<lambda>_.
       case lib_handshake lib (verify_server_cert (lib_sha256 lib) (lib_pki lib name)) (recording_verifier_new cfg) tcp of
         (r, v) \<Rightarrow> finish_handshake lib cfg peer r v))))))"

section \<open>The TCP connection\<close>

record 's tcp_ops =
  tcp_resolve :: "string \<Rightarrow> u16 \<Rightarrow> 's \<Rightarrow> (io_error + socket_addr list) \<times> 's"
  tcp_connect :: "socket_addr \<Rightarrow> 's \<Rightarrow> (io_error + tcp_stream) \<times> 's"
  env_var :: "string \<Rightarrow> string option"
  env_debug :: "string \<Rightarrow> string"

fun connect_first ::
  "'s tcp_ops \<Rightarrow> string \<Rightarrow> u16 \<Rightarrow> io_error option \<Rightarrow> socket_addr list \<Rightarrow> ('s, tcp_stream) op" where
  "connect_first ops host port last_error [] s =
     (Inl (Io (unwrap_or (IoError NotFound (''could not resolve '' @ host @ '':'' @ show_word port)) last_error)), s)"
| "connect_first ops host port last_error (addr # addrs) s =
     (case tcp_connect ops addr s of
        (Inr stream, s1) \<Rightarrow>
          (case tcp_nodelay stream of Inl e \<Rightarrow> (Inl (Io e), s1) | Inr _ \<Rightarrow> (Inr stream, s1))
      | (Inl err, s1) \<Rightarrow> connect_first ops host port (Some err) addrs s1)"

definition connect_tcp_direct :: "'s tcp_ops \<Rightarrow> string \<Rightarrow> u16 \<Rightarrow> ('s, tcp_stream) op" where
  "connect_tcp_direct ops host port =
     bind_op (io_op (tcp_resolve ops host port)) (connect_first ops host port None)"

record proxy_config =
  proxy_host :: string
  proxy_port :: u16

definition parse_proxy_url :: "(string \<Rightarrow> string) \<Rightarrow> string \<Rightarrow> proxy_config res" where
  "parse_proxy_url debug_str val =
     (let slash = (\<lambda>c. c = CHR ''/'');
          proxy0 = trim_end_matches slash (trim val)
      in and_then
           (case split_once_str ''://'' proxy0 of
              Some (scheme, rest) \<Rightarrow>
                if \<not> eq_ignore_ascii_case scheme ''http'' \<and> \<not> eq_ignore_ascii_case scheme ''https''
                then Inl (Network (''unsupported proxy scheme in '' @ debug_str val
                       @ ''; only HTTP CONNECT proxies are supported''))
                else Inr (trim_end_matches slash rest)
            | None \<Rightarrow> Inr proxy0)
           (\<lambda>proxy1.
             let proxy2 = last (split_on (\<lambda>c. c = CHR ''@'') proxy1)
             in and_then
                  (case rsplit_once (\<lambda>c. c = CHR '':'') proxy2 of
                     Some (host, port) \<Rightarrow>
                       if host = [] \<or> port = [] then Inl (Network (''bad proxy address: '' @ val))
                       else (case parse_u16 port of
                               None \<Rightarrow> Inl (Network (''bad proxy port in proxy address: '' @ val))
                             | Some p \<Rightarrow> Inr (host, p))
                   | None \<Rightarrow> Inr (proxy2, 8080))
                  (\<lambda>(host, port).
                    if host = [] \<or> port = 0 then Inl (Network (''bad proxy address: '' @ val))
                    else Inr \<lparr>proxy_host = host, proxy_port = port\<rparr>)))"

fun first_proxy :: "'s tcp_ops \<Rightarrow> string list \<Rightarrow> (proxy_config option) res" where
  "first_proxy ops [] = Inr None"
| "first_proxy ops (key # keys) =
     (case env_var ops key of
        Some v \<Rightarrow>
          if trim v \<noteq> [] then and_then (parse_proxy_url (env_debug ops) v) (\<lambda>p. Inr (Some p))
          else first_proxy ops keys
      | None \<Rightarrow> first_proxy ops keys)"

definition proxy_from_environment :: "'s tcp_ops \<Rightarrow> (proxy_config option) res" where
  "proxy_from_environment ops = first_proxy ops [''https_proxy'', ''HTTPS_PROXY'', ''all_proxy'', ''ALL_PROXY'']"

text \<open>The answer of the proxy is read byte by byte, at most 4096 of them, up to a blank line. The
  first argument counts the bytes that may still be read.\<close>

definition head_complete :: "bytes \<Rightarrow> bool" where
  "head_complete response \<longleftrightarrow>
     starts_with (rev response) [10, 13, 10, 13] \<or> starts_with (rev response) [10, 10]"

fun read_proxy_head :: "nat \<Rightarrow> bytes \<Rightarrow> reader \<Rightarrow> (io_error + bytes) \<times> reader" where
  "read_proxy_head 0 response r = (Inr response, r)"
| "read_proxy_head (Suc n) response r =
     (case read_some 1 r of
        (Inl e, r1) \<Rightarrow> (Inl e, r1)
      | (Inr bs, r1) \<Rightarrow>
          if bs = [] then (Inr response, r1)
          else if head_complete (response @ bs) then (Inr (response @ bs), r1)
          else read_proxy_head n (response @ bs) r1)"

definition status_line_ok :: "string \<Rightarrow> bool" where
  "status_line_ok line \<longleftrightarrow> contains line '' 200 '' \<or> ends_with line '' 200'' \<or> contains line '' 200 OK''"

definition establish_http_connect_proxy :: "string \<Rightarrow> u16 \<Rightarrow> (http_stream, unit) op" where
  "establish_http_connect_proxy host port stream =
     (let target = host @ '':'' @ show_word port;
          request = ''CONNECT '' @ target @ '' HTTP/1.1'' @ CRLF @ ''Host: '' @ target @ CRLF @ CRLF
      in case write_all (as_bytes request) (http_out stream) of
           (Inl e, w) \<Rightarrow> (Inl (Io e), stream\<lparr>http_out := w\<rparr>)
         | (Inr _, w) \<Rightarrow>
             (case flush w of
                (Inl e, w1) \<Rightarrow> (Inl (Io e), stream\<lparr>http_out := w1\<rparr>)
              | (Inr _, w1) \<Rightarrow>
                  (case read_proxy_head 4096 [] (http_in stream) of
                     (Inl e, r) \<Rightarrow> (Inl (Io e), \<lparr>http_in = r, http_out = w1\<rparr>)
                   | (Inr response, r) \<Rightarrow>
                       (let status = (case str_lines (from_utf8_lossy response) of l # _ \<Rightarrow> l | [] \<Rightarrow> [])
                        in if status_line_ok status then (Inr (), \<lparr>http_in = r, http_out = w1\<rparr>)
                           else (Inl (Network (''proxy CONNECT failed: '' @ status)), \<lparr>http_in = r, http_out = w1\<rparr>)))))"

definition connect_tcp :: "'s tcp_ops \<Rightarrow> config \<Rightarrow> ('s, tcp_stream) op" where
  "connect_tcp ops cfg s =
     (case proxy_from_environment ops of
        Inl e \<Rightarrow> (Inl e, s)
      | Inr None \<Rightarrow> connect_tcp_direct ops (gateway_host cfg) (gateway_port cfg) s
      | Inr (Some p) \<Rightarrow>
          (case connect_tcp_direct ops (proxy_host p) (proxy_port p) s of
             (Inl e, s1) \<Rightarrow> (Inl e, s1)
           | (Inr stream, s1) \<Rightarrow>
               (case establish_http_connect_proxy (gateway_host cfg) (gateway_port cfg) (tcp_io stream) of
                  (Inl e, io) \<Rightarrow> (Inl e, s1)
                | (Inr _, io) \<Rightarrow> (Inr (stream\<lparr>tcp_io := io\<rparr>), s1))))"

definition tls_connect :: "tls_lib \<Rightarrow> 's tcp_ops \<Rightarrow> config \<Rightarrow> ('s, tls_connection) op" where
  "tls_connect lib ops cfg =
     bind_op (connect_tcp ops cfg) (\<lambda>tcp s. (connect_stream lib cfg tcp, s))"

section \<open>Digests\<close>

lemma lower_hex_digit_inj: "m < 16 \<Longrightarrow> n < 16 \<Longrightarrow> lower_hex_digit m = lower_hex_digit n \<Longrightarrow> m = n"
proof -
  have *: "list_all (\<lambda>m. list_all (\<lambda>n. ''0123456789abcdef'' ! m = ''0123456789abcdef'' ! n \<longrightarrow> m = n) [0..<16]) [0..<16]"
    by code_simp
  assume "m < 16" "n < 16" and eq: "lower_hex_digit m = lower_hex_digit n"
  then have "unat m < 16" "unat n < 16" by (simp_all add: word_less_nat_alt)
  with * eq have "unat m = unat n" by (simp add: list_all_iff lower_hex_digit_def)
  then show "m = n" by (simp add: word_unat_eq_iff)
qed

lemma byte_nibbles:
  fixes b :: u8
  shows "drop_bit 4 b < 16" "b AND 0x0F < 16"
    "drop_bit 4 b = drop_bit 4 c \<Longrightarrow> b AND 0x0F = c AND 0x0F \<Longrightarrow> b = c"
proof -
  have m: "(0x0F::u8) = semiring_bit_operations_class.mask 4" by (simp add: mask_eq_exp_minus_1)
  have b: "unat b < 256" using unsigned_less [of b, where 'a = nat] by simp
  have "unat (drop_bit 4 b) = unat b div 16" by (simp only: unat_drop_bit_eq) (simp add: drop_bit_eq_div)
  with b show "drop_bit 4 b < 16" by (simp add: word_less_nat_alt)
  have "unat (b AND 0x0F) = unat b mod 16"
    unfolding m take_bit_eq_mask [symmetric] unsigned_take_bit_eq by (simp add: take_bit_eq_mod)
  then show "b AND 0x0F < 16" by (simp add: word_less_nat_alt)
  assume "drop_bit 4 b = drop_bit 4 c" "b AND 0x0F = c AND 0x0F"
  then show "b = c" unfolding m by (metis bits_ident take_bit_eq_mask)
qed

text \<open>Two byte strings of the same hexadecimal text are the same.\<close>

lemma bytes_to_lower_hex_inj: "bytes_to_lower_hex bs = bytes_to_lower_hex cs \<longleftrightarrow> bs = cs"
proof (induction bs arbitrary: cs)
  case Nil
  then show ?case by (cases cs) (simp_all add: bytes_to_lower_hex_def)
next
  case (Cons b bs)
  show ?case
  proof (cases cs)
    case Nil
    then show ?thesis by (simp add: bytes_to_lower_hex_def)
  next
    case (Cons c cs')
    have "lower_hex_digit (drop_bit 4 b) = lower_hex_digit (drop_bit 4 c) \<and>
        lower_hex_digit (b AND 0x0F) = lower_hex_digit (c AND 0x0F) \<longleftrightarrow> b = c"
      using lower_hex_digit_inj byte_nibbles by metis
    with Cons Cons.IH [of cs'] show ?thesis by (auto simp: bytes_to_lower_hex_def)
  qed
qed

lemma lower_hex_digit_lower: "n < 16 \<Longrightarrow> ascii_lower_char (lower_hex_digit n) = lower_hex_digit n"
proof -
  have *: "list_all (\<lambda>n. ascii_lower_char (''0123456789abcdef'' ! n) = ''0123456789abcdef'' ! n) [0..<16]"
    by code_simp
  assume "n < 16"
  then have "unat n < 16" by (simp add: word_less_nat_alt)
  with * show ?thesis by (simp add: list_all_iff lower_hex_digit_def)
qed

lemma bytes_to_lower_hex_lower: "to_ascii_lowercase (bytes_to_lower_hex bs) = bytes_to_lower_hex bs"
  by (induction bs)
    (simp_all add: bytes_to_lower_hex_def to_ascii_lowercase_def lower_hex_digit_lower byte_nibbles)

section \<open>Trust\<close>

text \<open>What is relied on of the library: a handshake that returns certificates of the gateway has
  called the verifier, at last on the first of them, and the verifier accepted it.\<close>

definition handshake_verifies :: "tls_lib \<Rightarrow> bool" where
  "handshake_verifies lib \<longleftrightarrow>
     (\<forall>verify v tcp cert certs stream v1.
        lib_handshake lib verify v tcp = (Inr (cert # certs, stream), v1) \<longrightarrow>
        (\<exists>before. verify cert (fold (\<lambda>c u. snd (verify c u)) before v) = (Inr (), v1)))"

lemma verify_server_cert_keeps:
  "rv_trusted_certs (snd (verify_server_cert h pki c v)) = rv_trusted_certs v"
  "rv_insecure (snd (verify_server_cert h pki c v)) = rv_insecure v"
  "last_pki_result (snd (verify_server_cert h pki c v)) = Some (pki c)"
  by (simp_all add: verify_server_cert_def Let_def)

lemma verifier_fold_keeps:
  "rv_trusted_certs (fold (\<lambda>c u. snd (verify_server_cert h pki c u)) cs v) = rv_trusted_certs v"
  by (induction cs arbitrary: v) (simp_all add: verify_server_cert_keeps)

text \<open>How far a certificate is trusted, by the label of the connection.\<close>

fun trusted_as :: "certificate_verification \<Rightarrow> tls_lib \<Rightarrow> config \<Rightarrow> string \<Rightarrow> bytes \<Rightarrow> bool" where
  "trusted_as Disabled lib cfg name cert \<longleftrightarrow> insecure_ssl cfg"
| "trusted_as VerifiedByPinnedDigest lib cfg name cert \<longleftrightarrow>
     \<not> insecure_ssl cfg
   \<and> (\<exists>d \<in> set (trusted_certs cfg). to_ascii_lowercase d = bytes_to_lower_hex (lib_sha256 lib cert))"
| "trusted_as VerifiedByPki lib cfg name cert \<longleftrightarrow>
     \<not> insecure_ssl cfg \<and> lib_pki lib name cert = Inr ()"

lemma verification_trusted:
  assumes "verification_for v cfg (cert_sha256_hex (lib_sha256 lib) cert) = Inr verdict"
    and "rv_trusted_certs v = trusted_certs cfg" "last_pki_result v = Some (lib_pki lib name cert)"
  shows "trusted_as verdict lib cfg name cert"
  using assms
  by (auto simp: verification_for_def is_pinned_def cert_sha256_hex_def eq_ignore_ascii_case_def list_ex_iff
      bytes_to_lower_hex_lower split: if_splits sum.splits)

lemma finish_handshake_Inr:
  assumes "finish_handshake lib cfg peer r v = Inr conn"
  obtains cert certs stream where "r = Inr (cert # certs, stream)"
    "verification_for v cfg (cert_sha256_hex (lib_sha256 lib) cert) = Inr (verification conn)"
    "peer_cert_sha256 conn = cert_sha256_hex (lib_sha256 lib) cert" "conn_stream conn = stream"
    "tcp_peer_addr conn = peer"
proof (cases r)
  case (Inr x)
  obtain cs stream where x: "x = (cs, stream)" by (cases x)
  with assms Inr that show ?thesis by (cases cs) (auto simp: finish_handshake_def Let_def)
qed (use assms in \<open>simp add: finish_handshake_def\<close>)

lemma connect_stream_trusted:
  assumes "handshake_verifies lib" and "connect_stream lib cfg tcp = Inr conn"
  shows "\<exists>name cert certs stream v.
      lib_handshake lib (verify_server_cert (lib_sha256 lib) (lib_pki lib name)) (recording_verifier_new cfg) tcp
        = (Inr (cert # certs, stream), v)
    \<and> server_name lib cfg = Inr name
    \<and> peer_cert_sha256 conn = bytes_to_lower_hex (lib_sha256 lib cert)
    \<and> trusted_as (verification conn) lib cfg name cert
    \<and> reject_unsupported_rustls_options cfg = Inr ()"
proof -
  from assms(2) obtain name peer x v where
    n: "server_name lib cfg = Inr name" and r: "reject_unsupported_rustls_options cfg = Inr ()"
    and x: "lib_handshake lib (verify_server_cert (lib_sha256 lib) (lib_pki lib name)) (recording_verifier_new cfg) tcp
        = (x, v)" "finish_handshake lib cfg peer x v = Inr conn"
    by (auto simp: connect_stream_def case_prod_beta) (metis prod.collapse)
  from x(2) obtain cert certs stream where
    c: "verification_for v cfg (cert_sha256_hex (lib_sha256 lib) cert) = Inr (verification conn)"
      "peer_cert_sha256 conn = cert_sha256_hex (lib_sha256 lib) cert"
    and "x = Inr (cert # certs, stream)" by (rule finish_handshake_Inr)
  with x(1) have h: "lib_handshake lib (verify_server_cert (lib_sha256 lib) (lib_pki lib name)) (recording_verifier_new cfg) tcp
        = (Inr (cert # certs, stream), v)" by simp
  from assms(1) h obtain before where
    b: "verify_server_cert (lib_sha256 lib) (lib_pki lib name) cert
      (fold (\<lambda>c u. snd (verify_server_cert (lib_sha256 lib) (lib_pki lib name) c u)) before (recording_verifier_new cfg))
      = (Inr (), v)"
    unfolding handshake_verifies_def by blast
  have "rv_trusted_certs v = trusted_certs cfg" "last_pki_result v = Some (lib_pki lib name cert)"
    using verify_server_cert_keeps(1,3) [of "lib_sha256 lib" "lib_pki lib name" cert] verifier_fold_keeps b
    by (metis recording_verifier.select_convs(2) recording_verifier_new_def snd_conv)+
  from verification_trusted [OF c(1) this] show ?thesis
    using n r h c(2) by (auto simp: cert_sha256_hex_def)
qed

text \<open>C4. A connection to the gateway is established only with a certificate that is trusted, and
  its label says how: the certificate of the gateway was verified by the public key
  infrastructure for the name asked for, or its digest is one of the pinned ones, or
  verification was switched off in the configuration. The digest kept is that of the
  certificate, and unsupported options have been refused.\<close>

theorem connection_is_trusted:
  assumes "handshake_verifies lib" and "connect_stream lib cfg tcp = Inr conn"
  shows "\<exists>name cert certs stream v.
      lib_handshake lib (verify_server_cert (lib_sha256 lib) (lib_pki lib name)) (recording_verifier_new cfg) tcp
        = (Inr (cert # certs, stream), v)
    \<and> server_name lib cfg = Inr name
    \<and> peer_cert_sha256 conn = bytes_to_lower_hex (lib_sha256 lib cert)
    \<and> trusted_as (verification conn) lib cfg name cert
    \<and> reject_unsupported_rustls_options cfg = Inr ()"
  using assms by (rule connect_stream_trusted)

text \<open>A gateway whose certificate no authority signed and whose digest is pinned.\<close>

definition sample_lib :: tls_lib where
  "sample_lib =
     \<lparr>lib_sha256 = (\<lambda>c. [0xAB]), lib_pki = (\<lambda>n c. Inl ''unknown issuer''), lib_server_name = (\<lambda>n. True),
      lib_native_roots = [Inr ()], lib_verifier = Inr (), lib_versions = Inr (), lib_open = (\<lambda>p. Inr []),
      lib_certs = (\<lambda>b. Inr []), lib_private_key = (\<lambda>b. Inr None), lib_general = (\<lambda>t. t),
      lib_client_auth = (\<lambda>c k. Inr ()), lib_client = (\<lambda>n. Inr ()),
      lib_handshake = (\<lambda>verify v tcp.
        case verify [1] v of
          (Inl e, v1) \<Rightarrow> (Inl e, v1)
        | (Inr _, v1) \<Rightarrow> (Inr ([[1]], tcp_io tcp), v1))\<rparr>"

definition sample_tcp :: tcp_stream where
  "sample_tcp =
     \<lparr>tcp_io = \<lparr>http_in = [], http_out = \<lparr>accepts = [], sent = [], flush_answer = Inr ()\<rparr>\<rparr>,
      tcp_peer = Inr (SocketAddrV4 (Ipv4Addr 10 0 0 1) 443), tcp_nodelay = Inr ()\<rparr>"

lemma sample_lib_verifies: "handshake_verifies sample_lib"
  unfolding handshake_verifies_def sample_lib_def
  by (auto split: prod.split_asm sum.split_asm intro!: exI [of _ "[]"])

lemma sample_connect:
  "connect_stream sample_lib (config_default\<lparr>trusted_certs := [''AB'']\<rparr>) sample_tcp
   = Inr \<lparr>conn_stream = tcp_io sample_tcp, peer_cert_sha256 = ''ab'', verification = VerifiedByPinnedDigest,
          tcp_peer_addr = SocketAddrV4 (Ipv4Addr 10 0 0 1) 443\<rparr>"
  by code_simp

theorem connection_is_trusted_witness:
  "trusted_as VerifiedByPinnedDigest sample_lib (config_default\<lparr>trusted_certs := [''AB'']\<rparr>) [] [1]"
  using connection_is_trusted [OF sample_lib_verifies sample_connect]
  by (auto simp: sample_lib_def verify_server_cert_def recording_verifier_new_def is_pinned_def Let_def
      server_name_def config_default_def split: if_splits)

section \<open>The proxy\<close>

lemma read_some_one:
  assumes "data_only r" "reader_bytes r = b # bs"
  obtains r1 where "read_some 1 r = (Inr [b], r1)" "data_only r1" "reader_bytes r1 = bs"
proof (cases r)
  case (Cons x r2)
  with assms(1) obtain c cs where "x = Inr (c # cs)" by (cases x) (auto simp: neq_Nil_conv)
  with assms Cons that show ?thesis by (cases cs) auto
qed (use assms in simp)

text \<open>The answer of the proxy is read up to its blank line and no further, so that the first
  bytes of the gateway behind it are left to the handshake.\<close>

lemma read_proxy_head_exact:
  assumes "data_only r" "reader_bytes r = head @ rest" "length head \<le> n" "head \<noteq> []"
    and "head_complete (response @ head)"
    and "\<forall>k. 0 < k \<longrightarrow> k < length head \<longrightarrow> \<not> head_complete (response @ take k head)"
  shows "\<exists>r1. read_proxy_head n response r = (Inr (response @ head), r1) \<and> data_only r1 \<and> reader_bytes r1 = rest"
  using assms
proof (induction n response r arbitrary: head rule: read_proxy_head.induct)
  case (1 response r)
  then show ?case by simp
next
  case (2 n response r)
  then obtain b bs where h: "head = b # bs" by (cases head) auto
  with "2.prems"(1,2) obtain r1 where r1: "read_some 1 r = (Inr [b], r1)" "data_only r1" "reader_bytes r1 = bs @ rest"
    by (auto elim: read_some_one)
  show ?case
  proof (cases "bs = []")
    case True
    with r1 h "2.prems"(5) show ?thesis by simp
  next
    case False
    have no: "\<not> head_complete (response @ [b])"
      using "2.prems"(6) [rule_format, of 1] False h by simp
    have "\<forall>k. 0 < k \<longrightarrow> k < length bs \<longrightarrow> \<not> head_complete ((response @ [b]) @ take k bs)"
    proof (intro allI impI)
      fix k assume "0 < k" "k < length bs"
      with "2.prems"(6) [rule_format, of "Suc k"] h show "\<not> head_complete ((response @ [b]) @ take k bs)" by simp
    qed
    then obtain r2 where "read_proxy_head n (response @ [b]) r1 = (Inr ((response @ [b]) @ bs), r2)"
      "data_only r2" "reader_bytes r2 = rest"
      using "2.IH" [OF r1(1) [symmetric] refl _ no r1(2,3)] False h "2.prems"(3,5) by auto
    with r1 no h show ?thesis by simp
  qed
qed

end
