(* ===== verification/Saml.thy ===== *)
theory Saml
  imports Http Rust_Loop
begin

text \<open>
  The SAML login (\<open>src/auth/saml.rs\<close>): the address the user opens, and the small server that
  waits for the browser to deliver the session id. The listening socket, its accepted
  connections, the clock and the log are operations of the machine.

  Shown here: exactly which requests deliver an id; and that the wait ends, with an id only
  when a connection delivered it.
\<close>

section \<open>Requests\<close>

definition MAX_SAML_SESSION_ID_LENGTH :: nat where "MAX_SAML_SESSION_ID_LENGTH = 1024"

datatype saml_request_error = BadMethodOrPath | MissingIdTerminator | EmptyId | TooLong | InvalidCharacter

fun debug_saml_error :: "saml_request_error \<Rightarrow> string" where
  "debug_saml_error BadMethodOrPath = ''BadMethodOrPath''"
| "debug_saml_error MissingIdTerminator = ''MissingIdTerminator''"
| "debug_saml_error EmptyId = ''EmptyId''"
| "debug_saml_error TooLong = ''TooLong''"
| "debug_saml_error InvalidCharacter = ''InvalidCharacter''"

definition authentication_url :: "config \<Rightarrow> string" where
  "authentication_url cfg =
     (let rlm = unwrap_or [] (realm cfg);
          start = ''https://'' @ gateway_host cfg @ '':'' @ show_word (gateway_port cfg)
            @ ''/remote/saml/start?redirect=1''
      in if rlm = [] then start else start @ ''&realm='' @ url_encode rlm)"

definition id_terminator :: "char \<Rightarrow> bool" where
  "id_terminator c \<longleftrightarrow> c = CHR '' '' \<or> c = CHR ''&'' \<or> c = CHR 0x0D \<or> c = CHR 0x0A"

definition id_char :: "char \<Rightarrow> bool" where
  "id_char c \<longleftrightarrow> is_ascii_alphanumeric c \<or> c = CHR ''-''"

definition parse_callback_request :: "string \<Rightarrow> saml_request_error + string" where
  "parse_callback_request request =
     (case strip_prefix ''GET /?id='' request of
        None \<Rightarrow> Inl BadMethodOrPath
      | Some rest \<Rightarrow>
          (case position id_terminator rest of
             None \<Rightarrow> Inl MissingIdTerminator
           | Some end1 \<Rightarrow>
               (let ident = take end1 rest
                in if ident = [] then Inl EmptyId
                   else if MAX_SAML_SESSION_ID_LENGTH \<le> length ident then Inl TooLong
                   else if \<not> list_all id_char ident then Inl InvalidCharacter
                   else Inr ident)))"

section \<open>Answers\<close>

definition success_response_body :: string where
  "success_response_body =
     ''SAML session id received from Fortinet server. VPN will be established...<br>'' @ CRLF
     @ ''You may close this browser tab now.<br>'' @ CRLF
     @ ''<script>'' @ CRLF
     @ ''window.setTimeout(() => { window.close(); }, 5000);'' @ CRLF
     @ ''document.write('' @ [CHR 0x22] @ ''<br>This window will close automatically in 5 seconds.'' @ [CHR 0x22]
     @ '');'' @ CRLF
     @ ''</script>'' @ CRLF"

definition failure_response_body :: string where
  "failure_response_body =
     ''Invalid redirect response from Fortinet server. VPN could not be established.''"

definition status_page :: "string \<Rightarrow> string" where
  "status_page user_message =
     ''<!DOCTYPE html>'' @ CRLF @ ''<html><body>'' @ CRLF @ user_message @ ''</body></html>'' @ CRLF"

definition status_header :: "string \<Rightarrow> string" where
  "status_header body =
     ''HTTP/1.1 200 OK'' @ CRLF @ ''Content-Type: text/html'' @ CRLF @ ''Content-Length: ''
     @ show_nat (length body) @ CRLF @ ''Connection: close'' @ CRLF @ CRLF"

definition send_status_response :: "string \<Rightarrow> writer \<Rightarrow> (io_error + unit) \<times> writer" where
  "send_status_response user_message w =
     (let body = status_page user_message
      in case write_all (as_bytes (status_header body)) w of
           (Inl e, w1) \<Rightarrow> (Inl e, w1)
         | (Inr _, w1) \<Rightarrow>
             (case write_all (as_bytes body) w1 of
                (Inl e, w2) \<Rightarrow> (Inl e, w2)
              | (Inr _, w2) \<Rightarrow> flush w2))"

record callback_stream =
  cb_nodelay :: "io_error + unit"
  cb_in :: reader
  cb_out :: writer

definition process_callback_stream :: "(callback_stream, string) op" where
  "process_callback_stream stream =
     (case cb_nodelay stream of
        Inl e \<Rightarrow> (Inl (Io e), stream)
      | Inr _ \<Rightarrow>
          (case read_some 1023 (cb_in stream) of
             (Inl e, r) \<Rightarrow> (Inl (Io e), stream\<lparr>cb_in := r\<rparr>)
           | (Inr bs, r) \<Rightarrow>
               (case parse_callback_request (from_utf8_lossy bs) of
                  Inr ident \<Rightarrow>
                    (case send_status_response success_response_body (cb_out stream) of
                       (Inl e, w) \<Rightarrow> (Inl (Io e), stream\<lparr>cb_in := r, cb_out := w\<rparr>)
                     | (Inr _, w) \<Rightarrow> (Inr ident, stream\<lparr>cb_in := r, cb_out := w\<rparr>))
                | Inl err \<Rightarrow>
                    (case send_status_response failure_response_body (cb_out stream) of
                       (Inl e, w) \<Rightarrow> (Inl (Io e), stream\<lparr>cb_in := r, cb_out := w\<rparr>)
                     | (Inr _, w) \<Rightarrow>
                         (Inl (Auth (''invalid SAML callback request: '' @ debug_saml_error err)),
                          stream\<lparr>cb_in := r, cb_out := w\<rparr>)))))"

section \<open>The wait\<close>

record 's saml_ops =
  sm_bind :: "u16 \<Rightarrow> 's \<Rightarrow> (io_error + unit) \<times> 's"
  sm_nonblocking :: "io_error + unit"
  sm_accept :: "'s \<Rightarrow> (io_error + callback_stream) \<times> 's"
  sm_close :: "callback_stream \<Rightarrow> 's \<Rightarrow> 's"
  sm_log :: "string \<Rightarrow> 's \<Rightarrow> 's"
  sm_clock :: "'s clock_ops"

text \<open>One try: the result \<open>None\<close> leaves the inner loop for the next try.\<close>

definition accept_body :: "'s saml_ops \<Rightarrow> nat \<Rightarrow> 's \<Rightarrow> ((string res) option, 's) loop_step" where
  "accept_body ops deadline s =
     (case sm_accept ops s of
        (Inr stream, s1) \<Rightarrow>
          (case process_callback_stream stream of
             (Inr ident, stream1) \<Rightarrow> Done (Some (Inr ident)) (sm_close ops stream1 s1)
           | (Inl err, stream1) \<Rightarrow>
               Done None (sm_close ops stream1
                 (sm_log ops (''failed to process SAML callback request: '' @ display_error err) s1)))
      | (Inl err, s1) \<Rightarrow>
          if kind err = WouldBlock then
            if deadline \<le> clock_now (sm_clock ops) s1
            then Done None (sm_log ops ''SAML callback wait timed out'' s1)
            else Again (clock_sleep (sm_clock ops) 100 s1)
          else Done (Some (Inl (Network (''failed to accept SAML callback connection: '' @ message err)))) s1)"

fun wait_for_session_id_on_listener :: "'s saml_ops \<Rightarrow> nat \<Rightarrow> nat \<Rightarrow> 's \<Rightarrow> (string res \<times> 's) option" where
  "wait_for_session_id_on_listener ops 0 timeout_per_try s =
     Some (Inl (Auth ''failed to retrieve SAML authentication token''), s)"
| "wait_for_session_id_on_listener ops (Suc n) timeout_per_try s =
     (case repeat_loop (accept_body ops (clock_now (sm_clock ops) s + timeout_per_try)) s of
        None \<Rightarrow> None
      | Some (Some r, s1) \<Rightarrow> Some (r, s1)
      | Some (None, s1) \<Rightarrow> wait_for_session_id_on_listener ops n timeout_per_try s1)"

definition wait_for_session_id :: "'s saml_ops \<Rightarrow> config \<Rightarrow> 's \<Rightarrow> (string res \<times> 's) option" where
  "wait_for_session_id ops cfg s =
     (case saml_port cfg of
        None \<Rightarrow> Some (Inl (Auth ''SAML callback port is not configured''), s)
      | Some port \<Rightarrow>
          (case sm_bind ops port s of
             (Inl err, s1) \<Rightarrow>
               Some (Inl (Network (''failed to bind SAML callback server to port '' @ show_word port @ '': ''
                 @ message err)), s1)
           | (Inr _, s1) \<Rightarrow>
               (case sm_nonblocking ops of
                  Inl e \<Rightarrow> Some (Inl (Io e), s1)
                | Inr _ \<Rightarrow>
                    (let s2 = sm_log ops (''Listening for SAML login on port '' @ show_word port) s1;
                         s3 = sm_log ops (''Authenticate at '' @ [CHR 0x27] @ authentication_url cfg @ [CHR 0x27]) s2
                     in wait_for_session_id_on_listener ops 5 10000 s3))))"

section \<open>Which requests deliver an id\<close>

lemma id_char_not_terminator: "id_char c \<Longrightarrow> \<not> id_terminator c"
  by (auto simp: id_char_def id_terminator_def is_ascii_alphanumeric_def is_ascii_digit_def is_ascii_upper_def
      is_ascii_lower_def)

lemma strip_prefix_Some: "strip_prefix p text = Some rest \<longleftrightarrow> text = p @ rest"
  unfolding strip_prefix_def starts_with_iff by auto

text \<open>C35. Exactly these requests deliver a session id: the path is the root with the parameter
  \<open>id\<close> first, whose value is not empty, shorter than the limit, consists of letters, digits
  and hyphens and ends at a space, an ampersand or a line end.\<close>

theorem callback_request_exact:
  "parse_callback_request request = Inr ident \<longleftrightarrow>
     (\<exists>t rest. request = ''GET /?id='' @ ident @ t # rest \<and> id_terminator t
        \<and> ident \<noteq> [] \<and> length ident < MAX_SAML_SESSION_ID_LENGTH \<and> list_all id_char ident)"
proof
  assume "parse_callback_request request = Inr ident"
  then obtain rest e where r: "request = ''GET /?id='' @ rest" "position id_terminator rest = Some e"
    "ident = take e rest" "ident \<noteq> []" "length ident < MAX_SAML_SESSION_ID_LENGTH" "list_all id_char ident"
    unfolding parse_callback_request_def Let_def
    by (auto simp only: strip_prefix_Some sum.simps not_le split: option.splits if_splits)
  from r(2) have "e < length rest" "id_terminator (rest ! e)" by (simp_all add: position_Some)
  then have "request = ''GET /?id='' @ ident @ rest ! e # drop (Suc e) rest" "id_terminator (rest ! e)"
    using r(1,3) by (simp_all add: Cons_nth_drop_Suc)
  with r(4-6) show "\<exists>t rest. request = ''GET /?id='' @ ident @ t # rest \<and> id_terminator t
        \<and> ident \<noteq> [] \<and> length ident < MAX_SAML_SESSION_ID_LENGTH \<and> list_all id_char ident" by blast
next
  assume "\<exists>t rest. request = ''GET /?id='' @ ident @ t # rest \<and> id_terminator t
        \<and> ident \<noteq> [] \<and> length ident < MAX_SAML_SESSION_ID_LENGTH \<and> list_all id_char ident"
  then obtain t rest where r: "request = ''GET /?id='' @ ident @ t # rest" "id_terminator t" "ident \<noteq> []"
    "length ident < MAX_SAML_SESSION_ID_LENGTH" "list_all id_char ident" by blast
  then have "position id_terminator (ident @ t # rest) = Some (length ident)"
    by (intro position_append_hit) (auto simp: list_all_iff id_char_not_terminator)
  moreover have "strip_prefix ''GET /?id='' request = Some (ident @ t # rest)"
    using r(1) by (simp only: strip_prefix_Some)
  ultimately show "parse_callback_request request = Inr ident"
    using r(3-5) by (simp add: parse_callback_request_def)
qed

section \<open>The wait ends\<close>

definition saml_laws :: "'s saml_ops \<Rightarrow> bool" where
  "saml_laws ops \<longleftrightarrow> clock_advances (sm_clock ops) \<and> takes_time (sm_clock ops) (snd \<circ> sm_accept ops)"

definition delivered :: "'s saml_ops \<Rightarrow> string \<Rightarrow> bool" where
  "delivered ops ident \<longleftrightarrow>
     (\<exists>s stream s1 stream1. sm_accept ops s = (Inr stream, s1)
        \<and> process_callback_stream stream = (Inr ident, stream1))"

lemma accept_ends:
  assumes "saml_laws ops"
  shows "\<exists>r s1. repeat_loop (accept_body ops deadline) s = Some (r, s1)
     \<and> (\<forall>ident. r = Some (Inr ident) \<longrightarrow> delivered ops ident)"
proof (rule loop_deadline [where I = "\<lambda>t. True" and c = "sm_clock ops" and deadline = deadline])
  fix t t1 assume "accept_body ops deadline t = Again t1"
  then obtain e u where u: "sm_accept ops t = (Inl e, u)" "clock_now (sm_clock ops) u < deadline"
    "t1 = clock_sleep (sm_clock ops) 100 u"
    by (auto simp: accept_body_def split: prod.split_asm sum.split_asm if_split_asm)
  have "clock_now (sm_clock ops) t \<le> clock_now (sm_clock ops) u"
    using assms takes_time_le [of "sm_clock ops" "snd \<circ> sm_accept ops" t] u(1) by (simp add: saml_laws_def)
  moreover have "clock_now (sm_clock ops) u + 100 \<le> clock_now (sm_clock ops) t1"
    using assms u(3) by (simp add: saml_laws_def clock_sleep_later)
  ultimately show "True \<and> clock_now (sm_clock ops) t < deadline \<and> clock_now (sm_clock ops) t < clock_now (sm_clock ops) t1"
    using u(2) by simp
next
  fix t r t1 assume "accept_body ops deadline t = Done r t1"
  then show "\<forall>ident. r = Some (Inr ident) \<longrightarrow> delivered ops ident"
    unfolding delivered_def
    by (auto simp: accept_body_def split: prod.split_asm sum.split_asm if_split_asm)
qed simp

text \<open>The wait for the SAML callback ends when time passes: after at most the given number of
  tries it returns, and an id it returns was delivered by an accepted connection.\<close>

theorem saml_wait_ends:
  assumes "saml_laws ops"
  shows "\<exists>r s1. wait_for_session_id_on_listener ops tries timeout s = Some (r, s1)
     \<and> (\<forall>ident. r = Inr ident \<longrightarrow> delivered ops ident)"
proof (induction tries arbitrary: s)
  case 0
  then show ?case by simp
next
  case (Suc n)
  obtain r s1 where r: "repeat_loop (accept_body ops (clock_now (sm_clock ops) s + timeout)) s = Some (r, s1)"
    "\<forall>ident. r = Some (Inr ident) \<longrightarrow> delivered ops ident"
    using accept_ends [OF assms] by blast
  with Suc [of s1] show ?case by (cases r) auto
qed

text \<open>A browser that delivers an id with its first request.\<close>

definition sample_saml :: "nat saml_ops" where
  "sample_saml =
     \<lparr>sm_bind = (\<lambda>p s. (Inr (), s)), sm_nonblocking = Inr (),
      sm_accept = (\<lambda>s. if s < 300 then (Inl (IoError WouldBlock []), s)
        else (Inr \<lparr>cb_nodelay = Inr (), cb_in = [Inr (as_bytes ''GET /?id=a-1 HTTP/1.1'')],
                  cb_out = \<lparr>accepts = [], sent = [], flush_answer = Inr ()\<rparr>\<rparr>, s)),
      sm_close = (\<lambda>c s. s), sm_log = (\<lambda>t s. s),
      sm_clock = \<lparr>clock_now = (\<lambda>s. s), clock_sleep = (\<lambda>d s. s + d)\<rparr>\<rparr>"

lemma sample_saml_laws: "saml_laws sample_saml"
  by (simp add: saml_laws_def clock_advances_def takes_time_def sample_saml_def)

theorem saml_wait_ends_witness:
  "\<exists>r s1. wait_for_session_id_on_listener sample_saml 5 10000 0 = Some (r, s1)"
  using saml_wait_ends [OF sample_saml_laws, of 5 10000 0] by blast

end
