(* ===== verification/Session.thy ===== *)
theory Session
  imports Login Tls Tunnel_Io
begin

text \<open>
  Preparing a tunnel and logging out (\<open>src/tunnel/session.rs\<close>): the first connection
  authenticates and asks for an allocation, the second one fetches the configuration and is
  switched to the tunnel. Sockets, the log and pauses are operations of the machine; closing
  a connection is the drop of its value.

  Shown here: both connections of a prepared tunnel are trusted, its session cookie is the
  configured one or was set on the first connection, and on the second one exactly the
  request for the configuration and the tunnel request were sent, with that cookie.
\<close>

record 's session_ops =
  ss_tcp :: "'s tcp_ops"
  ss_close :: "http_stream \<Rightarrow> 's \<Rightarrow> 's"
  ss_log :: "string list \<Rightarrow> 's \<Rightarrow> 's"
  ss_sleep :: "u32 list \<Rightarrow> 's \<Rightarrow> 's"

record prepared_tunnel =
  prep_cookie :: string
  prep_vpn_config :: vpn_config_xml
  prep_peer_cert_sha256 :: string
  prep_verification :: certificate_verification
  prep_tcp_peer_addr :: socket_addr

record tunnel_session =
  prepared :: prepared_tunnel
  session_stream :: http_stream

section \<open>Operations\<close>

text \<open>The login on the stream of a connection: its lines go to the log, and its pauses are taken.\<close>

definition authenticate_on ::
  "'s session_ops \<Rightarrow> ask \<Rightarrow> config \<Rightarrow> http_stream \<Rightarrow> 's \<Rightarrow> (auth_session res \<times> http_stream \<times> 's) exec" where
  "authenticate_on ops ask cfg stream s =
     bind_exec
       ((case saml_session_id cfg of
           Some session_id \<Rightarrow> authenticate_with_saml_session cfg session_id
         | None \<Rightarrow> authenticate ask cfg)
        \<lparr>login_stream = stream, login_log = [], login_delays = []\<rparr>)
       (\<lambda>(r, io). Return (r, login_stream io, ss_sleep ops (login_delays io) (ss_log ops (login_log io) s)))"

definition allocate ::
  "'s session_ops \<Rightarrow> config \<Rightarrow> auth_session \<Rightarrow> http_stream \<Rightarrow> ('s, unit) op" where
  "allocate ops cfg session stream s =
     (case request_vpn_allocation cfg (session_cookie session) (session_redirect session) stream of
        (r, stream1, log) \<Rightarrow> (r, ss_close ops stream1 (ss_log ops log s)))"

definition open_tunnel ::
  "'s session_ops \<Rightarrow> config \<Rightarrow> string \<Rightarrow> http_stream \<Rightarrow> ('s, vpn_config_xml \<times> http_stream) op" where
  "open_tunnel ops cfg k stream s =
     (case get_vpn_config cfg k stream of
        (Inl e, stream1, log) \<Rightarrow> (Inl e, ss_close ops stream1 (ss_log ops log s))
      | (Inr vpn, stream1, log) \<Rightarrow>
          (let s1 = ss_log ops (log @ [''VPN configuration retrieved; starting SSLVPN tunnel request'']) s
           in case send_start_tunnel_request k (http_out stream1) of
                (Inl e, w) \<Rightarrow> (Inl e, ss_close ops (stream1\<lparr>http_out := w\<rparr>) s1)
              | (Inr _, w) \<Rightarrow> (Inr (vpn, stream1\<lparr>http_out := w\<rparr>), s1)))"

definition tunnel_connection ::
  "tls_lib \<Rightarrow> 's session_ops \<Rightarrow> config \<Rightarrow> tls_connection \<Rightarrow> string \<Rightarrow> ('s, tunnel_session) op" where
  "tunnel_connection lib ops cfg auth_conn k =
     bind_op (tls_connect lib (ss_tcp ops) cfg) (\<lambda>conn.
     bind_op (open_tunnel ops cfg k (conn_stream conn)) (\<lambda>(vpn, stream).
       return_op
         \<lparr>prepared =
            \<lparr>prep_cookie = k, prep_vpn_config = vpn, prep_peer_cert_sha256 = peer_cert_sha256 auth_conn,
             prep_verification = verification auth_conn, prep_tcp_peer_addr = tcp_peer_addr conn\<rparr>,
          session_stream = stream\<rparr>))"

definition session_log :: "'s session_ops \<Rightarrow> string \<Rightarrow> ('s, unit) op" where
  "session_log ops line s = (Inr (), ss_log ops [line] s)"

definition after_login ::
  "tls_lib \<Rightarrow> 's session_ops \<Rightarrow> config \<Rightarrow> tls_connection \<Rightarrow> auth_session \<Rightarrow> http_stream \<Rightarrow> ('s, tunnel_session) op" where
  "after_login lib ops cfg auth_conn session stream =
     bind_op (session_log ops ''authentication completed; requesting VPN allocation'') (\<lambda>_.
     bind_op (allocate ops cfg session stream) (\<lambda>_.
     bind_op (session_log ops ''VPN allocation completed; reconnecting for tunnel configuration'') (\<lambda>_.
       tunnel_connection lib ops cfg auth_conn (session_cookie session))))"

definition connecting_line :: "config \<Rightarrow> string" where
  "connecting_line cfg = ''connecting to VPN gateway '' @ gateway_host cfg @ '':'' @ show_word (gateway_port cfg)"

definition prepare :: "tls_lib \<Rightarrow> 's session_ops \<Rightarrow> ask \<Rightarrow> config \<Rightarrow> ('s, tunnel_session) xop" where
  "prepare lib ops ask cfg =
     bind_xop (lift_op (session_log ops (connecting_line cfg))) (\<lambda>_.
     bind_xop (lift_op (tls_connect lib (ss_tcp ops) cfg)) (\<lambda>auth_conn s.
     bind_exec (authenticate_on ops ask cfg (conn_stream auth_conn) s) (\<lambda>(r, stream, s1).
       case r of
         Inl e \<Rightarrow> Return (Inl e, ss_close ops stream s1)
       | Inr session \<Rightarrow> lift_op (after_login lib ops cfg auth_conn session stream) s1)))"

definition logout :: "tls_lib \<Rightarrow> 's session_ops \<Rightarrow> config \<Rightarrow> string \<Rightarrow> ('s, unit) op" where
  "logout lib ops cfg k =
     bind_op (tls_connect lib (ss_tcp ops) cfg) (\<lambda>conn s.
       case log_out cfg k (conn_stream conn) of
         (r, stream, log) \<Rightarrow> (r, ss_close ops stream (ss_log ops log s)))"

section \<open>What a prepared tunnel is\<close>

text \<open>The request that switches a connection to the tunnel.\<close>

definition start_tunnel_bytes :: "string \<Rightarrow> bytes" where
  "start_tunnel_bytes k =
     as_bytes (''GET /remote/sslvpn-tunnel HTTP/1.1'' @ CRLF @ ''Host: sslvpn'' @ CRLF @ ''Cookie: '')
     @ as_bytes k @ as_bytes (CRLF @ CRLF)"

text \<open>A connection whose certificate was trusted in the way its label says.\<close>

definition trusted_connection :: "tls_lib \<Rightarrow> config \<Rightarrow> tls_connection \<Rightarrow> bool" where
  "trusted_connection lib cfg conn \<longleftrightarrow>
     (\<exists>name cert. server_name lib cfg = Inr name
        \<and> peer_cert_sha256 conn = bytes_to_lower_hex (lib_sha256 lib cert)
        \<and> trusted_as (verification conn) lib cfg name cert)"

lemma tls_connect_trusted:
  assumes "handshake_verifies lib" "tls_connect lib ops cfg s = (Inr conn, s1)"
  shows "trusted_connection lib cfg conn"
proof -
  from assms(2) obtain tcp where "connect_stream lib cfg tcp = Inr conn"
    by (auto simp: tls_connect_def)
  from connect_stream_trusted [OF assms(1) this] show ?thesis unfolding trusted_connection_def by blast
qed

text \<open>The cookie of a session: the configured one, or the one set by an answer with status 200
  that came on the connection of the login, where without SAML every answer up to it was
  accepted, and with SAML it is the first one.\<close>

definition genuine_cookie :: "config \<Rightarrow> http_stream \<Rightarrow> string \<Rightarrow> bool" where
  "genuine_cookie cfg stream k \<longleftrightarrow>
     cookie cfg = Some k \<and> saml_session_id cfg = None
   \<or> (\<exists>pre r post rest svpn. receives (http_in stream) (pre @ r # post) rest
        \<and> status_code r = 200 \<and> svpn_cookie r = Some svpn \<and> k = unwrap_or svpn (cookie_header r)
        \<and> (if saml_session_id cfg = None then cookie cfg = None \<and> list_all accepted (pre @ [r]) else pre = []))"

lemma saml_session_received:
  assumes "authenticate_with_saml_session cfg session_id s = Return (Inr session, s')"
  shows "\<exists>r. session_exchange s r session s'"
proof -
  from assms obtain path r s1 s2 where "login_request (login_http_host cfg) ''GET'' path
      [(''User-Agent'', user_agent cfg)] [] s = (Inr r, s1)"
    "log_auth_response_summary path r s1 = (Inr (), s2)" "status_code r = 200"
    "finish_authenticated_response cfg (login_http_host cfg) r s2 = Return (Inr session, s')"
    by (auto simp: authenticate_with_saml_session_def Let_def split: if_splits)
  from finish_exchange [OF login_request_received [OF this(1)] this(3) log_auth_stream [OF this(2)] this(4)]
  show ?thesis by blast
qed

lemma authenticate_on_genuine:
  assumes "authenticate_on ops ask cfg stream s = Return (Inr session, stream1, s1)"
  shows "genuine_cookie cfg stream (session_cookie session)"
proof (cases "saml_session_id cfg")
  case None
  let ?io = "\<lparr>login_stream = stream, login_log = [], login_delays = []\<rparr>"
  from assms None obtain io1 where a: "authenticate ask cfg ?io = Return (Inr session, io1)"
    by (auto simp: authenticate_on_def)
  show ?thesis
  proof (cases "cookie cfg")
    case (Some k)
    with authenticate_configured [OF a] None show ?thesis by (simp add: genuine_cookie_def)
  next
    case no_cookie: None
    from authenticate_exchange [OF a no_cookie] obtain pre r post where
      e: "receives (http_in stream) (pre @ r # post) (http_in (login_stream io1))" "list_all accepted (pre @ [r])"
      "status_code r = 200" "session_from r session" by auto
    from e(4) obtain svpn where "svpn_cookie r = Some svpn" "session_cookie session = unwrap_or svpn (cookie_header r)"
      unfolding session_from_def by blast
    with e None no_cookie show ?thesis unfolding genuine_cookie_def by auto
  qed
next
  case (Some session_id)
  let ?io = "\<lparr>login_stream = stream, login_log = [], login_delays = []\<rparr>"
  from assms Some obtain io1 where "authenticate_with_saml_session cfg session_id ?io = Return (Inr session, io1)"
    by (auto simp: authenticate_on_def)
  from saml_session_received [OF this] obtain r post svpn where
    e: "receives (http_in stream) (r # post) (http_in (login_stream io1))" "status_code r = 200"
    "svpn_cookie r = Some svpn" "session_cookie session = unwrap_or svpn (cookie_header r)"
    by (auto simp: session_exchange_def session_from_def)
  with Some show ?thesis unfolding genuine_cookie_def by (metis append_Nil option.distinct(1))
qed

lemma write_pieces_sent: "write_pieces ps w = (Inr u, w1) \<Longrightarrow> sent w1 = sent w @ concat ps"
proof (induction ps arbitrary: w)
  case (Cons p ps)
  then obtain w2 where w2: "write_all p w = (Inr (), w2)" "write_pieces ps w2 = (Inr u, w1)"
    by (auto split: prod.splits sum.splits)
  with write_all_prefix [OF w2(1)] Cons.IH [OF w2(2)] show ?case by auto
qed simp

lemma start_tunnel_sent:
  "send_start_tunnel_request k w = (Inr u, w1) \<Longrightarrow> sent w1 = sent w @ start_tunnel_bytes k"
  by (auto simp: send_start_tunnel_request_def flush_def start_tunnel_bytes_def simp del: write_pieces.simps
      dest!: write_pieces_sent split: prod.splits sum.splits)

lemma get_checked_sent:
  assumes "get_checked cfg k path stream = (Inr r, stream1, log)"
  shows "receives (http_in stream) [r] (http_in stream1)
    \<and> sent (http_out stream1) = sent (http_out stream)
        @ concat (request_pieces (http_host cfg) ''GET'' path (session_headers cfg k) [])"
  using assms
  by (auto simp: get_checked_def do_http_request_def http_send_def flush_def Let_def intro: receives.intros
      dest!: write_pieces_sent split: prod.splits sum.splits)

text \<open>A connection that was switched to the tunnel with a cookie: the first answer on it is the
  configuration, and exactly the request for the configuration and the tunnel request, both
  with the cookie, were sent on it.\<close>

definition switched_with :: "config \<Rightarrow> string \<Rightarrow> http_stream \<Rightarrow> vpn_config_xml \<Rightarrow> http_stream \<Rightarrow> bool" where
  "switched_with cfg k stream vpn stream1 \<longleftrightarrow>
     (\<exists>r xml. receives (http_in stream) [r] (http_in stream1)
        \<and> 200 \<le> status_code r \<and> status_code r < 300
        \<and> body_as_str r = Some xml \<and> vpn = parse_vpn_config_xml xml)
   \<and> sent (http_out stream1) = sent (http_out stream)
       @ concat (request_pieces (http_host cfg) ''GET'' ''/remote/fortisslvpn_xml'' (session_headers cfg k) [])
       @ start_tunnel_bytes k"

lemma open_tunnel_switched:
  assumes "open_tunnel ops cfg k stream s = (Inr (vpn, stream1), s1)"
  shows "switched_with cfg k stream vpn stream1"
proof -
  from assms obtain r s0 xml l w where "get_checked cfg k ''/remote/fortisslvpn_xml'' stream = (Inr r, s0, l)"
    "body_as_str r = Some xml" "vpn = parse_vpn_config_xml xml"
    "send_start_tunnel_request k (http_out s0) = (Inr (), w)" "stream1 = s0\<lparr>http_out := w\<rparr>"
    by (auto simp: open_tunnel_def get_vpn_config_def Let_def split: prod.splits sum.splits option.splits)
  with get_checked_sent [OF this(1)] get_checked_success [OF this(1)] start_tunnel_sent [OF this(4)]
  show ?thesis unfolding switched_with_def by auto
qed

lemma tunnel_connection_sound:
  assumes "tunnel_connection lib ops cfg auth_conn k s = (Inr t, s1)"
  shows "\<exists>conn u. tls_connect lib (ss_tcp ops) cfg s = (Inr conn, u)
    \<and> prepared t = \<lparr>prep_cookie = k, prep_vpn_config = prep_vpn_config (prepared t),
        prep_peer_cert_sha256 = peer_cert_sha256 auth_conn, prep_verification = verification auth_conn,
        prep_tcp_peer_addr = tcp_peer_addr conn\<rparr>
    \<and> open_tunnel ops cfg k (conn_stream conn) u = (Inr (prep_vpn_config (prepared t), session_stream t), s1)"
  using assms by (auto simp: tunnel_connection_def)

lemma prepare_sound:
  assumes "handshake_verifies lib" "prepare lib ops ask cfg s = Return (Inr t, s1)"
  shows "\<exists>auth_conn u1 v conn v1.
      tls_connect lib (ss_tcp ops) cfg (ss_log ops [connecting_line cfg] s) = (Inr auth_conn, u1)
    \<and> tls_connect lib (ss_tcp ops) cfg v = (Inr conn, v1)
    \<and> open_tunnel ops cfg (prep_cookie (prepared t)) (conn_stream conn) v1
        = (Inr (prep_vpn_config (prepared t), session_stream t), s1)
    \<and> trusted_connection lib cfg auth_conn \<and> trusted_connection lib cfg conn
    \<and> genuine_cookie cfg (conn_stream auth_conn) (prep_cookie (prepared t))
    \<and> prep_peer_cert_sha256 (prepared t) = peer_cert_sha256 auth_conn
    \<and> prep_verification (prepared t) = verification auth_conn
    \<and> prep_tcp_peer_addr (prepared t) = tcp_peer_addr conn
    \<and> switched_with cfg (prep_cookie (prepared t)) (conn_stream conn) (prep_vpn_config (prepared t)) (session_stream t)"
proof -
  from assms(2) obtain auth_conn u1 r stream u2 where
    c: "tls_connect lib (ss_tcp ops) cfg (ss_log ops [connecting_line cfg] s) = (Inr auth_conn, u1)"
    and r: "authenticate_on ops ask cfg (conn_stream auth_conn) u1 = Return (r, stream, u2)"
      "(case r of
         Inl e \<Rightarrow> Return (Inl e, ss_close ops stream u2)
       | Inr session \<Rightarrow> lift_op (after_login lib ops cfg auth_conn session stream) u2) = Return (Inr t, s1)"
    by (auto simp: prepare_def session_log_def)
  then obtain session v where a: "authenticate_on ops ask cfg (conn_stream auth_conn) u1 = Return (Inr session, stream, u2)"
    and t: "tunnel_connection lib ops cfg auth_conn (session_cookie session) v = (Inr t, s1)"
    by (cases r) (auto simp: after_login_def)
  from tunnel_connection_sound [OF t] obtain conn v1 where v: "tls_connect lib (ss_tcp ops) cfg v = (Inr conn, v1)"
    and p: "prepared t = \<lparr>prep_cookie = session_cookie session, prep_vpn_config = prep_vpn_config (prepared t),
        prep_peer_cert_sha256 = peer_cert_sha256 auth_conn, prep_verification = verification auth_conn,
        prep_tcp_peer_addr = tcp_peer_addr conn\<rparr>"
    and sw: "open_tunnel ops cfg (session_cookie session) (conn_stream conn) v1
        = (Inr (prep_vpn_config (prepared t), session_stream t), s1)"
    by blast
  have "prep_cookie (prepared t) = session_cookie session" "prep_peer_cert_sha256 (prepared t) = peer_cert_sha256 auth_conn"
    "prep_verification (prepared t) = verification auth_conn" "prep_tcp_peer_addr (prepared t) = tcp_peer_addr conn"
    by (subst p, simp)+
  with c v sw open_tunnel_switched [OF sw] tls_connect_trusted [OF assms(1) c] tls_connect_trusted [OF assms(1) v] authenticate_on_genuine [OF a]
  show ?thesis by metis
qed

text \<open>C10. A prepared tunnel is sound. The run made two connections, and the certificates of both
  were trusted in the way their labels say. The session cookie is the configured one, or it
  was set by an answer with status 200 that came on the first connection. The certificate
  and label reported are those of the first connection, the peer address is that of the
  second one; the configuration is the first answer on the second connection, on which
  exactly the request for it and the tunnel request were sent, both with this cookie, and
  the stream handed to the forwarding loop is what is left of that connection.\<close>

theorem prepared_tunnel_sound:
  assumes "handshake_verifies lib" "prepare lib ops ask cfg s = Return (Inr t, s1)"
  shows "\<exists>auth_conn u1 v conn v1.
      tls_connect lib (ss_tcp ops) cfg (ss_log ops [connecting_line cfg] s) = (Inr auth_conn, u1)
    \<and> tls_connect lib (ss_tcp ops) cfg v = (Inr conn, v1)
    \<and> open_tunnel ops cfg (prep_cookie (prepared t)) (conn_stream conn) v1
        = (Inr (prep_vpn_config (prepared t), session_stream t), s1)
    \<and> trusted_connection lib cfg auth_conn \<and> trusted_connection lib cfg conn
    \<and> genuine_cookie cfg (conn_stream auth_conn) (prep_cookie (prepared t))
    \<and> prep_peer_cert_sha256 (prepared t) = peer_cert_sha256 auth_conn
    \<and> prep_verification (prepared t) = verification auth_conn
    \<and> prep_tcp_peer_addr (prepared t) = tcp_peer_addr conn
    \<and> switched_with cfg (prep_cookie (prepared t)) (conn_stream conn) (prep_vpn_config (prepared t)) (session_stream t)"
  using assms by (rule prepare_sound)

section \<open>A session\<close>

text \<open>A gateway that answers every request with an empty page.\<close>

definition ok_bytes :: bytes where
  "ok_bytes = as_bytes (''HTTP/1.1 200 OK'' @ CRLF @ CRLF)"

definition empty_page :: http_response where
  "empty_page = \<lparr>status_code = 200, reason = ''OK'', resp_headers = [], resp_body = []\<rparr>"

lemma empty_page_received: "http_receive (Inr ok_bytes # r) = (Inr empty_page, r)"
proof -
  have lit: "header_text 200 ''OK'' [] = ''HTTP/1.1 200 OK'' @ CRLF @ CRLF" by code_simp
  have utf8: "utf8_valid (header_text 200 ''OK'' [])" by (rule utf8_valid_ascii) (simp add: lit CRLF_def)
  have "http_receive (Inr (as_bytes (header_text 200 ''OK'' [])) # r) = (Inr empty_page, r)"
    unfolding empty_page_def
    by (rule header_page_received [OF _ _ utf8])
      (simp_all add: lit CRLF_def READ_CHUNK_SIZE_def header_value_def)
  then show ?thesis by (simp only: lit ok_bytes_def)
qed

lemma request_answered:
  assumes "http_receive (http_in stream) = (Inr page, r)" "status_code page = 200"
    "accepts (http_out stream) = []" "flush_answer (http_out stream) = Inr ()"
  obtains stream1 log where "get_checked cfg k path stream = (Inr page, stream1, log)"
    "http_in stream1 = r" "accepts (http_out stream1) = []" "flush_answer (http_out stream1) = Inr ()"
proof -
  from assms show ?thesis
    using that by (simp add: get_checked_def do_http_request_def http_send_def write_pieces_willing flush_def
        Let_def ensure_success_def)
qed

text \<open>Both connections deliver the page that sets the session cookie, and two empty ones.\<close>

definition sample_script :: reader where
  "sample_script = [Inr sample_bytes, Inr ok_bytes, Inr ok_bytes]"

definition sample_session_ops :: "unit session_ops" where
  "sample_session_ops =
     \<lparr>ss_tcp =
        \<lparr>tcp_resolve = (\<lambda>h p s. (Inr [SocketAddrV4 (Ipv4Addr 10 0 0 1) 443], s)),
         tcp_connect = (\<lambda>a s. (Inr (sample_tcp\<lparr>tcp_io := willing sample_script\<rparr>), s)),
         env_var = (\<lambda>k. None), env_debug = (\<lambda>t. t)\<rparr>,
      ss_close = (\<lambda>c s. s), ss_log = (\<lambda>l s. s), ss_sleep = (\<lambda>d s. s)\<rparr>"

definition sample_session_config :: config where
  "sample_session_config = config_default\<lparr>trusted_certs := [''AB'']\<rparr>"

definition sample_connection :: tls_connection where
  "sample_connection =
     \<lparr>conn_stream = willing sample_script, peer_cert_sha256 = ''ab'',
      verification = VerifiedByPinnedDigest, tcp_peer_addr = SocketAddrV4 (Ipv4Addr 10 0 0 1) 443\<rparr>"

lemma sample_session_connects:
  "tls_connect sample_lib (ss_tcp sample_session_ops) sample_session_config () = (Inr sample_connection, ())"
  by code_simp

lemma sample_authenticates:
  "\<exists>stream. authenticate_on sample_session_ops (\<lambda>p h q. Inr []) sample_session_config (willing sample_script) ()
      = Return (Inr \<lparr>session_cookie = ''SVPNCOOKIE=abc'', session_redirect = None\<rparr>, stream, ())
    \<and> http_in stream = [Inr ok_bytes, Inr ok_bytes] \<and> accepts (http_out stream) = []
    \<and> flush_answer (http_out stream) = Inr ()"
proof -
  have "cookie sample_session_config = None" "username sample_session_config = []"
    "password sample_session_config = None" "saml_session_id sample_session_config = None"
    by (simp_all add: sample_session_config_def config_default_def)
  with sample_login_succeeds [of sample_session_config "\<lambda>p h q. Inr []" "[Inr ok_bytes, Inr ok_bytes]"]
  show ?thesis by (auto simp: authenticate_on_def sample_login_def sample_script_def sample_session_ops_def)
qed

lemma sample_allocates:
  assumes "http_in stream = [Inr ok_bytes, Inr ok_bytes]" "accepts (http_out stream) = []"
    "flush_answer (http_out stream) = Inr ()"
  shows "allocate sample_session_ops cfg \<lparr>session_cookie = k, session_redirect = None\<rparr> stream () = (Inr (), ())"
proof -
  have ok: "status_code empty_page = 200" by (simp add: empty_page_def)
  have r1: "http_receive (http_in stream) = (Inr empty_page, [Inr ok_bytes])"
    using assms(1) empty_page_received by simp
  obtain s1 l1 where g1: "get_checked cfg k ''/remote/index'' stream = (Inr empty_page, s1, l1)"
    "http_in s1 = [Inr ok_bytes]" "accepts (http_out s1) = []" "flush_answer (http_out s1) = Inr ()"
    by (rule request_answered [OF r1 ok assms(2,3)])
  have r2: "http_receive (http_in s1) = (Inr empty_page, [])" using g1(2) empty_page_received by simp
  obtain s2 l2 where "get_checked cfg k ''/remote/fortisslvpn'' s1 = (Inr empty_page, s2, l2)"
    by (rule request_answered [OF r2 ok g1(3,4)])
  with g1(1) show ?thesis by (simp add: allocate_def request_vpn_allocation_def valid_redirect_path_def)
qed

lemma sample_opens:
  "\<exists>vpn stream. open_tunnel sample_session_ops cfg k (willing sample_script) () = (Inr (vpn, stream), ())"
proof -
  have ok: "status_code sample_response = 200" by (simp add: sample_response_def)
  have r: "http_receive (http_in (willing sample_script)) = (Inr sample_response, [Inr ok_bytes, Inr ok_bytes])"
    by (simp add: willing_def sample_script_def sample_received)
  have w: "accepts (http_out (willing sample_script)) = []" "flush_answer (http_out (willing sample_script)) = Inr ()"
    by (simp_all add: willing_def)
  obtain s3 l3 where "get_checked cfg k ''/remote/fortisslvpn_xml'' (willing sample_script)
      = (Inr sample_response, s3, l3)" "accepts (http_out s3) = []" "flush_answer (http_out s3) = Inr ()"
    by (rule request_answered [OF r ok w])
  moreover have "body_as_str sample_response = Some []" by code_simp
  ultimately show ?thesis
    by (simp add: open_tunnel_def get_vpn_config_def send_start_tunnel_request_def
        write_pieces_willing flush_def Let_def del: write_pieces.simps)
qed

lemma sample_prepare:
  "\<exists>t. prepare sample_lib sample_session_ops (\<lambda>p h q. Inr []) sample_session_config () = Return (Inr t, ())
     \<and> prep_cookie (prepared t) = ''SVPNCOOKIE=abc''"
proof -
  obtain stream where "authenticate_on sample_session_ops (\<lambda>p h q. Inr []) sample_session_config (willing sample_script) ()
      = Return (Inr \<lparr>session_cookie = ''SVPNCOOKIE=abc'', session_redirect = None\<rparr>, stream, ())"
    "allocate sample_session_ops sample_session_config
       \<lparr>session_cookie = ''SVPNCOOKIE=abc'', session_redirect = None\<rparr> stream () = (Inr (), ())"
    using sample_authenticates sample_allocates by blast
  then show ?thesis
    using sample_session_connects sample_opens [of sample_session_config "''SVPNCOOKIE=abc''"]
    by (auto simp: prepare_def after_login_def tunnel_connection_def session_log_def bind_xop_def bind_op_def
        lift_op_def return_op_def sample_connection_def)
qed

theorem prepared_tunnel_sound_witness:
  "tls_connect sample_lib (ss_tcp sample_session_ops) sample_session_config () = (Inr sample_connection, ())
    \<and> trusted_connection sample_lib sample_session_config sample_connection
    \<and> genuine_cookie sample_session_config (conn_stream sample_connection) ''SVPNCOOKIE=abc''"
proof -
  obtain t where p: "prepare sample_lib sample_session_ops (\<lambda>p h q. Inr []) sample_session_config () = Return (Inr t, ())"
    "prep_cookie (prepared t) = ''SVPNCOOKIE=abc''"
    using sample_prepare by blast
  from prepared_tunnel_sound [OF sample_lib_verifies p(1)] p(2) sample_session_connects show ?thesis by auto
qed

end
