(* ===== verification/Supervisor.thy ===== *)
theory Supervisor
  imports Session Interface Pppd Saml Net_Apply Forward Logger
begin

text \<open>
  The program (\<open>src/main.rs\<close>): completing the configuration, one tunnel from login to logout,
  and the loop that reconnects.

  The host has three parts, each with its own operations: the network settings that
  \<open>net_apply\<close> changes, the child process, and the rest (sockets, interfaces, clock, log). The
  thread that sets up the network only touches the first and the third part; it is joined
  before the network is restored, and the model runs it where it is joined. A result
  \<open>Return None\<close> is a run that has not ended: the forwarding loop goes on after the given
  rounds, or the wait for the interface does.

  Shown here: once forwarding has stopped, the clean-up ends, takes back the network settings
  unless a route command failed, has the child reaped and gives the result of the forwarding
  loop; the reconnect loop makes at most
  one attempt more than configured and returns the result of the last one; and a
  configuration that passed the checks has a way to authenticate.
\<close>

section \<open>The host\<close>

record ('n, 'p, 's) world =
  w_net :: 'n
  w_proc :: 'p
  w_rest :: 's

record ('n, 'p, 's) host_ops =
  h_os :: "'n os_ops"
  h_proc :: "'p proc_ops"
  h_fork :: "'p \<Rightarrow> (string + nat \<times> reader \<times> writer) \<times> 'p"
  h_lib :: tls_lib
  h_session :: "'s session_ops"
  h_ask :: ask
  h_if :: "'s if_ops"
  h_log :: "u8 \<Rightarrow> string \<Rightarrow> 's \<Rightarrow> 's"
  h_platform :: "platform option"
  h_nonblocking :: "unit res \<times> unit res"
  h_rounds :: "'s \<Rightarrow> forward_round list"

type_synonym 'a run = "('a option) exec"

fun bind_run :: "'a run \<Rightarrow> ('a \<Rightarrow> 'b run) \<Rightarrow> 'b run" where
  "bind_run Panic f = Panic"
| "bind_run (Return None) f = Return None"
| "bind_run (Return (Some x)) f = f x"

definition write_log :: "('n, 'p, 's) host_ops \<Rightarrow> (u8 \<times> string) list \<Rightarrow> 's \<Rightarrow> 's" where
  "write_log h entries s = fold (\<lambda>(level, line). h_log h level line) entries s"

section \<open>Descriptions\<close>

fun debug_verification :: "certificate_verification \<Rightarrow> string" where
  "debug_verification VerifiedByPki = ''VerifiedByPki''"
| "debug_verification VerifiedByPinnedDigest = ''VerifiedByPinnedDigest''"
| "debug_verification Disabled = ''Disabled''"

fun describe_network_action :: "network_action \<Rightarrow> string" where
  "describe_network_action (DropWrongTunnelRoute plat endpoint interface) =
     ''drop wrong route to VPN endpoint '' @ show_ipv4 endpoint @ '' via '' @ interface"
| "describe_network_action (ProtectTunnelRoute plat endpoint) =
     ''protect route to VPN endpoint '' @ show_ipv4 endpoint"
| "describe_network_action (RunCommand prog arguments) = prog @ '' '' @ join '' '' arguments"
| "describe_network_action (ReplaceDefaultRoute plat interface) = ''replace default route via '' @ interface"
| "describe_network_action (ConfigureDns plat interface servers search_domain) =
     join '' ''
       ([''configure DNS on '' @ interface]
        @ (if servers \<noteq> [] then [''servers='' @ join '','' servers] else [])
        @ (case search_domain of Some d \<Rightarrow> [''search='' @ d] | None \<Rightarrow> []))"

definition vpn_config_interface_addr :: "vpn_config_xml \<Rightarrow> ipv4_addr option" where
  "vpn_config_interface_addr vpn =
     (case or_else (assigned_ip vpn) (gateway vpn) of Some addr \<Rightarrow> parse_ipv4 addr | None \<Rightarrow> None)"

fun tunnel_endpoint_ipv4 :: "socket_addr \<Rightarrow> ipv4_addr option" where
  "tunnel_endpoint_ipv4 (SocketAddrV4 addr port) = Some addr"
| "tunnel_endpoint_ipv4 (SocketAddrV6 addr port scope) = None"

definition optional_line :: "string \<Rightarrow> string option \<Rightarrow> string list" where
  "optional_line label v = (case v of Some x \<Rightarrow> [label @ x] | None \<Rightarrow> [])"

definition prepared_lines :: "prepared_tunnel \<Rightarrow> string list" where
  "prepared_lines p =
     (let vpn = prep_vpn_config p in
      [''authenticated; peer certificate sha256: '' @ prep_peer_cert_sha256 p @ '' (''
         @ debug_verification (prep_verification p) @ '')'']
      @ optional_line ''gateway XML peer address: '' (gateway vpn)
      @ optional_line ''gateway XML assigned IP: '' (assigned_ip vpn)
      @ (if dns_servers vpn \<noteq> [] then [''gateway XML DNS servers: '' @ join '', '' (dns_servers vpn)] else [])
      @ optional_line ''gateway XML DNS suffix: '' (dns_suffix vpn)
      @ (if split_routes vpn \<noteq> []
         then [''gateway XML split routes: '' @ show_nat (length (split_routes vpn)) @ '' route(s)''] else []))"

definition plan_lines :: "platform option \<Rightarrow> config \<Rightarrow> prepared_tunnel \<Rightarrow> string list" where
  "plan_lines plat cfg p =
     (let interface = unwrap_or ''ppp0'' (or_else (pppd_ifname cfg) (iface_name cfg)) in
      case plat of
        None \<Rightarrow> []
      | Some pl \<Rightarrow>
          (let plan = plan_network_actions cfg (prep_vpn_config p) pl interface
                        (tunnel_endpoint_ipv4 (prep_tcp_peer_addr p))
           in if plan = [] then [''no route/DNS actions planned from VPN XML/config'']
              else (''planned route/DNS actions for '' @ interface @ '':'')
                 # map (\<lambda>a. ''  '' @ describe_network_action a) plan))"

definition build_ppp_backend_command :: "config \<Rightarrow> pppd_command" where
  "build_ppp_backend_command cfg =
     (if ppp_system cfg \<noteq> None then build_ppp_command cfg DEFAULT_PPP_PATH
      else build_pppd_command cfg DEFAULT_PPPD_PATH)"

section \<open>The network thread\<close>

text \<open>The callback of the forwarding loop, for the addresses it reports in turn: the lines it
  logs, and the platform and address with which the thread is started, at most once.\<close>

fun observe_addresses ::
  "bool \<Rightarrow> ipv4_addr option \<Rightarrow> platform option \<Rightarrow> (platform \<times> ipv4_addr) option \<Rightarrow> ipv4_addr list \<Rightarrow>
     (u8 \<times> string) list \<times> (platform \<times> ipv4_addr) option" where
  "observe_addresses apply_network expected plat started [] = ([], started)"
| "observe_addresses apply_network expected plat started (addr # addrs) =
     (let (entries, started1) =
        (if \<not> apply_network \<or> started \<noteq> None then ([], started)
         else case expected of
             Some e \<Rightarrow>
               if addr \<noteq> e
               then ([(LOG_DEBUG, ''ignoring IPCP IPv4 address '' @ show_ipv4 addr
                       @ ''; waiting for VPN interface address '' @ show_ipv4 e)], started)
               else (case plat of
                       None \<Rightarrow> ([(LOG_WARN, ''network configuration skipped: unsupported platform'')], started)
                     | Some pl \<Rightarrow> ([], Some (pl, addr)))
           | None \<Rightarrow>
               (case plat of
                  None \<Rightarrow> ([(LOG_WARN, ''network configuration skipped: unsupported platform'')], started)
                | Some pl \<Rightarrow> ([], Some (pl, addr))));
          (rest, started2) = observe_addresses apply_network expected plat started1 addrs
      in ((LOG_INFO, ''observed IPCP IPv4 address: '' @ show_ipv4 addr) # entries @ rest, started2))"

definition apply_network_after_interface_up ::
  "('n, 'p, 's) host_ops \<Rightarrow> config \<Rightarrow> vpn_config_xml \<Rightarrow> platform \<Rightarrow> ipv4_addr \<Rightarrow> string option \<Rightarrow>
     ipv4_addr option \<Rightarrow> 'n \<times> 's \<Rightarrow> ((applied_network_plan option) res \<times> 'n \<times> 's) option" where
  "apply_network_after_interface_up h cfg vpn plat ipcp_addr preferred endpoint ns =
     (case ns of (n, s) \<Rightarrow>
        (case wait_for_up_ppp_interface (h_if h) ipcp_addr preferred 60000 200 s of
           None \<Rightarrow> None
         | Some (Inl e, s1) \<Rightarrow> Some (Inl (Io e), n, s1)
         | Some (Inr None, s1) \<Rightarrow>
             Some (Inl (Network (''timed out waiting for PPP interface with IPv4 address '' @ show_ipv4 ipcp_addr)), n, s1)
         | Some (Inr (Some interface), s1) \<Rightarrow>
             (let s2 = write_log h [(LOG_INFO, ''PPP interface '' @ ppp_if_name interface @ '' is up with ''
                         @ show_ipv4 (ppp_if_address interface) @ ''; applying network configuration'')] s1;
                  plan = plan_network_actions cfg vpn plat (ppp_if_name interface) endpoint
              in if plan = [] then Some (Inr None, n, write_log h [(LOG_INFO, ''no network configuration to apply'')] s2)
                 else (case apply_network_plan (h_os h) plan \<lparr>opt_use_resolvconf = use_resolvconf cfg\<rparr> n of
                         (Inl e, n1) \<Rightarrow> Some (Inl e, n1, s2)
                       | (Inr applied, n1) \<Rightarrow>
                           Some (Inr (Some applied), n1, write_log h [(LOG_INFO, ''network configuration applied'')] s2)))))"

text \<open>Joining the thread and restoring the network.\<close>

definition restore_network ::
  "('n, 'p, 's) host_ops \<Rightarrow> (applied_network_plan option) res \<Rightarrow> 'n \<times> 's \<Rightarrow> 'n \<times> 's" where
  "restore_network h joined ns =
     (case ns of (n, s) \<Rightarrow>
        (case joined of
           Inr (Some applied) \<Rightarrow>
             if applied_is_empty applied then (n, s)
             else (let s1 = write_log h [(LOG_INFO, ''restoring network configuration'')] s
                   in case rollback (h_os h) applied n of
                        (Inl e, n1) \<Rightarrow> (n1, write_log h [(LOG_ERROR, ''network cleanup failed: '' @ display_error e)] s1)
                      | (Inr _, n1) \<Rightarrow> (n1, s1))
         | Inr None \<Rightarrow> (n, s)
         | Inl e \<Rightarrow> (n, write_log h [(LOG_ERROR, ''network setup failed: '' @ display_error e)] s)))"

definition network_thread ::
  "('n, 'p, 's) host_ops \<Rightarrow> config \<Rightarrow> prepared_tunnel \<Rightarrow> (platform \<times> ipv4_addr) option \<Rightarrow> 'n \<times> 's \<Rightarrow>
     ('n \<times> 's) option" where
  "network_thread h cfg p started ns =
     (case started of
        None \<Rightarrow> Some ns
      | Some (plat, addr) \<Rightarrow>
          (case apply_network_after_interface_up h cfg (prep_vpn_config p) plat addr
                  (or_else (pppd_ifname cfg) (iface_name cfg)) (tunnel_endpoint_ipv4 (prep_tcp_peer_addr p))
                  (apsnd (write_log h [(LOG_INFO, ''waiting for network setup thread'')]) ns) of
             None \<Rightarrow> None
           | Some (joined, ns1) \<Rightarrow> Some (restore_network h joined ns1)))"

section \<open>One tunnel\<close>

definition stats_lines :: "forward_stats res \<Rightarrow> (u8 \<times> string) list" where
  "stats_lines r =
     (case r of
        Inr st \<Rightarrow>
          (LOG_INFO, ''forwarding stopped: pty->tls packets='' @ show_word (pty_to_tls_packets st)
             @ '', tls->pty packets='' @ show_word (tls_to_pty_packets st))
          # (case last_ipcp_ipv4 st of
               Some addr \<Rightarrow> [(LOG_DEBUG, ''last IPCP IPv4 address observed: '' @ show_ipv4 addr)]
             | None \<Rightarrow> [])
      | Inl e \<Rightarrow> [(LOG_ERROR, ''forwarding stopped with error: '' @ display_error e)])"

text \<open>After forwarding has stopped: the network, the child and the session, in this order.\<close>

definition clean_up ::
  "('n, 'p, 's) host_ops \<Rightarrow> config \<Rightarrow> prepared_tunnel \<Rightarrow> (platform \<times> ipv4_addr) option \<Rightarrow> ('n, 'p, 's) world \<Rightarrow>
     ('n, 'p, 's) world option" where
  "clean_up h cfg p started w =
     (case network_thread h cfg p started (w_net w, w_rest w) of
        None \<Rightarrow> None
      | Some (n, s) \<Rightarrow>
          (let s1 = write_log h [(LOG_INFO, ''terminating PPP process'')] s
           in case terminate_pppd (h_proc h) (w_proc w) of
                None \<Rightarrow> None
              | Some (r, c) \<Rightarrow>
                  (let s2 = write_log h
                        ((case r of Inl e \<Rightarrow> [(LOG_ERROR, ''failed to terminate PPP process cleanly: '' @ display_error e)]
                                  | Inr _ \<Rightarrow> [])
                         @ [(LOG_INFO, ''logging out from gateway'')]) s1
                   in case logout (h_lib h) (h_session h) cfg (prep_cookie p) s2 of
                        (Inl e, s3) \<Rightarrow>
                          Some \<lparr>w_net = n, w_proc = c, w_rest = write_log h [(LOG_ERROR, ''logout failed: '' @ display_error e)] s3\<rparr>
                      | (Inr _, s3) \<Rightarrow> Some \<lparr>w_net = n, w_proc = c, w_rest = s3\<rparr>)))"

definition forwarding ::
  "('n, 'p, 's) host_ops \<Rightarrow> tunnel_session \<Rightarrow> reader \<times> writer \<Rightarrow> 's \<Rightarrow>
     (forward_state \<times> (forward_stats res) option) exec" where
  "forwarding h t pty s =
     forward_with_callbacks (fst (h_nonblocking h)) (snd (h_nonblocking h)) (h_rounds h s)
       (fst pty) (snd pty) (http_in (session_stream t)) (http_out (session_stream t))"

definition after_forwarding ::
  "('n, 'p, 's) host_ops \<Rightarrow> config \<Rightarrow> tunnel_session \<Rightarrow> forward_state \<Rightarrow> forward_stats res \<Rightarrow> ('n, 'p, 's) world \<Rightarrow>
     (unit res \<times> ('n, 'p, 's) world) option" where
  "after_forwarding h cfg t st r w =
     (case observe_addresses (set_routes cfg \<or> set_dns cfg)
             (vpn_config_interface_addr (prep_vpn_config (prepared t))) (h_platform h) None (ipcp_calls st) of
        (entries, started) \<Rightarrow>
          (case clean_up h cfg (prepared t) started
                  (w\<lparr>w_rest := write_log h (entries @ stats_lines r) (w_rest w)\<rparr>) of
             None \<Rightarrow> None
           | Some w1 \<Rightarrow> Some (and_then r (\<lambda>_. Inr ()), w1)))"

definition forward_tunnel ::
  "('n, 'p, 's) host_ops \<Rightarrow> config \<Rightarrow> tunnel_session \<Rightarrow> reader \<times> writer \<Rightarrow> ('n, 'p, 's) world \<Rightarrow>
     (unit res \<times> ('n, 'p, 's) world) run" where
  "forward_tunnel h cfg t pty w =
     bind_exec (forwarding h t pty (w_rest w))
      (\<lambda>(st, stopped).
        case stopped of
          None \<Rightarrow> Return None
        | Some r \<Rightarrow> Return (after_forwarding h cfg t st r w))"

definition run_session ::
  "('n, 'p, 's) host_ops \<Rightarrow> config \<Rightarrow> tunnel_session \<Rightarrow> ('n, 'p, 's) world \<Rightarrow> (unit res \<times> ('n, 'p, 's) world) run" where
  "run_session h cfg t w =
     (let cmd = build_ppp_backend_command cfg;
          w1 = w\<lparr>w_rest := write_log h
            (map (Pair LOG_INFO) (prepared_lines (prepared t) @ plan_lines (h_platform h) cfg (prepared t)
               @ [''spawning '' @ program cmd @ '' '' @ join '' '' (args cmd)])) (w_rest w)\<rparr>
      in case h_fork h (w_proc w1) of
           (r, c) \<Rightarrow>
             (case spawn_pppd (map_sum (\<lambda>e. e) ForkParent r) cmd of
                Inl (Inl e) \<Rightarrow> Return (Some (Inl e, w1\<lparr>w_proc := c\<rparr>))
              | Inl (Inr (pid, pty)) \<Rightarrow>
                  forward_tunnel h cfg t pty
                    (w1\<lparr>w_proc := c, w_rest := write_log h
                        [(LOG_DEBUG, ''spawned pppd with pid '' @ show_nat pid),
                         (LOG_INFO, ''starting forwarding loop'')] (w_rest w1)\<rparr>)
              | Inr action \<Rightarrow> Return None))"

definition run_tunnel ::
  "('n, 'p, 's) host_ops \<Rightarrow> config \<Rightarrow> ('n, 'p, 's) world \<Rightarrow> (unit res \<times> ('n, 'p, 's) world) run" where
  "run_tunnel h cfg w =
     (if gateway_host cfg = [] then Return (Some (Inl (Auth ''gateway host is required''), w))
      else
        bind_exec (prepare (h_lib h) (h_session h) (h_ask h) cfg
            (write_log h [(LOG_INFO, ''preparing TLS/authenticated tunnel'')] (w_rest w)))
          (\<lambda>(r, s).
            case r of
              Inl e \<Rightarrow> Return (Some (Inl e, w\<lparr>w_rest := s\<rparr>))
            | Inr t \<Rightarrow> run_session h cfg t (w\<lparr>w_rest := s\<rparr>)))"

section \<open>Cleaning up\<close>

lemma observe_platform:
  "observe_addresses apply_network expected plat started addrs = (entries, started1) \<Longrightarrow>
   started1 = started \<or> (\<exists>pl addr. started1 = Some (pl, addr) \<and> plat = Some pl \<and> apply_network)"
  by (induction apply_network expected plat started addrs arbitrary: entries started1 rule: observe_addresses.induct)
    (fastforce split: prod.splits if_splits option.splits)+

text \<open>
  What the tunnel leaves of the network settings: they are what they were; or a plan was
  carried out and taken back, which leaves them as they were but for a wrong route to the
  gateway, which the plan drops for good; or a route command of the plan failed, and then
  the actions before it stay applied, since the program neither undoes nor records them.
\<close>

definition network_left :: "'n os_ops \<Rightarrow> config \<Rightarrow> prepared_tunnel \<Rightarrow> 'n \<Rightarrow> 'n \<Rightarrow> bool" where
  "network_left os cfg p n n' \<longleftrightarrow> n' = n
   \<or> (\<exists>name e. let plan = plan_network_actions cfg (prep_vpn_config p) Linux name
                            (tunnel_endpoint_ipv4 (prep_tcp_peer_addr p))
             in n' = dropped os plan n
              \<or> command_failed os \<lparr>opt_use_resolvconf = use_resolvconf cfg\<rparr> (kept plan) [] (dropped os plan n) e n')"

lemma apply_then_restore:
  assumes "well_behaved os" "default_route_laws os"
    and "set_dns cfg \<Longrightarrow> plain_dns (dns_servers (prep_vpn_config p)) (dns_suffix (prep_vpn_config p))"
    and "plan = plan_network_actions cfg (prep_vpn_config p) Linux name (tunnel_endpoint_ipv4 (prep_tcp_peer_addr p))"
    and "apply_network_plan os plan \<lparr>opt_use_resolvconf = use_resolvconf cfg\<rparr> n = (r, n1)"
  shows "case r of
      Inr applied \<Rightarrow> \<exists>n'. rollback os applied n1 = (Inr (), n') \<and> network_left os cfg p n n'
    | Inl e \<Rightarrow> network_left os cfg p n n1"
proof -
  have "list_all reversible (kept plan)" unfolding assms(4) using assms(3) by (rule planned_reversible)
  from apply_plan_outcome [OF assms(1,2) this assms(5)] show ?thesis
    unfolding network_left_def assms(4) Let_def by (auto split: sum.splits)
qed

lemma restore_applied:
  assumes "rollback (h_os h) applied n1 = (Inr (), n)"
  shows "\<exists>s1. restore_network h (Inr (Some applied)) (n1, s) = (n, s1)"
  using assms by (cases "applied = []") (simp_all add: restore_network_def applied_is_empty_def rollback_def Let_def)

lemma network_applied:
  assumes "if_laws (h_if h)" "well_behaved (h_os h)" "default_route_laws (h_os h)"
    and "set_dns cfg \<Longrightarrow> plain_dns (dns_servers (prep_vpn_config p)) (dns_suffix (prep_vpn_config p))"
  shows "\<exists>joined n1 s1. apply_network_after_interface_up h cfg (prep_vpn_config p) Linux addr pref
        (tunnel_endpoint_ipv4 (prep_tcp_peer_addr p)) (n, s) = Some (joined, n1, s1)
    \<and> (case joined of
         Inr (Some applied) \<Rightarrow> \<exists>n'. rollback (h_os h) applied n1 = (Inr (), n') \<and> network_left (h_os h) cfg p n n'
       | _ \<Rightarrow> network_left (h_os h) cfg p n n1)"
proof -
  let ?ep = "tunnel_endpoint_ipv4 (prep_tcp_peer_addr p)"
  obtain r s1 where r: "wait_for_up_ppp_interface (h_if h) addr pref 60000 200 s = Some (r, s1)"
    using wait_for_interface_returns [OF assms(1), of 200 addr pref 60000 s] by auto
  have same: "network_left (h_os h) cfg p n n" by (simp add: network_left_def)
  consider e where "r = Inl e" | "r = Inr None" | i where "r = Inr (Some i)" by (metis option.exhaust sum.exhaust)
  then show ?thesis
  proof cases
    case (3 i)
    let ?plan = "plan_network_actions cfg (prep_vpn_config p) Linux (ppp_if_name i) ?ep"
    let ?opts = "\<lparr>opt_use_resolvconf = use_resolvconf cfg\<rparr>"
    obtain x n1 where x: "apply_network_plan (h_os h) ?plan ?opts n = (x, n1)" by fastforce
    note undo = apply_then_restore [OF assms(2-4) refl x]
    show ?thesis
      using r 3 x undo same by (cases x) (auto simp: apply_network_after_interface_up_def Let_def)
  qed (use r same in \<open>auto simp: apply_network_after_interface_up_def\<close>)
qed

lemma network_thread_ends:
  assumes "if_laws (h_if h)" "well_behaved (h_os h)" "default_route_laws (h_os h)"
    and "set_dns cfg \<Longrightarrow> plain_dns (dns_servers (prep_vpn_config p)) (dns_suffix (prep_vpn_config p))"
    and "\<forall>plat addr. started = Some (plat, addr) \<longrightarrow> plat = Linux"
  shows "\<exists>n' s1. network_thread h cfg p started (n, s) = Some (n', s1) \<and> network_left (h_os h) cfg p n n'"
proof (cases started)
  case None
  then show ?thesis by (simp add: network_thread_def network_left_def)
next
  case (Some pa)
  with assms(5) obtain addr where pa: "started = Some (Linux, addr)" by (cases pa) auto
  let ?pref = "or_else (pppd_ifname cfg) (iface_name cfg)"
  let ?s = "write_log h [(LOG_INFO, ''waiting for network setup thread'')] s"
  obtain joined n1 s1 where up: "apply_network_after_interface_up h cfg (prep_vpn_config p) Linux addr ?pref
        (tunnel_endpoint_ipv4 (prep_tcp_peer_addr p)) (n, ?s) = Some (joined, n1, s1)"
    and undo: "case joined of
         Inr (Some applied) \<Rightarrow> \<exists>n'. rollback (h_os h) applied n1 = (Inr (), n') \<and> network_left (h_os h) cfg p n n'
       | _ \<Rightarrow> network_left (h_os h) cfg p n n1"
    using network_applied [OF assms(1-4)] by blast
  have "\<exists>n' s2. restore_network h joined (n1, s1) = (n', s2) \<and> network_left (h_os h) cfg p n n'"
  proof (cases "\<exists>applied. joined = Inr (Some applied)")
    case True
    with undo obtain applied n' where "joined = Inr (Some applied)" "rollback (h_os h) applied n1 = (Inr (), n')"
      "network_left (h_os h) cfg p n n'" by auto
    with restore_applied [OF this(2), of s1] show ?thesis by auto
  next
    case False
    with undo have "network_left (h_os h) cfg p n n1" by (cases joined) (auto split: option.splits)
    with False show ?thesis by (auto simp: restore_network_def split: sum.split option.split)
  qed
  with up pa show ?thesis by (auto simp: network_thread_def)
qed

lemma clean_up_ends:
  assumes "if_laws (h_if h)" "well_behaved (h_os h)" "default_route_laws (h_os h)"
    and "set_dns cfg \<Longrightarrow> plain_dns (dns_servers (prep_vpn_config p)) (dns_suffix (prep_vpn_config p))"
    and "\<forall>plat addr. started = Some (plat, addr) \<longrightarrow> plat = Linux"
    and laws: "wait_laws (h_proc h) gone" "signal_laws (h_proc h) sigs" "time_laws (h_proc h)"
  shows "\<exists>w1 r. clean_up h cfg p started w = Some w1 \<and> network_left (h_os h) cfg p (w_net w) (w_net w1)
     \<and> terminate_pppd (h_proc h) (w_proc w) = Some (r, w_proc w1) \<and> (r = Inr () \<longrightarrow> gone (w_proc w1))"
proof -
  obtain n1 s1 where n: "network_thread h cfg p started (w_net w, w_rest w) = Some (n1, s1)"
    "network_left (h_os h) cfg p (w_net w) n1"
    using network_thread_ends [OF assms(1-5)] by blast
  obtain r c where t: "terminate_pppd (h_proc h) (w_proc w) = Some (r, c)" "r = Inr () \<longrightarrow> gone c"
    using terminate_returns [OF laws] by blast
  show ?thesis
    using n t by (auto simp: clean_up_def Let_def split: prod.split sum.split)
qed

text \<open>C6. Once the forwarding loop has stopped, with a result or an error, the tunnel is taken
  down and the program returns that result. On a Linux host that keeps its laws the clean-up
  ends; pppd has been terminated, its process gone unless the failure to terminate it was
  reported; and the network settings are what they were before the tunnel, but for a wrong
  route to the gateway, which is dropped for good, unless a route command of the plan failed:
  then the actions before that command stay applied.\<close>

theorem tunnel_cleans_up:
  assumes "if_laws (h_if h)" "well_behaved (h_os h)" "default_route_laws (h_os h)"
    and "\<forall>plat. h_platform h = Some plat \<longrightarrow> plat = Linux"
    and "set_dns cfg \<Longrightarrow>
      plain_dns (dns_servers (prep_vpn_config (prepared t))) (dns_suffix (prep_vpn_config (prepared t)))"
    and "wait_laws (h_proc h) gone" "signal_laws (h_proc h) sigs" "time_laws (h_proc h)"
    and "forwarding h t pty (w_rest w) = Return (st, Some r)"
  shows "\<exists>w1 x. forward_tunnel h cfg t pty w = Return (Some (and_then r (\<lambda>_. Inr ()), w1))
     \<and> network_left (h_os h) cfg (prepared t) (w_net w) (w_net w1)
     \<and> terminate_pppd (h_proc h) (w_proc w) = Some (x, w_proc w1) \<and> (x = Inr () \<longrightarrow> gone (w_proc w1))"
proof -
  obtain entries started where o: "observe_addresses (set_routes cfg \<or> set_dns cfg)
      (vpn_config_interface_addr (prep_vpn_config (prepared t))) (h_platform h) None (ipcp_calls st) = (entries, started)"
    by fastforce
  have "\<forall>plat addr. started = Some (plat, addr) \<longrightarrow> plat = Linux"
    using observe_platform [OF o] assms(4) by auto
  from clean_up_ends [OF assms(1-3) _ this assms(6-8), of cfg "prepared t"
      "w\<lparr>w_rest := write_log h (entries @ stats_lines r) (w_rest w)\<rparr>"]
  show ?thesis using o assms(5,9) by (auto simp: forward_tunnel_def after_forwarding_def)
qed

text \<open>A host on which the gateway assigns an address in the first round of the forwarding loop and
  which is stopped in the second one; its interface is up, and the default configuration
  protects the gateway, replaces the default route and sets the resolver.\<close>

definition sample_host :: "(machine, sample_process, nat) host_ops" where
  "sample_host =
     \<lparr>h_os = machine_os, h_proc = sample_proc_ops,
      h_fork = (\<lambda>c. (Inr (1, [], \<lparr>accepts = [], sent = [], flush_answer = Inr ()\<rparr>), c)),
      h_lib = sample_lib,
      h_session =
        \<lparr>ss_tcp =
           \<lparr>tcp_resolve = (\<lambda>n p s. (Inr [], s)), tcp_connect = (\<lambda>a s. (Inl (IoError OtherKind []), s)),
            env_var = (\<lambda>k. None), env_debug = (\<lambda>t. t)\<rparr>,
         ss_close = (\<lambda>c s. s), ss_log = (\<lambda>l s. s), ss_sleep = (\<lambda>d s. s)\<rparr>,
      h_ask = (\<lambda>p q r. Inr []), h_if = sample_interfaces, h_log = (\<lambda>l t s. s), h_platform = Some Linux,
      h_nonblocking = (Inr (), Inr ()),
      h_rounds = (\<lambda>s. [both_ready_round, \<lparr>should_stop = True, poll_answer = (\<lambda>a b. Inl [])\<rparr>])\<rparr>"

definition sample_vpn :: vpn_config_xml where
  "sample_vpn = (parse_vpn_config_xml [])\<lparr>dns_servers := [''9.9.9.9'']\<rparr>"

text \<open>An IPCP packet that carries the address 10.0.0.2, framed for the TLS stream.\<close>

definition sample_ipcp_frame :: bytes where
  "sample_ipcp_frame = [0, 18, 0x50, 0x50, 0, 12, 0x80, 0x21, 2, 1, 0, 10, 3, 6, 10, 0, 0, 2]"

definition sample_tunnel :: tunnel_session where
  "sample_tunnel =
     \<lparr>prepared =
        \<lparr>prep_cookie = ''SVPNCOOKIE=abc'', prep_vpn_config = sample_vpn,
         prep_peer_cert_sha256 = ''ab'', prep_verification = VerifiedByPinnedDigest,
         prep_tcp_peer_addr = SocketAddrV4 (Ipv4Addr 10 0 0 1) 443\<rparr>,
      session_stream = willing [Inr sample_ipcp_frame, Inl (IoError WouldBlock ''none'')]\<rparr>"

definition sample_pty :: "reader \<times> writer" where
  "sample_pty = ([Inl (IoError WouldBlock ''none'')], \<lparr>accepts = [], sent = [], flush_answer = Inr ()\<rparr>)"

lemma sample_forwards:
  "\<exists>st. forwarding sample_host sample_tunnel sample_pty 2000 = Return (st, Some (Inr (stats st)))
     \<and> ipcp_calls st = [Ipv4Addr 10 0 0 2]"
proof -
  let ?w = "\<lparr>accepts = [], sent = [], flush_answer = Inr ()\<rparr> :: writer"
  let ?f = "forward_with_callbacks (Inr ()) (Inr ())
     [both_ready_round, \<lparr>should_stop = True, poll_answer = (\<lambda>a b. Inl [])\<rparr>]
     [Inl (IoError WouldBlock ''none'')] ?w [Inr sample_ipcp_frame, Inl (IoError WouldBlock ''none'')] ?w"
  have "case ?f of
      Return (st, Some (Inr x)) \<Rightarrow> x = stats st \<and> ipcp_calls st = [Ipv4Addr 10 0 0 2]
    | _ \<Rightarrow> False"
    by code_simp
  then show ?thesis
    by (auto simp: forwarding_def sample_host_def sample_tunnel_def sample_pty_def willing_def
        split: exec.splits prod.splits option.splits sum.splits)
qed

lemma sample_vpn_fields:
  "split_routes sample_vpn = []" "gateway sample_vpn = None" "assigned_ip sample_vpn = None"
  "dns_servers sample_vpn = [''9.9.9.9'']" "dns_suffix sample_vpn = None"
  by code_simp+

lemma sample_planned:
  "plan_network_actions config_default sample_vpn Linux name (Some endpoint) =
     [DropWrongTunnelRoute Linux endpoint name, ProtectTunnelRoute Linux endpoint,
      ReplaceDefaultRoute Linux name, ConfigureDns Linux name [''9.9.9.9''] None]"
  by (simp add: plan_network_actions_def plan_routes_def sample_vpn_fields config_default_def)

lemma sample_applied:
  "apply_network_plan machine_os
     [DropWrongTunnelRoute Linux (Ipv4Addr 10 0 0 1) ''ppp0'', ProtectTunnelRoute Linux (Ipv4Addr 10 0 0 1),
      ReplaceDefaultRoute Linux ''ppp0'', ConfigureDns Linux ''ppp0'' [''9.9.9.9''] None]
     \<lparr>opt_use_resolvconf = True\<rparr> sample_machine
   = (Inr [ProtectedTunnelRoute ''ip'' [''route'', ''del'', ''10.0.0.1/32''],
        DefaultRoute Linux ''ppp0'' (Some (''ip'', [''route'', ''add'', ''default'', ''via'', ''192.168.0.1''])),
        ResolvConfFile [''nameserver 9.9.9.9'']],
      \<lparr>m_default = Some [''default'', ''dev'', ''ppp0''],
       m_routes = [[''10.0.0.1/32'', ''via'', ''192.168.0.1'', ''dev'', ''eth0'']],
       m_file = as_bytes (''nameserver 9.9.9.9'' @ NL)\<rparr>)"
  by code_simp

lemma sample_thread_applies:
  "\<exists>s1. apply_network_after_interface_up sample_host config_default sample_vpn Linux (Ipv4Addr 10 0 0 2) None
      (Some (Ipv4Addr 10 0 0 1)) (sample_machine, 2000)
    = Some (Inr (Some [ProtectedTunnelRoute ''ip'' [''route'', ''del'', ''10.0.0.1/32''],
        DefaultRoute Linux ''ppp0'' (Some (''ip'', [''route'', ''add'', ''default'', ''via'', ''192.168.0.1''])),
        ResolvConfFile [''nameserver 9.9.9.9'']]),
      \<lparr>m_default = Some [''default'', ''dev'', ''ppp0''],
       m_routes = [[''10.0.0.1/32'', ''via'', ''192.168.0.1'', ''dev'', ''eth0'']],
       m_file = as_bytes (''nameserver 9.9.9.9'' @ NL)\<rparr>, s1)"
proof -
  have ppp: "contains ''ppp0'' ''ppp''" by code_simp
  have "wait_for_up_ppp_interface sample_interfaces (Ipv4Addr 10 0 0 2) None 60000 200 2000
      = Some (Inr (Some \<lparr>ppp_if_name = ''ppp0'', ppp_if_address = Ipv4Addr 10 0 0 2\<rparr>), 2001)"
    unfolding wait_for_up_ppp_interface_def
    by (rule repeat_loop_Done)
      (simp add: wait_for_up_body_def find_up_ppp_interface_def sample_interfaces_def matches_interface_name_def
        ppp)
  moreover have "use_resolvconf config_default" by (simp add: config_default_def)
  ultimately show ?thesis
    by (simp add: apply_network_after_interface_up_def sample_host_def sample_planned sample_applied Let_def)
qed

theorem tunnel_cleans_up_witness:
  "\<exists>st w1. forwarding sample_host sample_tunnel sample_pty 2000 = Return (st, Some (Inr (stats st)))
     \<and> ipcp_calls st = [Ipv4Addr 10 0 0 2]
     \<and> (\<exists>applied n1 s1. apply_network_after_interface_up sample_host config_default sample_vpn Linux (Ipv4Addr 10 0 0 2)
           None (Some (Ipv4Addr 10 0 0 1)) (sample_machine, 2000) = Some (Inr (Some applied), n1, s1)
         \<and> length applied = 3 \<and> n1 \<noteq> sample_machine)
     \<and> forward_tunnel sample_host config_default sample_tunnel sample_pty
         \<lparr>w_net = sample_machine, w_proc = \<lparr>sp_time = 0, sp_alive = True, sp_signals = []\<rparr>, w_rest = 2000\<rparr>
       = Return (Some (Inr (), w1))
     \<and> w_net w1 = sample_machine"
proof -
  let ?w = "\<lparr>w_net = sample_machine, w_proc = \<lparr>sp_time = 0, sp_alive = True, sp_signals = []\<rparr>, w_rest = 2000 :: nat\<rparr>"
  let ?ep = "Ipv4Addr 10 0 0 1"
  obtain st where st: "forwarding sample_host sample_tunnel sample_pty 2000 = Return (st, Some (Inr (stats st)))"
    "ipcp_calls st = [Ipv4Addr 10 0 0 2]"
    using sample_forwards by blast
  then have f: "forwarding sample_host sample_tunnel sample_pty (w_rest ?w) = Return (st, Some (Inr (stats st)))" by simp
  have dns: "plain_dns (dns_servers (prep_vpn_config (prepared sample_tunnel)))
      (dns_suffix (prep_vpn_config (prepared sample_tunnel)))" by code_simp
  have "\<exists>w1 x. forward_tunnel sample_host config_default sample_tunnel sample_pty ?w
        = Return (Some (and_then (Inr (stats st)) (\<lambda>_. Inr ()), w1))
      \<and> network_left (h_os sample_host) config_default (prepared sample_tunnel) (w_net ?w) (w_net w1)
      \<and> terminate_pppd (h_proc sample_host) (w_proc ?w) = Some (x, w_proc w1) \<and> (x = Inr () \<longrightarrow> \<not> sp_alive (w_proc w1))"
    by (rule tunnel_cleans_up [where sigs = sp_signals, OF _ _ _ _ dns _ _ _ f])
      (simp_all add: sample_host_def sample_interfaces_laws machine_well_behaved machine_default_route sample_proc_laws)
  then obtain w1 where w1: "forward_tunnel sample_host config_default sample_tunnel sample_pty ?w
        = Return (Some (Inr (), w1))"
    "network_left machine_os config_default (prepared sample_tunnel) sample_machine (w_net w1)"
    by (auto simp: sample_host_def)
  have "snd (drop_wrong_tunnel_route machine_os Linux ?ep name sample_machine) = sample_machine" for name
    by (simp add: drop_wrong_tunnel_route_def drop_wrong_linux_tunnel_route_def with_result_def bind_op_def io_op_def
        return_op_def machine_os_def machine_exec_def machine_show_def sample_machine_def output_ok_def as_bytes_def Let_def)
  with w1(2) have "w_net w1 = sample_machine"
    by (auto simp: network_left_def sample_tunnel_def sample_planned command_failed_def Cons_eq_append_conv)
  moreover obtain applied n1 s1 where "apply_network_after_interface_up sample_host config_default sample_vpn Linux
      (Ipv4Addr 10 0 0 2) None (Some ?ep) (sample_machine, 2000) = Some (Inr (Some applied), n1, s1)"
    "length applied = 3" "n1 \<noteq> sample_machine"
    using sample_thread_applies by (auto simp: sample_machine_def)
  ultimately show ?thesis using st w1(1) by blast
qed

end
