(* ===== verification/Program.thy ===== *)
theory Program
  imports Supervisor
begin

text \<open>
  The start of the program and its reconnect loop (\<open>run\<close>, \<open>main\<close> and the functions they call in
  \<open>src/main.rs\<close>). The parsed command line is an argument; files, the standard input, the
  user, the SAML server, and one tunnel in either mode are operations.

  Shown here: the reconnect loop ends after at most one attempt more than configured and gives
  the result of the last attempt; a configuration that passed the checks has a way to
  authenticate; without the rights of the administrator no system tunnel is started.
\<close>

record 'w program_ops =
  pg_version :: string
  pg_read_file :: "string \<Rightarrow> io_error + string"
  pg_print :: "string \<Rightarrow> 'w \<Rightarrow> 'w"
  pg_log_init :: "bool \<Rightarrow> u8 \<Rightarrow> 'w \<Rightarrow> 'w"
  pg_log :: "u8 \<Rightarrow> string \<Rightarrow> 'w \<Rightarrow> 'w"
  pg_stdin :: "'w \<Rightarrow> (io_error + string) \<times> 'w"
  pg_ask :: ask
  pg_euid :: nat
  pg_saml :: "config \<Rightarrow> 'w \<Rightarrow> (string res \<times> 'w) option"
  pg_ctrlc :: "string + unit"
  pg_proxy :: "config \<Rightarrow> 'w \<Rightarrow> (unit res \<times> 'w) run"
  pg_tunnel :: "config \<Rightarrow> 'w \<Rightarrow> (unit res \<times> 'w) run"
  pg_stop :: "'w \<Rightarrow> bool"
  pg_sleep :: "nat \<Rightarrow> 'w \<Rightarrow> 'w"

section \<open>Completing the configuration\<close>

definition read_secret_for :: "ask \<Rightarrow> config \<Rightarrow> string \<Rightarrow> string \<Rightarrow> string res" where
  "read_secret_for ask cfg purpose prompt =
     ask (pinentry cfg) (secret_hint (username cfg) (realm cfg) (gateway_host cfg) purpose) prompt"

definition validate_and_complete_auth_config :: "ask \<Rightarrow> config \<Rightarrow> config res" where
  "validate_and_complete_auth_config ask cfg =
     (if username cfg = [] \<and> cookie cfg = None \<and> saml_port cfg = None \<and> user_cert cfg = None
      then Inl (Auth ''Specify a username.'')
      else if password cfg = None \<and> username cfg \<noteq> [] \<and> cookie cfg = None \<and> saml_port cfg = None
      then and_then (read_secret_for ask cfg ''password'' ''VPN account password: '')
             (\<lambda>secret. Inr (cfg\<lparr>password := Some secret\<rparr>))
      else Inr cfg)"

definition apply_stdin_cookie :: "'w program_ops \<Rightarrow> config \<Rightarrow> ('w, config) op" where
  "apply_stdin_cookie ops cfg w =
     (if \<not> cookie_on_stdin cfg \<or> cookie cfg \<noteq> None then (Inr cfg, w)
      else case pg_stdin ops w of
          (Inl e, w1) \<Rightarrow> (Inl (Io e), w1)
        | (Inr text, w1) \<Rightarrow>
            (let k = trim_matches (\<lambda>c. c = CHR 0x0D \<or> c = CHR 0x0A) text
             in if k = []
                then (Inl (Auth ''--cookie-on-stdin was set but stdin did not contain a cookie''), w1)
                else (Inr (cfg\<lparr>cookie := Some (svpn_cookie_with_prefix k)\<rparr>), w1)))"

definition require_root :: "nat \<Rightarrow> unit res" where
  "require_root euid =
     (if euid = 0 then Inr ()
      else Inl (Network ''openfortivpn must be run as root to start pppd and configure routes/DNS''))"

definition install_ctrlc_handler :: "string + unit \<Rightarrow> unit res" where
  "install_ctrlc_handler r = map_err (\<lambda>err. Network (''failed to install Ctrl-C handler: '' @ err)) r"

section \<open>Reconnecting\<close>

text \<open>The pause before the next attempt, second by second; the flag says that it was interrupted.\<close>

fun pause :: "'w program_ops \<Rightarrow> nat \<Rightarrow> 'w \<Rightarrow> bool \<times> 'w" where
  "pause ops 0 w = (False, w)"
| "pause ops (Suc k) w = (if pg_stop ops w then (True, w) else pause ops k (pg_sleep ops 1000 w))"

text \<open>What follows an attempt: \<open>None\<close> leaves the loop with the result of the attempt, otherwise
  the next attempt starts.\<close>

definition after_attempt ::
  "'w program_ops \<Rightarrow> config \<Rightarrow> u32 \<Rightarrow> unit res \<Rightarrow> 'w \<Rightarrow> u32 option \<times> 'w" where
  "after_attempt ops cfg attempts result w =
     (if pg_stop ops w \<or> max_reconnects cfg = 0 then (None, w)
      else
        (let w1 = (case result of Inl err \<Rightarrow> pg_log ops LOG_WARN (''VPN tunnel terminated: '' @ display_error err) w
                                | Inr _ \<Rightarrow> w)
         in if max_reconnects cfg \<le> attempts
            then (None, pg_log ops LOG_WARN (''maximum reconnect attempts reached ('' @ show_word (max_reconnects cfg)
                    @ ''); exiting'') w1)
            else
              (let attempts1 = attempts + 1;
                   interval = unwrap_or 0 (reconnect_delay cfg);
                   count = ''(attempt '' @ show_word attempts1 @ ''/'' @ show_word (max_reconnects cfg) @ '')''
               in if 0 < interval then
                    (case pause ops (unat interval)
                            (pg_log ops LOG_INFO (''reconnecting in '' @ show_word interval @ '' second(s) '' @ count) w1) of
                       (True, w2) \<Rightarrow> (None, w2)
                     | (False, w2) \<Rightarrow> (Some attempts1, w2))
                  else (Some attempts1, pg_log ops LOG_INFO (''reconnecting immediately '' @ count) w1))))"

definition attempt :: "'w program_ops \<Rightarrow> config \<Rightarrow> 'w \<Rightarrow> (unit res \<times> 'w) run" where
  "attempt ops cfg = (if proxy cfg \<noteq> None then pg_proxy ops cfg else pg_tunnel ops cfg)"

lemma after_attempt_Some:
  assumes "after_attempt ops cfg attempts result w = (Some attempts1, w1)"
  shows "attempts1 = attempts + 1 \<and> attempts < max_reconnects cfg"
  using assms by (auto simp: after_attempt_def Let_def not_le split: if_splits prod.split_asm bool.split_asm)

lemma attempts_progress:
  fixes a m :: u32
  assumes "a < m"
  shows "unat (a + 1) = Suc (unat a)" "unat m - unat (a + 1) < unat m - unat a"
proof -
  have l: "unat a < unat m" using assms by (simp add: word_less_nat_alt)
  moreover have "unat m < 2 ^ 32" using unsigned_less [of m, where 'a = nat] by simp
  ultimately show "unat (a + 1) = Suc (unat a)" by (simp add: unat_word_ariths)
  with l show "unat m - unat (a + 1) < unat m - unat a" by simp
qed

function persistence_loop :: "'w program_ops \<Rightarrow> config \<Rightarrow> u32 \<Rightarrow> 'w \<Rightarrow> (unit res \<times> 'w) run" where
  "persistence_loop ops cfg attempts w =
     (case attempt ops cfg w of
        Panic \<Rightarrow> Panic
      | Return None \<Rightarrow> Return None
      | Return (Some (result, w1)) \<Rightarrow>
          (case after_attempt ops cfg attempts result w1 of
             (None, w2) \<Rightarrow> Return (Some (result, w2))
           | (Some attempts1, w2) \<Rightarrow> persistence_loop ops cfg attempts1 w2))"
  by pat_completeness auto
termination
  by (relation "measure (\<lambda>(ops, cfg, attempts, w). unat (max_reconnects cfg) - unat attempts)")
    (auto dest!: after_attempt_Some [OF sym] dest: attempts_progress)

declare persistence_loop.simps [simp del]

definition run_with_persistence :: "'w program_ops \<Rightarrow> config \<Rightarrow> 'w \<Rightarrow> (unit res \<times> 'w) run" where
  "run_with_persistence ops cfg w = persistence_loop ops cfg 0 w"

section \<open>The program\<close>

definition run_checked :: "'w program_ops \<Rightarrow> config \<Rightarrow> 'w \<Rightarrow> (unit res \<times> 'w) run" where
  "run_checked ops cfg w =
     (case and_then (validate_and_complete_auth_config (pg_ask ops) cfg) (\<lambda>cfg1.
             if proxy cfg1 = None then and_then (require_root (pg_euid ops)) (\<lambda>_. Inr cfg1) else Inr cfg1) of
        Inl e \<Rightarrow> Return (Some (Inl e, w))
      | Inr cfg1 \<Rightarrow>
          bind_run
            (if saml_port cfg1 = None then Return (Some (Inr cfg1, w))
             else case pg_saml ops cfg1 w of
                 None \<Rightarrow> Return None
               | Some (Inl e, w1) \<Rightarrow> Return (Some (Inl e, w1))
               | Some (Inr ident, w1) \<Rightarrow>
                   if ident = [] then Return (Some (Inl (Auth ''failed to receive SAML session id''), w1))
                   else Return (Some (Inr (cfg1\<lparr>saml_session_id := Some ident\<rparr>), w1)))
            (\<lambda>(r, w1).
              case and_then r (\<lambda>cfg2. and_then (install_ctrlc_handler (pg_ctrlc ops)) (\<lambda>_. Inr cfg2)) of
                Inl e \<Rightarrow> Return (Some (Inl e, w1))
              | Inr cfg2 \<Rightarrow> run_with_persistence ops cfg2 w1))"

definition run_program :: "'w program_ops \<Rightarrow> cli \<Rightarrow> 'w \<Rightarrow> (unit res \<times> 'w) run" where
  "run_program ops c w =
     (if cli_version c then Return (Some (Inr (), pg_print ops (pg_version ops) w))
      else case from_sources (pg_read_file ops) c of
          Inl e \<Rightarrow> Return (Some (Inl e, w))
        | Inr cfg \<Rightarrow>
            (case apply_stdin_cookie ops cfg (pg_log_init ops (use_syslog cfg) (log_verbosity cfg) w) of
               (Inl e, w1) \<Rightarrow> Return (Some (Inl e, w1))
             | (Inr cfg1, w1) \<Rightarrow>
                 if gateway_host cfg1 = []
                 then Return (Some (Inl (Auth ''Specify a valid host:port couple.''), w1))
                 else run_checked ops cfg1 w1))"

text \<open>The outer loop: after every run the user is asked whether to reconnect; the answers are a
  list, and a failing prompt counts as a no.\<close>

fun main_loop :: "'w program_ops \<Rightarrow> cli \<Rightarrow> bool list \<Rightarrow> 'w \<Rightarrow> 'w run" where
  "main_loop ops c answers w =
     (case run_program ops c w of
        Panic \<Rightarrow> Panic
      | Return None \<Rightarrow> Return None
      | Return (Some (r, w1)) \<Rightarrow>
          (let w2 = pg_print ops (case r of Inr _ \<Rightarrow> ''Disconnected'' | Inl e \<Rightarrow> ''Disconnected: '' @ display_error e) w1
           in case answers of
                True # rest \<Rightarrow> main_loop ops c rest w2
              | _ \<Rightarrow> Return (Some w2)))"

section \<open>The reconnect loop ends\<close>

text \<open>The laws of the operations: an attempt adds one to the count, the others keep it.\<close>

definition counts :: "'w program_ops \<Rightarrow> config \<Rightarrow> ('w \<Rightarrow> nat) \<Rightarrow> bool" where
  "counts ops cfg runs \<longleftrightarrow>
     (\<forall>w r w1. attempt ops cfg w = Return (Some (r, w1)) \<longrightarrow> runs w1 = Suc (runs w))
   \<and> (\<forall>l t w. runs (pg_log ops l t w) = runs w) \<and> (\<forall>d w. runs (pg_sleep ops d w) = runs w)"

lemma pause_runs: "counts ops cfg runs \<Longrightarrow> pause ops k w = (b, w1) \<Longrightarrow> runs w1 = runs w"
  by (induction ops k w rule: pause.induct) (auto simp: counts_def split: if_splits)

lemma after_attempt_runs:
  assumes "counts ops cfg runs" "after_attempt ops cfg attempts result w = (x, w1)"
  shows "runs w1 = runs w"
  using assms pause_runs [OF assms(1)]
  by (auto simp: after_attempt_def Let_def counts_def split: if_splits prod.split_asm bool.split_asm sum.split_asm)

text \<open>What the loop returns, started after some attempts: the result of its last attempt.\<close>

definition persistence_outcome ::
  "'w program_ops \<Rightarrow> config \<Rightarrow> ('w \<Rightarrow> nat) \<Rightarrow> u32 \<Rightarrow> 'w \<Rightarrow> unit res \<Rightarrow> 'w \<Rightarrow> bool" where
  "persistence_outcome ops cfg runs attempts w r w1 \<longleftrightarrow>
     (\<exists>w0 w2. attempt ops cfg w0 = Return (Some (r, w2)) \<and> runs w2 = runs w1)
   \<and> runs w < runs w1 \<and> runs w1 \<le> runs w + 1 + (unat (max_reconnects cfg) - unat attempts)"

lemma persistence_loop_ends:
  assumes "\<forall>w. \<exists>r w1. attempt ops cfg w = Return (Some (r, w1))" "counts ops cfg runs"
  shows "\<exists>r w1. persistence_loop ops cfg attempts w = Return (Some (r, w1))
    \<and> persistence_outcome ops cfg runs attempts w r w1"
  using assms
proof (induction ops cfg attempts w rule: persistence_loop.induct)
  case (1 ops cfg attempts w)
  obtain r w1 where a: "attempt ops cfg w = Return (Some (r, w1))" using "1.prems"(1) by blast
  obtain x w2 where x: "after_attempt ops cfg attempts r w1 = (x, w2)" by fastforce
  have runs: "runs w1 = Suc (runs w)" "runs w2 = runs w1"
    using a "1.prems"(2) after_attempt_runs [OF "1.prems"(2) x] by (simp_all add: counts_def)
  show ?case
  proof (cases x)
    case None
    with a x runs show ?thesis
      by (subst persistence_loop.simps) (auto simp: persistence_outcome_def)
  next
    case (Some attempts1)
    then have n: "attempts1 = attempts + 1" "attempts < max_reconnects cfg"
      using after_attempt_Some [of ops cfg attempts r w1 attempts1 w2] x by auto
    obtain r3 w3 where l: "persistence_loop ops cfg attempts1 w2 = Return (Some (r3, w3))"
      and o: "persistence_outcome ops cfg runs attempts1 w2 r3 w3"
      using "1.IH" [OF a refl refl x [symmetric] Some] "1.prems" by blast
    have "unat attempts1 = Suc (unat attempts)" "unat attempts < unat (max_reconnects cfg)"
      using attempts_progress(1) [OF n(2)] n by (auto simp: word_less_nat_alt)
    with o runs have "persistence_outcome ops cfg runs attempts w r3 w3"
      unfolding persistence_outcome_def by auto
    with a x Some l show ?thesis by (subst persistence_loop.simps) simp
  qed
qed

text \<open>C11. The reconnect loop ends: when every attempt ends, so does the loop; it makes at least one
  attempt and at most one more than the configured number of reconnects, and returns the
  result of its last attempt.\<close>

theorem reconnects_are_bounded:
  assumes "\<forall>w. \<exists>r w1. attempt ops cfg w = Return (Some (r, w1))" "counts ops cfg runs"
  shows "\<exists>r w1. run_with_persistence ops cfg w = Return (Some (r, w1))
    \<and> runs w < runs w1 \<and> runs w1 \<le> runs w + 1 + unat (max_reconnects cfg)
    \<and> (\<exists>w0 w2. attempt ops cfg w0 = Return (Some (r, w2)) \<and> runs w2 = runs w1)"
  using persistence_loop_ends [OF assms, of 0 w]
  by (auto simp: run_with_persistence_def persistence_outcome_def)

text \<open>A gateway that refuses every attempt.\<close>

definition sample_program :: "nat program_ops" where
  "sample_program =
     \<lparr>pg_version = [], pg_read_file = (\<lambda>p. Inr []), pg_print = (\<lambda>t w. w), pg_log_init = (\<lambda>b v w. w),
      pg_log = (\<lambda>l t w. w), pg_stdin = (\<lambda>w. (Inr [], w)), pg_ask = (\<lambda>p h q. Inr []), pg_euid = 0,
      pg_saml = (\<lambda>c w. None), pg_ctrlc = Inr (), pg_proxy = (\<lambda>c w. Return None),
      pg_tunnel = (\<lambda>c w. Return (Some (Inl PermissionDenied, Suc w))), pg_stop = (\<lambda>w. False),
      pg_sleep = (\<lambda>d w. w)\<rparr>"

theorem reconnects_are_bounded_witness:
  "\<exists>r w1. run_with_persistence sample_program (config_default\<lparr>max_reconnects := 2\<rparr>) 0 = Return (Some (r, w1))
     \<and> 0 < w1 \<and> w1 \<le> 3"
  using reconnects_are_bounded [where ops = sample_program and cfg = "config_default\<lparr>max_reconnects := 2\<rparr>"
      and runs = "\<lambda>w. w" and w = 0]
  by (auto simp: attempt_def sample_program_def counts_def config_default_def)

section \<open>What is checked before an attempt\<close>

lemma validated_can_authenticate:
  assumes "validate_and_complete_auth_config ask cfg = Inr cfg1"
  shows "cookie cfg1 \<noteq> None \<or> saml_port cfg1 \<noteq> None \<or> user_cert cfg1 \<noteq> None
    \<or> username cfg1 \<noteq> [] \<and> password cfg1 \<noteq> None"
  using assms by (auto simp: validate_and_complete_auth_config_def split: if_splits)

text \<open>Two program environments that differ in the system tunnel only behave the same in proxy
  mode.\<close>

lemma tunnel_update:
  "pg_log (ops\<lparr>pg_tunnel := f\<rparr>) = pg_log ops" "pg_stop (ops\<lparr>pg_tunnel := f\<rparr>) = pg_stop ops"
  "pg_stdin (ops\<lparr>pg_tunnel := f\<rparr>) = pg_stdin ops" "pg_print (ops\<lparr>pg_tunnel := f\<rparr>) = pg_print ops"
  "pg_log_init (ops\<lparr>pg_tunnel := f\<rparr>) = pg_log_init ops" "pg_read_file (ops\<lparr>pg_tunnel := f\<rparr>) = pg_read_file ops"
  "pg_version (ops\<lparr>pg_tunnel := f\<rparr>) = pg_version ops"
  by simp_all

lemma pause_tunnel: "pause (ops\<lparr>pg_tunnel := f\<rparr>) k w = pause ops k w"
  by (induction ops k w rule: pause.induct) simp_all

lemma after_attempt_tunnel: "after_attempt (ops\<lparr>pg_tunnel := f\<rparr>) cfg n r w = after_attempt ops cfg n r w"
  unfolding after_attempt_def pause_tunnel tunnel_update ..

lemma persistence_tunnel:
  "proxy cfg \<noteq> None \<Longrightarrow> persistence_loop (ops\<lparr>pg_tunnel := f\<rparr>) cfg n w = persistence_loop ops cfg n w"
proof (induction ops cfg n w rule: persistence_loop.induct)
  case (1 ops cfg n w)
  have a: "attempt (ops\<lparr>pg_tunnel := f\<rparr>) cfg = attempt ops cfg"
    using "1.prems" by (simp add: attempt_def)
  show ?case
    unfolding persistence_loop.simps [of "ops\<lparr>pg_tunnel := f\<rparr>" cfg n w] persistence_loop.simps [of ops cfg n w]
      a after_attempt_tunnel
    using "1.IH" "1.prems"
    by (auto split: exec.split option.split prod.split)
qed

lemma run_checked_tunnel:
  assumes "pg_euid ops \<noteq> 0"
  shows "run_checked (ops\<lparr>pg_tunnel := f\<rparr>) cfg w = run_checked ops cfg w"
proof (cases "validate_and_complete_auth_config (pg_ask ops) cfg")
  case (Inl e)
  then show ?thesis by (simp add: run_checked_def)
next
  case (Inr cfg1)
  show ?thesis
  proof (cases "proxy cfg1 = None")
    case True
    with Inr assms show ?thesis by (simp add: run_checked_def require_root_def)
  next
    case False
    then have p: "run_with_persistence (ops\<lparr>pg_tunnel := f\<rparr>) cfg2 v = run_with_persistence ops cfg2 v"
      if "proxy cfg2 = proxy cfg1" for cfg2 v
      using that by (simp add: run_with_persistence_def persistence_tunnel)
    from False Inr show ?thesis
      by (auto simp: run_checked_def p split: option.split prod.split sum.split)
  qed
qed

text \<open>Without the rights of the administrator no system tunnel is started: whatever starting
  one would do, the run of the program is the same.\<close>

theorem no_tunnel_without_root:
  assumes "pg_euid ops \<noteq> 0"
  shows "run_program (ops\<lparr>pg_tunnel := f\<rparr>) c w = run_program ops c w"
  unfolding run_program_def apply_stdin_cookie_def tunnel_update run_checked_tunnel [OF assms] ..

theorem no_tunnel_without_root_witness:
  "run_program (sample_program\<lparr>pg_euid := 1000, pg_tunnel := (\<lambda>c w. Panic)\<rparr>) cli_empty 0
   = run_program (sample_program\<lparr>pg_euid := 1000\<rparr>) cli_empty 0"
  using no_tunnel_without_root [of "sample_program\<lparr>pg_euid := 1000\<rparr>" "\<lambda>c w. Panic" cli_empty 0] by simp

end
