(* ===== verification/Netstack.thy ===== *)
theory Netstack
  imports Op_Monad
begin

text \<open>
  The user-space network stack of proxy mode (\<open>src/proxy/netstack.rs\<close>): the device between the
  PPP link and the TCP/IP library, and the wrapper that gives out local ports. The library
  is an argument: \<open>smol_ops\<close> holds its operations on a state of their own, with socket
  handles as numbers; its poll function runs on the device defined here.

  Shown here: the device is a queue without empty packets in both directions, and the local
  ports cycle through the whole dynamic range.
\<close>

definition DEFAULT_PROXY_MTU :: nat where "DEFAULT_PROXY_MTU = 1354"
definition DEFAULT_TCP_BUFFER_SIZE :: nat where "DEFAULT_TCP_BUFFER_SIZE = 256 * 1024"

section \<open>The device\<close>

record ppp_device =
  rx_queue :: "bytes list"
  tx_queue :: "bytes list"
  device_mtu :: nat

definition ppp_device_new :: "nat \<Rightarrow> ppp_device" where
  "ppp_device_new mtu = \<lparr>rx_queue = [], tx_queue = [], device_mtu = mtu\<rparr>"

definition push_rx :: "bytes \<Rightarrow> ppp_device \<Rightarrow> ppp_device" where
  "push_rx packet d = (if packet \<noteq> [] then d\<lparr>rx_queue := rx_queue d @ [packet]\<rparr> else d)"

definition pop_tx :: "ppp_device \<Rightarrow> bytes option \<times> ppp_device" where
  "pop_tx d = (case tx_queue d of [] \<Rightarrow> (None, d) | p # ps \<Rightarrow> (Some p, d\<lparr>tx_queue := ps\<rparr>))"

definition rx_len :: "ppp_device \<Rightarrow> nat" where "rx_len d = length (rx_queue d)"
definition tx_len :: "ppp_device \<Rightarrow> nat" where "tx_len d = length (tx_queue d)"

text \<open>The two tokens of the library: receiving takes the oldest packet, consuming a transmit token
  appends the packet that the library filled in.\<close>

definition device_receive :: "ppp_device \<Rightarrow> bytes option \<times> ppp_device" where
  "device_receive d = (case rx_queue d of [] \<Rightarrow> (None, d) | p # ps \<Rightarrow> (Some p, d\<lparr>rx_queue := ps\<rparr>))"

definition tx_consume :: "nat \<Rightarrow> (bytes \<Rightarrow> bytes \<times> 'r) \<Rightarrow> ppp_device \<Rightarrow> 'r \<times> ppp_device" where
  "tx_consume len f d =
     (case f (replicate len 0) of
        (packet, r) \<Rightarrow> (r, if packet \<noteq> [] then d\<lparr>tx_queue := tx_queue d @ [packet]\<rparr> else d))"

record device_capabilities =
  medium_ip :: bool
  max_transmission_unit :: nat
  max_burst_size :: "nat option"

definition capabilities :: "ppp_device \<Rightarrow> device_capabilities" where
  "capabilities d = \<lparr>medium_ip = True, max_transmission_unit = device_mtu d, max_burst_size = Some 64\<rparr>"

section \<open>The stack\<close>

datatype tcp_state = TcpEstablished | TcpOther nat

record 't smol_ops =
  smol_new :: "u64 \<Rightarrow> ipv4_addr \<Rightarrow> ipv4_addr \<Rightarrow> device_capabilities \<Rightarrow> int \<Rightarrow> 't"
  smol_add :: "nat \<Rightarrow> nat \<Rightarrow> 't \<Rightarrow> nat \<times> 't"
  smol_connect :: "nat \<Rightarrow> ipv4_addr \<Rightarrow> u16 \<Rightarrow> u16 \<Rightarrow> 't \<Rightarrow> (string + unit) \<times> 't"
  smol_poll :: "int \<Rightarrow> ppp_device \<Rightarrow> 't \<Rightarrow> bool \<times> ppp_device \<times> 't"
  smol_state :: "nat \<Rightarrow> 't \<Rightarrow> tcp_state"
  smol_is_active :: "nat \<Rightarrow> 't \<Rightarrow> bool"
  smol_can_send :: "nat \<Rightarrow> 't \<Rightarrow> bool"
  smol_send :: "nat \<Rightarrow> bytes \<Rightarrow> 't \<Rightarrow> (string + nat) \<times> 't"
  smol_recv :: "nat \<Rightarrow> nat \<Rightarrow> 't \<Rightarrow> (string + bytes) \<times> 't"
  smol_close :: "nat \<Rightarrow> 't \<Rightarrow> 't"
  smol_remove :: "nat \<Rightarrow> 't \<Rightarrow> 't"

record 't proxy_net_stack =
  net_sockets :: 't
  net_device :: ppp_device
  next_ephemeral_port :: u16

definition random_seed :: "ipv4_addr \<Rightarrow> u64" where
  "random_seed local_ip = 0x6f70656e66740000 OR ucast (ipv4_to_u32 local_ip)"

definition proxy_net_stack_new :: "'t smol_ops \<Rightarrow> ipv4_addr \<Rightarrow> ipv4_addr option \<Rightarrow> int \<Rightarrow> 't proxy_net_stack" where
  "proxy_net_stack_new lib local_ip peer_ip now =
     (let device = ppp_device_new DEFAULT_PROXY_MTU
      in \<lparr>net_sockets = smol_new lib (random_seed local_ip) local_ip
            (case peer_ip of Some ip \<Rightarrow> ip | None \<Rightarrow> local_ip) (capabilities device) now,
          net_device = device, next_ephemeral_port = 49152\<rparr>)"

definition add_tcp_socket :: "'t smol_ops \<Rightarrow> 't proxy_net_stack \<Rightarrow> nat \<times> 't proxy_net_stack" where
  "add_tcp_socket lib n =
     (case smol_add lib DEFAULT_TCP_BUFFER_SIZE DEFAULT_TCP_BUFFER_SIZE (net_sockets n) of
        (handle, t) \<Rightarrow> (handle, n\<lparr>net_sockets := t\<rparr>))"

definition next_port :: "'t proxy_net_stack \<Rightarrow> u16 \<times> 't proxy_net_stack" where
  "next_port n =
     (next_ephemeral_port n,
      n\<lparr>next_ephemeral_port := (if next_ephemeral_port n = 65535 then 49152 else next_ephemeral_port n + 1)\<rparr>)"

definition connect_tcp_socket ::
  "'t smol_ops \<Rightarrow> nat \<Rightarrow> ipv4_addr \<Rightarrow> u16 \<Rightarrow> 't proxy_net_stack \<Rightarrow> (string + unit) \<times> 't proxy_net_stack" where
  "connect_tcp_socket lib handle remote port n =
     (case next_port n of
        (local_port, n1) \<Rightarrow>
          (case smol_connect lib handle remote port local_port (net_sockets n1) of
             (r, t) \<Rightarrow> (r, n1\<lparr>net_sockets := t\<rparr>)))"

definition net_poll :: "'t smol_ops \<Rightarrow> int \<Rightarrow> 't proxy_net_stack \<Rightarrow> bool \<times> 't proxy_net_stack" where
  "net_poll lib now n =
     (case smol_poll lib now (net_device n) (net_sockets n) of
        (b, d, t) \<Rightarrow> (b, n\<lparr>net_device := d, net_sockets := t\<rparr>))"

definition tcp_is_established :: "'t smol_ops \<Rightarrow> nat \<Rightarrow> 't proxy_net_stack \<Rightarrow> bool" where
  "tcp_is_established lib handle n \<longleftrightarrow> smol_state lib handle (net_sockets n) = TcpEstablished"

definition tcp_is_active :: "'t smol_ops \<Rightarrow> nat \<Rightarrow> 't proxy_net_stack \<Rightarrow> bool" where
  "tcp_is_active lib handle n = smol_is_active lib handle (net_sockets n)"

definition tcp_can_send :: "'t smol_ops \<Rightarrow> nat \<Rightarrow> 't proxy_net_stack \<Rightarrow> bool" where
  "tcp_can_send lib handle n = smol_can_send lib handle (net_sockets n)"

definition tcp_send :: "'t smol_ops \<Rightarrow> nat \<Rightarrow> bytes \<Rightarrow> 't proxy_net_stack \<Rightarrow> (string + nat) \<times> 't proxy_net_stack" where
  "tcp_send lib handle bs n =
     (case smol_send lib handle bs (net_sockets n) of (r, t) \<Rightarrow> (r, n\<lparr>net_sockets := t\<rparr>))"

definition tcp_recv :: "'t smol_ops \<Rightarrow> nat \<Rightarrow> nat \<Rightarrow> 't proxy_net_stack \<Rightarrow> (string + bytes) \<times> 't proxy_net_stack" where
  "tcp_recv lib handle len n =
     (case smol_recv lib handle len (net_sockets n) of (r, t) \<Rightarrow> (r, n\<lparr>net_sockets := t\<rparr>))"

definition tcp_close :: "'t smol_ops \<Rightarrow> nat \<Rightarrow> 't proxy_net_stack \<Rightarrow> 't proxy_net_stack" where
  "tcp_close lib handle n = n\<lparr>net_sockets := smol_close lib handle (net_sockets n)\<rparr>"

definition remove_tcp_socket :: "'t smol_ops \<Rightarrow> nat \<Rightarrow> 't proxy_net_stack \<Rightarrow> 't proxy_net_stack" where
  "remove_tcp_socket lib handle n = n\<lparr>net_sockets := smol_remove lib handle (net_sockets n)\<rparr>"

definition push_rx_ipv4 :: "bytes \<Rightarrow> 't proxy_net_stack \<Rightarrow> 't proxy_net_stack" where
  "push_rx_ipv4 packet n = n\<lparr>net_device := push_rx packet (net_device n)\<rparr>"

definition pop_tx_ipv4 :: "'t proxy_net_stack \<Rightarrow> bytes option \<times> 't proxy_net_stack" where
  "pop_tx_ipv4 n = (case pop_tx (net_device n) of (p, d) \<Rightarrow> (p, n\<lparr>net_device := d\<rparr>))"

section \<open>Ports\<close>

text \<open>The ports that successive connections get.\<close>

fun take_ports :: "nat \<Rightarrow> 't proxy_net_stack \<Rightarrow> u16 list \<times> 't proxy_net_stack" where
  "take_ports 0 n = ([], n)"
| "take_ports (Suc k) n =
     (case next_port n of (p, n1) \<Rightarrow> (case take_ports k n1 of (ps, n2) \<Rightarrow> (p # ps, n2)))"

definition dynamic_port :: "nat \<Rightarrow> u16" where
  "dynamic_port i = word_of_nat (49152 + i mod 16384)"

lemma unat_dynamic_port: "unat (dynamic_port i) = 49152 + i mod 16384"
proof -
  have "i mod 16384 < 16384" by simp
  then show ?thesis unfolding dynamic_port_def unsigned_of_nat by (simp add: take_bit_eq_mod)
qed

lemma dynamic_port_Suc:
  "(if dynamic_port i = 65535 then 49152 else dynamic_port i + 1) = dynamic_port (Suc i)"
proof (cases "i mod 16384 = 16383")
  case True
  then have "Suc i mod 16384 = 0" by (simp add: mod_Suc)
  with True show ?thesis by (simp add: dynamic_port_def)
next
  case False
  have "dynamic_port i \<noteq> 65535"
  proof
    assume "dynamic_port i = 65535"
    then have "unat (dynamic_port i) = 65535" by simp
    with False show False by (simp add: unat_dynamic_port)
  qed
  moreover have "Suc i mod 16384 = Suc (i mod 16384)" using False by (simp add: mod_Suc)
  ultimately show ?thesis by (simp add: dynamic_port_def algebra_simps)
qed

lemma take_ports_from:
  "next_ephemeral_port n = dynamic_port i \<Longrightarrow>
   fst (take_ports k n) = map dynamic_port [i..<i + k]
   \<and> next_ephemeral_port (snd (take_ports k n)) = dynamic_port (i + k)"
proof (induction k arbitrary: n i)
  case (Suc k)
  obtain n1 where n1: "next_port n = (dynamic_port i, n1)" "next_ephemeral_port n1 = dynamic_port (Suc i)"
    unfolding next_port_def Suc.prems dynamic_port_Suc [of i] by simp
  from Suc.IH [OF n1(2)] n1(1) show ?case
    by (simp add: case_prod_beta upt_conv_Cons del: upt_Suc)
qed simp

lemma dynamic_port_inj:
  assumes "i < 16384" "j < 16384" "dynamic_port i = dynamic_port j"
  shows "i = j"
proof -
  have "unat (dynamic_port i) = 49152 + i" "unat (dynamic_port j) = 49152 + j"
    using assms(1,2) by (simp_all only: unat_dynamic_port mod_less)
  with assms(3) show ?thesis by (metis add_left_cancel)
qed

lemma distinct_dynamic_ports: "m \<le> 16384 \<Longrightarrow> distinct (map dynamic_port [0..<m])"
  using dynamic_port_inj by (auto simp: distinct_map intro!: inj_onI)

text \<open>C39. Local ports: the connections of a stack get the ports of the dynamic range one after the
  other, starting at 49152 and around from 65535, so that no port is given out twice within
  16384 connections and the 16-bit counter never leaves the range.\<close>

theorem local_ports_cycle:
  "fst (take_ports k (proxy_net_stack_new lib local_ip peer_ip now)) = map dynamic_port [0..<k]
   \<and> list_all (\<lambda>p. 49152 \<le> unat p \<and> unat p \<le> 65535) (fst (take_ports k (proxy_net_stack_new lib local_ip peer_ip now)))
   \<and> distinct (fst (take_ports 16384 (proxy_net_stack_new lib local_ip peer_ip now)))"
proof -
  have "next_ephemeral_port (proxy_net_stack_new lib local_ip peer_ip now) = dynamic_port 0"
    by (simp add: proxy_net_stack_new_def dynamic_port_def Let_def)
  note ports = take_ports_from [OF this, THEN conjunct1, unfolded add_0]
  have "unat (dynamic_port i) \<le> 65535" for i
  proof -
    have "i mod 16384 < 16384" by simp
    then show ?thesis unfolding unat_dynamic_port by linarith
  qed
  then have "list_all (\<lambda>p. 49152 \<le> unat p \<and> unat p \<le> 65535) (map dynamic_port [0..<k])"
    by (simp add: list_all_iff unat_dynamic_port)
  moreover have "distinct (map dynamic_port [0..<16384])" by (rule distinct_dynamic_ports) (rule order_refl)
  ultimately show ?thesis unfolding ports by blast
qed

section \<open>Queues\<close>

definition device_inv :: "ppp_device \<Rightarrow> bool" where
  "device_inv d \<longleftrightarrow> [] \<notin> set (rx_queue d) \<and> [] \<notin> set (tx_queue d)"

lemma device_keeps_inv:
  "device_inv (ppp_device_new mtu)"
  "device_inv d \<Longrightarrow> device_inv (push_rx p d)"
  "device_inv d \<Longrightarrow> device_inv (snd (pop_tx d))"
  "device_inv d \<Longrightarrow> device_inv (snd (device_receive d))"
  "device_inv d \<Longrightarrow> device_inv (snd (tx_consume len f d))"
  by (auto simp: device_inv_def ppp_device_new_def push_rx_def pop_tx_def device_receive_def tx_consume_def
      split: list.splits prod.splits)

end
