(* ===== verification/Proxy_Sessions.thy ===== *)
theory Proxy_Sessions
  imports "HOL-Library.Sublist" Netstack Fortinet Logger Net_Addr Socks5 Rust_Loop
begin

text \<open>
  The sessions of the SOCKS proxy (\<open>src/proxy/runtime.rs\<close>): the data pumps between a client and
  its destination, through the network stack or directly, and the removal of finished
  sessions. A socket is a reader, a writer and the list of the shutdowns done on it.

  Shown here: a direct session relays bytes in order and without loss in both directions,
  however reads and writes are cut, until a write fails, and its counters are the numbers of
  bytes written.
\<close>

definition PROXY_IO_BUFFER_SIZE :: nat where "PROXY_IO_BUFFER_SIZE = 16 * 1024"

datatype shutdown = ShutdownWrite | ShutdownBoth

record peer_socket =
  sock_in :: reader
  sock_out :: writer
  sock_shut :: "shutdown list"

record proxy_session =
  ps_id :: u64
  ps_client :: peer_socket
  ps_handle :: nat
  ps_to_remote :: bytes
  ps_to_client :: bytes
  ps_socks_replied :: bool
  ps_local_closed :: bool
  ps_remote_closed :: bool
  ps_client_to_remote_bytes :: u64
  ps_remote_to_client_bytes :: u64
  ps_client_addr :: socket_addr
  ps_target :: string
  ps_close_reason :: "string option"

record direct_session =
  ds_id :: u64
  ds_client :: peer_socket
  ds_remote :: peer_socket
  ds_to_remote :: bytes
  ds_to_client :: bytes
  ds_local_closed :: bool
  ds_remote_closed :: bool
  ds_client_to_remote_bytes :: u64
  ds_remote_to_client_bytes :: u64
  ds_client_addr :: socket_addr
  ds_target :: string
  ds_close_reason :: "string option"

section \<open>Queues\<close>

definition drain_chunk :: "bytes \<Rightarrow> nat \<Rightarrow> bytes \<times> bytes" where
  "drain_chunk queue max_len = (take (min (length queue) max_len) queue, drop (min (length queue) max_len) queue)"

definition push_front_bytes :: "bytes \<Rightarrow> bytes \<Rightarrow> bytes" where
  "push_front_bytes queue bs = fold (\<lambda>b q. b # q) (rev bs) queue"

lemma drain_chunk_append: "fst (drain_chunk q m) @ snd (drain_chunk q m) = q"
  by (simp add: drain_chunk_def)

lemma push_front_bytes_append: "push_front_bytes queue bs = bs @ queue"
  by (induction bs arbitrary: queue) (simp_all add: push_front_bytes_def)

definition mark_closed :: "string \<Rightarrow> proxy_session \<Rightarrow> proxy_session" where
  "mark_closed reason session =
     (if ps_close_reason session = None then session\<lparr>ps_close_reason := Some reason\<rparr> else session)"

definition mark_direct_closed :: "string \<Rightarrow> direct_session \<Rightarrow> direct_session" where
  "mark_direct_closed reason session =
     (if ds_close_reason session = None then session\<lparr>ds_close_reason := Some reason\<rparr> else session)"

section \<open>Direct sessions\<close>

text \<open>Writing to a socket: once its write side is shut down, every write fails.\<close>

definition sock_write :: "bytes \<Rightarrow> peer_socket \<Rightarrow> (io_error + nat) \<times> peer_socket" where
  "sock_write bs c =
     (if sock_shut c \<noteq> [] then (Inl (IoError BrokenPipe ''Broken pipe (os error 32)''), c)
      else case write_some bs (sock_out c) of (r, w) \<Rightarrow> (r, c\<lparr>sock_out := w\<rparr>))"

text \<open>How a loop of writes or of reads ends.\<close>

datatype write_end = Flushed | WriteBlocked | WroteZero | WriteFailed io_error

datatype read_end = ReadEof | ReadBlocked | ReadFailed io_error

text \<open>The write loop of both directions: chunks of the queue are written until it is empty; what a
  partial or blocked write leaves goes back to the front; a failing write loses its chunk.\<close>

function flush_queue :: "bytes \<Rightarrow> peer_socket \<Rightarrow> nat \<Rightarrow> bytes \<times> peer_socket \<times> nat \<times> write_end" where
  "flush_queue queue c written =
     (if queue = [] then (queue, c, written, Flushed)
      else
        let (chunk, rest) = drain_chunk queue PROXY_IO_BUFFER_SIZE in
        case sock_write chunk c of
          (Inr n, c1) \<Rightarrow>
            if n = 0 then (push_front_bytes rest chunk, c1, written, WroteZero)
            else if n < length chunk then (push_front_bytes rest (drop n chunk), c1, written + n, WriteBlocked)
            else flush_queue rest c1 (written + n)
        | (Inl err, c1) \<Rightarrow>
            if kind err = WouldBlock then (push_front_bytes rest chunk, c1, written, WriteBlocked)
            else (rest, c1, written, WriteFailed err))"
  by pat_completeness auto
termination
  by (relation "measure (\<lambda>(queue, c, written). length queue)")
    (auto simp: drain_chunk_def PROXY_IO_BUFFER_SIZE_def)

declare flush_queue.simps [simp del]

function read_available :: "reader \<Rightarrow> bytes \<Rightarrow> reader \<times> bytes \<times> read_end" where
  "read_available r queue =
     (case read_some PROXY_IO_BUFFER_SIZE r of
        (Inr bs, r1) \<Rightarrow> if bs = [] then (r1, queue, ReadEof) else read_available r1 (queue @ bs)
      | (Inl err, r1) \<Rightarrow> if kind err = WouldBlock then (r1, queue, ReadBlocked) else (r1, queue, ReadFailed err))"
  by pat_completeness auto
termination
  by (relation "measure (\<lambda>(r, queue). read_work r)") (auto dest: read_work_decreases [OF sym])

declare read_available.simps [simp del]

definition write_to_remote :: "direct_session \<Rightarrow> direct_session" where
  "write_to_remote s =
     (case flush_queue (ds_to_remote s) (ds_remote s) 0 of
        (q, c, n, e) \<Rightarrow>
          (let s1 = s\<lparr>ds_to_remote := q, ds_remote := c,
                      ds_client_to_remote_bytes := ds_client_to_remote_bytes s + of_nat n\<rparr>
           in case e of
                WroteZero \<Rightarrow> (mark_direct_closed ''direct remote write returned zero'' s1)\<lparr>ds_remote_closed := True\<rparr>
              | WriteFailed err \<Rightarrow>
                  (mark_direct_closed (''direct remote write failed: '' @ message err) s1)\<lparr>ds_remote_closed := True\<rparr>
              | _ \<Rightarrow> s1))"

definition write_to_client :: "direct_session \<Rightarrow> direct_session" where
  "write_to_client s =
     (case flush_queue (ds_to_client s) (ds_client s) 0 of
        (q, c, n, e) \<Rightarrow>
          (let s1 = s\<lparr>ds_to_client := q, ds_client := c,
                      ds_remote_to_client_bytes := ds_remote_to_client_bytes s + of_nat n\<rparr>
           in case e of
                WroteZero \<Rightarrow> (mark_direct_closed ''direct client write returned zero'' s1)\<lparr>ds_local_closed := True\<rparr>
              | WriteFailed err \<Rightarrow>
                  (mark_direct_closed (''direct client write failed: '' @ message err) s1)\<lparr>ds_local_closed := True\<rparr>
              | _ \<Rightarrow> s1))"

definition read_from_client :: "direct_session \<Rightarrow> direct_session" where
  "read_from_client s =
     (if \<not> ds_local_closed s \<and> ds_to_remote s = [] then
        (case read_available (sock_in (ds_client s)) (ds_to_remote s) of
           (r, q, e) \<Rightarrow>
             (let s1 = s\<lparr>ds_to_remote := q, ds_client := (ds_client s)\<lparr>sock_in := r\<rparr>\<rparr>;
                  shut = (\<lambda>s. s\<lparr>ds_remote := (ds_remote s)\<lparr>sock_shut := sock_shut (ds_remote s) @ [ShutdownWrite]\<rparr>\<rparr>)
              in case e of
                   ReadEof \<Rightarrow> shut (mark_direct_closed ''client closed connection'' (s1\<lparr>ds_local_closed := True\<rparr>))
                 | ReadBlocked \<Rightarrow> s1
                 | ReadFailed err \<Rightarrow>
                     shut (mark_direct_closed (''direct client read failed: '' @ message err) (s1\<lparr>ds_local_closed := True\<rparr>))))
      else s)"

definition read_from_remote :: "direct_session \<Rightarrow> direct_session" where
  "read_from_remote s =
     (if \<not> ds_remote_closed s \<and> ds_to_client s = [] then
        (case read_available (sock_in (ds_remote s)) (ds_to_client s) of
           (r, q, e) \<Rightarrow>
             (let s1 = s\<lparr>ds_to_client := q, ds_remote := (ds_remote s)\<lparr>sock_in := r\<rparr>\<rparr>;
                  shut = (\<lambda>s. s\<lparr>ds_client := (ds_client s)\<lparr>sock_shut := sock_shut (ds_client s) @ [ShutdownWrite]\<rparr>\<rparr>)
              in case e of
                   ReadEof \<Rightarrow> shut (mark_direct_closed ''direct remote closed connection'' (s1\<lparr>ds_remote_closed := True\<rparr>))
                 | ReadBlocked \<Rightarrow> s1
                 | ReadFailed err \<Rightarrow>
                     shut (mark_direct_closed (''direct remote read failed: '' @ message err) (s1\<lparr>ds_remote_closed := True\<rparr>))))
      else s)"

definition pump_direct_session :: "direct_session \<Rightarrow> direct_session" where
  "pump_direct_session s = read_from_remote (read_from_client (write_to_client (write_to_remote s)))"

definition pump_direct_sessions :: "direct_session list \<Rightarrow> direct_session list" where
  "pump_direct_sessions sessions = map pump_direct_session sessions"

section \<open>Sessions through the network stack\<close>

text \<open>The queue of a session to the stack, and the bytes of its client.\<close>

function send_queue ::
  "'t smol_ops \<Rightarrow> proxy_session \<Rightarrow> 't proxy_net_stack \<Rightarrow> proxy_session \<times> 't proxy_net_stack" where
  "send_queue lib s n =
     (if tcp_can_send lib (ps_handle s) n \<and> ps_to_remote s \<noteq> [] then
        let (chunk, rest) = drain_chunk (ps_to_remote s) PROXY_IO_BUFFER_SIZE in
        case tcp_send lib (ps_handle s) chunk n of
          (Inr written, n1) \<Rightarrow>
            if written < length chunk
            then (s\<lparr>ps_client_to_remote_bytes := ps_client_to_remote_bytes s + of_nat written,
                   ps_to_remote := push_front_bytes rest (drop written chunk)\<rparr>, n1)
            else send_queue lib
                   (s\<lparr>ps_client_to_remote_bytes := ps_client_to_remote_bytes s + of_nat written, ps_to_remote := rest\<rparr>) n1
        | (Inl err, n1) \<Rightarrow>
            (mark_closed (''proxy TCP send failed: '' @ err) (s\<lparr>ps_to_remote := rest\<rparr>), tcp_close lib (ps_handle s) n1)
      else (s, n))"
  by pat_completeness auto
termination
  by (relation "measure (\<lambda>(lib, s, n). length (ps_to_remote s))")
    (auto simp: drain_chunk_def PROXY_IO_BUFFER_SIZE_def)

declare send_queue.simps [simp del]

function send_from_client ::
  "'t smol_ops \<Rightarrow> proxy_session \<Rightarrow> 't proxy_net_stack \<Rightarrow> proxy_session \<times> 't proxy_net_stack" where
  "send_from_client lib s n =
     (if tcp_can_send lib (ps_handle s) n then
        (case read_some PROXY_IO_BUFFER_SIZE (sock_in (ps_client s)) of
           (Inr bs, r) \<Rightarrow>
             (let s1 = s\<lparr>ps_client := (ps_client s)\<lparr>sock_in := r\<rparr>\<rparr> in
              if bs = []
              then (mark_closed ''client closed connection'' (s1\<lparr>ps_local_closed := True\<rparr>), tcp_close lib (ps_handle s) n)
              else
                (case tcp_send lib (ps_handle s) bs n of
                   (Inr written, n1) \<Rightarrow>
                     (let s2 = s1\<lparr>ps_client_to_remote_bytes := ps_client_to_remote_bytes s + of_nat written\<rparr>
                      in if written < length bs then (s2\<lparr>ps_to_remote := ps_to_remote s @ drop written bs\<rparr>, n1)
                         else send_from_client lib s2 n1)
                 | (Inl err, n1) \<Rightarrow>
                     (mark_closed (''proxy TCP send failed: '' @ err) s1, tcp_close lib (ps_handle s) n1)))
         | (Inl err, r) \<Rightarrow>
             (let s1 = s\<lparr>ps_client := (ps_client s)\<lparr>sock_in := r\<rparr>\<rparr> in
              if kind err = WouldBlock then (s1, n)
              else (mark_closed (''client read failed: '' @ message err) s1, tcp_close lib (ps_handle s) n)))
      else (s, n))"
  by pat_completeness auto
termination
  by (relation "measure (\<lambda>(lib, s, n). read_work (sock_in (ps_client s)))") (auto dest: read_work_decreases [OF sym])

declare send_from_client.simps [simp del]

definition pump_local_session ::
  "'t smol_ops \<Rightarrow> proxy_session \<Rightarrow> 't proxy_net_stack \<Rightarrow> proxy_session \<times> 't proxy_net_stack" where
  "pump_local_session lib s n =
     (if ps_local_closed s \<or> \<not> ps_socks_replied s then (s, n)
      else case send_queue lib s n of (s1, n1) \<Rightarrow> send_from_client lib s1 n1)"

fun pump_local_to_tcp ::
  "'t smol_ops \<Rightarrow> proxy_session list \<Rightarrow> 't proxy_net_stack \<Rightarrow> proxy_session list \<times> 't proxy_net_stack" where
  "pump_local_to_tcp lib [] n = ([], n)"
| "pump_local_to_tcp lib (s # ss) n =
     (case pump_local_session lib s n of
        (s1, n1) \<Rightarrow> (case pump_local_to_tcp lib ss n1 of (ss1, n2) \<Rightarrow> (s1 # ss1, n2)))"

text \<open>The received bytes, as long as the stack has any; the loop has no other bound.\<close>

definition recv_body ::
  "'t smol_ops \<Rightarrow> proxy_session \<times> 't proxy_net_stack \<Rightarrow> (unit, proxy_session \<times> 't proxy_net_stack) loop_step" where
  "recv_body lib = (\<lambda>(s, n).
     case tcp_recv lib (ps_handle s) PROXY_IO_BUFFER_SIZE n of
       (Inr bs, n1) \<Rightarrow>
         if bs = [] then Done () (s, n1)
         else Again (s\<lparr>ps_remote_to_client_bytes := ps_remote_to_client_bytes s + of_nat (length bs),
                       ps_to_client := ps_to_client s @ bs\<rparr>, n1)
     | (Inl err, n1) \<Rightarrow> Done () (s, n1))"

definition recv_available ::
  "'t smol_ops \<Rightarrow> proxy_session \<Rightarrow> 't proxy_net_stack \<Rightarrow> (proxy_session \<times> 't proxy_net_stack) option" where
  "recv_available lib s n = map_option snd (repeat_loop (recv_body lib) (s, n))"

definition flush_to_client ::
  "'t smol_ops \<Rightarrow> proxy_session \<Rightarrow> 't proxy_net_stack \<Rightarrow> proxy_session \<times> 't proxy_net_stack" where
  "flush_to_client lib s n =
     (case flush_queue (ps_to_client s) (ps_client s) 0 of
        (q, c, _, e) \<Rightarrow>
          (let s1 = s\<lparr>ps_to_client := q, ps_client := c\<rparr>
           in case e of
                WroteZero \<Rightarrow> (mark_closed ''client write returned zero'' s1, tcp_close lib (ps_handle s) n)
              | WriteFailed err \<Rightarrow>
                  (mark_closed (''client write failed: '' @ message err) s1, tcp_close lib (ps_handle s) n)
              | _ \<Rightarrow> (s1, n)))"

text \<open>A step of the SOCKS protocol on a client socket.\<close>

definition on_socket :: "(socks_io, 'a) op \<Rightarrow> (peer_socket, 'a) op" where
  "on_socket m c =
     (case m \<lparr>socks_in = sock_in c, socks_out = sock_out c\<rparr> of
        (r, io) \<Rightarrow> (r, c\<lparr>sock_in := socks_in io, sock_out := socks_out io\<rparr>))"

definition reply_when_established ::
  "'t smol_ops \<Rightarrow> proxy_session \<Rightarrow> 't proxy_net_stack \<Rightarrow> proxy_session \<times> unit res" where
  "reply_when_established lib s n =
     (if \<not> ps_socks_replied s \<and> tcp_is_established lib (ps_handle s) n
      then (case on_socket (write_success ipv4_unspecified 0) (ps_client s) of
              (Inl e, c) \<Rightarrow> (s\<lparr>ps_client := c\<rparr>, Inl e)
            | (Inr _, c) \<Rightarrow> (s\<lparr>ps_client := c, ps_socks_replied := True\<rparr>, Inr ()))
      else (s, Inr ()))"

definition pump_remote_session ::
  "'t smol_ops \<Rightarrow> proxy_session \<Rightarrow> 't proxy_net_stack \<Rightarrow> (proxy_session \<times> 't proxy_net_stack \<times> unit res) option" where
  "pump_remote_session lib s n =
     (case reply_when_established lib s n of
        (s1, Inl e) \<Rightarrow> Some (s1, n, Inl e)
      | (s1, Inr _) \<Rightarrow>
          (case recv_available lib s1 n of
             None \<Rightarrow> None
           | Some (s2, n1) \<Rightarrow> (case flush_to_client lib s2 n1 of (s3, n2) \<Rightarrow> Some (s3, n2, Inr ()))))"

fun pump_tcp_to_local ::
  "'t smol_ops \<Rightarrow> proxy_session list \<Rightarrow> 't proxy_net_stack \<Rightarrow>
     (proxy_session list \<times> 't proxy_net_stack \<times> unit res) option" where
  "pump_tcp_to_local lib [] n = Some ([], n, Inr ())"
| "pump_tcp_to_local lib (s # ss) n =
     (case pump_remote_session lib s n of
        None \<Rightarrow> None
      | Some (s1, n1, Inl e) \<Rightarrow> Some (s1 # ss, n1, Inl e)
      | Some (s1, n1, Inr _) \<Rightarrow>
          (case pump_tcp_to_local lib ss n1 of
             None \<Rightarrow> None
           | Some (ss1, n2, r) \<Rightarrow> Some (s1 # ss1, n2, r)))"

section \<open>Finished sessions\<close>

text \<open>Removing finished sessions; the removed ones are handed back, so that their sockets are closed
  and a line is logged for each.\<close>

definition show_session_end ::
  "string \<Rightarrow> u64 \<Rightarrow> socket_addr \<Rightarrow> string \<Rightarrow> u64 \<Rightarrow> u64 \<Rightarrow> string option \<Rightarrow> string" where
  "show_session_end label session_id addr dest out_bytes in_bytes reason =
     ''SOCKS5 '' @ label @ '' session #'' @ show_word session_id @ '' closed: '' @ show_socket_addr addr @ '' -> '' @ dest
     @ ''; client->remote='' @ show_word out_bytes @ '' bytes, remote->client='' @ show_word in_bytes
     @ '' bytes; reason: '' @ (case reason of Some r \<Rightarrow> r | None \<Rightarrow> ''unknown'')"

definition show_closed_session :: "proxy_session \<Rightarrow> string" where
  "show_closed_session s =
     show_session_end ''proxy'' (ps_id s) (ps_client_addr s) (ps_target s)
       (ps_client_to_remote_bytes s) (ps_remote_to_client_bytes s) (ps_close_reason s)"

definition show_closed_direct_session :: "direct_session \<Rightarrow> string" where
  "show_closed_direct_session s =
     show_session_end ''direct'' (ds_id s) (ds_client_addr s) (ds_target s)
       (ds_client_to_remote_bytes s) (ds_remote_to_client_bytes s) (ds_close_reason s)"

fun cleanup_sessions ::
  "'t smol_ops \<Rightarrow> proxy_session list \<Rightarrow> 't proxy_net_stack \<Rightarrow>
     proxy_session list \<times> 't proxy_net_stack \<times> proxy_session list" where
  "cleanup_sessions lib [] n = ([], n, [])"
| "cleanup_sessions lib (s # ss) n =
     (let active = tcp_is_active lib (ps_handle s) n;
          s1 = (if \<not> active \<and> \<not> ps_remote_closed s
                then mark_closed ''remote TCP closed'' (s\<lparr>ps_remote_closed := True\<rparr>) else s)
      in if (ps_local_closed s1 \<or> ps_remote_closed s1) \<and> ps_to_client s1 = [] \<and> ps_to_remote s1 = [] \<and> \<not> active
         then (case cleanup_sessions lib ss (remove_tcp_socket lib (ps_handle s1) n) of
                 (ss1, n1, removed) \<Rightarrow> (ss1, n1, s1 # removed))
         else (case cleanup_sessions lib ss n of (ss1, n1, removed) \<Rightarrow> (s1 # ss1, n1, removed)))"

definition direct_finished :: "direct_session \<Rightarrow> bool" where
  "direct_finished s \<longleftrightarrow> ds_local_closed s \<and> ds_remote_closed s \<and> ds_to_client s = [] \<and> ds_to_remote s = []"

definition cleanup_direct_sessions :: "direct_session list \<Rightarrow> direct_session list \<times> direct_session list" where
  "cleanup_direct_sessions sessions =
     (filter (\<lambda>s. \<not> direct_finished s) sessions, filter direct_finished sessions)"

section \<open>Relaying\<close>

text \<open>One round of writing or reading, in terms of the bytes that crossed.\<close>

lemma sock_write_sent:
  "sock_write bs c = (Inr n, c1) \<Longrightarrow> n \<le> length bs \<and> sent (sock_out c1) = sent (sock_out c) @ take n bs"
  "sock_write bs c = (Inl err, c1) \<Longrightarrow> sent (sock_out c1) = sent (sock_out c)"
  by (auto simp: sock_write_def split: if_split_asm prod.split_asm dest: write_some_sent write_some_error)

lemma sock_write_keeps: "sock_write bs c = (r, c1) \<Longrightarrow> sock_in c1 = sock_in c \<and> sock_shut c1 = sock_shut c"
  by (auto simp: sock_write_def split: if_split_asm prod.split_asm)

lemma flush_queue_bytes:
  "flush_queue q c k = (q1, c1, k1, e) \<Longrightarrow>
   sock_in c1 = sock_in c \<and> (\<exists>out lost. sent (sock_out c1) = sent (sock_out c) @ out \<and> k1 = k + length out
     \<and> q = out @ lost @ q1 \<and> (lost \<noteq> [] \<longrightarrow> (\<exists>err. e = WriteFailed err)))"
proof (induction q c k rule: flush_queue.induct)
  case (1 q c k)
  obtain chunk rest where d: "drain_chunk q PROXY_IO_BUFFER_SIZE = (chunk, rest)" by fastforce
  then have q: "q = chunk @ rest" using drain_chunk_append [of q PROXY_IO_BUFFER_SIZE] by simp
  obtain x c2 where w: "sock_write chunk c = (x, c2)" by fastforce
  note kept = sock_write_keeps [OF w]
  consider "q = []" | err where "q \<noteq> []" "x = Inl err"
    | n where "q \<noteq> []" "x = Inr n" "n < length chunk \<or> n = 0" | n where "q \<noteq> []" "x = Inr n" "0 < n" "\<not> n < length chunk"
    by (cases x) auto
  then show ?case
  proof cases
    case 1
    with "1.prems" show ?thesis by (subst (asm) flush_queue.simps) simp
  next
    case 2
    with "1.prems" d w kept sock_write_sent(2) [of chunk c err c2] show ?thesis
      by (subst (asm) flush_queue.simps) (auto simp: q push_front_bytes_append split: if_split_asm)
  next
    case 3
    with "1.prems" d w kept sock_write_sent(1) [of chunk c n c2] show ?thesis
      by (subst (asm) flush_queue.simps) (auto simp: q push_front_bytes_append split: if_split_asm)
  next
    case 4
    have s: "n = length chunk" "sent (sock_out c2) = sent (sock_out c) @ chunk"
      using sock_write_sent(1) [of chunk c n c2] w 4 by auto
    have "flush_queue rest c2 (k + n) = (q1, c1, k1, e)"
      using "1.prems" d w 4 by (subst (asm) flush_queue.simps) simp
    from "1.IH" [OF 4(1) d [symmetric] refl w [symmetric] 4(2) _ 4(4) this] 4(3) s kept show ?thesis
      by (auto simp: q)
  qed
qed

lemma read_available_bytes:
  "read_available r q = (r1, q1, e) \<Longrightarrow> \<exists>bs. q1 = q @ bs \<and> reader_data r = bs @ reader_data r1"
proof (induction r q rule: read_available.induct)
  case (1 r q)
  obtain x r2 where x: "read_some PROXY_IO_BUFFER_SIZE r = (x, r2)" by fastforce
  note d = read_some_reader_data [OF x]
  show ?case
  proof (cases x)
    case (Inl err)
    with "1.prems" x d show ?thesis by (subst (asm) read_available.simps) (auto split: if_split_asm)
  next
    case (Inr bs)
    show ?thesis
    proof (cases "bs = []")
      case True
      with "1.prems" x d Inr show ?thesis by (subst (asm) read_available.simps) simp
    next
      case False
      with "1.prems" x Inr have "read_available r2 (q @ bs) = (r1, q1, e)"
        by (subst (asm) read_available.simps) simp
      from "1.IH" [OF x [symmetric] Inr False this] d Inr show ?thesis by auto
    qed
  qed
qed

text \<open>The state of a relay between the bytes that one side sends and the other side gets, after the
  bytes \<open>pre\<close> that were written before it began: nothing is invented, repeated or reordered; as
  long as the sink is not marked closed nothing is lost; and the counter is the number of
  bytes written.\<close>

definition relay_ok :: "bytes \<Rightarrow> bytes \<Rightarrow> bool \<Rightarrow> reader \<Rightarrow> bytes \<Rightarrow> writer \<Rightarrow> u64 \<Rightarrow> bool" where
  "relay_ok pre input closed r queue w count \<longleftrightarrow>
     (\<exists>out. sent w = pre @ out \<and> count = of_nat (length out)
        \<and> subseq (out @ queue @ reader_data r) input
        \<and> (\<not> closed \<longrightarrow> out @ queue @ reader_data r = input))"

lemma relay_ok_write:
  assumes "relay_ok pre input closed r q (sock_out c) count" and "flush_queue q c 0 = (q1, c1, n, e)"
    and "\<And>err. e = WriteFailed err \<Longrightarrow> closed1" and "closed \<Longrightarrow> closed1"
  shows "relay_ok pre input closed1 r q1 (sock_out c1) (count + of_nat n)"
proof -
  from flush_queue_bytes [OF assms(2)] obtain out lost where
    f: "sent (sock_out c1) = sent (sock_out c) @ out" "n = length out" "q = out @ lost @ q1" "lost \<noteq> [] \<longrightarrow> (\<exists>err. e = WriteFailed err)" by auto
  from assms(1) obtain old where
    old: "sent (sock_out c) = pre @ old" "count = of_nat (length old)" "subseq (old @ q @ reader_data r) input"
      "\<not> closed \<longrightarrow> old @ q @ reader_data r = input" unfolding relay_ok_def by blast
  have "subseq ((old @ out) @ q1 @ reader_data r) (old @ q @ reader_data r)"
    unfolding f(3) append_assoc by (intro list_emb_append_mono subseq_order.refl list_emb_append2)
  then have "subseq ((old @ out) @ q1 @ reader_data r) input" using old(3) by (rule subseq_order.trans)
  moreover have "(old @ out) @ q1 @ reader_data r = input" if "\<not> closed1"
    using f(3,4) old(4) assms(3,4) that by (cases "lost = []") auto
  ultimately show ?thesis
    unfolding relay_ok_def using f(1,2) old(1,2) by (intro exI [of _ "old @ out"]) simp
qed

lemma flush_queue_in: "flush_queue q c k = (q1, c1, k1, e) \<Longrightarrow> sock_in c1 = sock_in c"
  using flush_queue_bytes by blast

lemma relay_ok_read:
  assumes "relay_ok pre input closed r q w count" and "read_available r q = (r1, q1, e)" and "closed \<Longrightarrow> closed1"
  shows "relay_ok pre input closed1 r1 q1 w count"
  using read_available_bytes [OF assms(2)] assms(1,3) by (fastforce simp: relay_ok_def)

text \<open>What a session has relayed since it was \<open>d\<close>, in both directions.\<close>

definition direct_relays :: "direct_session \<Rightarrow> direct_session \<Rightarrow> bool" where
  "direct_relays d s \<longleftrightarrow>
     relay_ok (sent (sock_out (ds_remote d))) (reader_data (sock_in (ds_client d)))
       (ds_remote_closed s) (sock_in (ds_client s)) (ds_to_remote s)
       (sock_out (ds_remote s)) (ds_client_to_remote_bytes s)
     \<and> relay_ok (sent (sock_out (ds_client d))) (reader_data (sock_in (ds_remote d)))
       (ds_local_closed s) (sock_in (ds_remote s)) (ds_to_client s)
       (sock_out (ds_client s)) (ds_remote_to_client_bytes s)"

definition fresh_direct :: "direct_session \<Rightarrow> bool" where
  "fresh_direct d \<longleftrightarrow> ds_to_remote d = [] \<and> ds_to_client d = [] \<and> \<not> ds_local_closed d \<and> \<not> ds_remote_closed d
     \<and> ds_client_to_remote_bytes d = 0 \<and> ds_remote_to_client_bytes d = 0"

lemma fresh_relays: "fresh_direct d \<Longrightarrow> direct_relays d d"
  by (simp add: fresh_direct_def direct_relays_def relay_ok_def)

lemma mark_direct_closed_simps [simp]:
  "ds_client (mark_direct_closed m s) = ds_client s" "ds_remote (mark_direct_closed m s) = ds_remote s"
  "ds_to_client (mark_direct_closed m s) = ds_to_client s" "ds_to_remote (mark_direct_closed m s) = ds_to_remote s"
  "ds_local_closed (mark_direct_closed m s) = ds_local_closed s"
  "ds_remote_closed (mark_direct_closed m s) = ds_remote_closed s"
  "ds_client_to_remote_bytes (mark_direct_closed m s) = ds_client_to_remote_bytes s"
  "ds_remote_to_client_bytes (mark_direct_closed m s) = ds_remote_to_client_bytes s"
  by (simp_all add: mark_direct_closed_def)

lemma relay_ok_closed: "relay_ok pre input closed r q w count \<Longrightarrow> relay_ok pre input True r q w count"
  by (auto simp: relay_ok_def)

lemma write_to_remote_relays: "direct_relays d s \<Longrightarrow> direct_relays d (write_to_remote s)"
  unfolding direct_relays_def write_to_remote_def
  by (cases "flush_queue (ds_to_remote s) (ds_remote s) 0")
    (auto simp: Let_def flush_queue_in split: write_end.split elim!: relay_ok_write)

lemma write_to_client_relays: "direct_relays d s \<Longrightarrow> direct_relays d (write_to_client s)"
  unfolding direct_relays_def write_to_client_def
  by (cases "flush_queue (ds_to_client s) (ds_client s) 0")
    (auto simp: Let_def flush_queue_in split: write_end.split elim!: relay_ok_write)

lemma read_from_client_relays: "direct_relays d s \<Longrightarrow> direct_relays d (read_from_client s)"
  unfolding direct_relays_def read_from_client_def
  by (cases "read_available (sock_in (ds_client s)) (ds_to_remote s)")
    (auto simp: Let_def split: read_end.split elim!: relay_ok_read relay_ok_closed)

lemma read_from_remote_relays: "direct_relays d s \<Longrightarrow> direct_relays d (read_from_remote s)"
  unfolding direct_relays_def read_from_remote_def
  by (cases "read_available (sock_in (ds_remote s)) (ds_to_client s)")
    (auto simp: Let_def split: read_end.split elim!: relay_ok_read relay_ok_closed)

lemma pump_direct_relays: "direct_relays d s \<Longrightarrow> direct_relays d (pump_direct_session s)"
  by (simp add: pump_direct_session_def write_to_remote_relays write_to_client_relays
      read_from_client_relays read_from_remote_relays)

lemma pump_direct_times: "fresh_direct d \<Longrightarrow> direct_relays d ((pump_direct_session ^^ k) d)"
  by (induction k) (simp_all add: fresh_relays pump_direct_relays)

text \<open>C14. A direct session relays faithfully: after any number of rounds, whatever reads and writes
  deliver and however they are cut, the bytes that each side got are bytes of the other side
  in their order, none invented or repeated; as long as a side is not marked closed nothing is
  lost on the way to it: what it got, what is queued for it and what has not been read yet is
  all that the other side sends; and the counters are the numbers of bytes written.\<close>

theorem direct_session_relays:
  assumes "fresh_direct d"
  shows "direct_relays d ((pump_direct_session ^^ k) d)"
  using assms by (rule pump_direct_times)

lemma flush_queue_willing:
  "accepts (sock_out c) = [] \<Longrightarrow> sock_shut c = [] \<Longrightarrow>
   flush_queue q c k = ([], c\<lparr>sock_out := (sock_out c)\<lparr>sent := sent (sock_out c) @ q\<rparr>\<rparr>, k + length q, Flushed)"
proof (induction q c k rule: flush_queue.induct)
  case (1 q c k)
  obtain chunk rest where d: "drain_chunk q PROXY_IO_BUFFER_SIZE = (chunk, rest)" by fastforce
  then have q: "q = chunk @ rest" using drain_chunk_append [of q PROXY_IO_BUFFER_SIZE] by simp
  show ?case
  proof (cases "q = []")
    case True
    then show ?thesis by (subst flush_queue.simps) simp
  next
    case False
    then have n: "length chunk \<noteq> 0"
      using d by (auto simp: drain_chunk_def PROXY_IO_BUFFER_SIZE_def min_def split: if_split_asm)
    let ?c = "c\<lparr>sock_out := (sock_out c)\<lparr>sent := sent (sock_out c) @ chunk\<rparr>\<rparr>"
    have w: "sock_write chunk c = (Inr (length chunk), ?c)"
      using "1.prems" by (simp add: sock_write_def write_some_def)
    have "flush_queue q c k = flush_queue rest ?c (k + length chunk)"
      using False d w n by (subst flush_queue.simps) simp
    also have "\<dots> = ([], ?c\<lparr>sock_out := (sock_out ?c)\<lparr>sent := sent (sock_out ?c) @ rest\<rparr>\<rparr>, k + length chunk + length rest, Flushed)"
      using "1.IH" [OF False d [symmetric] refl w [symmetric] refl n] "1.prems" by simp
    finally show ?thesis by (simp add: q)
  qed
qed

lemma flush_queue_shut:
  assumes "sock_shut c \<noteq> []" and "q \<noteq> []"
  shows "flush_queue q c k = (drop PROXY_IO_BUFFER_SIZE q, c, k, WriteFailed (IoError BrokenPipe ''Broken pipe (os error 32)''))"
  using assms by (subst flush_queue.simps) (simp add: sock_write_def drain_chunk_def min_def)

lemma flush_queue_Nil: "flush_queue [] c k = ([], c, k, Flushed)"
  by (subst flush_queue.simps) simp

lemma read_available_data:
  "data_only r \<Longrightarrow> read_available r q = ([], q @ reader_data r, ReadEof)"
proof (induction r q rule: read_available.induct)
  case (1 r q)
  show ?case
  proof (cases r)
    case Nil
    then show ?thesis by (subst read_available.simps) (simp add: reader_data_def)
  next
    case (Cons x r')
    obtain y r2 where y: "read_some PROXY_IO_BUFFER_SIZE r = (y, r2)" by fastforce
    from "1.prems" Cons y obtain bs where bs: "y = Inr bs" "bs \<noteq> []" "data_only r2"
      by (cases x) (auto simp: PROXY_IO_BUFFER_SIZE_def split: if_split_asm)
    have "read_available r q = read_available r2 (q @ bs)"
      using y bs by (subst read_available.simps) simp
    also have "\<dots> = ([], (q @ bs) @ reader_data r2, ReadEof)"
      using "1.IH" [OF y [symmetric] bs(1,2)] bs(3) by simp
    finally show ?thesis using read_some_reader_data [OF y] bs(1) by simp
  qed
qed

text \<open>A socket that delivers its bytes, has a pause, and then ends.\<close>

definition paused :: "reader \<Rightarrow> bool" where
  "paused r \<longleftrightarrow> (\<exists>r1 err. r = r1 @ [Inl err] \<and> data_only r1 \<and> kind err = WouldBlock)"

definition willing_socket :: "peer_socket \<Rightarrow> bool" where
  "willing_socket c \<longleftrightarrow> accepts (sock_out c) = [] \<and> sock_shut c = []"

lemma read_available_paused:
  "data_only r1 \<Longrightarrow> kind err = WouldBlock \<Longrightarrow> read_available (r1 @ [Inl err]) q = ([], q @ reader_data r1, ReadBlocked)"
proof (induction "r1 @ [Inl err :: io_error + bytes]" q arbitrary: r1 rule: read_available.induct)
  case (1 q)
  show ?case
  proof (cases r1)
    case Nil
    with "1.prems" show ?thesis by (subst read_available.simps) (simp add: reader_data_def)
  next
    case (Cons x r')
    obtain bs r2 where y: "read_some PROXY_IO_BUFFER_SIZE (r1 @ [Inl err]) = (Inr bs, r2 @ [Inl err])"
      "bs \<noteq> []" "data_only r2" "reader_data r1 = bs @ reader_data r2"
    proof (cases x)
      case (Inr cs)
      show thesis
      proof (cases "length cs \<le> PROXY_IO_BUFFER_SIZE")
        case True
        with Cons Inr "1.prems"(1) show thesis by (intro that [of cs r']) (auto simp: reader_data_def)
      next
        case False
        with Cons Inr "1.prems"(1) show thesis
          by (intro that [of "take PROXY_IO_BUFFER_SIZE cs" "Inr (drop PROXY_IO_BUFFER_SIZE cs) # r'"])
            (auto simp: reader_data_def PROXY_IO_BUFFER_SIZE_def)
      qed
    qed (use Cons "1.prems"(1) in simp)
    have "read_available (r1 @ [Inl err]) q = read_available (r2 @ [Inl err]) (q @ bs)"
      using y by (subst read_available.simps) simp
    also have "\<dots> = ([], (q @ bs) @ reader_data r2, ReadBlocked)"
      using "1.hyps" [OF y(1) [symmetric] refl y(2,3) "1.prems"(2)] .
    finally show ?thesis using y(4) by simp
  qed
qed

lemma read_paused:
  "paused r \<Longrightarrow> read_available r q = ([], q @ reader_data r, ReadBlocked)"
  using read_available_paused by (fastforce simp: paused_def reader_data_def)

lemma pump_reads_all:
  assumes "fresh_direct d" and "willing_socket (ds_client d)" and "willing_socket (ds_remote d)"
    and "paused (sock_in (ds_client d))" and "paused (sock_in (ds_remote d))"
  shows "pump_direct_session d = d
    \<lparr>ds_to_remote := reader_data (sock_in (ds_client d)), ds_to_client := reader_data (sock_in (ds_remote d)),
     ds_client := (ds_client d)\<lparr>sock_in := []\<rparr>, ds_remote := (ds_remote d)\<lparr>sock_in := []\<rparr>\<rparr>"
  using assms
  by (simp add: pump_direct_session_def write_to_remote_def write_to_client_def read_from_client_def
      read_from_remote_def fresh_direct_def willing_socket_def flush_queue_Nil read_paused Let_def)

lemma pump_writes_all:
  assumes "\<not> ds_local_closed s" "\<not> ds_remote_closed s" "sock_in (ds_client s) = []" "sock_in (ds_remote s) = []"
    and "willing_socket (ds_client s)" "willing_socket (ds_remote s)"
  shows "\<exists>s1. pump_direct_session s = s1 \<and> direct_finished s1
    \<and> sent (sock_out (ds_remote s1)) = sent (sock_out (ds_remote s)) @ ds_to_remote s
    \<and> sent (sock_out (ds_client s1)) = sent (sock_out (ds_client s)) @ ds_to_client s
    \<and> ds_client_to_remote_bytes s1 = ds_client_to_remote_bytes s + of_nat (length (ds_to_remote s))
    \<and> ds_remote_to_client_bytes s1 = ds_remote_to_client_bytes s + of_nat (length (ds_to_client s))"
  using assms read_available_data [of "[]"]
  by (simp add: pump_direct_session_def write_to_remote_def write_to_client_def read_from_client_def
      read_from_remote_def flush_queue_willing willing_socket_def Let_def direct_finished_def reader_data_def)

text \<open>C40. A direct session completes, under a condition on timing: when both sides take what is
  written to them, and each of them pauses (a read that would block) between its last bytes
  and its end, two rounds deliver everything in both directions, count it, and leave a
  session that the clean-up removes. The pause is needed: without it the last bytes are
  lost, as the next theorem shows.\<close>

theorem direct_session_completes:
  assumes "fresh_direct d" and "willing_socket (ds_client d)" and "willing_socket (ds_remote d)"
    and "paused (sock_in (ds_client d))" and "paused (sock_in (ds_remote d))"
    and "d2 = pump_direct_session (pump_direct_session d)"
  shows "sent (sock_out (ds_remote d2)) = sent (sock_out (ds_remote d)) @ reader_data (sock_in (ds_client d))
    \<and> sent (sock_out (ds_client d2)) = sent (sock_out (ds_client d)) @ reader_data (sock_in (ds_remote d))
    \<and> ds_client_to_remote_bytes d2 = of_nat (length (reader_data (sock_in (ds_client d))))
    \<and> ds_remote_to_client_bytes d2 = of_nat (length (reader_data (sock_in (ds_remote d))))
    \<and> cleanup_direct_sessions [d2] = ([], [d2])"
  using pump_writes_all [of "pump_direct_session d"] assms(1-3) assms(6)
  unfolding pump_reads_all [OF assms(1-5)]
  by (auto simp: fresh_direct_def willing_socket_def cleanup_direct_sessions_def)

text \<open>When the last bytes of the remote side and its end arrive together, the bytes are lost: reading
  the end shuts down the client's socket for writing, before the bytes of the same reading
  are written to it.\<close>

theorem last_bytes_are_lost:
  assumes "fresh_direct d" and "willing_socket (ds_client d)" and "willing_socket (ds_remote d)"
    and "paused (sock_in (ds_client d))" and "data_only (sock_in (ds_remote d))"
    and "reader_data (sock_in (ds_remote d)) \<noteq> []" and "length (reader_data (sock_in (ds_remote d))) \<le> PROXY_IO_BUFFER_SIZE"
    and "d2 = pump_direct_session (pump_direct_session d)"
  shows "sock_in (ds_remote d2) = [] \<and> ds_to_client d2 = [] \<and> sent (sock_out (ds_client d2)) = sent (sock_out (ds_client d))
    \<and> ds_local_closed d2"
proof -
  have "pump_direct_session d = (mark_direct_closed ''direct remote closed connection'' (d
    \<lparr>ds_to_remote := reader_data (sock_in (ds_client d)), ds_to_client := reader_data (sock_in (ds_remote d)),
     ds_client := (ds_client d)\<lparr>sock_in := [], sock_shut := [ShutdownWrite]\<rparr>,
     ds_remote := (ds_remote d)\<lparr>sock_in := []\<rparr>, ds_remote_closed := True\<rparr>))" (is "_ = ?d1")
    using assms(1-5)
    by (simp add: pump_direct_session_def write_to_remote_def write_to_client_def read_from_client_def
        read_from_remote_def fresh_direct_def willing_socket_def flush_queue_Nil read_paused read_available_data Let_def
        mark_direct_closed_def)
  moreover have "sock_in (ds_remote (pump_direct_session ?d1)) = [] \<and> ds_to_client (pump_direct_session ?d1) = []
      \<and> sent (sock_out (ds_client (pump_direct_session ?d1))) = sent (sock_out (ds_client d))
      \<and> ds_local_closed (pump_direct_session ?d1)"
    using assms(2,3,6,7)
    by (simp add: pump_direct_session_def write_to_remote_def write_to_client_def read_from_client_def
        read_from_remote_def willing_socket_def flush_queue_willing flush_queue_shut Let_def)
  ultimately show ?thesis using assms(8) by simp
qed

definition sample_direct :: direct_session where
  "sample_direct =
     \<lparr>ds_id = 1,
      ds_client = \<lparr>sock_in = [Inr [1, 2], Inr [3], Inl (IoError WouldBlock [])],
        sock_out = \<lparr>accepts = [], sent = [9], flush_answer = Inr ()\<rparr>, sock_shut = []\<rparr>,
      ds_remote = \<lparr>sock_in = [Inr [7], Inl (IoError WouldBlock [])],
        sock_out = \<lparr>accepts = [], sent = [], flush_answer = Inr ()\<rparr>, sock_shut = []\<rparr>,
      ds_to_remote = [], ds_to_client = [], ds_local_closed = False, ds_remote_closed = False,
      ds_client_to_remote_bytes = 0, ds_remote_to_client_bytes = 0,
      ds_client_addr = SocketAddrV4 (Ipv4Addr 127 0 0 1) 5000, ds_target = ''10.0.0.1:80'', ds_close_reason = None\<rparr>"

lemma sample_direct_ok:
  "fresh_direct sample_direct" "willing_socket (ds_client sample_direct)" "willing_socket (ds_remote sample_direct)"
  "paused (sock_in (ds_client sample_direct))" "paused (sock_in (ds_remote sample_direct))"
proof -
  have "paused ([Inr [1, 2], Inr [3]] @ [Inl (IoError WouldBlock [])])" "paused ([Inr [7]] @ [Inl (IoError WouldBlock [])])"
    unfolding paused_def by (rule exI, rule exI, rule conjI [OF refl], simp)+
  then show "paused (sock_in (ds_client sample_direct))" "paused (sock_in (ds_remote sample_direct))"
    by (simp_all add: sample_direct_def)
qed (simp_all add: fresh_direct_def willing_socket_def sample_direct_def)

theorem direct_session_relays_witness:
  "relay_ok [] [1, 2, 3] False [] [1, 2, 3] (sock_out (ds_remote sample_direct)) 0"
  using direct_session_relays [OF sample_direct_ok(1), of 1] pump_reads_all [OF sample_direct_ok]
  by (simp add: direct_relays_def sample_direct_def reader_data_def)

theorem direct_session_completes_witness:
  "sent (sock_out (ds_remote (pump_direct_session (pump_direct_session sample_direct)))) = [1, 2, 3]
   \<and> sent (sock_out (ds_client (pump_direct_session (pump_direct_session sample_direct)))) = [9, 7]"
  using direct_session_completes [OF sample_direct_ok refl] by (simp add: sample_direct_def reader_data_def)

section \<open>Sessions that end, and one that does not\<close>

lemma cleanup_keeps_unfinished:
  "cleanup_sessions lib ss n = (ss1, n1, removed) \<Longrightarrow> s \<in> set ss \<Longrightarrow> ps_to_remote s \<noteq> [] \<Longrightarrow>
   \<exists>s1 \<in> set ss1. ps_id s1 = ps_id s \<and> ps_to_remote s1 = ps_to_remote s"
proof (induction lib ss n arbitrary: ss1 n1 removed rule: cleanup_sessions.induct)
  case (2 lib x ss n)
  then show ?case
    by (fastforce simp: Let_def mark_closed_def split: if_split_asm prod.split_asm)
qed simp

text \<open>A session whose queue to the stack is not empty when the remote side is gone stays: nothing
  empties the queue once the socket cannot send, and only sessions with empty queues are
  removed.\<close>

theorem dead_session_is_kept:
  assumes "ps_to_remote s \<noteq> []" and "\<not> tcp_can_send lib (ps_handle s) n"
  shows "pump_local_session lib s n = (s, n)
    \<and> (\<exists>s1 \<in> set (fst (cleanup_sessions lib [s] n)).
         ps_id s1 = ps_id s \<and> ps_to_remote s1 = ps_to_remote s)"
proof -
  have "send_queue lib s n = (s, n)" using assms(2) by (subst send_queue.simps) simp
  moreover have "send_from_client lib s n = (s, n)" using assms(2) by (subst send_from_client.simps) simp
  ultimately have "pump_local_session lib s n = (s, n)" by (simp add: pump_local_session_def)
  with cleanup_keeps_unfinished [of lib "[s]" n] assms(1) show ?thesis
    by (cases "cleanup_sessions lib [s] n") fastforce
qed

text \<open>A client that cannot be sent the reply to its request stops the whole proxy: the error is not
  that session's but the result of the pump, and with it of the loop.\<close>

theorem failed_reply_stops_proxy:
  assumes "\<not> ps_socks_replied s" and "tcp_is_established lib (ps_handle s) n"
    and "accepts (sock_out (ps_client s)) = Inl err # script" and "kind err \<noteq> Interrupted"
  shows "\<exists>s1. pump_tcp_to_local lib (s # ss) n = Some (s1 # ss, n, Inl (Io err))"
proof -
  let ?w = "(sock_out (ps_client s))\<lparr>accepts := script\<rparr>"
  have "write_all bs (sock_out (ps_client s)) = (Inl err, ?w)" if "bs \<noteq> []" for bs
    using assms(3,4) that by (subst write_all.simps) (simp add: write_some_def)
  then have "on_socket (write_success ipv4_unspecified 0) (ps_client s) = (Inl (Io err), (ps_client s)\<lparr>sock_out := ?w\<rparr>)"
    by (simp add: on_socket_def write_success_def socks_send_def bind_op_def io_op_def)
  with assms(1,2) show ?thesis
    by (simp add: pump_remote_session_def reply_when_established_def)
qed

end
