(* ===== verification/Proxy_Relay.thy ===== *)
theory Proxy_Relay
  imports Proxy_Sessions
begin

text \<open>
  What a session through the network stack relays. The stack is the library's; \<open>tcp_laws\<close> says of
  it what its documentation says: sending takes the first bytes and tells how many, less than
  offered only if the send buffer is then full; receiving hands out bytes; a closed socket
  takes nothing more; and the other operations take and hand out nothing; and an operation on one socket leaves the
  others alone. \<open>out\<close> and
  \<open>got\<close> are the bytes that a socket has taken and handed out so far.

  Shown here: the data pumps lose, invent, repeat and reorder nothing in either direction until
  the session has a reason to close, and the session's counters are true.
\<close>

definition tcp_laws :: "'t smol_ops \<Rightarrow> (nat \<Rightarrow> 't \<Rightarrow> bytes) \<Rightarrow> (nat \<Rightarrow> 't \<Rightarrow> bytes) \<Rightarrow> bool" where
  "tcp_laws lib out got \<longleftrightarrow>
     (\<forall>h bs t r t1. smol_send lib h bs t = (r, t1) \<longrightarrow> (\<forall>h'. got h' t1 = got h' t) \<and> (\<forall>h'. h' \<noteq> h \<longrightarrow> out h' t1 = out h' t)
        \<and> (case r of Inl err \<Rightarrow> out h t1 = out h t | Inr n \<Rightarrow> n \<le> length bs \<and> out h t1 = out h t @ take n bs
              \<and> (n < length bs \<longrightarrow> \<not> smol_can_send lib h t1)))
     \<and> (\<forall>h m t r t1. smol_recv lib h m t = (r, t1) \<longrightarrow> (\<forall>h'. out h' t1 = out h' t) \<and> (\<forall>h'. h' \<noteq> h \<longrightarrow> got h' t1 = got h' t)
        \<and> (case r of Inl err \<Rightarrow> got h t1 = got h t | Inr bs \<Rightarrow> got h t1 = got h t @ bs))
     \<and> (\<forall>h h' t. out h' (smol_close lib h t) = out h' t \<and> got h' (smol_close lib h t) = got h' t
        \<and> \<not> smol_can_send lib h (smol_close lib h t))
     \<and> (\<forall>now d t b d1 t1 h. smol_poll lib now d t = (b, d1, t1) \<longrightarrow> out h t1 = out h t \<and> got h t1 = got h t)"

text \<open>A socket holds finitely many received bytes: receiving uses them up.\<close>

definition finite_buffers :: "'t smol_ops \<Rightarrow> (nat \<Rightarrow> 't \<Rightarrow> nat) \<Rightarrow> bool" where
  "finite_buffers lib held \<longleftrightarrow>
     (\<forall>h m t bs t1. smol_recv lib h m t = (Inr bs, t1) \<longrightarrow> bs \<noteq> [] \<longrightarrow> held h t1 < held h t)"

text \<open>The sessions in the rounds of the runtime: from the clients to the stack, the poll, and from the
  stack to the clients.\<close>

definition sessions_round ::
  "'t smol_ops \<Rightarrow> int \<Rightarrow> proxy_session list \<times> 't proxy_net_stack \<Rightarrow> (proxy_session list \<times> 't proxy_net_stack) option" where
  "sessions_round lib now = (\<lambda>(ss, n).
     case pump_local_to_tcp lib ss n of
       (ss1, n1) \<Rightarrow>
         (case pump_tcp_to_local lib ss1 (snd (net_poll lib now n1)) of
            Some (ss2, n2, Inr _) \<Rightarrow> Some (ss2, n2)
          | _ \<Rightarrow> None))"

fun sessions_rounds ::
  "'t smol_ops \<Rightarrow> int list \<Rightarrow> proxy_session list \<times> 't proxy_net_stack \<Rightarrow>
     (proxy_session list \<times> 't proxy_net_stack) option" where
  "sessions_rounds lib [] x = Some x"
| "sessions_rounds lib (now # nows) x =
     (case sessions_round lib now x of None \<Rightarrow> None | Some y \<Rightarrow> sessions_rounds lib nows y)"

section \<open>The invariant\<close>

text \<open>Both directions since \<open>s0\<close> and \<open>n0\<close>; nothing is lost while there is no reason to close.\<close>

definition uploads ::
  "(nat \<Rightarrow> 't \<Rightarrow> bytes) \<Rightarrow> proxy_session \<Rightarrow> 't proxy_net_stack \<Rightarrow> proxy_session \<Rightarrow> 't proxy_net_stack \<Rightarrow> bool" where
  "uploads out s0 n0 s n \<longleftrightarrow>
     (\<exists>up. out (ps_handle s) (net_sockets n) = out (ps_handle s0) (net_sockets n0) @ up
        \<and> ps_client_to_remote_bytes s = of_nat (length up)
        \<and> subseq (up @ ps_to_remote s @ reader_data (sock_in (ps_client s))) (reader_data (sock_in (ps_client s0)))
        \<and> (ps_close_reason s = None \<longrightarrow>
             up @ ps_to_remote s @ reader_data (sock_in (ps_client s)) = reader_data (sock_in (ps_client s0))))"

definition downloads ::
  "(nat \<Rightarrow> 't \<Rightarrow> bytes) \<Rightarrow> proxy_session \<Rightarrow> 't proxy_net_stack \<Rightarrow> proxy_session \<Rightarrow> 't proxy_net_stack \<Rightarrow> bool" where
  "downloads got s0 n0 s n \<longleftrightarrow>
     (\<exists>down written. got (ps_handle s) (net_sockets n) = got (ps_handle s0) (net_sockets n0) @ down
        \<and> ps_remote_to_client_bytes s = of_nat (length down)
        \<and> sent (sock_out (ps_client s)) = sent (sock_out (ps_client s0)) @ written
        \<and> subseq (written @ ps_to_client s) down
        \<and> (ps_close_reason s = None \<longrightarrow> written @ ps_to_client s = down))"

text \<open>Sockets outside a set have taken and handed out nothing.\<close>

definition sockets_kept ::
  "(nat \<Rightarrow> 't \<Rightarrow> bytes) \<Rightarrow> (nat \<Rightarrow> 't \<Rightarrow> bytes) \<Rightarrow> nat set \<Rightarrow> 't proxy_net_stack \<Rightarrow> 't proxy_net_stack \<Rightarrow> bool" where
  "sockets_kept out got hs n n1 \<longleftrightarrow>
     (\<forall>h. h \<notin> hs \<longrightarrow> out h (net_sockets n1) = out h (net_sockets n) \<and> got h (net_sockets n1) = got h (net_sockets n))"

lemma sockets_kept_refl [simp]: "sockets_kept out got hs n n" by (simp add: sockets_kept_def)

lemma sockets_kept_trans: "sockets_kept out got hs n n1 \<Longrightarrow> sockets_kept out got hs n1 n2 \<Longrightarrow> sockets_kept out got hs n n2"
  by (simp add: sockets_kept_def)

lemma sockets_kept_mono: "sockets_kept out got hs n n1 \<Longrightarrow> hs \<subseteq> gs \<Longrightarrow> sockets_kept out got gs n n1"
  by (auto simp: sockets_kept_def)

definition relays ::
  "(nat \<Rightarrow> 't \<Rightarrow> bytes) \<Rightarrow> (nat \<Rightarrow> 't \<Rightarrow> bytes) \<Rightarrow> 't proxy_net_stack \<Rightarrow> 't proxy_net_stack \<Rightarrow>
     proxy_session \<Rightarrow> proxy_session \<Rightarrow> bool" where
  "relays out got n0 n s0 s \<longleftrightarrow>
     ps_socks_replied s \<and> ps_handle s = ps_handle s0 \<and> uploads out s0 n0 s n \<and> downloads got s0 n0 s n"

definition conserves ::
  "(nat \<Rightarrow> 't \<Rightarrow> bytes) \<Rightarrow> (nat \<Rightarrow> 't \<Rightarrow> bytes) \<Rightarrow> 't proxy_net_stack \<Rightarrow> proxy_session \<Rightarrow> 't proxy_net_stack \<Rightarrow>
     proxy_session \<times> 't proxy_net_stack \<Rightarrow> bool" where
  "conserves out got m s0 n0 = (\<lambda>(s, n). ps_socks_replied s \<and> ps_handle s = ps_handle s0
     \<and> sockets_kept out got {ps_handle s0} m n \<and> uploads out s0 n0 s n \<and> downloads got s0 n0 s n)"

lemma mark_closed_simps [simp]:
  "ps_client (mark_closed m s) = ps_client s" "ps_handle (mark_closed m s) = ps_handle s"
  "ps_to_remote (mark_closed m s) = ps_to_remote s" "ps_to_client (mark_closed m s) = ps_to_client s"
  "ps_socks_replied (mark_closed m s) = ps_socks_replied s"
  "ps_client_to_remote_bytes (mark_closed m s) = ps_client_to_remote_bytes s"
  "ps_remote_to_client_bytes (mark_closed m s) = ps_remote_to_client_bytes s"
  "ps_close_reason (mark_closed m s) \<noteq> None"
  by (simp_all add: mark_closed_def)

section \<open>Steps of the stack\<close>

lemma tcp_send_laws:
  assumes "tcp_laws lib out got" and "tcp_send lib h bs n = (r, n1)"
  shows "got h (net_sockets n1) = got h (net_sockets n)"
    and "r = Inr k \<Longrightarrow> k \<le> length bs \<and> out h (net_sockets n1) = out h (net_sockets n) @ take k bs
                         \<and> (k < length bs \<longrightarrow> \<not> tcp_can_send lib h n1)"
    and "r = Inl err \<Longrightarrow> out h (net_sockets n1) = out h (net_sockets n)"
    and "sockets_kept out got {h} n n1"
proof -
  obtain t1 where t: "smol_send lib h bs (net_sockets n) = (r, t1)" "n1 = n\<lparr>net_sockets := t1\<rparr>"
    using assms(2) by (auto simp: tcp_send_def split: prod.split_asm)
  note * = assms(1) [unfolded tcp_laws_def, THEN conjunct1,
      THEN spec, THEN spec, THEN spec, THEN spec, THEN spec, THEN mp, OF t(1)]
  from * t(2) show "got h (net_sockets n1) = got h (net_sockets n)" "sockets_kept out got {h} n n1"
    by (simp_all add: sockets_kept_def)
  from * t(2) show "r = Inr k \<Longrightarrow> k \<le> length bs \<and> out h (net_sockets n1) = out h (net_sockets n) @ take k bs
      \<and> (k < length bs \<longrightarrow> \<not> tcp_can_send lib h n1)" "r = Inl err \<Longrightarrow> out h (net_sockets n1) = out h (net_sockets n)"
    by (simp_all add: tcp_can_send_def)
qed

lemma tcp_recv_laws:
  assumes "tcp_laws lib out got" and "tcp_recv lib h k n = (r, n1)"
  shows "out h (net_sockets n1) = out h (net_sockets n)"
    and "r = Inr bs \<Longrightarrow> got h (net_sockets n1) = got h (net_sockets n) @ bs"
    and "r = Inl err \<Longrightarrow> got h (net_sockets n1) = got h (net_sockets n)"
    and "sockets_kept out got {h} n n1"
proof -
  obtain t1 where t: "smol_recv lib h k (net_sockets n) = (r, t1)" "n1 = n\<lparr>net_sockets := t1\<rparr>"
    using assms(2) by (auto simp: tcp_recv_def split: prod.split_asm)
  note * = assms(1) [unfolded tcp_laws_def, THEN conjunct2, THEN conjunct1,
      THEN spec, THEN spec, THEN spec, THEN spec, THEN spec, THEN mp, OF t(1)]
  from * t(2) show "out h (net_sockets n1) = out h (net_sockets n)" "sockets_kept out got {h} n n1"
    "r = Inr bs \<Longrightarrow> got h (net_sockets n1) = got h (net_sockets n) @ bs"
    "r = Inl err \<Longrightarrow> got h (net_sockets n1) = got h (net_sockets n)"
    by (simp_all add: sockets_kept_def)
qed

lemma tcp_close_laws:
  assumes "tcp_laws lib out got"
  shows "out h (net_sockets (tcp_close lib h' n)) = out h (net_sockets n)"
    and "got h (net_sockets (tcp_close lib h' n)) = got h (net_sockets n)"
    and "\<not> tcp_can_send lib h (tcp_close lib h n)"
  using assms unfolding tcp_laws_def tcp_close_def tcp_can_send_def by auto

lemma sockets_kept_close:
  "tcp_laws lib out got \<Longrightarrow> sockets_kept out got hs m (tcp_close lib h n) = sockets_kept out got hs m n"
  by (simp add: sockets_kept_def tcp_close_laws)

lemma net_poll_laws:
  assumes "tcp_laws lib out got"
  shows "out h (net_sockets (snd (net_poll lib now n))) = out h (net_sockets n)"
    and "got h (net_sockets (snd (net_poll lib now n))) = got h (net_sockets n)"
  using assms unfolding tcp_laws_def net_poll_def by (auto split: prod.split)

text \<open>Sending part of a queue: what was taken moves from the queue to the stack, or a chunk is lost
  and there is a reason to close.\<close>

lemma conserves_sent:
  assumes "conserves out got m s0 n0 (s, n)" and "tcp_laws lib out got"
    and "tcp_send lib (ps_handle s) chunk n = (Inr k, n1)" and "ps_to_remote s = chunk @ rest"
  shows "conserves out got m s0 n0
    (s\<lparr>ps_client_to_remote_bytes := ps_client_to_remote_bytes s + of_nat k, ps_to_remote := drop k chunk @ rest\<rparr>, n1)"
proof -
  from tcp_send_laws(2) [OF assms(2,3) refl] have k: "k \<le> length chunk"
    "out (ps_handle s) (net_sockets n1) = out (ps_handle s) (net_sockets n) @ take k chunk" by auto
  have join: "take k chunk @ drop k chunk @ x = chunk @ x" for x by (metis append_assoc append_take_drop_id)
  from assms(1) have old: "ps_socks_replied s" "ps_handle s = ps_handle s0" "sockets_kept out got {ps_handle s0} m n"
    "downloads got s0 n0 s n" by (simp_all add: conserves_def)
  from assms(1) obtain up where up: "out (ps_handle s) (net_sockets n) = out (ps_handle s0) (net_sockets n0) @ up"
    "ps_client_to_remote_bytes s = of_nat (length up)"
    "subseq (up @ ps_to_remote s @ reader_data (sock_in (ps_client s))) (reader_data (sock_in (ps_client s0)))"
    "ps_close_reason s = None \<longrightarrow>
       up @ ps_to_remote s @ reader_data (sock_in (ps_client s)) = reader_data (sock_in (ps_client s0))"
    by (auto simp: conserves_def uploads_def)
  have "uploads out s0 n0 (s\<lparr>ps_client_to_remote_bytes := ps_client_to_remote_bytes s + of_nat k,
      ps_to_remote := drop k chunk @ rest\<rparr>) n1"
    unfolding uploads_def using up k assms(4) by (intro exI [of _ "up @ take k chunk"]) (simp add: min_def join)
  with old tcp_send_laws(1,4) [OF assms(2,3)] show ?thesis
    by (simp add: conserves_def downloads_def sockets_kept_def)
qed

lemma conserves_taken:
  assumes "conserves out got m s0 n0 (s, n)" and "tcp_laws lib out got"
    and "tcp_send lib (ps_handle s) chunk n = (Inl err, n1)" and "ps_to_remote s = chunk @ rest"
  shows "conserves out got m s0 n0 (mark_closed msg (s\<lparr>ps_to_remote := rest\<rparr>), tcp_close lib (ps_handle s) n1)"
proof -
  have "subseq (up @ rest @ x) y" if "subseq (up @ ps_to_remote s @ x) y" for up x y
    using that unfolding assms(4) append_assoc
    by (rule subseq_order.trans [rotated]) (intro list_emb_append_mono subseq_order.refl list_emb_append2)
  with assms(1) tcp_send_laws(1,3,4) [OF assms(2,3)] show ?thesis
    by (fastforce simp: conserves_def uploads_def downloads_def sockets_kept_def tcp_close_laws [OF assms(2)])
qed

lemma conserves_closed:
  assumes "conserves out got m s0 n0 (s, n)" and "tcp_laws lib out got"
  shows "conserves out got m s0 n0 (mark_closed msg s, tcp_close lib (ps_handle s) n)"
  using assms(1)
  by (fastforce simp: conserves_def uploads_def downloads_def sockets_kept_close [OF assms(2)] tcp_close_laws [OF assms(2)])

lemma send_queue_handle: "ps_handle (fst (send_queue lib s n)) = ps_handle s"
  by (induction lib s n rule: send_queue.induct) (subst send_queue.simps, auto split: prod.split sum.split)

lemma send_queue_conserves:
  "tcp_laws lib out got \<Longrightarrow> conserves out got m s0 n0 (s, n) \<Longrightarrow>
   conserves out got m s0 n0 (send_queue lib s n)
   \<and> (case send_queue lib s n of (s1, n1) \<Rightarrow> tcp_can_send lib (ps_handle s1) n1 \<longrightarrow> ps_to_remote s1 = [])"
proof (induction lib s n rule: send_queue.induct)
  case (1 lib s n)
  show ?case
  proof (cases "tcp_can_send lib (ps_handle s) n \<and> ps_to_remote s \<noteq> []")
    case False
    with "1.prems" show ?thesis by (subst send_queue.simps, subst send_queue.simps) auto
  next
    case True
    obtain chunk rest where d: "drain_chunk (ps_to_remote s) PROXY_IO_BUFFER_SIZE = (chunk, rest)" by fastforce
    then have q: "ps_to_remote s = chunk @ rest"
      using drain_chunk_append [of "ps_to_remote s" PROXY_IO_BUFFER_SIZE] by simp
    obtain r n1 where w: "tcp_send lib (ps_handle s) chunk n = (r, n1)" by fastforce
    show ?thesis
    proof (cases r)
      case (Inl err)
      then have "send_queue lib s n = (mark_closed (''proxy TCP send failed: '' @ err) (s\<lparr>ps_to_remote := rest\<rparr>),
          tcp_close lib (ps_handle s) n1)"
        using True d w by (subst send_queue.simps) simp
      with conserves_taken [OF "1.prems"(2,1) w [unfolded Inl] q] tcp_close_laws(3) [OF "1.prems"(1)]
      show ?thesis by simp
    next
      case (Inr k)
      note taken = conserves_sent [OF "1.prems"(2,1) w [unfolded Inr] q]
      show ?thesis
      proof (cases "k < length chunk")
        case short: True
        then have "send_queue lib s n = (s\<lparr>ps_client_to_remote_bytes := ps_client_to_remote_bytes s + of_nat k,
            ps_to_remote := drop k chunk @ rest\<rparr>, n1)"
          using True d w Inr by (subst send_queue.simps) (simp add: push_front_bytes_append)
        with taken tcp_send_laws(2) [OF "1.prems"(1) w, of k] short Inr show ?thesis by simp
      next
        case False
        with taken have t: "conserves out got m s0 n0
            (s\<lparr>ps_client_to_remote_bytes := ps_client_to_remote_bytes s + of_nat k, ps_to_remote := rest\<rparr>, n1)" by simp
        have "send_queue lib s n = send_queue lib
            (s\<lparr>ps_client_to_remote_bytes := ps_client_to_remote_bytes s + of_nat k, ps_to_remote := rest\<rparr>) n1"
          using True d w Inr False by (subst send_queue.simps) simp
        with "1.IH" [OF True d [symmetric] refl w [symmetric] Inr False "1.prems"(1) t] show ?thesis by simp
      qed
    qed
  qed
qed

text \<open>Reading from the client: what was read goes to the stack, and the rest of it to the queue.\<close>

lemma conserves_read:
  assumes "conserves out got m s0 n0 (s, n)" and "read_some k (sock_in (ps_client s)) = (Inr bs, r)"
    and "ps_to_remote s = []"
  shows "conserves out got m s0 n0 (s\<lparr>ps_client := (ps_client s)\<lparr>sock_in := r\<rparr>, ps_to_remote := bs\<rparr>, n)"
  using assms(1,3) read_some_reader_data [OF assms(2)] by (auto simp: conserves_def uploads_def downloads_def)

lemma conserves_read_error:
  assumes "conserves out got m s0 n0 (s, n)" and "read_some k (sock_in (ps_client s)) = (Inl err, r)"
  shows "conserves out got m s0 n0 (s\<lparr>ps_client := (ps_client s)\<lparr>sock_in := r\<rparr>\<rparr>, n)"
  using assms(1) read_some_reader_data [OF assms(2)] by (auto simp: conserves_def uploads_def downloads_def)

lemma empty_queue: "ps_to_remote s = [] \<Longrightarrow> s\<lparr>ps_to_remote := []\<rparr> = s"
  by (cases s) simp

lemma send_from_client_conserves:
  "tcp_laws lib out got \<Longrightarrow> conserves out got m s0 n0 (s, n) \<Longrightarrow>
   (tcp_can_send lib (ps_handle s) n \<longrightarrow> ps_to_remote s = []) \<Longrightarrow>
   conserves out got m s0 n0 (send_from_client lib s n)"
proof (induction lib s n rule: send_from_client.induct)
  case (1 lib s n)
  obtain x r where x: "read_some PROXY_IO_BUFFER_SIZE (sock_in (ps_client s)) = (x, r)" by fastforce
  let ?s = "s\<lparr>ps_client := (ps_client s)\<lparr>sock_in := r\<rparr>\<rparr>"
  show ?case
  proof (cases "tcp_can_send lib (ps_handle s) n")
    case False
    with "1.prems" show ?thesis by (subst send_from_client.simps) simp
  next
    case True
    with "1.prems"(3) have none: "ps_to_remote s = []" by simp
    show ?thesis
    proof (cases x)
      case (Inl err)
      note kept = conserves_read_error [OF "1.prems"(2) x [unfolded Inl]]
      from conserves_closed [OF kept "1.prems"(1)] kept True x Inl show ?thesis
        by (subst send_from_client.simps) (simp add: Let_def)
    next
      case (Inr bs)
      note kept = conserves_read [OF "1.prems"(2) x [unfolded Inr] none]
      show ?thesis
      proof (cases "bs = []")
        case True
        let ?t = "?s\<lparr>ps_local_closed := True\<rparr>"
        from kept True empty_queue [OF none] have "conserves out got m s0 n0 (?t, n)"
          by (auto simp: conserves_def uploads_def downloads_def none)
        from conserves_closed [OF this "1.prems"(1)] True \<open>tcp_can_send lib (ps_handle s) n\<close> x Inr show ?thesis
          by (subst send_from_client.simps) (simp add: Let_def)
      next
        case False
        obtain y n1 where w: "tcp_send lib (ps_handle s) bs n = (y, n1)" by fastforce
        show ?thesis
        proof (cases y)
          case (Inl err)
          from conserves_taken [OF kept "1.prems"(1), of bs err n1 "[]"] w Inl empty_queue [of ?s] none True False x Inr
          show ?thesis by (subst send_from_client.simps) (simp add: Let_def)
        next
          case w': (Inr k)
          let ?t = "?s\<lparr>ps_client_to_remote_bytes := ps_client_to_remote_bytes s + of_nat k\<rparr>"
          from conserves_sent [OF kept "1.prems"(1), of bs k n1 "[]"] w w'
          have sent: "conserves out got m s0 n0 (?t\<lparr>ps_to_remote := drop k bs\<rparr>, n1)" by simp
          show ?thesis
          proof (cases "k < length bs")
            case short: True
            with sent True False x Inr w w' none show ?thesis by (subst send_from_client.simps) (simp add: Let_def)
          next
            case all: False
            with sent empty_queue [of ?t] none have t: "conserves out got m s0 n0 (?t, n1)" by simp
            from "1.IH" [OF True x [symmetric] Inr refl False w [symmetric] w' refl all "1.prems"(1) t]
              True False x Inr w w' none all
            show ?thesis by (subst send_from_client.simps) (simp add: Let_def)
          qed
        qed
      qed
    qed
  qed
qed

lemma pump_local_conserves:
  assumes "tcp_laws lib out got" and "conserves out got m s0 n0 (s, n)"
  shows "conserves out got m s0 n0 (pump_local_session lib s n)"
  using send_queue_conserves [OF assms] assms send_from_client_conserves [OF assms(1)]
  by (auto simp: pump_local_session_def split: prod.split)

section \<open>From the stack to the client\<close>

lemma subseq_append_both: "subseq (xs @ ys) zs \<Longrightarrow> subseq (xs @ ys @ us) (zs @ us)"
  using list_emb_append_mono [of "(=)" "xs @ ys" zs us us] by simp

lemma recv_available_conserves:
  assumes "tcp_laws lib out got" and "conserves out got m s0 n0 (s, n)" and "recv_available lib s n = Some y"
  shows "conserves out got m s0 n0 y"
proof -
  from assms(3) obtain u where r: "repeat_loop (recv_body lib) (s, n) = Some (u, y)"
    by (auto simp: recv_available_def)
  show ?thesis
  proof (rule repeat_loop_partial [OF r, where I = "conserves out got m s0 n0" and Q = "\<lambda>_. conserves out got m s0 n0"])
    fix x x1 assume "conserves out got m s0 n0 x" "recv_body lib x = Again x1"
    then show "conserves out got m s0 n0 x1"
      by (auto simp: recv_body_def conserves_def uploads_def downloads_def tcp_recv_laws [OF assms(1)] subseq_append_both
          intro: sockets_kept_trans dest: tcp_recv_laws(4) [OF assms(1)] split: prod.split_asm sum.split_asm if_split_asm)
  next
    fix x u x1 assume "conserves out got m s0 n0 x" "recv_body lib x = Done u x1"
    then show "conserves out got m s0 n0 x1"
      by (auto simp: recv_body_def conserves_def uploads_def downloads_def tcp_recv_laws [OF assms(1)]
          intro: sockets_kept_trans dest: tcp_recv_laws(4) [OF assms(1)] split: prod.split_asm sum.split_asm if_split_asm)
  qed (fact assms(2))
qed

lemma flush_to_client_conserves:
  assumes "tcp_laws lib out got" and "conserves out got m s0 n0 (s, n)"
  shows "conserves out got m s0 n0 (flush_to_client lib s n)"
proof -
  obtain q c k e where f: "flush_queue (ps_to_client s) (ps_client s) 0 = (q, c, k, e)"
    by (rule prod_cases4)
  from flush_queue_bytes [OF f] obtain bs lost where
    b: "sent (sock_out c) = sent (sock_out (ps_client s)) @ bs" "ps_to_client s = bs @ lost @ q"
      "lost \<noteq> [] \<longrightarrow> (\<exists>err. e = WriteFailed err)" and i: "sock_in c = sock_in (ps_client s)" by auto
  let ?s = "s\<lparr>ps_to_client := q, ps_client := c\<rparr>"
  have drop_lost: "subseq (w @ bs @ q) d" if "subseq (w @ ps_to_client s) d" for w d
    using that unfolding b(2)
    by (rule subseq_order.trans [rotated]) (intro list_emb_append_mono subseq_order.refl list_emb_append2)
  have up: "uploads out s0 n0 ?s n" and replied: "ps_socks_replied s" "ps_handle s = ps_handle s0"
    "sockets_kept out got {ps_handle s0} m n"
    using assms(2) i by (auto simp: conserves_def uploads_def)
  from assms(2) obtain down written where
    d: "got (ps_handle s) (net_sockets n) = got (ps_handle s0) (net_sockets n0) @ down"
      "ps_remote_to_client_bytes s = of_nat (length down)"
      "sent (sock_out (ps_client s)) = sent (sock_out (ps_client s0)) @ written"
      "subseq (written @ ps_to_client s) down" "ps_close_reason s = None \<longrightarrow> written @ ps_to_client s = down"
    by (auto simp: conserves_def downloads_def)
  have down: "downloads got s0 n0 t n1"
    if "ps_handle t = ps_handle s" "net_sockets n1 = net_sockets n \<or> n1 = tcp_close lib (ps_handle s) n"
      "ps_remote_to_client_bytes t = ps_remote_to_client_bytes s" "ps_client t = c" "ps_to_client t = q"
      "ps_close_reason t = None \<longrightarrow> ps_close_reason s = None \<and> lost = []" for t n1
  proof -
    have "got (ps_handle t) (net_sockets n1) = got (ps_handle s) (net_sockets n)"
      using that(1,2) tcp_close_laws(2) [OF assms(1)] by metis
    moreover have "ps_close_reason t = None \<longrightarrow> (written @ bs) @ q = down"
      using that(6) d(5) b(2) by auto
    ultimately show ?thesis
      unfolding downloads_def using that(3-5) d(1,2,3) b(1) drop_lost [OF d(4)]
      by (intro exI [of _ down] exI [of _ "written @ bs"]) simp
  qed
  have marked: "conserves out got m s0 n0 (mark_closed msg ?s, tcp_close lib (ps_handle s) n)" for msg
  proof -
    have "uploads out s0 n0 (mark_closed msg ?s) (tcp_close lib (ps_handle s) n)"
      using up by (auto simp: uploads_def tcp_close_laws [OF assms(1)])
    moreover have "downloads got s0 n0 (mark_closed msg ?s) (tcp_close lib (ps_handle s) n)"
      by (rule down) simp_all
    ultimately show ?thesis using replied by (simp add: conserves_def sockets_kept_close [OF assms(1)])
  qed
  have kept: "conserves out got m s0 n0 (?s, n)" if "lost = []"
  proof -
    have "downloads got s0 n0 ?s n" by (rule down) (simp_all add: that)
    with up replied show ?thesis by (simp add: conserves_def)
  qed
  show ?thesis
    using f b(3) marked kept by (cases e) (auto simp: flush_to_client_def Let_def)
qed

section \<open>All sessions\<close>

lemma conserves_iff:
  "conserves out got m s0 n0 (s, n) \<longleftrightarrow> relays out got n0 n s0 s \<and> sockets_kept out got {ps_handle s0} m n"
  by (auto simp: conserves_def relays_def)

lemma relays_sockets_kept:
  assumes "relays out got n0 n s0 s" and "sockets_kept out got hs n n1" and "ps_handle s0 \<notin> hs"
  shows "relays out got n0 n1 s0 s"
  using assms by (auto simp: relays_def uploads_def downloads_def sockets_kept_def)

lemma all_relay_sockets_kept:
  assumes "list_all2 (relays out got n0 n) s0s ss" and "sockets_kept out got hs n n1"
    and "hs \<inter> set (map ps_handle s0s) = {}"
  shows "list_all2 (relays out got n0 n1) s0s ss"
  using assms(1) by (rule list.rel_mono_strong) (use assms(2,3) in \<open>auto intro: relays_sockets_kept\<close>)

lemma pump_local_relays:
  assumes "tcp_laws lib out got" and "relays out got n0 n s0 s" and "pump_local_session lib s n = (s1, n1)"
  shows "relays out got n0 n1 s0 s1" and "sockets_kept out got {ps_handle s0} n n1"
  using pump_local_conserves [OF assms(1), of n s0 n0 s n] assms(2,3) by (simp_all add: conserves_iff)

lemma all_pump_local:
  assumes "tcp_laws lib out got"
  shows "distinct (map ps_handle s0s) \<Longrightarrow> list_all2 (relays out got n0 n) s0s ss \<Longrightarrow>
    pump_local_to_tcp lib ss n = (ss1, n1) \<Longrightarrow>
    list_all2 (relays out got n0 n1) s0s ss1 \<and> sockets_kept out got (set (map ps_handle s0s)) n n1"
proof (induction ss arbitrary: s0s n ss1)
  case (Cons s ss)
  from Cons.prems(2) obtain s0 t0s where c: "s0s = s0 # t0s" "relays out got n0 n s0 s"
    "list_all2 (relays out got n0 n) t0s ss" by (auto simp: list_all2_Cons2)
  from Cons.prems(3) obtain s1 m ts where p: "pump_local_session lib s n = (s1, m)"
    "pump_local_to_tcp lib ss m = (ts, n1)" "ss1 = s1 # ts" by (auto split: prod.split_asm)
  note h = pump_local_relays [OF assms c(2) p(1)]
  have "list_all2 (relays out got n0 m) t0s ss"
    using c(1) Cons.prems(1) by (intro all_relay_sockets_kept [OF c(3) h(2)]) auto
  with Cons.IH [OF _ this p(2)] Cons.prems(1) c(1)
  have t: "list_all2 (relays out got n0 n1) t0s ts" "sockets_kept out got (set (map ps_handle t0s)) m n1" by auto
  have "relays out got n0 n1 s0 s1" using relays_sockets_kept [OF h(1) t(2)] Cons.prems(1) c(1) by simp
  moreover have "sockets_kept out got (set (map ps_handle s0s)) n n1"
    by (rule sockets_kept_trans [OF sockets_kept_mono [OF h(2)] sockets_kept_mono [OF t(2)]]) (auto simp: c(1))
  ultimately show ?case using t(1) c(1) p(3) by simp
qed simp

lemma recv_available_returns:
  assumes "finite_buffers lib held"
  shows "\<exists>y. recv_available lib s n = Some y"
proof -
  let ?m = "\<lambda>(s, n). held (ps_handle s) (net_sockets n)"
  have "?m x1 < ?m x" if "recv_body lib x = Again x1" for x x1
    using that assms by (auto simp: recv_body_def tcp_recv_def finite_buffers_def
        split: prod.split_asm sum.split_asm if_split_asm)
  then have "\<exists>u y. repeat_loop (recv_body lib) (s, n) = Some (u, y) \<and> True"
    by (intro repeat_loop_total [where I = "\<lambda>_. True" and m = ?m]) auto
  then show ?thesis by (auto simp: recv_available_def)
qed

lemma pump_remote_relays:
  assumes "tcp_laws lib out got" and "finite_buffers lib held" and "relays out got n0 n s0 s"
  shows "\<exists>s1 n1. pump_remote_session lib s n = Some (s1, n1, Inr ())
    \<and> relays out got n0 n1 s0 s1 \<and> sockets_kept out got {ps_handle s0} n n1"
proof -
  obtain s1 n1 where r: "recv_available lib s n = Some (s1, n1)"
    using recv_available_returns [OF assms(2), of s n] by auto
  obtain s2 n2 where f: "flush_to_client lib s1 n1 = (s2, n2)" by fastforce
  have "conserves out got n s0 n0 (s, n)" using assms(3) by (simp add: conserves_iff)
  from flush_to_client_conserves [OF assms(1) recv_available_conserves [OF assms(1) this r]] f
  have "relays out got n0 n2 s0 s2 \<and> sockets_kept out got {ps_handle s0} n n2" by (simp add: conserves_iff)
  moreover have "reply_when_established lib s n = (s, Inr ())"
    using assms(3) by (simp add: relays_def reply_when_established_def)
  ultimately show ?thesis using r f by (simp add: pump_remote_session_def)
qed

lemma all_pump_remote:
  assumes "tcp_laws lib out got" and "finite_buffers lib held"
  shows "distinct (map ps_handle s0s) \<Longrightarrow> list_all2 (relays out got n0 n) s0s ss \<Longrightarrow>
    \<exists>ss1 n1. pump_tcp_to_local lib ss n = Some (ss1, n1, Inr ())
      \<and> list_all2 (relays out got n0 n1) s0s ss1 \<and> sockets_kept out got (set (map ps_handle s0s)) n n1"
proof (induction ss arbitrary: s0s n)
  case (Cons s ss)
  from Cons.prems(2) obtain s0 t0s where c: "s0s = s0 # t0s" "relays out got n0 n s0 s"
    "list_all2 (relays out got n0 n) t0s ss" by (auto simp: list_all2_Cons2)
  from pump_remote_relays [OF assms c(2)] obtain s1 m where
    h: "pump_remote_session lib s n = Some (s1, m, Inr ())" "relays out got n0 m s0 s1" "sockets_kept out got {ps_handle s0} n m"
    by blast
  have "list_all2 (relays out got n0 m) t0s ss"
    using c(1) Cons.prems(1) by (intro all_relay_sockets_kept [OF c(3) h(3)]) auto
  with Cons.IH [of t0s m] Cons.prems(1) c(1) obtain ts n1 where
    t: "pump_tcp_to_local lib ss m = Some (ts, n1, Inr ())" "list_all2 (relays out got n0 n1) t0s ts"
      "sockets_kept out got (set (map ps_handle t0s)) m n1" by auto
  have "relays out got n0 n1 s0 s1" using relays_sockets_kept [OF h(2) t(3)] Cons.prems(1) c(1) by simp
  moreover have "sockets_kept out got (set (map ps_handle s0s)) n n1"
    by (rule sockets_kept_trans [OF sockets_kept_mono [OF h(3)] sockets_kept_mono [OF t(3)]]) (auto simp: c(1))
  ultimately show ?case using h(1) t(1,2) c(1) by simp
qed simp

lemma sessions_round_relays:
  assumes "tcp_laws lib out got" and "finite_buffers lib held" and "distinct (map ps_handle s0s)"
    and "list_all2 (relays out got n0 n) s0s ss"
  shows "\<exists>ss1 n1. sessions_round lib now (ss, n) = Some (ss1, n1) \<and> list_all2 (relays out got n0 n1) s0s ss1"
proof -
  obtain ss1 n1 where l: "pump_local_to_tcp lib ss n = (ss1, n1)" by fastforce
  let ?n = "snd (net_poll lib now n1)"
  have "sockets_kept out got {} n1 ?n" by (simp add: sockets_kept_def net_poll_laws [OF assms(1)])
  with all_relay_sockets_kept [of out got n0 n1 s0s ss1] all_pump_local [OF assms(1,3,4) l]
  have "list_all2 (relays out got n0 ?n) s0s ss1" by auto
  from all_pump_remote [OF assms(1-3) this] l show ?thesis by (auto simp: sessions_round_def)
qed

lemma sessions_rounds_relay:
  assumes "tcp_laws lib out got" and "finite_buffers lib held" and "distinct (map ps_handle s0s)"
  shows "list_all2 (relays out got n0 n) s0s ss \<Longrightarrow>
    \<exists>ss1 n1. sessions_rounds lib nows (ss, n) = Some (ss1, n1) \<and> list_all2 (relays out got n0 n1) s0s ss1"
proof (induction nows arbitrary: ss n)
  case (Cons now nows)
  from sessions_round_relays [OF assms Cons.prems, of now] Cons.IH show ?case by fastforce
qed simp

text \<open>A session whose tunnel has been set up, before its first round.\<close>

definition fresh_session :: "proxy_session \<Rightarrow> bool" where
  "fresh_session s \<longleftrightarrow> ps_socks_replied s \<and> ps_to_remote s = [] \<and> ps_to_client s = []
     \<and> ps_client_to_remote_bytes s = 0 \<and> ps_remote_to_client_bytes s = 0"

text \<open>C13. Sessions through the tunnel relay faithfully and do not mix. However reads, writes and the
  send buffers cut the bytes, any number of rounds of any number of sessions ends; after it,
  for every session, its socket of the stack has taken, and its client has got, bytes of the
  other side in their order, none invented, repeated or of another session; while there is
  no reason to close nothing is lost: taken, queued and unread bytes are all that the client
  sends, and written and queued bytes are all that came out of the socket; and the counters
  are the numbers of bytes that crossed.\<close>

theorem tunnel_sessions_relay:
  assumes "tcp_laws lib out got" and "finite_buffers lib held"
    and "list_all fresh_session ss" and "distinct (map ps_handle ss)"
  shows "\<exists>ss1 n1. sessions_rounds lib nows (ss, n) = Some (ss1, n1)
    \<and> list_all2 (\<lambda>s s1. uploads out s n s1 n1 \<and> downloads got s n s1 n1) ss ss1"
proof -
  have "list_all2 (relays out got n n) ss ss"
    using assms(3) by (intro list.rel_refl_strong)
      (auto simp: list_all_iff fresh_session_def relays_def uploads_def downloads_def)
  from sessions_rounds_relay [OF assms(1,2,4) this, of nows] obtain ss1 n1 where
    "sessions_rounds lib nows (ss, n) = Some (ss1, n1)" "list_all2 (relays out got n n1) ss ss1" by blast
  moreover from this(2) have "list_all2 (\<lambda>s s1. uploads out s n s1 n1 \<and> downloads got s n s1 n1) ss ss1"
    by (rule list.rel_mono_strong) (simp add: relays_def)
  ultimately show ?thesis by blast
qed

section \<open>Two sessions\<close>

text \<open>A stack that keeps what passes through its sockets: a send takes at most four bytes between two
  polls, and the bytes to come are at hand from the start.\<close>

record tape =
  tape_taken :: bytes
  tape_room :: nat
  tape_ready :: bytes
  tape_given :: bytes

definition tape_new :: "bytes \<Rightarrow> tape" where
  "tape_new bs = \<lparr>tape_taken = [], tape_room = 4, tape_ready = bs, tape_given = []\<rparr>"

definition tape_stack :: "(nat \<Rightarrow> tape) smol_ops" where
  "tape_stack =
     \<lparr>smol_new = (\<lambda>_ _ _ _ _ _. tape_new []),
      smol_add = (\<lambda>_ _ t. (0, t)),
      smol_connect = (\<lambda>_ _ _ _ t. (Inr (), t)),
      smol_poll = (\<lambda>_ d t. (True, d, \<lambda>h. (t h)\<lparr>tape_room := 4\<rparr>)),
      smol_state = (\<lambda>_ _. TcpEstablished),
      smol_is_active = (\<lambda>_ _. True),
      smol_can_send = (\<lambda>h t. 0 < tape_room (t h)),
      smol_send = (\<lambda>h bs t.
        (let k = min (length bs) (tape_room (t h))
         in (Inr k, t(h := (t h)\<lparr>tape_taken := tape_taken (t h) @ take k bs, tape_room := tape_room (t h) - k\<rparr>)))),
      smol_recv = (\<lambda>h m t.
        (Inr (take m (tape_ready (t h))),
         t(h := (t h)\<lparr>tape_given := tape_given (t h) @ take m (tape_ready (t h)), tape_ready := drop m (tape_ready (t h))\<rparr>))),
      smol_close = (\<lambda>h t. t(h := (t h)\<lparr>tape_room := 0\<rparr>)),
      smol_remove = (\<lambda>_ t. t)\<rparr>"

lemma tape_laws: "tcp_laws tape_stack (\<lambda>h t. tape_taken (t h)) (\<lambda>h t. tape_given (t h))"
  by (auto simp: tcp_laws_def tape_stack_def Let_def)

lemma tape_finite: "finite_buffers tape_stack (\<lambda>h t. length (tape_ready (t h)))"
  by (auto simp: finite_buffers_def tape_stack_def)

definition taped_session :: "u64 \<Rightarrow> nat \<Rightarrow> bytes \<Rightarrow> proxy_session" where
  "taped_session i h bs =
     \<lparr>ps_id = i, ps_client = \<lparr>sock_in = [Inr bs],
        sock_out = \<lparr>accepts = [Inr 2], sent = [], flush_answer = Inr ()\<rparr>, sock_shut = []\<rparr>,
      ps_handle = h, ps_to_remote = [], ps_to_client = [], ps_socks_replied = True, ps_local_closed = False,
      ps_remote_closed = False, ps_client_to_remote_bytes = 0, ps_remote_to_client_bytes = 0,
      ps_client_addr = SocketAddrV4 ipv4_unspecified 0, ps_target = [], ps_close_reason = None\<rparr>"

definition taped_net :: "(nat \<Rightarrow> tape) proxy_net_stack" where
  "taped_net =
     \<lparr>net_sockets = (\<lambda>h. tape_new [7, 8, 9]), net_device = ppp_device_new DEFAULT_PROXY_MTU, next_ephemeral_port = 49152\<rparr>"

lemma taped_fresh: "fresh_session (taped_session i h bs)"
  by (simp add: fresh_session_def taped_session_def)

text \<open>What the first pump does with six bytes of a client: four are taken, two wait.\<close>

lemma taped_pump:
  "case pump_local_session tape_stack (taped_session 1 0 [1, 2, 3, 4, 5, 6]) taped_net of
     (s, n) \<Rightarrow> tape_taken (net_sockets n 0) = [1, 2, 3, 4] \<and> ps_to_remote s = [5, 6]"
  by (simp add: pump_local_session_def send_queue.simps send_from_client.simps taped_session_def taped_net_def
      tape_stack_def tape_new_def tcp_can_send_def tcp_send_def PROXY_IO_BUFFER_SIZE_def)

theorem tunnel_sessions_relay_witness:
  "\<exists>ss1 n1. sessions_rounds tape_stack [0, 1]
       ([taped_session 1 0 [1, 2, 3, 4, 5, 6], taped_session 2 1 [10, 11]], taped_net) = Some (ss1, n1)
    \<and> list_all2 (\<lambda>s s1. uploads (\<lambda>h t. tape_taken (t h)) s taped_net s1 n1 \<and> downloads (\<lambda>h t. tape_given (t h)) s taped_net s1 n1)
        [taped_session 1 0 [1, 2, 3, 4, 5, 6], taped_session 2 1 [10, 11]] ss1"
  by (rule tunnel_sessions_relay [OF tape_laws tape_finite]) (simp_all add: taped_fresh, simp add: taped_session_def)

end
