(* ===== verification/Proxy_Link.thy ===== *)
theory Proxy_Link
  imports Fortinet Ppp_Engine Netstack
begin

text \<open>
  The link of proxy mode: negotiating PPP over the transport (\<open>establish_ppp\<close> of
  \<open>src/proxy/mod.rs\<close>), and moving packets between transport, engine and network stack
  (\<open>read_fortinet_packets\<close>, \<open>drain_netstack_to_fortinet\<close> and \<open>flush_ppp_control\<close> of
  \<open>src/proxy/runtime.rs\<close>).

  Shown here: the negotiation returns only an engine whose link is open and has an address;
  what the stack sends is written to the transport completely and in order; and what the
  stack receives are the payloads of the IPv4 packets of the transport, in order.
\<close>

section \<open>Sending\<close>

function flush_ppp_outgoing ::
  "fortinet_transport \<Rightarrow> ppp_engine \<Rightarrow> fortinet_transport \<times> ppp_engine \<times> unit res" where
  "flush_ppp_outgoing t eng =
     (case next_outgoing eng of
        (None, eng1) \<Rightarrow> (t, eng1, Inr ())
      | (Some packet, eng1) \<Rightarrow>
          (case write_packet t packet of
             (t1, Inl e) \<Rightarrow> (t1, eng1, Inl e)
           | (t1, Inr _) \<Rightarrow> flush_ppp_outgoing t1 eng1))"
  by pat_completeness auto
termination
  by (relation "measure (\<lambda>(t, eng). length (outgoing eng))") (auto simp: next_outgoing_def split: list.splits)

declare flush_ppp_outgoing.simps [simp del]

definition flush_ppp_control ::
  "fortinet_transport \<Rightarrow> ppp_engine \<Rightarrow> fortinet_transport \<times> ppp_engine \<times> unit res" where
  "flush_ppp_control t eng = flush_ppp_outgoing t eng"

function drain_netstack_to_fortinet ::
  "'t proxy_net_stack \<Rightarrow> ppp_engine \<Rightarrow> fortinet_transport \<Rightarrow>
     't proxy_net_stack \<times> ppp_engine \<times> fortinet_transport \<times> unit res" where
  "drain_netstack_to_fortinet n eng t =
     (case pop_tx_ipv4 n of
        (None, n1) \<Rightarrow> (case flush_ppp_control t eng of (t1, eng1, r) \<Rightarrow> (n1, eng1, t1, r))
      | (Some packet, n1) \<Rightarrow>
          (case encode_ipv4_packet packet of
             Inl e \<Rightarrow> (n1, eng, t, Inl e)
           | Inr ppp_packet \<Rightarrow>
               (case write_packet t ppp_packet of
                  (t1, Inl e) \<Rightarrow> (n1, eng, t1, Inl e)
                | (t1, Inr _) \<Rightarrow> drain_netstack_to_fortinet n1 eng t1)))"
  by pat_completeness auto
termination
  by (relation "measure (\<lambda>(n, eng, t). length (tx_queue (net_device n)))")
    (auto simp: pop_tx_ipv4_def pop_tx_def split: list.splits)

declare drain_netstack_to_fortinet.simps [simp del]

section \<open>Receiving\<close>

definition is_temporary_read_error :: "io_error \<Rightarrow> bool" where
  "is_temporary_read_error err \<longleftrightarrow> kind err = WouldBlock \<or> kind err = TimedOut"

fun deliver_events :: "ppp_event list \<Rightarrow> 't proxy_net_stack \<Rightarrow> 't proxy_net_stack \<times> unit res" where
  "deliver_events [] n = (n, Inr ())"
| "deliver_events (Ipv4Packet packet # events) n = deliver_events events (push_rx_ipv4 packet n)"
| "deliver_events (Down # events) n = (n, Inl (Pppd ''proxy PPP link terminated by peer''))"
| "deliver_events (Up ip peer dns # events) n = deliver_events events n"

text \<open>How many bytes the transport may still deliver.\<close>

definition transport_bytes :: "fortinet_transport \<Rightarrow> nat" where
  "transport_bytes t = length (read_buffer t) + length (reader_data (stream_in t))"

lemma try_decode_shrinks:
  "try_decode_buffered_packet t = (t1, Inr (Some p)) \<Longrightarrow> transport_bytes t1 < transport_bytes t"
  by (auto simp: try_decode_buffered_packet_def transport_bytes_def HEADER_LEN_def Let_def
      split: if_splits sum.splits)

lemma try_decode_None: "try_decode_buffered_packet t = (t1, Inr None) \<Longrightarrow> t1 = t"
  by (auto simp: try_decode_buffered_packet_def Let_def split: if_splits sum.splits)

lemma read_packet_bytes:
  "read_packet t = (t1, Inr p) \<Longrightarrow> transport_bytes t1 < transport_bytes t"
proof (induction t rule: read_packet.induct)
  case (1 t)
  obtain t0 x where d: "try_decode_buffered_packet t = (t0, x)" by fastforce
  show ?case
  proof (cases x)
    case (Inl e)
    with 1(2) d show ?thesis by (subst (asm) read_packet.simps) simp
  next
    case (Inr y)
    show ?thesis
    proof (cases y)
      case (Some q)
      with 1(2) d Inr have "t1 = t0" by (subst (asm) read_packet.simps) simp
      with d Inr Some show ?thesis by (simp add: try_decode_shrinks)
    next
      case None
      then have t0: "t0 = t" using d Inr by (simp add: try_decode_None)
      obtain z r where s: "read_some READ_BUFFER_SIZE (stream_in t) = (z, r)" by fastforce
      show ?thesis
      proof (cases z)
        case (Inl e)
        with 1(2) d Inr None s t0 show ?thesis by (subst (asm) read_packet.simps) simp
      next
        case z: (Inr bs)
        let ?t2 = "t\<lparr>stream_in := r, read_buffer := read_buffer t @ bs\<rparr>"
        have "read_packet t =
          (if bs = [] then (t\<lparr>stream_in := r\<rparr>, Inl (Io (IoError UnexpectedEof ''VPN tunnel closed'')))
           else if MAX_PACKET_BUFFER_SIZE < length (read_buffer ?t2)
           then (?t2, Inl (Network ''Fortinet packet buffer exceeded maximum size''))
           else read_packet ?t2)"
          using d Inr None s t0 z by (subst read_packet.simps) (simp add: Let_def)
        with 1(2) have ok: "bs \<noteq> []" "\<not> MAX_PACKET_BUFFER_SIZE < length (read_buffer ?t2)" "read_packet ?t2 = (t1, Inr p)"
          by (simp_all split: if_split_asm)
        have "transport_bytes t1 < transport_bytes ?t2"
          using 1(1) [OF d [symmetric] Inr None _ z ok(1) refl] s t0 ok by simp
        moreover have "transport_bytes ?t2 = transport_bytes t"
          using read_some_reader_data [OF s] z by (simp add: transport_bytes_def)
        ultimately show ?thesis by simp
      qed
    qed
  qed
qed

lemma write_keeps_input:
  "stream_in (fst (write_packet t p)) = stream_in t" "read_buffer (fst (write_packet t p)) = read_buffer t"
  by (simp_all add: write_packet_def split: prod.split)

lemma flush_keeps_input: "transport_bytes (fst (flush_ppp_outgoing t eng)) = transport_bytes t"
proof (induction t eng rule: flush_ppp_outgoing.induct)
  case (1 t eng)
  obtain p eng1 where p: "next_outgoing eng = (p, eng1)" by fastforce
  show ?case
  proof (cases p)
    case None
    with p show ?thesis by (subst flush_ppp_outgoing.simps) simp
  next
    case (Some q)
    obtain t1 r where w: "write_packet t q = (t1, r)" by fastforce
    have "transport_bytes t1 = transport_bytes t"
      using write_keeps_input [of t q] w by (simp add: transport_bytes_def)
    with 1 [OF p [symmetric] Some w [symmetric]] p Some w show ?thesis
      by (subst flush_ppp_outgoing.simps) (auto split: sum.split)
  qed
qed

lemma flush_control_bytes: "flush_ppp_control t eng = (t2, eng2, r) \<Longrightarrow> transport_bytes t2 = transport_bytes t"
  using flush_keeps_input [of t eng] by (simp add: flush_ppp_control_def)

function read_fortinet_packets ::
  "fortinet_transport \<Rightarrow> ppp_engine \<Rightarrow> 't proxy_net_stack \<Rightarrow>
     (fortinet_transport \<times> ppp_engine \<times> 't proxy_net_stack \<times> unit res) exec" where
  "read_fortinet_packets t eng n =
     (case read_packet t of
        (t1, Inl e) \<Rightarrow>
          (case e of
             Io err \<Rightarrow> Return (t1, eng, n, if is_temporary_read_error err then Inr () else Inl (Io err))
           | _ \<Rightarrow> Return (t1, eng, n, Inl e))
      | (t1, Inr packet) \<Rightarrow>
          (case handle_incoming packet eng of
             Panic \<Rightarrow> Panic
           | Return (eng1, Inl e) \<Rightarrow> Return (t1, eng1, n, Inl e)
           | Return (eng1, Inr events) \<Rightarrow>
               (case deliver_events events n of
                  (n1, Inl e) \<Rightarrow> Return (t1, eng1, n1, Inl e)
                | (n1, Inr _) \<Rightarrow>
                    (case flush_ppp_control t1 eng1 of
                       (t2, eng2, Inl e) \<Rightarrow> Return (t2, eng2, n1, Inl e)
                     | (t2, eng2, Inr _) \<Rightarrow> read_fortinet_packets t2 eng2 n1))))"
  by pat_completeness auto
termination
  by (relation "measure (\<lambda>(t, eng, n). transport_bytes t)")
    (auto dest!: flush_control_bytes [OF sym] read_packet_bytes [OF sym])

declare read_fortinet_packets.simps [simp del]

section \<open>Negotiating\<close>

definition PPP_NEGOTIATION_TIMEOUT :: nat where "PPP_NEGOTIATION_TIMEOUT = 30000"
definition PPP_READ_TIMEOUT :: nat where "PPP_READ_TIMEOUT = 250"

text \<open>The events of one packet: the result \<open>None\<close> goes on with the next packet.\<close>

fun establish_events ::
  "ppp_event list \<Rightarrow> fortinet_transport \<Rightarrow> ppp_engine \<Rightarrow> fortinet_transport \<times> (ppp_engine res) option" where
  "establish_events [] t eng = (t, None)"
| "establish_events (Up ip peer dns # events) t eng =
     (case flush_ppp_outgoing t eng of
        (t1, eng1, Inl e) \<Rightarrow> (t1, Some (Inl e))
      | (t1, eng1, Inr _) \<Rightarrow> (t1, Some (Inr eng1)))"
| "establish_events (Down # events) t eng =
     (t, Some (Inl (Pppd ''proxy PPP negotiation terminated by peer'')))"
| "establish_events (Ipv4Packet packet # events) t eng = establish_events events t eng"

text \<open>The loop. Each round brings the time and the stop flag; after the given rounds the
  negotiation is still going on.\<close>

fun establish_loop ::
  "nat \<Rightarrow> (nat \<times> bool) list \<Rightarrow> fortinet_transport \<Rightarrow> ppp_engine \<Rightarrow>
     (fortinet_transport \<times> (ppp_engine res) option) exec" where
  "establish_loop deadline [] t eng = Return (t, None)"
| "establish_loop deadline ((now, stop) # rounds) t eng =
     (if deadline \<le> now then Return (t, Some (Inl (Pppd ''timed out waiting for proxy PPP negotiation'')))
      else if stop then Return (t, Some (Inl (Pppd ''proxy PPP negotiation interrupted'')))
      else
        case read_packet t of
          (t1, Inl e) \<Rightarrow>
            (case e of
               Io err \<Rightarrow>
                 if kind err = WouldBlock \<or> kind err = TimedOut then establish_loop deadline rounds t1 eng
                 else Return (t1, Some (Inl (Io err)))
             | _ \<Rightarrow> Return (t1, Some (Inl e)))
        | (t1, Inr packet) \<Rightarrow>
            (case handle_incoming packet eng of
               Panic \<Rightarrow> Panic
             | Return (eng1, Inl e) \<Rightarrow> Return (t1, Some (Inl e))
             | Return (eng1, Inr events) \<Rightarrow>
                 (case establish_events events t1 eng1 of
                    (t2, Some r) \<Rightarrow> Return (t2, Some r)
                  | (t2, None) \<Rightarrow>
                      (case flush_ppp_outgoing t2 eng1 of
                         (t3, eng2, Inl e) \<Rightarrow> Return (t3, Some (Inl e))
                       | (t3, eng2, Inr _) \<Rightarrow> establish_loop deadline rounds t3 eng2))))"

definition establish_ppp ::
  "io_error + unit \<Rightarrow> io_error + unit \<Rightarrow> nat \<Rightarrow> (nat \<times> bool) list \<Rightarrow> fortinet_transport \<Rightarrow>
     (fortinet_transport \<times> (ppp_engine res) option) exec" where
  "establish_ppp set_read_timeout set_write_timeout now rounds t =
     (case and_then (lift_io set_read_timeout) (\<lambda>_. lift_io set_write_timeout) of
        Inl e \<Rightarrow> Return (t, Some (Inl e))
      | Inr _ \<Rightarrow>
          (case flush_ppp_outgoing t (start ppp_engine_new) of
             (t1, eng1, Inl e) \<Rightarrow> Return (t1, Some (Inl e))
           | (t1, eng1, Inr _) \<Rightarrow> establish_loop (now + PPP_NEGOTIATION_TIMEOUT) rounds t1 eng1))"

section \<open>What is sent\<close>

lemma write_packet_sent:
  assumes "write_packet t p = (t1, Inr u)"
  shows "\<exists>f. encode_for_tls p = Inr f \<and> sent (stream_out t1) = sent (stream_out t) @ f"
proof (cases "encode_for_tls p")
  case (Inr f)
  with assms show ?thesis
    by (auto simp: write_packet_def write_tls_packet_def flush_def dest!: write_all_prefix
        split: prod.split_asm sum.split_asm)
qed (use assms in \<open>auto simp: write_packet_def write_tls_packet_def\<close>)

lemma flush_sends:
  "flush_ppp_outgoing t eng = (t1, eng1, Inr u) \<Longrightarrow>
   eng1 = eng\<lparr>outgoing := []\<rparr>
   \<and> (\<exists>fs. tls_frames (outgoing eng) fs \<and> sent (stream_out t1) = sent (stream_out t) @ concat fs)"
proof (induction t eng rule: flush_ppp_outgoing.induct)
  case (1 t eng)
  show ?case
  proof (cases "outgoing eng")
    case Nil
    then have "next_outgoing eng = (None, eng)" by (simp add: next_outgoing_def)
    with 1(2) have "t1 = t" "eng1 = eng" by (subst (asm) flush_ppp_outgoing.simps, simp)+
    with Nil show ?thesis by simp
  next
    case (Cons p ps)
    then have n: "next_outgoing eng = (Some p, eng\<lparr>outgoing := ps\<rparr>)" by (simp add: next_outgoing_def)
    obtain t2 r where w: "write_packet t p = (t2, r)" by fastforce
    with 1(2) n obtain v where r: "r = Inr v" and f: "flush_ppp_outgoing t2 (eng\<lparr>outgoing := ps\<rparr>) = (t1, eng1, Inr u)"
      by (subst (asm) flush_ppp_outgoing.simps) (auto split: sum.split_asm)
    from write_packet_sent [of t p t2 v] w r obtain g where
      g: "encode_for_tls p = Inr g" "sent (stream_out t2) = sent (stream_out t) @ g" by auto
    from 1(1) [OF n [symmetric] refl w [symmetric] r f] obtain fs where
      "eng1 = eng\<lparr>outgoing := []\<rparr>" "tls_frames ps fs" "sent (stream_out t1) = sent (stream_out t2) @ concat fs" by auto
    with g Cons show ?thesis by (auto intro!: exI [of _ "g # fs"])
  qed
qed

text \<open>The packet in which the stack's IPv4 packets are sent.\<close>

definition ipv4_ppp :: "bytes \<Rightarrow> ppp_packet" where
  "ipv4_ppp packet = ppp_packet_new (u16_to_be_bytes PROTOCOL_IPV4 @ packet)"

lemma encode_ipv4_Inr: "encode_ipv4_packet packet = Inr p \<Longrightarrow> p = ipv4_ppp packet"
  by (auto simp: encode_ipv4_packet_def ipv4_ppp_def split: if_splits)

lemma drain_sends:
  "drain_netstack_to_fortinet n eng t = (n1, eng1, t1, Inr u) \<Longrightarrow>
   n1 = n\<lparr>net_device := (net_device n)\<lparr>tx_queue := []\<rparr>\<rparr> \<and> eng1 = eng\<lparr>outgoing := []\<rparr>
   \<and> (\<exists>fs. tls_frames (map ipv4_ppp (tx_queue (net_device n)) @ outgoing eng) fs
        \<and> sent (stream_out t1) = sent (stream_out t) @ concat fs)"
proof (induction n eng t rule: drain_netstack_to_fortinet.induct)
  case (1 n eng t)
  show ?case
  proof (cases "tx_queue (net_device n)")
    case Nil
    then have p: "pop_tx_ipv4 n = (None, n)" by (simp add: pop_tx_ipv4_def pop_tx_def)
    obtain t2 eng2 r where f: "flush_ppp_control t eng = (t2, eng2, r)" by (cases "flush_ppp_control t eng") auto
    with 1(2) p have "n1 = n" "eng1 = eng2" "t1 = t2" "r = Inr u"
      by (subst (asm) drain_netstack_to_fortinet.simps, simp)+
    with f flush_sends [of t eng t2 eng2 u] Nil show ?thesis by (simp add: flush_ppp_control_def)
  next
    case (Cons p ps)
    let ?n = "n\<lparr>net_device := (net_device n)\<lparr>tx_queue := ps\<rparr>\<rparr>"
    have p: "pop_tx_ipv4 n = (Some p, ?n)" using Cons by (simp add: pop_tx_ipv4_def pop_tx_def)
    from 1(2) p obtain q t2 v where q: "encode_ipv4_packet p = Inr q" and w: "write_packet t q = (t2, Inr v)"
      and d: "drain_netstack_to_fortinet ?n eng t2 = (n1, eng1, t1, Inr u)"
      by (subst (asm) drain_netstack_to_fortinet.simps) (auto split: sum.split_asm prod.split_asm)
    from write_packet_sent [OF w] obtain g where
      g: "encode_for_tls q = Inr g" "sent (stream_out t2) = sent (stream_out t) @ g" by blast
    from 1(1) [OF p [symmetric] refl q w [symmetric] refl d] obtain fs where
      "n1 = n\<lparr>net_device := (net_device n)\<lparr>tx_queue := []\<rparr>\<rparr>" "eng1 = eng\<lparr>outgoing := []\<rparr>"
      "tls_frames (map ipv4_ppp ps @ outgoing eng) fs" "sent (stream_out t1) = sent (stream_out t2) @ concat fs" by auto
    with g Cons encode_ipv4_Inr [OF q] show ?thesis by (auto intro!: exI [of _ "g # fs"])
  qed
qed

text \<open>Everything the network stack sends reaches the transport: when draining succeeds, the
  queue of the stack and that of the engine are empty, and the transport was written exactly
  the frames of the IPv4 packets of the stack, in their order, followed by those of the
  control packets of the engine.\<close>

theorem drained_packets_are_sent:
  assumes "drain_netstack_to_fortinet n eng t = (n1, eng1, t1, Inr u)"
  shows "tx_queue (net_device n1) = [] \<and> outgoing eng1 = [] \<and> state eng1 = state eng
    \<and> (\<exists>fs. tls_frames (map ipv4_ppp (tx_queue (net_device n)) @ outgoing eng) fs
         \<and> sent (stream_out t1) = sent (stream_out t) @ concat fs)"
  using drain_sends [OF assms] by auto

definition idle_writer :: writer where
  "idle_writer = \<lparr>accepts = [], sent = [], flush_answer = Inr ()\<rparr>"

lemma sample_frame:
  "encode_for_tls (ipv4_ppp [0x45, 1, 2]) = Inr [0, 11, 0x50, 0x50, 0, 5, 0, 0x21, 0x45, 1, 2]"
  by (simp add: encode_for_tls_def ipv4_ppp_def ppp_packet_new_def u16_to_be_bytes_def PROTOCOL_IPV4_def
      HEADER_LEN_def FORTINET_MAGIC_def Let_def)

definition sample_stack :: "unit proxy_net_stack" where
  "sample_stack =
     \<lparr>net_sockets = (), net_device = (ppp_device_new 1354)\<lparr>tx_queue := [[0x45, 1, 2]]\<rparr>, next_ephemeral_port = 49152\<rparr>"

definition sample_written :: fortinet_transport where
  "sample_written =
     \<lparr>stream_in = [], stream_out = idle_writer\<lparr>sent := [0, 11, 0x50, 0x50, 0, 5, 0, 0x21, 0x45, 1, 2]\<rparr>, read_buffer = []\<rparr>"

lemma sample_drain:
  "drain_netstack_to_fortinet sample_stack ppp_engine_new (fortinet_transport_new [] idle_writer)
     = (sample_stack\<lparr>net_device := ppp_device_new 1354\<rparr>, ppp_engine_new, sample_written, Inr ())"
proof -
  let ?n1 = "sample_stack\<lparr>net_device := ppp_device_new 1354\<rparr>"
  have pop: "pop_tx_ipv4 sample_stack = (Some [0x45, 1, 2], ?n1)" "pop_tx_ipv4 ?n1 = (None, ?n1)"
    by (simp_all add: sample_stack_def pop_tx_ipv4_def pop_tx_def ppp_device_new_def)
  have enc: "encode_ipv4_packet [0x45, 1, 2] = Inr (ipv4_ppp [0x45, 1, 2])"
    by (simp add: encode_ipv4_packet_def ipv4_ppp_def)
  have wr: "write_packet (fortinet_transport_new [] idle_writer) (ipv4_ppp [0x45, 1, 2]) = (sample_written, Inr ())"
    by (simp add: write_packet_def write_tls_packet_def sample_frame fortinet_transport_new_def idle_writer_def
        write_all_willing flush_def sample_written_def)
  have fl: "flush_ppp_control sample_written ppp_engine_new = (sample_written, ppp_engine_new, Inr ())"
    by (simp add: flush_ppp_control_def flush_ppp_outgoing.simps next_outgoing_def ppp_engine_new_def)
  show ?thesis
    by (subst drain_netstack_to_fortinet.simps, simp only: pop enc wr prod.case option.case sum.case,
        subst drain_netstack_to_fortinet.simps, simp only: pop fl prod.case option.case)
qed

theorem drained_packets_are_sent_witness:
  "\<exists>fs. tls_frames [ipv4_ppp [0x45, 1, 2]] fs
     \<and> [0, 11, 0x50, 0x50, 0, 5, 0, 0x21, 0x45, 1, 2] = concat fs"
  using drained_packets_are_sent [OF sample_drain]
  by (simp add: sample_stack_def sample_written_def ppp_engine_new_def fortinet_transport_new_def idle_writer_def)

text \<open>With the framing of the other side this is the whole way of a packet. The packets of a reachable
  engine are not empty, so all frames can be read.\<close>

lemma reachable_sends_data:
  assumes "engine_reachable eng"
  shows "\<forall>p \<in> set (map ipv4_ppp packets @ outgoing eng). packet_data p \<noteq> []"
  using engine_inv_reachable [OF assms]
  by (auto simp: engine_inv_def control_frame_def ppp_packet_new_def ipv4_ppp_def u16_to_be_bytes_def)

text \<open>C38. What the network stack sends arrives: when draining the stack succeeds, its queue and that
  of the engine are empty, and a peer that reads the bytes written, in whatever pieces, with
  a transport of its own gets exactly the IPv4 packets of the stack, in their order, and
  then the control packets of the engine, and no bytes are left over.\<close>

theorem drained_packets_are_received:
  assumes "engine_reachable eng" and "drain_netstack_to_fortinet n eng t = (n1, eng1, t1, Inr u)"
    and "data_only r" and "reader_bytes r = drop (length (sent (stream_out t))) (sent (stream_out t1))"
  shows "tx_queue (net_device n1) = [] \<and> outgoing eng1 = []
    \<and> (\<exists>t'. read_packets (fortinet_transport_new r w) (length (tx_queue (net_device n)) + length (outgoing eng))
          = (t', map ipv4_ppp (tx_queue (net_device n)) @ outgoing eng)
        \<and> incoming_bytes t' = [])"
proof -
  let ?ps = "map ipv4_ppp (tx_queue (net_device n)) @ outgoing eng"
  from drain_sends [OF assms(2)] obtain fs where
    d: "tx_queue (net_device n1) = []" "outgoing eng1 = []" "tls_frames ?ps fs"
      "sent (stream_out t1) = sent (stream_out t) @ concat fs" by auto
  from d(4) assms(4) have "reader_bytes r = concat fs @ []" by simp
  from new_transport_reads [OF assms(3) this d(3) reachable_sends_data [OF assms(1)], of w] d(1,2)
  show ?thesis by simp
qed

theorem drained_packets_are_received_witness:
  "\<exists>t'. read_packets (fortinet_transport_new [Inr [0, 11, 0x50, 0x50], Inr [0, 5, 0, 0x21, 0x45, 1, 2]] idle_writer) 1
        = (t', [ipv4_ppp [0x45, 1, 2]])
      \<and> incoming_bytes t' = []"
  using drained_packets_are_received [OF reach_new sample_drain,
      of "[Inr [0, 11, 0x50, 0x50], Inr [0, 5, 0, 0x21, 0x45, 1, 2]]" idle_writer]
  by (simp add: sample_stack_def sample_written_def ppp_engine_new_def fortinet_transport_new_def idle_writer_def)

section \<open>The negotiated link\<close>

lemma flush_reachable:
  "engine_reachable eng \<Longrightarrow> engine_reachable (fst (snd (flush_ppp_outgoing t eng)))"
proof (induction t eng rule: flush_ppp_outgoing.induct)
  case (1 t eng)
  obtain p eng1 where p: "next_outgoing eng = (p, eng1)" by fastforce
  have r: "engine_reachable eng1" using 1(2) step_next [OF p] by (rule reach_step)
  show ?case
  proof (cases p)
    case None
    with p r show ?thesis by (subst flush_ppp_outgoing.simps) simp
  next
    case (Some q)
    obtain t1 x where w: "write_packet t q = (t1, x)" by fastforce
    with 1(1) [OF p [symmetric] Some w [symmetric]] p Some r show ?thesis
      by (subst flush_ppp_outgoing.simps) (auto split: sum.split)
  qed
qed

definition negotiated :: "ppp_engine \<Rightarrow> bool" where
  "negotiated eng \<longleftrightarrow> engine_reachable eng \<and> is_open eng \<and> outgoing eng = []
     \<and> (\<exists>ip. local_ip eng = Some ip \<and> ip \<noteq> ipv4_unspecified)"

lemma establish_events_open:
  assumes "engine_reachable eng"
    and "\<forall>ip peer dns. Up ip peer dns \<in> set events \<longrightarrow>
      state eng = Opened \<and> local_ip eng = Some ip \<and> ip \<noteq> ipv4_unspecified"
    and "establish_events events t eng = (t1, Some (Inr eng1))"
  shows "negotiated eng1"
  using assms
proof (induction events t eng rule: establish_events.induct)
  case (2 ip peer dns events t eng)
  then obtain u where f: "flush_ppp_outgoing t eng = (t1, eng1, Inr u)" by (auto split: prod.split_asm sum.split_asm)
  have "engine_reachable eng1" using flush_reachable [OF 2(1), of t] f by simp
  moreover have "eng1 = eng\<lparr>outgoing := []\<rparr>" using flush_sends [OF f] by blast
  ultimately show ?case using 2(2) by (auto simp: negotiated_def is_open_def)
qed auto

lemma incoming_reachable:
  assumes "engine_reachable eng" "handle_incoming packet eng = Return (eng1, Inr events)"
  shows "engine_reachable eng1
    \<and> (\<forall>ip peer dns. Up ip peer dns \<in> set events \<longrightarrow>
         state eng1 = Opened \<and> local_ip eng1 = Some ip \<and> ip \<noteq> ipv4_unspecified)"
proof -
  have s: "engine_step eng events eng1" using assms(2) by (rule step_incoming)
  from step_report_step [OF s engine_inv_reachable [OF assms(1)]] reach_step [OF assms(1) s]
  show ?thesis unfolding step_report_def by blast
qed

lemma establish_loop_open:
  "engine_reachable eng \<Longrightarrow> establish_loop deadline rounds t eng = Return (t1, Some (Inr eng1)) \<Longrightarrow> negotiated eng1"
proof (induction deadline rounds t eng rule: establish_loop.induct)
  case (2 deadline now stop rounds t eng)
  from 2(4) have go: "\<not> deadline \<le> now" "\<not> stop" by (auto split: if_splits)
  obtain t2 r where r: "read_packet t = (t2, r)" by fastforce
  show ?case
  proof (cases r)
    case (Inl e)
    with 2(4) go r obtain err where "e = Io err" "establish_loop deadline rounds t2 eng = Return (t1, Some (Inr eng1))"
      "kind err = WouldBlock \<or> kind err = TimedOut"
      by (cases e) (auto split: if_splits)
    with 2(1) [OF go r [symmetric] Inl] 2(3) show ?thesis by blast
  next
    case (Inr packet)
    obtain eng2 x where h: "handle_incoming packet eng = Return (eng2, x)" using handle_incoming_total by blast
    with 2(4) go r Inr obtain events where x: "x = Inr events" by (cases x) auto
    note up = incoming_reachable [OF 2(3) h [unfolded x]]
    obtain t3 y where e: "establish_events events t2 eng2 = (t3, y)" by fastforce
    show ?thesis
    proof (cases y)
      case (Some z)
      with 2(4) go r Inr h x e have "z = Inr eng1" by simp
      with e Some up establish_events_open [of eng2 events t2 t3 eng1] show ?thesis by blast
    next
      case None
      obtain t4 eng3 v where f: "flush_ppp_outgoing t3 eng2 = (t4, eng3, v)" by (cases "flush_ppp_outgoing t3 eng2") auto
      with 2(4) go r Inr h x e None obtain w where v: "v = Inr w"
        and l: "establish_loop deadline rounds t4 eng3 = Return (t1, Some (Inr eng1))"
        by (cases v) auto
      have "engine_reachable eng3" using flush_reachable [of eng2 t3] up f by simp
      with 2(2) [OF go r [symmetric] Inr h _ x e [symmetric] None f [symmetric] _ v] l show ?thesis by blast
    qed
  qed
qed simp

text \<open>C36. The negotiation hands out only a usable link: the engine that \<open>establish_ppp\<close> returns is
  reachable by steps of the state machine, its link is open with a local address other than
  0.0.0.0, and all its control packets have been sent.\<close>

theorem established_link_is_open:
  assumes "establish_ppp set_read_timeout set_write_timeout now rounds t = Return (t1, Some (Inr eng))"
  shows "engine_reachable eng \<and> is_open eng \<and> outgoing eng = []
    \<and> (\<exists>ip. local_ip eng = Some ip \<and> ip \<noteq> ipv4_unspecified)"
proof -
  have "engine_reachable (start ppp_engine_new)" by (rule reach_step [OF reach_new step_start])
  then have f: "engine_reachable (fst (snd (flush_ppp_outgoing t (start ppp_engine_new))))"
    by (rule flush_reachable)
  obtain t2 eng2 x where "flush_ppp_outgoing t (start ppp_engine_new) = (t2, eng2, x)"
    by (cases "flush_ppp_outgoing t (start ppp_engine_new)") auto
  with assms f have "establish_loop (now + PPP_NEGOTIATION_TIMEOUT) rounds t2 eng2 = Return (t1, Some (Inr eng))"
    "engine_reachable eng2"
    by (auto simp: establish_ppp_def split: sum.split_asm)
  then show ?thesis using establish_loop_open unfolding negotiated_def by blast
qed

section \<open>A cooperating gateway\<close>

text \<open>A transport that delivers the given bytes and takes whatever is written.\<close>

definition ready :: "fortinet_transport \<Rightarrow> bytes \<Rightarrow> bool" where
  "ready t bs \<longleftrightarrow> data_only (stream_in t) \<and> incoming_bytes t = bs
     \<and> accepts (stream_out t) = [] \<and> flush_answer (stream_out t) = Inr ()"

definition encodable :: "ppp_packet \<Rightarrow> bool" where
  "encodable p \<longleftrightarrow> length (packet_data p) \<le> 65529"

lemma encodable_Inr: "encodable p \<Longrightarrow> \<exists>f. encode_for_tls p = Inr f"
  by (simp add: encodable_def encode_for_tls_def HEADER_LEN_def Let_def)

lemma control_encodable: "length options < 1000 \<Longrightarrow> encodable (control_ppp protocol c i options)"
  by (simp add: encodable_def packet_data_control_ppp control_bytes_def u16_to_be_bytes_def)

lemma write_ready:
  assumes "ready t bs" "encodable p"
  shows "\<exists>t1. write_packet t p = (t1, Inr ()) \<and> ready t1 bs"
  using assms encodable_Inr [OF assms(2)]
  by (auto simp: write_packet_def write_tls_packet_def ready_def write_all_willing flush_def incoming_bytes_def)

lemma flush_ready:
  "ready t bs \<Longrightarrow> list_all encodable (outgoing eng) \<Longrightarrow>
   \<exists>t1. flush_ppp_outgoing t eng = (t1, eng\<lparr>outgoing := []\<rparr>, Inr ()) \<and> ready t1 bs"
proof (induction "outgoing eng" arbitrary: t eng)
  case Nil
  then show ?case by (subst flush_ppp_outgoing.simps) (simp add: next_outgoing_def)
next
  case (Cons p ps)
  from Cons.hyps(2) Cons.prems(2) have p: "encodable p" "list_all encodable ps" by (simp_all add: list_all_iff flip: Cons.hyps(2))
  obtain t1 where w: "write_packet t p = (t1, Inr ())" "ready t1 bs"
    using write_ready [OF Cons.prems(1) p(1)] by blast
  have n: "next_outgoing eng = (Some p, eng\<lparr>outgoing := ps\<rparr>)"
    by (simp add: next_outgoing_def flip: Cons.hyps(2))
  from Cons.hyps(1) [of "eng\<lparr>outgoing := ps\<rparr>" t1] w(2) p(2)
  show ?case by (subst flush_ppp_outgoing.simps) (simp add: n w(1))
qed

lemma read_ready:
  assumes "encode_for_tls p = Inr f" "packet_data p \<noteq> []" "ready t (f @ bs)"
  shows "\<exists>t1. read_packet t = (t1, Inr p) \<and> ready t1 bs"
  using assms read_packet_next [of t p bs] fortinet_next_frame [OF assms(1,2), of bs]
  by (auto simp: ready_def)

text \<open>One round with a packet that is not the last, and the last one.\<close>

lemma establish_round:
  assumes "encode_for_tls p = Inr f" "packet_data p \<noteq> []" "ready t (f @ bs)" "now < deadline"
    and "handle_incoming p eng = Return (eng1, Inr [])" "list_all encodable (outgoing eng1)"
  shows "\<exists>t1. establish_loop deadline ((now, False) # rounds) t eng
      = establish_loop deadline rounds t1 (eng1\<lparr>outgoing := []\<rparr>) \<and> ready t1 bs"
proof -
  obtain t1 where t1: "read_packet t = (t1, Inr p)" "ready t1 bs" using read_ready [OF assms(1-3)] by blast
  obtain t2 where "flush_ppp_outgoing t1 eng1 = (t2, eng1\<lparr>outgoing := []\<rparr>, Inr ())" "ready t2 bs"
    using flush_ready [OF t1(2) assms(6)] by blast
  with t1 assms(4,5) show ?thesis by auto
qed

lemma establish_up:
  assumes "encode_for_tls p = Inr f" "packet_data p \<noteq> []" "ready t (f @ bs)" "now < deadline"
    and "handle_incoming p eng = Return (eng1, Inr [Up ip peer dns])" "list_all encodable (outgoing eng1)"
  shows "\<exists>t1. establish_loop deadline ((now, False) # rounds) t eng
      = Return (t1, Some (Inr (eng1\<lparr>outgoing := []\<rparr>)))"
proof -
  obtain t1 where t1: "read_packet t = (t1, Inr p)" "ready t1 bs" using read_ready [OF assms(1-3)] by blast
  obtain t2 where "flush_ppp_outgoing t1 eng1 = (t2, eng1\<lparr>outgoing := []\<rparr>, Inr ())"
    using flush_ready [OF t1(2) assms(6)] by blast
  with t1 assms(4,5) show ?thesis by simp
qed

text \<open>The answers of a gateway that accepts the link and assigns an address.\<close>

definition gateway_answers :: "ipv4_addr \<Rightarrow> ppp_packet list" where
  "gateway_answers ip =
     [control_ppp PROTOCOL_LCP CODE_CONFIGURE_ACK 1 [1, 4, 5, 0x4a],
      control_ppp PROTOCOL_IPCP CODE_CONFIGURE_NAK 2 (ip_option ip),
      control_ppp PROTOCOL_IPCP CODE_CONFIGURE_ACK 3 (ip_option ip)]"

lemma last_engine_quiet:
  assumes "ip \<noteq> ipv4_unspecified"
  shows "\<exists>eng1 eng2 eng3.
      handle_incoming (gateway_answers ip ! 0) ((start ppp_engine_new)\<lparr>outgoing := []\<rparr>) = Return (eng1, Inr [])
    \<and> list_all encodable (outgoing eng1)
    \<and> handle_incoming (gateway_answers ip ! 1) (eng1\<lparr>outgoing := []\<rparr>) = Return (eng2, Inr [])
    \<and> list_all encodable (outgoing eng2)
    \<and> handle_incoming (gateway_answers ip ! 2) (eng2\<lparr>outgoing := []\<rparr>) = Return (eng3, Inr [Up ip None []])
    \<and> list_all encodable (outgoing eng3) \<and> local_ip eng3 = Some ip"
proof -
  have e: "encodable (control_ppp protocol c i (ip_option a))" for protocol c i a
    by (rule control_encodable) (cases a, simp add: ip_option_def)
  from fresh_negotiation [OF assms] obtain eng1 eng2 eng3 where
    n: "handle_incoming (gateway_answers ip ! 0) ((start ppp_engine_new)\<lparr>outgoing := []\<rparr>) = Return (eng1, Inr [])"
    "outgoing eng1 = [control_ppp PROTOCOL_IPCP CODE_CONFIGURE_REQUEST 2 (ip_option ipv4_unspecified)]"
    "handle_incoming (gateway_answers ip ! 1) (eng1\<lparr>outgoing := []\<rparr>) = Return (eng2, Inr [])"
    "outgoing eng2 = [control_ppp PROTOCOL_IPCP CODE_CONFIGURE_REQUEST 3 (ip_option ip)]"
    "handle_incoming (gateway_answers ip ! 2) (eng2\<lparr>outgoing := []\<rparr>) = Return (eng3, Inr [Up ip None []])"
    "local_ip eng3 = Some ip"
    by (auto simp: drain_outgoing_def gateway_answers_def)
  moreover have "outgoing eng3 = []"
    using n(5) by (auto simp: gateway_answers_def incoming_simps split: if_splits)
  ultimately show ?thesis using e by auto
qed

lemma gateway_answers_nonempty: "p \<in> set (gateway_answers ip) \<Longrightarrow> packet_data p \<noteq> []"
  by (auto simp: gateway_answers_def packet_data_control_ppp control_bytes_def)

lemma negotiation_result:
  assumes "ip \<noteq> ipv4_unspecified" "data_only r" "tls_frames (gateway_answers ip) fs" "reader_bytes r = concat fs"
    and "accepts w = []" "flush_answer w = Inr ()"
    and "t1 < now + 30000" "t2 < now + 30000" "t3 < now + 30000"
  shows "\<exists>t eng. establish_ppp (Inr ()) (Inr ()) now [(t1, False), (t2, False), (t3, False)] (fortinet_transport_new r w)
      = Return (t, Some (Inr eng)) \<and> local_ip eng = Some ip"
proof -
  let ?t = "fortinet_transport_new r w" and ?d = "now + PPP_NEGOTIATION_TIMEOUT"
  obtain f1 f2 f3 where fs: "fs = [f1, f2, f3]" and f: "encode_for_tls (gateway_answers ip ! 0) = Inr f1"
    "encode_for_tls (gateway_answers ip ! 1) = Inr f2" "encode_for_tls (gateway_answers ip ! 2) = Inr f3"
    using assms(3) by (auto simp: tls_frames_def gateway_answers_def list_all2_Cons1)
  have ne: "packet_data (gateway_answers ip ! 0) \<noteq> []" "packet_data (gateway_answers ip ! 1) \<noteq> []"
    "packet_data (gateway_answers ip ! 2) \<noteq> []"
    by (auto intro!: gateway_answers_nonempty nth_mem simp: gateway_answers_def)
  have rd: "ready ?t (f1 @ f2 @ f3 @ [])"
    using assms(2,4-6) fs by (simp add: ready_def fortinet_transport_new_def incoming_bytes_def)
  have "list_all encodable (outgoing (start ppp_engine_new))"
    using fresh_negotiation [OF assms(1)] by (auto simp: control_encodable)
  then obtain ta where a: "flush_ppp_outgoing ?t (start ppp_engine_new) = (ta, (start ppp_engine_new)\<lparr>outgoing := []\<rparr>, Inr ())"
    "ready ta (f1 @ f2 @ f3 @ [])"
    using flush_ready [OF rd] by blast
  obtain eng1 eng2 eng3 where n: "handle_incoming (gateway_answers ip ! 0) ((start ppp_engine_new)\<lparr>outgoing := []\<rparr>) = Return (eng1, Inr [])"
    "list_all encodable (outgoing eng1)"
    "handle_incoming (gateway_answers ip ! 1) (eng1\<lparr>outgoing := []\<rparr>) = Return (eng2, Inr [])" "list_all encodable (outgoing eng2)"
    "handle_incoming (gateway_answers ip ! 2) (eng2\<lparr>outgoing := []\<rparr>) = Return (eng3, Inr [Up ip None []])"
    "list_all encodable (outgoing eng3)" "local_ip eng3 = Some ip"
    using last_engine_quiet [OF assms(1)] by blast
  have d: "t1 < ?d" "t2 < ?d" "t3 < ?d" using assms(7-9) by (simp_all add: PPP_NEGOTIATION_TIMEOUT_def)
  obtain tb where b: "establish_loop ?d [(t1, False), (t2, False), (t3, False)] ta ((start ppp_engine_new)\<lparr>outgoing := []\<rparr>)
      = establish_loop ?d [(t2, False), (t3, False)] tb (eng1\<lparr>outgoing := []\<rparr>)" "ready tb (f2 @ f3 @ [])"
    using establish_round [OF f(1) ne(1) a(2) d(1) n(1,2)] by blast
  obtain tc where c: "establish_loop ?d [(t2, False), (t3, False)] tb (eng1\<lparr>outgoing := []\<rparr>)
      = establish_loop ?d [(t3, False)] tc (eng2\<lparr>outgoing := []\<rparr>)" "ready tc (f3 @ [])"
    using establish_round [OF f(2) ne(2) b(2) d(2) n(3,4)] by blast
  obtain te where "establish_loop ?d [(t3, False)] tc (eng2\<lparr>outgoing := []\<rparr>) = Return (te, Some (Inr (eng3\<lparr>outgoing := []\<rparr>)))"
    using establish_up [OF f(3) ne(3) c(2) d(3) n(5,6)] by blast
  with a b c n(7) show ?thesis by (simp add: establish_ppp_def)
qed

text \<open>C37. The negotiation succeeds with a cooperating gateway: when the acknowledgement of the LCP
  request, the assignment of an address and its acknowledgement arrive before the deadline,
  in whatever pieces, the link is established with that address.\<close>

theorem negotiation_succeeds:
  assumes "ip \<noteq> ipv4_unspecified" "data_only r" "tls_frames (gateway_answers ip) fs" "reader_bytes r = concat fs"
    and "accepts w = []" "flush_answer w = Inr ()"
    and "t1 < now + 30000" "t2 < now + 30000" "t3 < now + 30000"
  shows "\<exists>t eng. establish_ppp (Inr ()) (Inr ()) now [(t1, False), (t2, False), (t3, False)] (fortinet_transport_new r w)
      = Return (t, Some (Inr eng)) \<and> local_ip eng = Some ip"
  using assms by (rule negotiation_result)

lemma sample_answers:
  "\<exists>fs. tls_frames (gateway_answers (Ipv4Addr 10 0 0 9)) fs"
proof -
  have "\<exists>f. encode_for_tls p = Inr f" if "p \<in> set (gateway_answers (Ipv4Addr 10 0 0 9))" for p
    using that by (intro encodable_Inr) (auto simp: gateway_answers_def ip_option_def intro!: control_encodable)
  then have "tls_frames (gateway_answers (Ipv4Addr 10 0 0 9))
      (map (\<lambda>p. projr (encode_for_tls p)) (gateway_answers (Ipv4Addr 10 0 0 9)))"
    by (auto simp: tls_frames_def list_all2_conv_all_nth) (metis nth_mem sum.sel(2))
  then show ?thesis by blast
qed

lemma frames_nonempty: "tls_frames ps fs \<Longrightarrow> f \<in> set fs \<Longrightarrow> f \<noteq> []"
  by (auto simp: tls_frames_def list_all2_conv_all_nth in_set_conv_nth encode_for_tls_def Let_def
      u16_to_be_bytes_def split: if_splits)

lemma sample_negotiation:
  "\<exists>fs. tls_frames (gateway_answers (Ipv4Addr 10 0 0 9)) fs
     \<and> data_only (map Inr fs) \<and> reader_bytes (map Inr fs) = concat fs"
proof -
  obtain fs where fs: "tls_frames (gateway_answers (Ipv4Addr 10 0 0 9)) fs" using sample_answers by blast
  then have "data_only (map Inr fs)" using frames_nonempty by (auto simp: data_only_def)
  moreover have "reader_bytes (map Inr fs) = concat fs" by (induction fs) simp_all
  ultimately show ?thesis using fs by blast
qed

theorem negotiation_succeeds_witness:
  "\<exists>r t eng. establish_ppp (Inr ()) (Inr ()) 0 [(1, False), (2, False), (3, False)] (fortinet_transport_new r idle_writer)
      = Return (t, Some (Inr eng)) \<and> local_ip eng = Some (Ipv4Addr 10 0 0 9)"
proof -
  obtain fs where fs: "tls_frames (gateway_answers (Ipv4Addr 10 0 0 9)) fs" "data_only (map Inr fs)"
    "reader_bytes (map Inr fs) = concat fs" using sample_negotiation by blast
  have "\<exists>t eng. establish_ppp (Inr ()) (Inr ()) 0 [(1, False), (2, False), (3, False)]
      (fortinet_transport_new (map Inr fs) idle_writer) = Return (t, Some (Inr eng)) \<and> local_ip eng = Some (Ipv4Addr 10 0 0 9)"
    by (rule negotiation_succeeds [OF _ fs(2,1,3)]) (simp_all add: idle_writer_def)
  then show ?thesis by blast
qed

theorem established_link_is_open_witness:
  "\<exists>eng. engine_reachable eng \<and> is_open eng \<and> outgoing eng = [] \<and> local_ip eng = Some (Ipv4Addr 10 0 0 9)"
proof -
  obtain fs where fs: "tls_frames (gateway_answers (Ipv4Addr 10 0 0 9)) fs" "data_only (map Inr fs)"
    "reader_bytes (map Inr fs) = concat fs" using sample_negotiation by blast
  have "\<exists>t eng. establish_ppp (Inr ()) (Inr ()) 0 [(1, False), (2, False), (3, False)]
      (fortinet_transport_new (map Inr fs) idle_writer) = Return (t, Some (Inr eng)) \<and> local_ip eng = Some (Ipv4Addr 10 0 0 9)"
    by (rule negotiation_result [OF _ fs(2,1,3)]) (simp_all add: idle_writer_def)
  then obtain t eng where e: "establish_ppp (Inr ()) (Inr ()) 0 [(1, False), (2, False), (3, False)]
      (fortinet_transport_new (map Inr fs) idle_writer) = Return (t, Some (Inr eng))" "local_ip eng = Some (Ipv4Addr 10 0 0 9)"
    by blast
  from established_link_is_open [OF e(1)] e(2) show ?thesis by blast
qed

end
