(* ===== verification/Loop_Op.thy ===== *)
theory Loop_Op
  imports Rust_Loop
begin

text \<open>
  Operations that may fail, panic or not return: functions from a state to a result and the
  next state, where \<open>None\<close> is a run that does not end. \<open>bind_lop\<close> is the sequence of two steps with
  \<open>?\<close> between them, \<open>catch_lop\<close> a \<open>match\<close> on the result of a step, and \<open>loop_lop\<close> a loop whose
  body hands its local variables on (\<open>Inl\<close>) or ends the loop (\<open>Inr\<close>).

  Two judgements with their rules carry the proofs about such operations: \<open>yields\<close> is partial
  correctness, \<open>returns\<close> is total correctness and excludes panics.
\<close>

type_synonym ('s, 'a) lop = "'s \<Rightarrow> (('a res \<times> 's) exec) option"

definition op_lop :: "('s, 'a) op \<Rightarrow> ('s, 'a) lop" where
  "op_lop m s = Some (Return (m s))"

definition exec_lop :: "('s, 'a) xop \<Rightarrow> ('s, 'a) lop" where
  "exec_lop m s = Some (m s)"

definition return_lop :: "'a \<Rightarrow> ('s, 'a) lop" where
  "return_lop x = op_lop (return_op x)"

definition fail_lop :: "error \<Rightarrow> ('s, 'a) lop" where
  "fail_lop e = op_lop (fail_op e)"

definition get_lop :: "('s \<Rightarrow> 'a) \<Rightarrow> ('s, 'a) lop" where
  "get_lop f s = Some (Return (Inr (f s), s))"

definition modify_lop :: "('s \<Rightarrow> 's) \<Rightarrow> ('s, unit) lop" where
  "modify_lop f s = Some (Return (Inr (), f s))"

definition catch_lop :: "('s, 'a) lop \<Rightarrow> ('a res \<Rightarrow> ('s, 'b) lop) \<Rightarrow> ('s, 'b) lop" where
  "catch_lop m f s =
     (case m s of
        None \<Rightarrow> None
      | Some Panic \<Rightarrow> Some Panic
      | Some (Return (r, s1)) \<Rightarrow> f r s1)"

definition bind_lop :: "('s, 'a) lop \<Rightarrow> ('a \<Rightarrow> ('s, 'b) lop) \<Rightarrow> ('s, 'b) lop" where
  "bind_lop m f = catch_lop m (case_sum fail_lop f)"

partial_function (option) loop_lop :: "('a \<Rightarrow> ('s, 'a + 'b) lop) \<Rightarrow> 'a \<Rightarrow> ('s, 'b) lop" where
  "loop_lop body a s =
     (case body a s of
        None \<Rightarrow> None
      | Some x \<Rightarrow>
          (case x of
             Panic \<Rightarrow> Some Panic
           | Return y \<Rightarrow>
               (case y of (r, s1) \<Rightarrow>
                  (case r of
                     Inl e \<Rightarrow> Some (Return (Inl e, s1))
                   | Inr z \<Rightarrow>
                       (case z of
                          Inl a1 \<Rightarrow> loop_lop body a1 s1
                        | Inr b \<Rightarrow> Some (Return (Inr b, s1)))))))"

lemma loop_lop_unfold: "loop_lop body a = bind_lop (body a) (case_sum (loop_lop body) return_lop)"
  by (rule ext, subst loop_lop.simps)
    (auto simp: bind_lop_def catch_lop_def fail_lop_def return_lop_def op_lop_def fail_op_def return_op_def
      split: option.split exec.split sum.split)

section \<open>Partial correctness\<close>

definition yields :: "('s, 'a) lop \<Rightarrow> 's \<Rightarrow> ('a res \<Rightarrow> 's \<Rightarrow> bool) \<Rightarrow> bool" where
  "yields m s Q \<longleftrightarrow> (\<forall>r s1. m s = Some (Return (r, s1)) \<longrightarrow> Q r s1)"

definition returns :: "('s, 'a) lop \<Rightarrow> 's \<Rightarrow> ('a res \<Rightarrow> 's \<Rightarrow> bool) \<Rightarrow> bool" where
  "returns m s Q \<longleftrightarrow> (\<exists>r s1. m s = Some (Return (r, s1)) \<and> Q r s1)"

lemma yieldsD: "yields m s Q \<Longrightarrow> m s = Some (Return (r, s1)) \<Longrightarrow> Q r s1"
  by (simp add: yields_def)

lemma yields_mono: "yields m s P \<Longrightarrow> (\<And>r s1. P r s1 \<Longrightarrow> Q r s1) \<Longrightarrow> yields m s Q"
  by (auto simp: yields_def)

lemma returns_mono: "returns m s P \<Longrightarrow> (\<And>r s1. P r s1 \<Longrightarrow> Q r s1) \<Longrightarrow> returns m s Q"
  by (auto simp: returns_def)

lemma yields_simps [simp]:
  "yields (op_lop p) s Q \<longleftrightarrow> (case p s of (r, s1) \<Rightarrow> Q r s1)"
  "yields (return_lop x) s Q \<longleftrightarrow> Q (Inr x) s"
  "yields (fail_lop e) s Q \<longleftrightarrow> Q (Inl e) s"
  "yields (get_lop f) s Q \<longleftrightarrow> Q (Inr (f s)) s"
  "yields (catch_lop m h) s Q \<longleftrightarrow> yields m s (\<lambda>r s1. yields (h r) s1 Q)"
  by (auto simp: yields_def op_lop_def return_lop_def fail_lop_def get_lop_def modify_lop_def catch_lop_def
      return_op_def fail_op_def split: prod.split option.split exec.split)

lemma returns_simps [simp]:
  "returns (op_lop p) s Q \<longleftrightarrow> (case p s of (r, s1) \<Rightarrow> Q r s1)"
  "returns (return_lop x) s Q \<longleftrightarrow> Q (Inr x) s"
  "returns (fail_lop e) s Q \<longleftrightarrow> Q (Inl e) s"
  "returns (get_lop f) s Q \<longleftrightarrow> Q (Inr (f s)) s"
  "returns (catch_lop m h) s Q \<longleftrightarrow> returns m s (\<lambda>r s1. returns (h r) s1 Q)"
  by (auto simp: returns_def op_lop_def return_lop_def fail_lop_def get_lop_def modify_lop_def catch_lop_def
      return_op_def fail_op_def split: prod.split option.split exec.split)

lemma yields_modify [simp]: "yields (modify_lop g) s Q \<longleftrightarrow> Q (Inr ()) (g s)"
  by (simp add: yields_def modify_lop_def)

lemma yields_bind [simp]:
  "yields (bind_lop m f) s Q \<longleftrightarrow> yields m s (\<lambda>r s1. case r of Inl e \<Rightarrow> Q (Inl e) s1 | Inr x \<Rightarrow> yields (f x) s1 Q)"
  unfolding bind_lop_def yields_simps by (rule arg_cong [where f = "yields m s"]) (auto intro!: ext split: sum.split)

lemma returns_modify [simp]: "returns (modify_lop g) s Q \<longleftrightarrow> Q (Inr ()) (g s)"
  by (simp add: returns_def modify_lop_def)

lemma returns_bind [simp]:
  "returns (bind_lop m f) s Q \<longleftrightarrow> returns m s (\<lambda>r s1. case r of Inl e \<Rightarrow> Q (Inl e) s1 | Inr x \<Rightarrow> returns (f x) s1 Q)"
  unfolding bind_lop_def returns_simps by (rule arg_cong [where f = "returns m s"]) (auto intro!: ext split: sum.split)

lemma yields_exec [simp]:
  "yields (exec_lop p) s Q \<longleftrightarrow> (case p s of Panic \<Rightarrow> True | Return (r, s1) \<Rightarrow> Q r s1)"
  by (auto simp: yields_def exec_lop_def split: exec.split)

lemma returns_exec [simp]:
  "returns (exec_lop p) s Q \<longleftrightarrow> (case p s of Panic \<Rightarrow> False | Return (r, s1) \<Rightarrow> Q r s1)"
  by (auto simp: returns_def exec_lop_def split: exec.split)

section \<open>Loops\<close>

text \<open>The rules of a loop: what every round keeps holds at its end, and a loop whose rounds return
  and decrease a measure returns.\<close>

lemma yields_loop:
  assumes "I a s"
    and "\<And>a s. I a s \<Longrightarrow> yields (body a) s
          (\<lambda>r s1. case r of Inl e \<Rightarrow> Q (Inl e) s1 | Inr (Inl a1) \<Rightarrow> I a1 s1 | Inr (Inr b) \<Rightarrow> Q (Inr b) s1)"
  shows "yields (loop_lop body a) s Q"
proof -
  have "bd = body \<longrightarrow> I a s \<longrightarrow> (\<forall>r s1. x = Return (r, s1) \<longrightarrow> Q r s1)"
    if "loop_lop bd a s = Some x" for bd a s x
    using that
  proof (rule loop_lop.raw_induct [where P = "\<lambda>bd a s x. bd = body \<longrightarrow> I a s \<longrightarrow> (\<forall>r s1. x = Return (r, s1) \<longrightarrow> Q r s1)", rotated])
    fix lp :: "('a \<Rightarrow> ('b, 'a + 'c) lop) \<Rightarrow> 'a \<Rightarrow> ('b, 'c) lop" and bd a s x
    assume IH: "\<And>bd a s y. lp bd a s = Some y \<Longrightarrow> bd = body \<longrightarrow> I a s \<longrightarrow> (\<forall>r s1. y = Return (r, s1) \<longrightarrow> Q r s1)"
      and st: "(case bd a s of None \<Rightarrow> None | Some x \<Rightarrow> (case x of Panic \<Rightarrow> Some Panic | Return y \<Rightarrow> (case y of (r, s1) \<Rightarrow>
        (case r of Inl e \<Rightarrow> Some (Return (Inl e, s1)) | Inr z \<Rightarrow> (case z of Inl a1 \<Rightarrow> lp bd a1 s1 | Inr b \<Rightarrow> Some (Return (Inr b, s1))))))) = Some x"
    show "bd = body \<longrightarrow> I a s \<longrightarrow> (\<forall>r s1. x = Return (r, s1) \<longrightarrow> Q r s1)"
    proof (intro impI)
      assume "bd = body" "I a s"
      with assms(2) [of a s] st IH show "\<forall>r s1. x = Return (r, s1) \<longrightarrow> Q r s1"
        by (fastforce simp: yields_def split: option.split_asm exec.split_asm prod.split_asm sum.split_asm)
    qed
  qed
  with assms(1) show ?thesis unfolding yields_def by blast
qed

lemma returns_loop:
  fixes m :: "'a \<Rightarrow> 's \<Rightarrow> nat"
  assumes "I a s"
    and body: "\<And>a s. I a s \<Longrightarrow> returns (body a) s
          (\<lambda>r s1. case r of Inl e \<Rightarrow> Q (Inl e) s1 | Inr (Inl a1) \<Rightarrow> I a1 s1 \<and> m a1 s1 < m a s | Inr (Inr b) \<Rightarrow> Q (Inr b) s1)"
  shows "returns (loop_lop body a) s Q"
  using assms(1)
proof (induction "(a, s)" arbitrary: a s rule: measure_induct_rule [of "\<lambda>(a, s). m a s"])
  case less
  show ?case unfolding loop_lop_unfold [of body a] returns_bind
    by (rule returns_mono [OF body [OF less.prems]]) (use less.hyps in \<open>auto split: sum.split_asm sum.split\<close>)
qed

end
