(* ===== verification/Proxy_Resolver.thy ===== *)
theory Proxy_Resolver
  imports Proxy_Link Proxy_Sessions Route_Table Dns Loop_Op
begin

text \<open>
  The state of the SOCKS proxy and the resolution of names through the tunnel
  (\<open>src/proxy/runtime.rs\<close>). \<open>proxy_env\<close> holds what does not change: the sockets, resolver,
  clock and log of the operating system as operations on a world, the TCP/IP library, the
  route table and the DNS servers. \<open>proxy_state\<close> is the state of the loop. A client that is
  refused is handed to \<open>px_close\<close>, with the bytes it was sent; other sockets are dropped with
  the session or the state that holds them.

  Shown here: resolving a name gives up after five seconds for every server, whatever the
  stack and the servers do, and a cached name is answered without the tunnel until its entry expires.
\<close>

definition ACCEPT_HANDSHAKE_TIMEOUT :: nat where "ACCEPT_HANDSHAKE_TIMEOUT = 10000"
definition DNS_RESOLVE_TIMEOUT :: nat where "DNS_RESOLVE_TIMEOUT = 5000"
definition RUNTIME_READ_TIMEOUT :: nat where "RUNTIME_READ_TIMEOUT = 10"
definition LOOP_SLEEP :: nat where "LOOP_SLEEP = 1"
definition DNS_CACHE_TTL :: nat where "DNS_CACHE_TTL = 300000"
definition DIRECT_CONNECT_TIMEOUT :: nat where "DIRECT_CONNECT_TIMEOUT = 10000"

section \<open>State\<close>

datatype sock_call = SetNonblocking bool | SetReadTimeout "nat option" | SetWriteTimeout "nat option" | TryClone

record ('w, 't) proxy_env =
  px_clock :: "'w clock_ops"
  px_bind :: "socket_addr \<Rightarrow> 'w \<Rightarrow> (io_error + unit) \<times> 'w"
  px_accept :: "'w \<Rightarrow> (io_error + peer_socket \<times> socket_addr) \<times> 'w"
  px_call :: "sock_call \<Rightarrow> 'w \<Rightarrow> (io_error + unit) \<times> 'w"
  px_connect :: "socket_addr \<Rightarrow> nat \<Rightarrow> 'w \<Rightarrow> (io_error + peer_socket) \<times> 'w"
  px_resolve :: "string \<Rightarrow> u16 \<Rightarrow> 'w \<Rightarrow> (io_error + socket_addr list) \<times> 'w"
  px_close :: "peer_socket \<Rightarrow> 'w \<Rightarrow> 'w"
  px_log :: "u8 \<Rightarrow> string \<Rightarrow> 'w \<Rightarrow> 'w"
  px_stop :: "'w \<Rightarrow> bool"
  px_lib :: "'t smol_ops"
  px_table :: proxy_route_table
  px_dns_servers :: "ipv4_addr list"

record dns_cache_entry =
  ce_addr :: ipv4_addr
  ce_expires_at :: nat

record ('w, 't) proxy_state =
  pr_world :: 'w
  pr_start :: "nat option"
  pr_transport :: fortinet_transport
  pr_ppp :: ppp_engine
  pr_net :: "'t proxy_net_stack"
  pr_cache :: "string \<rightharpoonup> dns_cache_entry"
  pr_next_id :: u64
  pr_sessions :: "proxy_session list"
  pr_direct :: "direct_session list"

type_synonym ('w, 't, 'a) proxy_op = "(('w, 't) proxy_state, 'a) lop"

section \<open>Steps\<close>

definition world_op :: "('w \<Rightarrow> (io_error + 'a) \<times> 'w) \<Rightarrow> ('w, 't, 'a) proxy_op" where
  "world_op f = op_lop (io_op (\<lambda>s. case f (pr_world s) of (r, w) \<Rightarrow> (r, s\<lparr>pr_world := w\<rparr>)))"

definition on_world :: "('w \<Rightarrow> 'w) \<Rightarrow> ('w, 't, unit) proxy_op" where
  "on_world f = modify_lop (\<lambda>s. s\<lparr>pr_world := f (pr_world s)\<rparr>)"

definition on_net :: "('t proxy_net_stack \<Rightarrow> 't proxy_net_stack) \<Rightarrow> ('w, 't, unit) proxy_op" where
  "on_net f = modify_lop (\<lambda>s. s\<lparr>pr_net := f (pr_net s)\<rparr>)"

definition net_op :: "('t proxy_net_stack \<Rightarrow> 'a \<times> 't proxy_net_stack) \<Rightarrow> ('w, 't, 'a) proxy_op" where
  "net_op f = op_lop (\<lambda>s. case f (pr_net s) of (x, n) \<Rightarrow> (Inr x, s\<lparr>pr_net := n\<rparr>))"

definition get_now :: "('w, 't) proxy_env \<Rightarrow> ('w, 't, nat) proxy_op" where
  "get_now e = get_lop (\<lambda>s. clock_now (px_clock e) (pr_world s))"

definition smol_millis :: "('w, 't) proxy_env \<Rightarrow> nat option \<Rightarrow> 'w \<Rightarrow> int" where
  "smol_millis e since w =
     (let now = clock_now (px_clock e) w
      in sint (word_of_nat (now - (case since of Some t \<Rightarrow> t | None \<Rightarrow> now)) :: 64 word))"

definition smol_now :: "('w, 't) proxy_env \<Rightarrow> ('w, 't, int) proxy_op" where
  "smol_now e = op_lop (\<lambda>s.
     (Inr (smol_millis e (pr_start s) (pr_world s)),
      s\<lparr>pr_start := (case pr_start s of Some t \<Rightarrow> Some t
                    | None \<Rightarrow> Some (clock_now (px_clock e) (pr_world s)))\<rparr>))"

definition poll_stack :: "('w, 't) proxy_env \<Rightarrow> ('w, 't, bool) proxy_op" where
  "poll_stack e = bind_lop (smol_now e) (\<lambda>now. net_op (net_poll (px_lib e) now))"

definition read_packets_step :: "('w, 't, unit) proxy_op" where
  "read_packets_step = exec_lop (\<lambda>s.
     bind_exec (read_fortinet_packets (pr_transport s) (pr_ppp s) (pr_net s))
       (\<lambda>(t, eng, n, r). Return (r, s\<lparr>pr_transport := t, pr_ppp := eng, pr_net := n\<rparr>)))"

definition drain_step :: "('w, 't, unit) proxy_op" where
  "drain_step = op_lop (\<lambda>s.
     case drain_netstack_to_fortinet (pr_net s) (pr_ppp s) (pr_transport s) of
       (n, eng, t, r) \<Rightarrow> (r, s\<lparr>pr_net := n, pr_ppp := eng, pr_transport := t\<rparr>))"

section \<open>Resolving names\<close>

definition dns_query_id :: "string \<Rightarrow> u16" where
  "dns_query_id domain = fold (\<lambda>byte acc. word_rotl 5 acc XOR ucast byte) (as_bytes domain) 0x4f56"

text \<open>What one server is waited for, and how the wait ends.\<close>

record dns_wait =
  dw_sent :: bool
  dw_response :: bytes
  dw_error :: "error option"

datatype dns_end = NotResolved "error option" | Resolved ipv4_addr

definition send_query ::
  "('w, 't) proxy_env \<Rightarrow> bytes \<Rightarrow> ipv4_addr \<Rightarrow> nat \<Rightarrow> dns_wait \<Rightarrow> ('w, 't, dns_wait + dns_end) proxy_op" where
  "send_query e query server handle d =
     bind_lop (get_lop (\<lambda>s. tcp_is_established (px_lib e) handle (pr_net s))) (\<lambda>established.
       if established \<and> \<not> dw_sent d then
         bind_lop (net_op (tcp_send (px_lib e) handle query)) (\<lambda>r. return_lop
           (case r of
              Inr written \<Rightarrow>
                if written = length query then Inl (d\<lparr>dw_sent := True\<rparr>)
                else Inr (NotResolved (Some (Network ''partial DNS query write'')))
            | Inl err \<Rightarrow>
                Inr (NotResolved (Some (Network (''failed to send DNS query to '' @ show_ipv4 server @ '': '' @ err))))))
       else return_lop (Inl d))"

definition take_answer ::
  "('w, 't) proxy_env \<Rightarrow> u16 \<Rightarrow> nat \<Rightarrow> dns_wait \<Rightarrow> ('w, 't, dns_wait + dns_end) proxy_op" where
  "take_answer e query_id handle d =
     (case parse_tcp_response (dw_response d) query_id of
        Panic \<Rightarrow> exec_lop (\<lambda>s. Panic)
      | Return (Inr addrs) \<Rightarrow>
          if addrs = [] then return_lop (Inl d)
          else
            bind_lop (on_net (tcp_close (px_lib e) handle)) (\<lambda>_.
            bind_lop (on_net (remove_tcp_socket (px_lib e) handle)) (\<lambda>_.
              return_lop (Inr (Resolved
                (case find (can_route (px_table e)) addrs of Some a \<Rightarrow> a | None \<Rightarrow> hd addrs)))))
      | Return (Inl err) \<Rightarrow> return_lop (Inr (NotResolved (Some err))))"

definition receive_answer ::
  "('w, 't) proxy_env \<Rightarrow> u16 \<Rightarrow> nat \<Rightarrow> dns_wait \<Rightarrow> ('w, 't, dns_wait + dns_end) proxy_op" where
  "receive_answer e query_id handle d =
     (if dw_sent d then
        bind_lop (net_op (tcp_recv (px_lib e) handle PROXY_IO_BUFFER_SIZE)) (\<lambda>r.
          case r of
            Inr bs \<Rightarrow>
              if bs = [] then return_lop (Inl d)
              else take_answer e query_id handle (d\<lparr>dw_response := dw_response d @ bs\<rparr>)
          | Inl err \<Rightarrow> return_lop (Inl d))
      else return_lop (Inl d))"

definition dns_round ::
  "('w, 't) proxy_env \<Rightarrow> u16 \<Rightarrow> bytes \<Rightarrow> ipv4_addr \<Rightarrow> nat \<Rightarrow> nat \<Rightarrow> dns_wait \<Rightarrow> ('w, 't, dns_wait + dns_end) proxy_op" where
  "dns_round e query_id query server handle deadline d =
     bind_lop (get_now e) (\<lambda>now.
       if deadline \<le> now then return_lop (Inr (NotResolved (dw_error d)))
       else
         bind_lop read_packets_step (\<lambda>_.
         bind_lop (poll_stack e) (\<lambda>_.
         bind_lop (send_query e query server handle d) (\<lambda>x.
           case x of
             Inr z \<Rightarrow> return_lop (Inr z)
           | Inl d1 \<Rightarrow>
               bind_lop drain_step (\<lambda>_.
               bind_lop (receive_answer e query_id handle d1) (\<lambda>y.
                 case y of
                   Inr z \<Rightarrow> return_lop (Inr z)
                 | Inl d2 \<Rightarrow>
                     bind_lop (get_lop (\<lambda>s. tcp_is_active (px_lib e) handle (pr_net s))) (\<lambda>active.
                       if \<not> active \<and> dw_sent d2 then return_lop (Inr (NotResolved (dw_error d2)))
                       else
                         bind_lop (on_world (clock_sleep (px_clock e) LOOP_SLEEP)) (\<lambda>_. return_lop (Inl d2)))))))))"

definition query_server ::
  "('w, 't) proxy_env \<Rightarrow> u16 \<Rightarrow> bytes \<Rightarrow> ipv4_addr \<Rightarrow> error option \<Rightarrow> ('w, 't, dns_end) proxy_op" where
  "query_server e query_id query server last_error =
     bind_lop (net_op (add_tcp_socket (px_lib e))) (\<lambda>handle.
     bind_lop (net_op (connect_tcp_socket (px_lib e) handle server 53)) (\<lambda>r.
       case r of
         Inl err \<Rightarrow>
           bind_lop (on_net (remove_tcp_socket (px_lib e) handle)) (\<lambda>_.
             return_lop (NotResolved (Some (Network
               (''failed to connect to DNS server '' @ show_ipv4 server @ '': '' @ err)))))
       | Inr _ \<Rightarrow>
           bind_lop (get_now e) (\<lambda>now.
           bind_lop (loop_lop (dns_round e query_id query server handle (now + DNS_RESOLVE_TIMEOUT))
                       \<lparr>dw_sent = False, dw_response = [], dw_error = last_error\<rparr>) (\<lambda>z.
             case z of
               Resolved a \<Rightarrow> return_lop z
             | NotResolved err \<Rightarrow>
                 bind_lop (on_net (tcp_close (px_lib e) handle)) (\<lambda>_.
                 bind_lop (on_net (remove_tcp_socket (px_lib e) handle)) (\<lambda>_. return_lop z))))))"

fun query_servers ::
  "('w, 't) proxy_env \<Rightarrow> u16 \<Rightarrow> bytes \<Rightarrow> string \<Rightarrow> ipv4_addr list \<Rightarrow> error option \<Rightarrow> ('w, 't, ipv4_addr) proxy_op" where
  "query_servers e query_id query domain [] last_error =
     fail_lop (case last_error of Some err \<Rightarrow> err
               | None \<Rightarrow> Network (''timed out resolving '' @ domain @ '' via VPN DNS''))"
| "query_servers e query_id query domain (server # servers) last_error =
     bind_lop (query_server e query_id query server last_error) (\<lambda>z.
       case z of
         Resolved a \<Rightarrow> return_lop a
       | NotResolved err \<Rightarrow> query_servers e query_id query domain servers err)"

definition resolve_domain :: "('w, 't) proxy_env \<Rightarrow> string \<Rightarrow> ('w, 't, ipv4_addr) proxy_op" where
  "resolve_domain e domain =
     (if px_dns_servers e = [] then fail_lop (Network ''VPN configuration did not provide DNS servers'')
      else
        let query_id = dns_query_id domain in
        case build_tcp_query query_id domain of
          Inl err \<Rightarrow> fail_lop err
        | Inr query \<Rightarrow> query_servers e query_id query domain (px_dns_servers e) None)"

definition resolve_and_store :: "('w, 't) proxy_env \<Rightarrow> string \<Rightarrow> string \<Rightarrow> nat \<Rightarrow> ('w, 't, ipv4_addr) proxy_op" where
  "resolve_and_store e domain key now =
     bind_lop (resolve_domain e domain) (\<lambda>addr.
     bind_lop (modify_lop (\<lambda>s. s\<lparr>pr_cache := (pr_cache s)(key \<mapsto>
         \<lparr>ce_addr = addr, ce_expires_at = now + DNS_CACHE_TTL\<rparr>)\<rparr>)) (\<lambda>_.
       return_lop addr))"

definition resolve_domain_cached :: "('w, 't) proxy_env \<Rightarrow> string \<Rightarrow> ('w, 't, ipv4_addr) proxy_op" where
  "resolve_domain_cached e domain =
     (let key = to_ascii_lowercase domain in
      bind_lop (get_now e) (\<lambda>now.
      bind_lop (get_lop (\<lambda>s. pr_cache s key)) (\<lambda>entry.
        case entry of
          Some c \<Rightarrow>
            if now < ce_expires_at c then return_lop (ce_addr c)
            else resolve_and_store e domain key now
        | None \<Rightarrow> resolve_and_store e domain key now)))"

text \<open>The system resolver: its first IPv4 address.\<close>

fun first_ipv4 :: "string \<Rightarrow> socket_addr list \<Rightarrow> string option \<Rightarrow> ipv4_addr res" where
  "first_ipv4 domain [] last_error =
     Inl (Network (case last_error of Some line \<Rightarrow> line
                   | None \<Rightarrow> ''system DNS returned no IPv4 address for '' @ domain))"
| "first_ipv4 domain (SocketAddrV4 a p # addrs) last_error = Inr a"
| "first_ipv4 domain (SocketAddrV6 a p scope # addrs) last_error =
     first_ipv4 domain addrs (Some (''resolved '' @ show_socket_addr (SocketAddrV6 a p scope)
       @ '', but proxy mode supports IPv4 only''))"

definition resolve_domain_direct :: "('w, 't) proxy_env \<Rightarrow> string \<Rightarrow> u16 \<Rightarrow> ('w, 't, ipv4_addr) proxy_op" where
  "resolve_domain_direct e domain port =
     bind_lop (world_op (px_resolve e domain port)) (\<lambda>addrs.
       case first_ipv4 domain addrs None of Inl err \<Rightarrow> fail_lop err | Inr a \<Rightarrow> return_lop a)"

section \<open>What resolving leaves alone\<close>

text \<open>The sessions, the cache and the session number are not touched, and time does not run back.\<close>

definition untouched :: "('w, 't) proxy_env \<Rightarrow> ('w, 't) proxy_state \<Rightarrow> ('w, 't) proxy_state \<Rightarrow> bool" where
  "untouched e s s1 \<longleftrightarrow> pr_sessions s1 = pr_sessions s \<and> pr_direct s1 = pr_direct s \<and> pr_cache s1 = pr_cache s
     \<and> pr_next_id s1 = pr_next_id s \<and> clock_now (px_clock e) (pr_world s) \<le> clock_now (px_clock e) (pr_world s1)"

lemma untouched_refl [simp]: "untouched e s s"
  by (simp add: untouched_def)

lemma untouched_trans: "untouched e s s1 \<Longrightarrow> untouched e s1 s2 \<Longrightarrow> untouched e s s2"
  by (auto simp: untouched_def)

lemma read_fortinet_returns: "\<exists>x. read_fortinet_packets t eng n = Return x"
proof (induction t eng n rule: read_fortinet_packets.induct)
  case (1 t eng n)
  show ?case
    by (subst read_fortinet_packets.simps)
      (use 1 handle_incoming_total in \<open>fastforce split: prod.split sum.split error.split exec.split\<close>)
qed

definition keeps :: "('w, 't) proxy_env \<Rightarrow> ('w, 't, 'a) proxy_op \<Rightarrow> bool" where
  "keeps e m \<longleftrightarrow> (\<forall>s. returns m s (\<lambda>r s1. untouched e s s1))"

lemma returns_keeps:
  "keeps e m \<Longrightarrow> (\<And>r s1. untouched e s s1 \<Longrightarrow> Q r s1) \<Longrightarrow> returns m s Q"
  unfolding keeps_def by (blast intro: returns_mono)

lemma returns_keeps_bind:
  assumes "keeps e m" and "\<And>x s1. untouched e s s1 \<Longrightarrow> returns (f x) s1 Q" and "\<And>err s1. untouched e s s1 \<Longrightarrow> Q (Inl err) s1"
  shows "returns (bind_lop m f) s Q"
  unfolding returns_bind by (rule returns_keeps [OF assms(1)]) (auto split: sum.split intro: assms(2,3))

lemma returns_from:
  assumes "untouched e s0 s" and "keeps e m" and "\<And>x s1. untouched e s0 s1 \<Longrightarrow> returns (f x) s1 Q"
    and "\<And>err s1. untouched e s0 s1 \<Longrightarrow> Q (Inl err) s1"
  shows "returns (bind_lop m f) s Q"
  by (rule returns_keeps_bind [OF assms(2)]) (use assms(1) in \<open>auto intro: assms(3,4) untouched_trans\<close>)

lemma returns_bind_get: "returns (bind_lop (get_lop f) g) s Q \<longleftrightarrow> returns (g (f s)) s Q"
  by simp

lemma keeps_bind: "keeps e m \<Longrightarrow> (\<And>x. keeps e (f x)) \<Longrightarrow> keeps e (bind_lop m f)"
  unfolding keeps_def
  by (intro allI, rule returns_keeps_bind [where e = e])
    (auto simp: keeps_def intro: returns_mono untouched_trans)

lemma keeps_basic:
  "keeps e (return_lop x)" "keeps e (fail_lop err)" "keeps e (get_lop f)"
  by (simp_all add: keeps_def)

lemma keeps_net_op: "keeps e (net_op g)"
  by (auto simp: keeps_def net_op_def untouched_def split: prod.split)

lemma keeps_on_net: "keeps e (on_net h)"
  by (auto simp: keeps_def on_net_def untouched_def)

lemma keeps_steps:
  "keeps e (get_now e)" "keeps e (smol_now e)" "keeps e read_packets_step" "keeps e drain_step"
proof -
  show "keeps e read_packets_step"
    unfolding keeps_def read_packets_step_def returns_exec
  proof
    fix s :: "('a, 'b) proxy_state"
    from read_fortinet_returns obtain t eng n r where
      "read_fortinet_packets (pr_transport s) (pr_ppp s) (pr_net s) = Return (t, eng, n, r)" by (metis prod_cases4)
    then show "case bind_exec (read_fortinet_packets (pr_transport s) (pr_ppp s) (pr_net s))
        (\<lambda>(t, eng, n, r). Return (r, s\<lparr>pr_transport := t, pr_ppp := eng, pr_net := n\<rparr>)) of
      Panic \<Rightarrow> False | Return (r, x) \<Rightarrow> untouched e s x"
      by (simp add: untouched_def)
  qed
qed (auto simp: keeps_def get_now_def smol_now_def drain_step_def untouched_def split: prod.split)

lemmas keeps_rules = keeps_bind keeps_basic keeps_net_op keeps_on_net keeps_steps

lemma keeps_poll: "keeps e (poll_stack e)"
  unfolding poll_stack_def by (intro keeps_rules)

lemma keeps_send_query: "keeps e (send_query e query server handle d)"
  by (auto simp: send_query_def intro!: keeps_rules)

lemma keeps_take_answer: "keeps e (take_answer e query_id handle d)"
proof -
  obtain r where "parse_tcp_response (dw_response d) query_id = Return r" using tcp_response_returns by blast
  then show ?thesis by (auto simp: take_answer_def split: sum.split intro!: keeps_rules)
qed

lemma keeps_receive_answer: "keeps e (receive_answer e query_id handle d)"
  by (auto simp: receive_answer_def split: sum.split intro!: keeps_rules keeps_take_answer)

lemma keeps_sleep: "clock_advances (px_clock e) \<Longrightarrow> keeps e (on_world (clock_sleep (px_clock e) d))"
  by (auto simp: keeps_def on_world_def untouched_def dest: clock_sleep_later [of _ _ d] intro: add_leD1)

section \<open>Resolving ends\<close>

lemma dns_round_returns:
  assumes "clock_advances (px_clock e)"
  shows "returns (dns_round e query_id query server handle deadline d) s
    (\<lambda>r s1. untouched e s s1 \<and>
       (case r of Inr (Inl d1) \<Rightarrow> clock_now (px_clock e) (pr_world s) < deadline
            \<and> clock_now (px_clock e) (pr_world s) < clock_now (px_clock e) (pr_world s1)
        | _ \<Rightarrow> True))"
proof (cases "deadline \<le> clock_now (px_clock e) (pr_world s)")
  case True
  then show ?thesis by (simp add: dns_round_def get_now_def)
next
  case False
  define Q :: "(dns_wait + dns_end) res \<Rightarrow> _" where "Q = (\<lambda>r s1. untouched e s s1 \<and>
       (case r of Inr (Inl d1) \<Rightarrow> clock_now (px_clock e) (pr_world s) < deadline
            \<and> clock_now (px_clock e) (pr_world s) < clock_now (px_clock e) (pr_world s1)
        | _ \<Rightarrow> True))"
  have stop: "Q (Inl err) s1" "Q (Inr (Inr z)) s1" if "untouched e s s1" for err z s1
    using that by (simp_all add: Q_def)
  have asleep: "returns (bind_lop (on_world (clock_sleep (px_clock e) LOOP_SLEEP)) (\<lambda>_. return_lop (Inl d2))) s1 Q"
    if "untouched e s s1" for s1 and d2 :: dns_wait
    using clock_sleep_later [OF assms, of "pr_world s1" LOOP_SLEEP] that False
    by (auto simp: Q_def on_world_def untouched_def LOOP_SLEEP_def)
  note step = returns_from [where e = e and ?s0.0 = s]
  from False have "returns (dns_round e query_id query server handle deadline d) s Q"
    unfolding dns_round_def
    by (auto simp: get_now_def returns_bind_get simp del: returns_bind split: sum.split
        intro!: step [OF _ keeps_steps(3)] step [OF _ keeps_steps(4)] step [OF _ keeps_poll]
          step [OF _ keeps_send_query] step [OF _ keeps_receive_answer] asleep stop)
  then show ?thesis unfolding Q_def .
qed

lemma keeps_dns_loop:
  assumes "clock_advances (px_clock e)"
  shows "keeps e (loop_lop (dns_round e query_id query server handle deadline) d)"
  unfolding keeps_def
proof
  fix s
  show "returns (loop_lop (dns_round e query_id query server handle deadline) d) s (\<lambda>r s1. untouched e s s1)"
  proof (rule returns_loop [where I = "\<lambda>d s1. untouched e s s1"
        and m = "\<lambda>d s1. deadline - clock_now (px_clock e) (pr_world s1)"])
    fix d1 s1 assume "untouched e s s1"
    then show "returns (dns_round e query_id query server handle deadline d1) s1
        (\<lambda>r s2. case r of Inl err \<Rightarrow> untouched e s s2
          | Inr (Inl d2) \<Rightarrow> untouched e s s2
              \<and> deadline - clock_now (px_clock e) (pr_world s2) < deadline - clock_now (px_clock e) (pr_world s1)
          | Inr (Inr z) \<Rightarrow> untouched e s s2)"
      by (intro returns_mono [OF dns_round_returns [OF assms]])
        (auto intro: untouched_trans diff_less_mono2 split: sum.split)
  qed simp
qed

lemma keeps_query_server:
  "clock_advances (px_clock e) \<Longrightarrow> keeps e (query_server e query_id query server last_error)"
  unfolding query_server_def
  by (auto split: sum.split dns_end.split intro!: keeps_rules keeps_dns_loop)

lemma keeps_query_servers:
  "clock_advances (px_clock e) \<Longrightarrow> keeps e (query_servers e query_id query domain servers last_error)"
  by (induction servers arbitrary: last_error)
    (auto split: dns_end.split intro!: keeps_rules keeps_query_server)

lemma keeps_resolve: "clock_advances (px_clock e) \<Longrightarrow> keeps e (resolve_domain e domain)"
  by (auto simp: resolve_domain_def Let_def split: sum.split intro!: keeps_rules keeps_query_servers)

section \<open>Resolving ends in time\<close>

text \<open>Only the pause at the end of a round lets the clock of the world go on; a pause may last
  longer than asked for, by a bounded delay.\<close>

definition sleeps_at_most :: "nat \<Rightarrow> 's clock_ops \<Rightarrow> bool" where
  "sleeps_at_most late c \<longleftrightarrow> (\<forall>d s. clock_now c (clock_sleep c d s) \<le> clock_now c s + d + late)"

definition same_world :: "('w, 't, 'a) proxy_op \<Rightarrow> bool" where
  "same_world m \<longleftrightarrow> (\<forall>s. yields m s (\<lambda>r s1. pr_world s1 = pr_world s))"

lemma yields_same_bind:
  assumes "same_world m" and "pr_world s = w" and "\<And>x s1. pr_world s1 = w \<Longrightarrow> yields (f x) s1 Q"
    and "\<And>err s1. pr_world s1 = w \<Longrightarrow> Q (Inl err) s1"
  shows "yields (bind_lop m f) s Q"
  unfolding yields_bind
  by (rule yields_mono [OF assms(1) [unfolded same_world_def, rule_format]])
    (use assms(2) in \<open>auto split: sum.split intro: assms(3,4)\<close>)

lemma yields_bind_get: "yields (bind_lop (get_lop f) g) s Q \<longleftrightarrow> yields (g (f s)) s Q"
  by simp

lemma same_world_bind:
  fixes m :: "('w, 't, 'a) proxy_op"
  assumes "same_world m" "\<And>x. same_world (f x)"
  shows "same_world (bind_lop m f)"
  unfolding same_world_def
proof
  fix s
  show "yields (bind_lop m f) s (\<lambda>r s1. pr_world s1 = pr_world s)"
  proof (rule yields_same_bind [OF assms(1) refl])
    fix x and s1 :: "('w, 't) proxy_state" assume "pr_world s1 = pr_world s"
    with assms(2) [unfolded same_world_def, rule_format, of x s1]
    show "yields (f x) s1 (\<lambda>r s1. pr_world s1 = pr_world s)" by simp
  qed
qed

lemma same_world_read: "same_world read_packets_step"
  unfolding same_world_def read_packets_step_def yields_exec
proof
  fix s :: "('a, 'b) proxy_state"
  from read_fortinet_returns obtain t eng n r where
    "read_fortinet_packets (pr_transport s) (pr_ppp s) (pr_net s) = Return (t, eng, n, r)" by (metis prod_cases4)
  then show "case bind_exec (read_fortinet_packets (pr_transport s) (pr_ppp s) (pr_net s))
      (\<lambda>(t, eng, n, r). Return (r, s\<lparr>pr_transport := t, pr_ppp := eng, pr_net := n\<rparr>)) of
    Panic \<Rightarrow> True | Return (r, x) \<Rightarrow> pr_world x = pr_world s"
    by simp
qed

lemma same_world_basic:
  "same_world (return_lop x)" "same_world (fail_lop err)" "same_world (get_lop f)" "same_world (net_op g)"
  "same_world (on_net h)" "same_world (get_now e)" "same_world (smol_now e)" "same_world drain_step"
  "same_world (exec_lop (\<lambda>s. Panic))"
  by (auto simp: same_world_def net_op_def on_net_def get_now_def smol_now_def drain_step_def split: prod.split)

lemmas same_world_rules = same_world_bind same_world_basic same_world_read

lemma same_world_parts:
  "same_world (poll_stack e)" "same_world (send_query e query server handle d)"
  "same_world (take_answer e query_id handle d)" "same_world (receive_answer e query_id handle d)"
proof -
  show t: "same_world (take_answer e query_id handle d)" for d
    by (auto simp: take_answer_def split: exec.split sum.split intro!: same_world_rules)
  then show "same_world (receive_answer e query_id handle d)"
    by (auto simp: receive_answer_def split: sum.split intro!: same_world_rules)
  show "same_world (poll_stack e)" unfolding poll_stack_def by (intro same_world_rules)
  show "same_world (send_query e query server handle d)" by (auto simp: send_query_def intro!: same_world_rules)
qed

lemma dns_round_time:
  assumes "sleeps_at_most late (px_clock e)" "clock_now (px_clock e) (pr_world s) \<le> deadline + late"
  shows "yields (dns_round e query_id query server handle deadline d) s
    (\<lambda>r s1. clock_now (px_clock e) (pr_world s1) \<le> deadline + late)"
proof (cases "deadline \<le> clock_now (px_clock e) (pr_world s)")
  case True
  with assms(2) show ?thesis by (simp add: dns_round_def get_now_def)
next
  case False
  let ?Q = "\<lambda>(r :: (dns_wait + dns_end) res) s1. clock_now (px_clock e) (pr_world s1) \<le> deadline + late"
  have asleep: "yields (bind_lop (on_world (clock_sleep (px_clock e) LOOP_SLEEP)) (\<lambda>_. return_lop (Inl d2))) s1 ?Q"
    if "pr_world s1 = pr_world s" for s1 and d2 :: dns_wait
    using assms(1) [unfolded sleeps_at_most_def, rule_format, of LOOP_SLEEP "pr_world s"] that False
    by (simp add: on_world_def LOOP_SLEEP_def)
  note step = yields_same_bind [where w = "pr_world s"]
  from False assms(2) show ?thesis
    unfolding dns_round_def
    by (auto simp: get_now_def yields_bind_get simp del: yields_bind split: sum.split
        intro!: step [OF same_world_read] step [OF same_world_basic(8)]
          step [OF same_world_parts(1)] step [OF same_world_parts(2)] step [OF same_world_parts(4)] asleep)
qed

lemma query_server_time:
  assumes "sleeps_at_most late (px_clock e)"
  shows "yields (query_server e query_id query server last_error) s
    (\<lambda>r s1. clock_now (px_clock e) (pr_world s1) \<le> clock_now (px_clock e) (pr_world s) + (DNS_RESOLVE_TIMEOUT + late))"
proof -
  let ?now = "clock_now (px_clock e) (pr_world s)"
  have loop: "yields (loop_lop (dns_round e query_id query server handle (?now + DNS_RESOLVE_TIMEOUT)) d) s1
      (\<lambda>r s2. clock_now (px_clock e) (pr_world s2) \<le> ?now + DNS_RESOLVE_TIMEOUT + late)"
    if "pr_world s1 = pr_world s" for handle d s1
    by (rule yields_loop [where I = "\<lambda>d s2. clock_now (px_clock e) (pr_world s2) \<le> ?now + DNS_RESOLVE_TIMEOUT + late"])
      (use that in \<open>auto intro!: yields_mono [OF dns_round_time [OF assms]] split: sum.split\<close>)
  note step = yields_same_bind [where w = "pr_world s"]
  show ?thesis
    unfolding query_server_def
    by (auto simp: get_now_def yields_bind_get simp del: yields_bind split: sum.split
        intro!: step [OF same_world_basic(4)] step [OF same_world_basic(5)])
      (auto simp: on_net_def split: sum.split dns_end.split intro!: yields_mono [OF loop])
qed

lemma query_servers_time:
  assumes "sleeps_at_most late (px_clock e)"
  shows "yields (query_servers e query_id query domain servers last_error) s
    (\<lambda>r s1. clock_now (px_clock e) (pr_world s1)
       \<le> clock_now (px_clock e) (pr_world s) + length servers * (DNS_RESOLVE_TIMEOUT + late))"
proof (induction servers arbitrary: last_error s)
  case (Cons server servers)
  show ?case
    unfolding query_servers.simps yields_bind
    by (rule yields_mono [OF query_server_time [OF assms]])
      (force split: sum.split dns_end.split intro: yields_mono [OF Cons.IH])
qed simp

lemma resolve_domain_time:
  assumes "sleeps_at_most late (px_clock e)"
  shows "yields (resolve_domain e domain) s
    (\<lambda>r s1. clock_now (px_clock e) (pr_world s1)
       \<le> clock_now (px_clock e) (pr_world s) + length (px_dns_servers e) * (DNS_RESOLVE_TIMEOUT + late))"
  using query_servers_time [OF assms] by (auto simp: resolve_domain_def Let_def split: sum.split)

text \<open>C15. Resolving a name through the tunnel gives up in time: whatever the network stack
  answers, whatever arrives from the gateway and whether or not a DNS server ever replies,
  the resolution returns without a panic after at most five seconds for every DNS server,
  not counting the delay of the last pause for each of them, and it leaves the sessions and
  the cache alone. The clock goes on during the pauses. What the gateway sends is a
  finite script in any pieces, and the time that reading it takes is not counted: the deadline
  is looked at once in a round, and a round reads until nothing more has arrived.\<close>

theorem resolve_domain_in_time:
  assumes "clock_advances (px_clock e)" "sleeps_at_most late (px_clock e)"
  shows "\<exists>r s1. resolve_domain e domain s = Some (Return (r, s1))
    \<and> clock_now (px_clock e) (pr_world s1)
        \<le> clock_now (px_clock e) (pr_world s) + length (px_dns_servers e) * (5000 + late)
    \<and> pr_sessions s1 = pr_sessions s \<and> pr_direct s1 = pr_direct s \<and> pr_cache s1 = pr_cache s"
proof -
  obtain r s1 where r: "resolve_domain e domain s = Some (Return (r, s1))" "untouched e s s1"
    using keeps_resolve [OF assms(1), of domain] unfolding keeps_def returns_def by blast
  from yieldsD [OF resolve_domain_time [OF assms(2)] r(1)] r show ?thesis
    by (auto simp: untouched_def DNS_RESOLVE_TIMEOUT_def)
qed

section \<open>The cache\<close>

lemma resolve_and_store_Some:
  assumes "resolve_and_store e domain key now s = Some (Return (Inr a, s1))"
  shows "pr_cache s1 key = Some \<lparr>ce_addr = a, ce_expires_at = now + DNS_CACHE_TTL\<rparr>"
proof -
  have "yields (resolve_and_store e domain key now) s (\<lambda>r s1. case r of Inl err \<Rightarrow> True
      | Inr a \<Rightarrow> pr_cache s1 key = Some \<lparr>ce_addr = a, ce_expires_at = now + DNS_CACHE_TTL\<rparr>)"
    unfolding resolve_and_store_def
    by (simp cong: sum.case_cong) (simp add: yields_def split: sum.split)
  from yieldsD [OF this assms] show ?thesis by simp
qed

lemma cached_hit:
  "pr_cache s (to_ascii_lowercase domain) = Some c \<Longrightarrow> clock_now (px_clock e) (pr_world s) < ce_expires_at c \<Longrightarrow>
   resolve_domain_cached e domain s = Some (Return (Inr (ce_addr c), s))"
  by (simp add: resolve_domain_cached_def Let_def bind_lop_def catch_lop_def get_now_def get_lop_def
      return_lop_def op_lop_def return_op_def)

lemma cached_miss:
  "(\<forall>c. pr_cache s (to_ascii_lowercase domain) = Some c \<longrightarrow> ce_expires_at c \<le> clock_now (px_clock e) (pr_world s)) \<Longrightarrow>
   resolve_domain_cached e domain s =
     resolve_and_store e domain (to_ascii_lowercase domain) (clock_now (px_clock e) (pr_world s)) s"
  by (auto simp: resolve_domain_cached_def Let_def bind_lop_def catch_lop_def get_now_def get_lop_def
      split: option.split)

text \<open>The DNS cache: once a name has been resolved through the tunnel, every later question
  for it, in whatever letter case, gets the same address without any traffic until five
  minutes after the first question; from then on the tunnel is asked again.\<close>

theorem names_are_cached:
  assumes "pr_cache s (to_ascii_lowercase domain) = None"
    and "resolve_domain_cached e domain s = Some (Return (Inr a, s1))"
    and "to_ascii_lowercase other = to_ascii_lowercase domain"
    and "pr_cache s2 (to_ascii_lowercase domain) = pr_cache s1 (to_ascii_lowercase domain)"
  shows "if clock_now (px_clock e) (pr_world s2) < clock_now (px_clock e) (pr_world s) + 300000
    then resolve_domain_cached e other s2 = Some (Return (Inr a, s2))
    else resolve_domain_cached e other s2 =
      resolve_and_store e other (to_ascii_lowercase domain) (clock_now (px_clock e) (pr_world s2)) s2"
proof -
  from assms(1,2) have "pr_cache s1 (to_ascii_lowercase domain)
      = Some \<lparr>ce_addr = a, ce_expires_at = clock_now (px_clock e) (pr_world s) + DNS_CACHE_TTL\<rparr>"
    using cached_miss [of s domain e] by (simp add: resolve_and_store_Some)
  with assms(3,4) show ?thesis
    using cached_hit [of s2 other _ e] cached_miss [of s2 other e] by (auto simp: DNS_CACHE_TTL_def)
qed

section \<open>A resolution\<close>

text \<open>A stack whose connections are established at once and deliver one DNS response.\<close>

definition sample_answer :: bytes where
  "sample_answer =
     [0, 35, 0xea, 0xa8, 0x81, 0x80, 0, 1, 0, 1, 0, 0, 0, 0, 1, 97, 0, 0, 1, 0, 1,
      0xc0, 12, 0, 1, 0, 1, 0, 0, 0, 60, 0, 4, 10, 0, 0, 7]"

definition sample_stack :: "unit smol_ops" where
  "sample_stack =
     \<lparr>smol_new = (\<lambda>seed ip peer caps now. ()), smol_add = (\<lambda>rx tx t. (0, t)),
      smol_connect = (\<lambda>h ip port local t. (Inr (), t)), smol_poll = (\<lambda>now d t. (False, d, t)),
      smol_state = (\<lambda>h t. TcpEstablished), smol_is_active = (\<lambda>h t. True), smol_can_send = (\<lambda>h t. True),
      smol_send = (\<lambda>h bs t. (Inr (length bs), t)), smol_recv = (\<lambda>h n t. (Inr sample_answer, t)),
      smol_close = (\<lambda>h t. t), smol_remove = (\<lambda>h t. t)\<rparr>"

definition sample_env :: "(nat, unit) proxy_env" where
  "sample_env =
     \<lparr>px_clock = \<lparr>clock_now = (\<lambda>w. w), clock_sleep = (\<lambda>d w. w + d)\<rparr>,
      px_bind = (\<lambda>a w. (Inr (), w)), px_accept = (\<lambda>w. (Inl (IoError WouldBlock []), w)),
      px_call = (\<lambda>c w. (Inr (), w)), px_connect = (\<lambda>a d w. (Inl (IoError TimedOut []), w)),
      px_resolve = (\<lambda>d p w. (Inr [], w)), px_close = (\<lambda>c w. w), px_log = (\<lambda>l m w. w), px_stop = (\<lambda>w. False),
      px_lib = sample_stack, px_table = \<lparr>routes = []\<rparr>, px_dns_servers = [Ipv4Addr 10 0 0 53]\<rparr>"

definition sample_proxy :: "(nat, unit) proxy_state" where
  "sample_proxy =
     \<lparr>pr_world = 0, pr_start = Some 0,
      pr_transport = fortinet_transport_new [Inl (IoError WouldBlock [])] idle_writer, pr_ppp = ppp_engine_new,
      pr_net = \<lparr>net_sockets = (), net_device = ppp_device_new 1354, next_ephemeral_port = 49152\<rparr>,
      pr_cache = Map.empty, pr_next_id = 1, pr_sessions = [], pr_direct = []\<rparr>"

lemma sample_clock: "clock_advances (px_clock sample_env)"
  by (simp add: clock_advances_def sample_env_def)

text \<open>A server that never answers: the stack does not connect, and 6000 reads would block.\<close>

definition silent_env :: "(nat, unit) proxy_env" where
  "silent_env = sample_env\<lparr>px_lib := sample_stack\<lparr>smol_state := (\<lambda>h t. TcpOther 2)\<rparr>\<rparr>"

theorem resolve_domain_in_time_witness:
  "\<exists>r s1. resolve_domain silent_env ''a'' (sample_proxy\<lparr>pr_transport :=
        fortinet_transport_new (replicate 6000 (Inl (IoError WouldBlock []))) idle_writer\<rparr>) = Some (Return (r, s1))
     \<and> pr_world s1 \<le> 5000 \<and> pr_sessions s1 = []"
proof -
  have "clock_advances (px_clock silent_env)" "sleeps_at_most 0 (px_clock silent_env)"
    by (simp_all add: clock_advances_def sleeps_at_most_def silent_env_def sample_env_def)
  from resolve_domain_in_time [OF this, of "''a''" "sample_proxy\<lparr>pr_transport :=
        fortinet_transport_new (replicate 6000 (Inl (IoError WouldBlock []))) idle_writer\<rparr>"]
  show ?thesis by (simp add: silent_env_def sample_env_def sample_proxy_def) blast
qed

lemma sample_query: "dns_query_id ''a'' = 0xeaa8"
  by code_simp

lemma sample_query_bytes:
  "build_tcp_query 0xeaa8 ''a'' = Inr [0, 19, 0xea, 0xa8, 1, 0, 0, 1, 0, 0, 0, 0, 0, 0, 1, 97, 0, 0, 1, 0, 1]"
proof -
  have "encode_name ''a'' = Inr [1, 97, 0]" by code_simp
  then show ?thesis by (simp add: build_tcp_query_def u16_to_be_bytes_def DNS_TYPE_A_def DNS_CLASS_IN_def Let_def)
qed

lemma sample_response: "parse_tcp_response sample_answer 0xeaa8 = Return (Inr [Ipv4Addr 10 0 0 7])"
  by code_simp

text \<open>The state after the name has been resolved: the answer is in the cache.\<close>

definition sample_after :: "(nat, unit) proxy_state" where
  "sample_after = sample_proxy
     \<lparr>pr_transport := fortinet_transport_new [] idle_writer,
      pr_net := (pr_net sample_proxy)\<lparr>next_ephemeral_port := 49153\<rparr>\<rparr>"

lemma sample_read_packet:
  "read_packet (fortinet_transport_new [Inl (IoError WouldBlock [])] idle_writer)
     = (fortinet_transport_new [] idle_writer, Inl (Io (IoError WouldBlock [])))"
  by (subst read_packet.simps)
    (simp add: try_decode_buffered_packet_def fortinet_transport_new_def HEADER_LEN_def)

lemma sample_reads:
  "read_fortinet_packets (pr_transport sample_proxy) ppp_engine_new n
     = Return (fortinet_transport_new [] idle_writer, ppp_engine_new, n, Inr ())"
  by (subst read_fortinet_packets.simps)
    (simp add: sample_proxy_def sample_read_packet is_temporary_read_error_def)

lemma sample_drains:
  "tx_queue (net_device n) = [] \<Longrightarrow> drain_netstack_to_fortinet n ppp_engine_new t = (n, ppp_engine_new, t, Inr ())"
  by (subst drain_netstack_to_fortinet.simps)
    (simp add: pop_tx_ipv4_def pop_tx_def flush_ppp_control_def flush_ppp_outgoing.simps next_outgoing_def
      ppp_engine_new_def)

lemmas run_lop = bind_lop_def catch_lop_def op_lop_def exec_lop_def return_lop_def return_op_def fail_lop_def
  fail_op_def get_lop_def modify_lop_def get_now_def net_op_def on_net_def on_world_def

lemmas sample_stack_simps = sample_stack_def sample_env_def tcp_is_established_def tcp_send_def tcp_recv_def tcp_close_def
  remove_tcp_socket_def net_poll_def add_tcp_socket_def connect_tcp_socket_def next_port_def

lemma sample_round:
  "dns_round sample_env 0xeaa8 query server 0 5000 \<lparr>dw_sent = False, dw_response = [], dw_error = None\<rparr>
      (sample_proxy\<lparr>pr_net := (pr_net sample_proxy)\<lparr>next_ephemeral_port := 49153\<rparr>\<rparr>)
     = Some (Return (Inr (Inr (Resolved (Ipv4Addr 10 0 0 7))), sample_after))"
proof -
  let ?s = "sample_proxy\<lparr>pr_net := (pr_net sample_proxy)\<lparr>next_ephemeral_port := 49153\<rparr>\<rparr>"
  have r: "read_packets_step ?s = Some (Return (Inr (), sample_after))"
    using sample_reads by (simp add: read_packets_step_def exec_lop_def sample_after_def sample_proxy_def)
  have p: "poll_stack sample_env sample_after = Some (Return (Inr False, sample_after))"
    by (simp add: poll_stack_def smol_now_def run_lop sample_after_def sample_proxy_def sample_stack_simps)
  have q: "send_query sample_env query server 0 \<lparr>dw_sent = False, dw_response = [], dw_error = None\<rparr> sample_after
      = Some (Return (Inr (Inl \<lparr>dw_sent = True, dw_response = [], dw_error = None\<rparr>), sample_after))"
    by (simp add: send_query_def run_lop sample_after_def sample_proxy_def sample_stack_simps)
  have d: "drain_step sample_after = Some (Return (Inr (), sample_after))"
    by (simp add: sample_drains drain_step_def run_lop sample_after_def sample_proxy_def ppp_device_new_def)
  have a: "receive_answer sample_env 0xeaa8 0 \<lparr>dw_sent = True, dw_response = [], dw_error = None\<rparr> sample_after
      = Some (Return (Inr (Inr (Resolved (Ipv4Addr 10 0 0 7))), sample_after))"
    by (simp add: receive_answer_def take_answer_def sample_response run_lop sample_stack_simps can_route_def)
      (simp add: sample_answer_def sample_after_def sample_proxy_def)
  show ?thesis
    by (simp add: dns_round_def run_lop r p q d a) (simp add: sample_proxy_def sample_env_def)
qed

lemma sample_resolves:
  "resolve_domain sample_env ''a'' sample_proxy = Some (Return (Inr (Ipv4Addr 10 0 0 7), sample_after))"
proof -
  let ?query = "[0, 19, 0xea, 0xa8, 1, 0, 0, 1, 0, 0, 0, 0, 0, 0, 1, 97, 0, 0, 1, 0, 1] :: bytes"
  have l: "loop_lop (dns_round sample_env 0xeaa8 ?query (Ipv4Addr 10 0 0 53) 0 5000)
        \<lparr>dw_sent = False, dw_response = [], dw_error = None\<rparr>
        (sample_proxy\<lparr>pr_net := (pr_net sample_proxy)\<lparr>next_ephemeral_port := 49153\<rparr>\<rparr>)
      = Some (Return (Inr (Resolved (Ipv4Addr 10 0 0 7)), sample_after))"
    by (subst loop_lop.simps) (simp add: sample_round)
  have q: "query_server sample_env 0xeaa8 ?query (Ipv4Addr 10 0 0 53) None sample_proxy
      = Some (Return (Inr (Resolved (Ipv4Addr 10 0 0 7)), sample_after))"
    using l by (simp add: query_server_def run_lop sample_proxy_def sample_stack_simps DNS_RESOLVE_TIMEOUT_def)
  have "px_dns_servers sample_env = [Ipv4Addr 10 0 0 53]" by (simp add: sample_env_def)
  with q show ?thesis
    by (simp add: resolve_domain_def sample_query sample_query_bytes run_lop)
qed

theorem names_are_cached_witness:
  "resolve_domain_cached sample_env ''A'' (sample_after\<lparr>pr_world := 299999,
       pr_cache := [''a'' \<mapsto> \<lparr>ce_addr = Ipv4Addr 10 0 0 7, ce_expires_at = 300000\<rparr>]\<rparr>)
     = Some (Return (Inr (Ipv4Addr 10 0 0 7), sample_after\<lparr>pr_world := 299999,
       pr_cache := [''a'' \<mapsto> \<lparr>ce_addr = Ipv4Addr 10 0 0 7, ce_expires_at = 300000\<rparr>]\<rparr>))"
proof -
  let ?c = "[''a'' \<mapsto> \<lparr>ce_addr = Ipv4Addr 10 0 0 7, ce_expires_at = 300000\<rparr>]"
  have lower: "to_ascii_lowercase ''a'' = ''a''" "to_ascii_lowercase ''A'' = ''a''" by code_simp+
  have none: "pr_cache sample_proxy (to_ascii_lowercase ''a'') = None" by (simp add: sample_proxy_def)
  have "resolve_domain_cached sample_env ''a'' sample_proxy
      = Some (Return (Inr (Ipv4Addr 10 0 0 7), sample_after\<lparr>pr_cache := ?c\<rparr>))"
    using none cached_miss [of sample_proxy "''a''" sample_env]
    by (simp add: resolve_and_store_def run_lop sample_resolves lower)
      (simp add: sample_after_def sample_proxy_def sample_env_def DNS_CACHE_TTL_def)
  from names_are_cached [OF none this, of "''A''" "sample_after\<lparr>pr_world := 299999, pr_cache := ?c\<rparr>"] show ?thesis
    by (simp add: lower) (simp add: sample_env_def sample_proxy_def)
qed

end
