(* ===== verification/Proxy_Runtime.thy ===== *)
theory Proxy_Runtime
  imports Proxy_Resolver
begin

text \<open>
  The runtime of the SOCKS proxy (\<open>src/proxy/runtime.rs\<close>): accepting clients, and the loop that
  moves the bytes of their sessions between sockets, network stack and tunnel.

  Shown here: in every state of the loop each session runs where the route table sends its
  destination, through the tunnel or directly, and has a number that is not zero.
\<close>

section \<open>Accepting clients\<close>

definition log_op :: "('w, 't) proxy_env \<Rightarrow> u8 \<Rightarrow> string \<Rightarrow> ('w, 't, unit) proxy_op" where
  "log_op e level line = on_world (px_log e level line)"

fun calls_op :: "('w, 't) proxy_env \<Rightarrow> sock_call list \<Rightarrow> ('w, 't, unit) proxy_op" where
  "calls_op e [] = return_lop ()"
| "calls_op e (c # cs) = bind_lop (world_op (px_call e c)) (\<lambda>_. calls_op e cs)"

text \<open>A failure reply whose own errors are ignored, after which the client is dropped.\<close>

definition refuse :: "('w, 't) proxy_env \<Rightarrow> u8 \<Rightarrow> peer_socket \<Rightarrow> ('w, 't, unit) proxy_op" where
  "refuse e reply client = on_world (px_close e (snd (on_socket (write_failure reply) client)))"

definition take_session_id :: "('w, 't, u64) proxy_op" where
  "take_session_id =
     bind_lop (get_lop pr_next_id) (\<lambda>n.
     bind_lop (modify_lop (\<lambda>s. s\<lparr>pr_next_id := max (n + 1) 1\<rparr>)) (\<lambda>_. return_lop n))"

definition show_target :: "ipv4_addr \<Rightarrow> u16 \<Rightarrow> string" where
  "show_target dest port = show_ipv4 dest @ '':'' @ show_word port"

definition established_calls :: "sock_call list" where
  "established_calls = [SetReadTimeout None, SetWriteTimeout None, SetNonblocking True]"

definition start_direct_session ::
  "('w, 't) proxy_env \<Rightarrow> u64 \<Rightarrow> peer_socket \<Rightarrow> socket_addr \<Rightarrow> ipv4_addr \<Rightarrow> u16 \<Rightarrow> ('w, 't, direct_session) proxy_op" where
  "start_direct_session e session_id client client_addr dest port =
     catch_lop (world_op (px_connect e (SocketAddrV4 dest port) DIRECT_CONNECT_TIMEOUT)) (\<lambda>r.
       case r of
         Inl err \<Rightarrow> bind_lop (refuse e REPLY_HOST_UNREACHABLE client) (\<lambda>_. fail_lop err)
       | Inr remote \<Rightarrow>
           (case on_socket (write_success ipv4_unspecified 0) client of
              (Inl err, client1) \<Rightarrow> bind_lop (on_world (px_close e client1)) (\<lambda>_. fail_lop err)
            | (Inr _, client1) \<Rightarrow>
                bind_lop (calls_op e (established_calls @ established_calls)) (\<lambda>_.
                bind_lop (log_op e LOG_INFO (''SOCKS5 direct session #'' @ show_word session_id @ '' from ''
                  @ show_socket_addr client_addr @ '' to '' @ show_target dest port @ '' outside VPN routes'')) (\<lambda>_.
                  return_lop
                    \<lparr>ds_id = session_id, ds_client = client1, ds_remote = remote, ds_to_remote = [], ds_to_client = [],
                     ds_local_closed = False, ds_remote_closed = False, ds_client_to_remote_bytes = 0,
                     ds_remote_to_client_bytes = 0, ds_client_addr = client_addr,
                     ds_target = show_target dest port, ds_close_reason = None\<rparr>))))"

text \<open>The address of the requested target, if there is one.\<close>

definition find_destination ::
  "('w, 't) proxy_env \<Rightarrow> peer_socket \<Rightarrow> socks_connect_request \<Rightarrow> ('w, 't, ipv4_addr option) proxy_op" where
  "find_destination e client request =
     (case target request of
        TargetIpv4 addr \<Rightarrow> return_lop (Some addr)
      | TargetDomain domain \<Rightarrow>
          catch_lop (resolve_domain_cached e domain) (\<lambda>r.
            case r of
              Inr addr \<Rightarrow>
                bind_lop (log_op e LOG_INFO (''resolved '' @ domain @ '' via VPN DNS to '' @ show_ipv4 addr)) (\<lambda>_.
                  return_lop (Some addr))
            | Inl err \<Rightarrow>
                catch_lop (resolve_domain_direct e domain (target_port request)) (\<lambda>r2.
                  case r2 of
                    Inr addr \<Rightarrow>
                      bind_lop (log_op e LOG_INFO (''resolved '' @ domain @ '' via system DNS to '' @ show_ipv4 addr
                        @ '' after VPN DNS failed: '' @ display_error err)) (\<lambda>_. return_lop (Some addr))
                  | Inl direct_err \<Rightarrow>
                      bind_lop (refuse e REPLY_HOST_UNREACHABLE client) (\<lambda>_.
                      bind_lop (log_op e LOG_WARN (''failed to resolve '' @ domain @ '' via VPN DNS (''
                        @ display_error err @ '') and system DNS ('' @ display_error direct_err @ '')'')) (\<lambda>_.
                        return_lop None)))))"

definition open_direct ::
  "('w, 't) proxy_env \<Rightarrow> peer_socket \<Rightarrow> socket_addr \<Rightarrow> ipv4_addr \<Rightarrow> u16 \<Rightarrow> ('w, 't, unit) proxy_op" where
  "open_direct e client addr dest port =
     bind_lop take_session_id (\<lambda>session_id.
     catch_lop (start_direct_session e session_id client addr dest port) (\<lambda>r.
       case r of
         Inr session \<Rightarrow> modify_lop (\<lambda>s. s\<lparr>pr_direct := pr_direct s @ [session]\<rparr>)
       | Inl err \<Rightarrow>
           log_op e LOG_WARN (''failed to start direct SOCKS5 connection to '' @ show_target dest port @ '': ''
             @ display_error err)))"

definition open_tunnelled ::
  "('w, 't) proxy_env \<Rightarrow> peer_socket \<Rightarrow> socket_addr \<Rightarrow> ipv4_addr \<Rightarrow> u16 \<Rightarrow> ('w, 't, unit) proxy_op" where
  "open_tunnelled e client addr dest port =
     bind_lop (net_op (add_tcp_socket (px_lib e))) (\<lambda>handle.
     bind_lop (net_op (connect_tcp_socket (px_lib e) handle dest port)) (\<lambda>r.
       case r of
         Inl err \<Rightarrow>
           bind_lop (on_net (remove_tcp_socket (px_lib e) handle)) (\<lambda>_.
           bind_lop (refuse e REPLY_GENERAL_FAILURE client) (\<lambda>_.
             log_op e LOG_WARN (''failed to start proxy TCP connection to '' @ show_target dest port @ '': '' @ err)))
       | Inr _ \<Rightarrow>
           bind_lop take_session_id (\<lambda>session_id.
           bind_lop (calls_op e established_calls) (\<lambda>_.
           bind_lop (log_op e LOG_INFO (''SOCKS5 proxy session #'' @ show_word session_id @ '' from ''
             @ show_socket_addr addr @ '' to '' @ show_target dest port)) (\<lambda>_.
             modify_lop (\<lambda>s. s\<lparr>pr_sessions := pr_sessions s @
               [\<lparr>ps_id = session_id, ps_client = client, ps_handle = handle, ps_to_remote = [], ps_to_client = [],
                 ps_socks_replied = False, ps_local_closed = False, ps_remote_closed = False,
                 ps_client_to_remote_bytes = 0, ps_remote_to_client_bytes = 0, ps_client_addr = addr,
                 ps_target = show_target dest port, ps_close_reason = None\<rparr>]\<rparr>))))))"

definition serve_request ::
  "('w, 't) proxy_env \<Rightarrow> peer_socket \<Rightarrow> socket_addr \<Rightarrow> socks_connect_request \<Rightarrow> ('w, 't, unit) proxy_op" where
  "serve_request e client addr request =
     bind_lop (find_destination e client request) (\<lambda>found.
       case found of
         None \<Rightarrow> return_lop ()
       | Some dest \<Rightarrow>
           if \<not> can_route (px_table e) dest then open_direct e client addr dest (target_port request)
           else open_tunnelled e client addr dest (target_port request))"

text \<open>One accepted client; \<open>Inr\<close> ends the loop.\<close>

definition serve_client :: "('w, 't) proxy_env \<Rightarrow> peer_socket \<Rightarrow> socket_addr \<Rightarrow> ('w, 't, unit) proxy_op" where
  "serve_client e client addr =
     bind_lop (calls_op e [SetNonblocking False, SetReadTimeout (Some ACCEPT_HANDSHAKE_TIMEOUT),
       SetWriteTimeout (Some ACCEPT_HANDSHAKE_TIMEOUT), TryClone]) (\<lambda>_.
       case on_socket read_connect_request client of
         (Inr request, client1) \<Rightarrow> serve_request e client1 addr request
       | (Inl err, client1) \<Rightarrow>
           bind_lop (log_op e LOG_WARN (''SOCKS5 handshake from '' @ show_socket_addr addr @ '' failed: ''
             @ display_error err)) (\<lambda>_. on_world (px_close e client1)))"

definition accept_body :: "('w, 't) proxy_env \<Rightarrow> unit \<Rightarrow> ('w, 't, unit + unit) proxy_op" where
  "accept_body e _ =
     catch_lop (world_op (px_accept e)) (\<lambda>r.
       case r of
         Inl (Io err) \<Rightarrow> if kind err = WouldBlock then return_lop (Inr ()) else fail_lop (Io err)
       | Inl err \<Rightarrow> fail_lop err
       | Inr (client, addr) \<Rightarrow> bind_lop (serve_client e client addr) (\<lambda>_. return_lop (Inl ())))"

definition accept_ready_clients :: "('w, 't) proxy_env \<Rightarrow> ('w, 't, unit) proxy_op" where
  "accept_ready_clients e = loop_lop (accept_body e) ()"

section \<open>The loop\<close>

definition pump_local_step :: "('w, 't) proxy_env \<Rightarrow> ('w, 't, unit) proxy_op" where
  "pump_local_step e = op_lop (\<lambda>s.
     case pump_local_to_tcp (px_lib e) (pr_sessions s) (pr_net s) of
       (ss, n) \<Rightarrow> (Inr (), s\<lparr>pr_sessions := ss, pr_net := n\<rparr>))"

definition pump_remote_step :: "('w, 't) proxy_env \<Rightarrow> ('w, 't, unit) proxy_op" where
  "pump_remote_step e = (\<lambda>s.
     case pump_tcp_to_local (px_lib e) (pr_sessions s) (pr_net s) of
       None \<Rightarrow> None
     | Some (ss, n, r) \<Rightarrow> Some (Return (r, s\<lparr>pr_sessions := ss, pr_net := n\<rparr>)))"

definition cleanup_step :: "('w, 't) proxy_env \<Rightarrow> ('w, 't, unit) proxy_op" where
  "cleanup_step e = modify_lop (\<lambda>s.
     case cleanup_sessions (px_lib e) (pr_sessions s) (pr_net s) of
       (ss, n, removed) \<Rightarrow>
         s\<lparr>pr_sessions := ss, pr_net := n,
           pr_world := fold (\<lambda>r. px_log e LOG_INFO (show_closed_session r)) removed (pr_world s)\<rparr>)"

definition cleanup_direct_step :: "('w, 't) proxy_env \<Rightarrow> ('w, 't, unit) proxy_op" where
  "cleanup_direct_step e = modify_lop (\<lambda>s.
     case cleanup_direct_sessions (pr_direct s) of
       (ss, removed) \<Rightarrow>
         s\<lparr>pr_direct := ss,
           pr_world := fold (\<lambda>r. px_log e LOG_INFO (show_closed_direct_session r)) removed (pr_world s)\<rparr>)"

definition proxy_round :: "('w, 't) proxy_env \<Rightarrow> unit \<Rightarrow> ('w, 't, unit + unit) proxy_op" where
  "proxy_round e _ =
     bind_lop (get_lop (\<lambda>s. px_stop e (pr_world s))) (\<lambda>stop.
       if stop then return_lop (Inr ())
       else
         bind_lop (accept_ready_clients e) (\<lambda>_.
         bind_lop read_packets_step (\<lambda>_.
         bind_lop (pump_local_step e) (\<lambda>_.
         bind_lop (poll_stack e) (\<lambda>_.
         bind_lop (pump_remote_step e) (\<lambda>_.
         bind_lop (modify_lop (\<lambda>s. s\<lparr>pr_direct := pump_direct_sessions (pr_direct s)\<rparr>)) (\<lambda>_.
         bind_lop drain_step (\<lambda>_.
         bind_lop (cleanup_step e) (\<lambda>_.
         bind_lop (cleanup_direct_step e) (\<lambda>_.
         bind_lop (on_world (clock_sleep (px_clock e) LOOP_SLEEP)) (\<lambda>_. return_lop (Inl ()))))))))))))"

definition shut_down :: "direct_session \<Rightarrow> direct_session" where
  "shut_down s =
     s\<lparr>ds_client := (ds_client s)\<lparr>sock_shut := sock_shut (ds_client s) @ [ShutdownBoth]\<rparr>,
       ds_remote := (ds_remote s)\<lparr>sock_shut := sock_shut (ds_remote s) @ [ShutdownBoth]\<rparr>\<rparr>"

definition close_sessions :: "('w, 't) proxy_env \<Rightarrow> ('w, 't, unit) proxy_op" where
  "close_sessions e = modify_lop (\<lambda>s.
     s\<lparr>pr_net := fold (\<lambda>x. tcp_close (px_lib e) (ps_handle x)) (pr_sessions s) (pr_net s),
       pr_direct := map shut_down (pr_direct s)\<rparr>)"

definition proxy_initial ::
  "('w, 't) proxy_env \<Rightarrow> ipv4_addr \<Rightarrow> fortinet_transport \<Rightarrow> ppp_engine \<Rightarrow> nat option \<Rightarrow> 'w \<Rightarrow> ('w, 't) proxy_state" where
  "proxy_initial e ip t eng since w =
     \<lparr>pr_world = w,
      pr_start = (case since of Some m \<Rightarrow> Some m | None \<Rightarrow> Some (clock_now (px_clock e) w)),
      pr_transport = t, pr_ppp = eng,
      pr_net = proxy_net_stack_new (px_lib e) ip (peer_ip eng) (smol_millis e since w),
      pr_cache = Map.empty, pr_next_id = 1, pr_sessions = [], pr_direct = []\<rparr>"

definition proxy_main :: "('w, 't) proxy_env \<Rightarrow> socket_addr \<Rightarrow> ('w, 't, unit) proxy_op" where
  "proxy_main e listen =
     bind_lop (calls_op e [SetReadTimeout (Some RUNTIME_READ_TIMEOUT), SetWriteTimeout (Some RUNTIME_READ_TIMEOUT)]) (\<lambda>_.
     bind_lop (world_op (px_bind e listen)) (\<lambda>_.
     bind_lop (calls_op e [SetNonblocking True]) (\<lambda>_.
     bind_lop (log_op e LOG_INFO (''SOCKS5H proxy listening on '' @ show_socket_addr listen)) (\<lambda>_.
     bind_lop (loop_lop (proxy_round e) ()) (\<lambda>_.
     bind_lop (close_sessions e) (\<lambda>_. drain_step))))))"

text \<open>The result, the world and the start of the clock of the stack; \<open>None\<close> when the loop goes on.\<close>

definition run_runtime ::
  "('w, 't) proxy_env \<Rightarrow> socket_addr \<Rightarrow> fortinet_transport \<Rightarrow> ppp_engine \<Rightarrow> nat option \<Rightarrow> 'w \<Rightarrow>
     ((unit res \<times> nat option \<times> 'w) exec) option" where
  "run_runtime e listen t eng since w =
     (case local_ip eng of
        None \<Rightarrow> Some (Return (Inl (Pppd ''proxy runtime requires an opened PPP link''), since, w))
      | Some ip \<Rightarrow>
          map_option (map_exec (\<lambda>(r, s). (r, pr_start s, pr_world s)))
            (proxy_main e listen (proxy_initial e ip t eng since w)))"

section \<open>Where sessions run\<close>

definition tunnelled_ok :: "proxy_route_table \<Rightarrow> proxy_session \<Rightarrow> bool" where
  "tunnelled_ok table x \<longleftrightarrow> ps_id x \<noteq> 0 \<and> (\<exists>dest port. ps_target x = show_target dest port \<and> can_route table dest)"

definition direct_ok :: "proxy_route_table \<Rightarrow> direct_session \<Rightarrow> bool" where
  "direct_ok table x \<longleftrightarrow> ds_id x \<noteq> 0 \<and> (\<exists>dest port. ds_target x = show_target dest port \<and> \<not> can_route table dest)"

definition routed :: "('w, 't) proxy_env \<Rightarrow> ('w, 't) proxy_state \<Rightarrow> bool" where
  "routed e s \<longleftrightarrow> pr_next_id s \<noteq> 0 \<and> list_all (tunnelled_ok (px_table e)) (pr_sessions s)
     \<and> list_all (direct_ok (px_table e)) (pr_direct s)"

definition stays_routed :: "('w, 't) proxy_env \<Rightarrow> ('w, 't, 'a) proxy_op \<Rightarrow> bool" where
  "stays_routed e m \<longleftrightarrow> (\<forall>s. routed e s \<longrightarrow> yields m s (\<lambda>r s1. routed e s1))"

lemma yields_stays: "stays_routed e m \<Longrightarrow> routed e s \<Longrightarrow> (\<And>r s1. routed e s1 \<Longrightarrow> Q r s1) \<Longrightarrow> yields m s Q"
  unfolding stays_routed_def by (blast intro: yields_mono)

lemma returns_yields: "returns m s P \<Longrightarrow> (\<And>r s1. P r s1 \<Longrightarrow> Q r s1) \<Longrightarrow> yields m s Q"
  by (auto simp: returns_def yields_def)

lemma yields_catch_stays:
  "stays_routed e m \<Longrightarrow> routed e s \<Longrightarrow> (\<And>r s1. routed e s1 \<Longrightarrow> yields (f r) s1 Q) \<Longrightarrow> yields (catch_lop m f) s Q"
  unfolding yields_simps by (rule yields_stays)

lemma yields_bind_stays:
  "stays_routed e m \<Longrightarrow> routed e s \<Longrightarrow> (\<And>x s1. routed e s1 \<Longrightarrow> yields (f x) s1 Q) \<Longrightarrow>
   (\<And>err s1. routed e s1 \<Longrightarrow> Q (Inl err) s1) \<Longrightarrow> yields (bind_lop m f) s Q"
  unfolding bind_lop_def by (erule yields_catch_stays) (auto split: sum.split)

lemma stays_catch: "stays_routed e m \<Longrightarrow> (\<And>r. stays_routed e (f r)) \<Longrightarrow> stays_routed e (catch_lop m f)"
  unfolding stays_routed_def yields_simps by (blast intro: yields_mono)

lemma stays_simple: "stays_routed e (return_lop x)" "stays_routed e (fail_lop err)" "stays_routed e (get_lop g)"
  by (simp_all add: stays_routed_def)

lemma stays_bind: "stays_routed e m \<Longrightarrow> (\<And>x. stays_routed e (f x)) \<Longrightarrow> stays_routed e (bind_lop m f)"
  unfolding bind_lop_def by (auto split: sum.split intro!: stays_catch stays_simple)

lemma stays_world: "stays_routed e (world_op g)" "stays_routed e (on_world h)"
  by (auto simp: stays_routed_def world_op_def on_world_def routed_def io_op_def split: prod.split sum.split)

lemma stays_net: "stays_routed e (net_op g)" "stays_routed e (on_net h)"
  by (auto simp: stays_routed_def net_op_def on_net_def routed_def split: prod.split)

lemma stays_keeps: "keeps e m \<Longrightarrow> stays_routed e m"
  unfolding stays_routed_def keeps_def
  by (auto simp: untouched_def routed_def intro!: returns_yields)

lemmas stays_rules = stays_bind stays_catch stays_simple stays_world stays_net

lemma stays_calls: "stays_routed e (calls_op e cs)"
  by (induction cs) (auto intro!: stays_rules)

lemma stays_log: "stays_routed e (log_op e level line)" "stays_routed e (refuse e reply client)"
  by (simp_all add: log_op_def refuse_def stays_world)

lemma stays_cached: "clock_advances (px_clock e) \<Longrightarrow> stays_routed e (resolve_domain_cached e domain)"
  unfolding resolve_domain_cached_def resolve_and_store_def Let_def
  by (auto split: option.split intro!: stays_rules stays_keeps [OF keeps_resolve] stays_keeps [OF keeps_steps(1)])
    (auto simp: stays_routed_def routed_def)

lemma stays_find:
  "clock_advances (px_clock e) \<Longrightarrow> stays_routed e (find_destination e client request)"
  unfolding find_destination_def resolve_domain_direct_def
  by (auto split: socks_target.split sum.split intro!: stays_rules stays_cached stays_log)

lemma next_id_not_0: "max m 1 \<noteq> (0 :: u64)"
  by (auto simp: max_def)

lemma stays_take_id:
  assumes "\<And>n s1. n \<noteq> 0 \<Longrightarrow> routed e s1 \<Longrightarrow> yields (f n) s1 (\<lambda>r s2. routed e s2)"
  shows "stays_routed e (bind_lop take_session_id f)"
  using assms by (auto simp: stays_routed_def take_session_id_def routed_def next_id_not_0)

lemma direct_okI:
  "ds_id x \<noteq> 0 \<Longrightarrow> \<not> can_route table dest \<Longrightarrow> ds_target x = show_target dest port \<Longrightarrow> direct_ok table x"
  by (auto simp: direct_ok_def)

lemma yields_start_direct:
  assumes "routed e s" and "n \<noteq> 0" and "\<not> can_route (px_table e) dest"
  shows "yields (start_direct_session e n client addr dest port) s
    (\<lambda>r s1. routed e s1 \<and> (\<forall>x. r = Inr x \<longrightarrow> direct_ok (px_table e) x))"
  unfolding start_direct_session_def
  using assms
  by (auto simp del: yields_bind yields_simps(5) split: sum.split prod.split
      intro!: direct_okI [where dest = dest and port = port] yields_catch_stays [OF stays_world(1)] yields_bind_stays [OF stays_log(2)]
        yields_bind_stays [OF stays_world(2)] yields_bind_stays [OF stays_calls] yields_bind_stays [OF stays_log(1)])

lemma yields_push_direct:
  "routed e s \<Longrightarrow> direct_ok (px_table e) x \<Longrightarrow>
   yields (modify_lop (\<lambda>s. s\<lparr>pr_direct := pr_direct s @ [x]\<rparr>)) s (\<lambda>r s1. routed e s1)"
  by (simp add: routed_def)

lemma stays_open_direct:
  assumes "\<not> can_route (px_table e) dest"
  shows "stays_routed e (open_direct e client addr dest port)"
  unfolding open_direct_def
proof (rule stays_take_id, subst yields_simps(5))
  fix n :: u64 and s1 assume "n \<noteq> 0" "routed e s1"
  then show "yields (start_direct_session e n client addr dest port) s1 (\<lambda>r s2. yields (case r of
        Inr session \<Rightarrow> modify_lop (\<lambda>s. s\<lparr>pr_direct := pr_direct s @ [session]\<rparr>)
      | Inl err \<Rightarrow> log_op e LOG_WARN (''failed to start direct SOCKS5 connection to '' @ show_target dest port @ '': ''
          @ display_error err)) s2 (\<lambda>r s2. routed e s2))"
    by (intro yields_mono [OF yields_start_direct [OF _ _ assms]])
      (auto simp del: yields_modify split: sum.split intro!: yields_push_direct yields_stays [OF stays_log(1)])
qed

lemma yields_push_tunnelled:
  assumes "routed e s" and "ps_id x \<noteq> 0" and "can_route (px_table e) dest" and "ps_target x = show_target dest port"
  shows "yields (modify_lop (\<lambda>s. s\<lparr>pr_sessions := pr_sessions s @ [x]\<rparr>)) s (\<lambda>r s1. routed e s1)"
  using assms by (auto simp: routed_def tunnelled_ok_def)

lemma stays_open_tunnelled:
  assumes "can_route (px_table e) dest"
  shows "stays_routed e (open_tunnelled e client addr dest port)"
  unfolding open_tunnelled_def
  by (auto simp del: yields_bind yields_modify split: sum.split
      intro!: stays_bind [OF stays_net(1)] stays_bind [OF stays_net(2)] stays_bind [OF stays_log(2)] stays_log(1)
        stays_take_id yields_bind_stays [OF stays_calls] yields_bind_stays [OF stays_log(1)]
        yields_push_tunnelled [OF _ _ assms])

lemma stays_serve: "clock_advances (px_clock e) \<Longrightarrow> stays_routed e (serve_client e client addr)"
  unfolding serve_client_def serve_request_def
  by (auto split: sum.split prod.split option.split intro!: stays_bind stays_calls stays_find stays_simple
      stays_open_direct stays_open_tunnelled stays_log stays_world)

lemma stays_loop:
  assumes "\<And>a. stays_routed e (body a)"
  shows "stays_routed e (loop_lop body a)"
  unfolding stays_routed_def
  by (intro allI impI, rule yields_loop [where I = "\<lambda>a s. routed e s"])
    (auto intro!: yields_stays [OF assms] split: sum.split)

lemma stays_accept: "clock_advances (px_clock e) \<Longrightarrow> stays_routed e (accept_ready_clients e)"
  unfolding accept_ready_clients_def accept_body_def
  by (auto split: sum.split prod.split error.split intro!: stays_loop stays_rules stays_serve)

text \<open>Pumping keeps the numbers and targets of the sessions, cleaning up only removes some.\<close>

definition same_targets :: "proxy_session list \<Rightarrow> proxy_session list \<Rightarrow> bool" where
  "same_targets ss ss1 \<longleftrightarrow> list_all2 (\<lambda>x y. ps_id y = ps_id x \<and> ps_target y = ps_target x) ss ss1"

lemma mark_closed_same [simp]:
  "ps_id (mark_closed m x) = ps_id x" "ps_target (mark_closed m x) = ps_target x"
  by (simp_all add: mark_closed_def)

lemma send_queue_same:
  "ps_id (fst (send_queue lib x n)) = ps_id x \<and> ps_target (fst (send_queue lib x n)) = ps_target x"
proof (induction lib x n rule: send_queue.induct)
  case (1 lib x n)
  then show ?case by (subst (1 2) send_queue.simps) (auto simp: Let_def split: prod.split sum.split)
qed

lemma send_from_client_same:
  "ps_id (fst (send_from_client lib x n)) = ps_id x \<and> ps_target (fst (send_from_client lib x n)) = ps_target x"
proof (induction lib x n rule: send_from_client.induct)
  case (1 lib x n)
  then show ?case by (subst (1 2) send_from_client.simps) (auto simp: Let_def split: prod.split sum.split)
qed

lemma pump_local_session_same:
  "pump_local_session lib x n = (y, n1) \<Longrightarrow> ps_id y = ps_id x \<and> ps_target y = ps_target x"
  using send_queue_same [of lib x n] send_from_client_same [of lib]
  by (auto simp: pump_local_session_def split: if_split_asm prod.split_asm) (metis fst_conv)+

lemma pump_local_same: "same_targets ss (fst (pump_local_to_tcp lib ss n))"
proof (induction ss arbitrary: n)
  case (Cons x ss)
  obtain y n1 where y: "pump_local_session lib x n = (y, n1)" by fastforce
  obtain ss1 n2 where "pump_local_to_tcp lib ss n1 = (ss1, n2)" by fastforce
  with Cons [of n1] y pump_local_session_same [OF y] show ?case by (simp add: same_targets_def)
qed (simp add: same_targets_def)

lemma pump_local_result: "pump_local_to_tcp lib ss n = (ss1, n1) \<Longrightarrow> same_targets ss ss1"
  using pump_local_same [of ss lib n] by simp

lemma recv_available_same:
  assumes "recv_available lib x n = Some (y, n1)"
  shows "ps_id y = ps_id x \<and> ps_target y = ps_target x"
proof -
  from assms have r: "repeat_loop (recv_body lib) (x, n) = Some ((), (y, n1))" by (auto simp: recv_available_def)
  have "(\<lambda>(u :: unit) (y, n1). ps_id y = ps_id x \<and> ps_target y = ps_target x) () (y, n1)"
    by (rule repeat_loop_partial [OF r, where I = "\<lambda>(y, n1). ps_id y = ps_id x \<and> ps_target y = ps_target x"])
      (auto simp: recv_body_def split: prod.split_asm sum.split_asm if_split_asm)
  then show ?thesis by simp
qed

lemma flush_to_client_same:
  "flush_to_client lib x n = (y, n1) \<Longrightarrow> ps_id y = ps_id x \<and> ps_target y = ps_target x"
  by (auto simp: flush_to_client_def Let_def split: prod.split_asm write_end.split_asm)

lemma reply_same:
  "reply_when_established lib x n = (y, r) \<Longrightarrow> ps_id y = ps_id x \<and> ps_target y = ps_target x"
  by (auto simp: reply_when_established_def split: if_split_asm prod.split_asm sum.split_asm)

lemma pump_remote_session_same:
  assumes "pump_remote_session lib x n = Some (y, n1, r)"
  shows "ps_id y = ps_id x \<and> ps_target y = ps_target x"
  using assms by (auto simp: pump_remote_session_def split: prod.split_asm sum.split_asm option.split_asm
      dest!: recv_available_same flush_to_client_same reply_same)

lemma same_targets_refl: "same_targets ss ss"
  by (simp add: same_targets_def list.rel_refl)

lemma pump_remote_same: "pump_tcp_to_local lib ss n = Some (ss1, n1, r) \<Longrightarrow> same_targets ss ss1"
proof (induction ss arbitrary: n ss1 n1 r)
  case (Cons x ss)
  then obtain y n2 q where y: "pump_remote_session lib x n = Some (y, n2, q)"
    by (auto split: option.split_asm)
  from Cons.prems y Cons.IH same_targets_refl pump_remote_session_same [OF y] show ?case
    by (auto simp: same_targets_def split: sum.split_asm option.split_asm)
qed (simp add: same_targets_def)

lemma tunnelled_ok_closed:
  "tunnelled_ok table (mark_closed m (x\<lparr>ps_remote_closed := b\<rparr>)) = tunnelled_ok table x"
  by (simp add: tunnelled_ok_def)

lemma cleanup_targets:
  "cleanup_sessions lib ss n = (ss1, n1, removed) \<Longrightarrow> list_all (tunnelled_ok table) ss \<Longrightarrow> list_all (tunnelled_ok table) ss1"
  by (induction lib ss n arbitrary: ss1 n1 removed rule: cleanup_sessions.induct)
    (auto simp: Let_def tunnelled_ok_closed split: if_split_asm prod.split_asm)

lemma same_targets_ok: "same_targets ss ss1 \<Longrightarrow> list_all (tunnelled_ok table) ss \<Longrightarrow> list_all (tunnelled_ok table) ss1"
  unfolding same_targets_def by (induction ss ss1 rule: list_all2_induct) (auto simp: tunnelled_ok_def)

lemma direct_steps_same:
  "ds_id (mark_direct_closed m x) = ds_id x" "ds_target (mark_direct_closed m x) = ds_target x"
  "ds_id (write_to_remote x) = ds_id x" "ds_target (write_to_remote x) = ds_target x"
  "ds_id (write_to_client x) = ds_id x" "ds_target (write_to_client x) = ds_target x"
  "ds_id (read_from_client x) = ds_id x" "ds_target (read_from_client x) = ds_target x"
  "ds_id (read_from_remote x) = ds_id x" "ds_target (read_from_remote x) = ds_target x"
  by (simp_all add: mark_direct_closed_def write_to_remote_def write_to_client_def read_from_client_def
      read_from_remote_def Let_def split: prod.split write_end.split read_end.split)

lemma pump_direct_same: "direct_ok table (pump_direct_session x) = direct_ok table x"
  by (simp add: direct_ok_def pump_direct_session_def direct_steps_same)

lemma stays_pumps:
  "stays_routed e (pump_local_step e)" "stays_routed e (pump_remote_step e)"
  "stays_routed e (modify_lop (\<lambda>s. s\<lparr>pr_direct := pump_direct_sessions (pr_direct s)\<rparr>))"
  "stays_routed e (cleanup_step e)" "stays_routed e (cleanup_direct_step e)"
proof -
  show "stays_routed e (pump_local_step e)"
    by (auto simp: stays_routed_def pump_local_step_def routed_def split: prod.split
        intro: same_targets_ok dest: pump_local_result)
  show "stays_routed e (pump_remote_step e)"
    by (auto simp: stays_routed_def pump_remote_step_def routed_def yields_def split: option.split_asm)
      (erule same_targets_ok [OF pump_remote_same])
  show "stays_routed e (modify_lop (\<lambda>s. s\<lparr>pr_direct := pump_direct_sessions (pr_direct s)\<rparr>))"
    by (simp add: stays_routed_def routed_def pump_direct_sessions_def list_all_iff pump_direct_same)
  show "stays_routed e (cleanup_step e)"
    by (auto simp: stays_routed_def cleanup_step_def routed_def split: prod.split dest: cleanup_targets)
  show "stays_routed e (cleanup_direct_step e)"
    by (auto simp: stays_routed_def cleanup_direct_step_def cleanup_direct_sessions_def routed_def list_all_iff)
qed

lemma stays_round: "clock_advances (px_clock e) \<Longrightarrow> stays_routed e (proxy_round e u)"
  unfolding proxy_round_def
  by (auto intro!: stays_bind stays_simple stays_accept stays_pumps stays_world
      stays_keeps [OF keeps_steps(3)] stays_keeps [OF keeps_steps(4)] stays_keeps [OF keeps_poll])

section \<open>Reachable states\<close>

inductive proxy_reachable :: "('w, 't) proxy_env \<Rightarrow> ('w, 't) proxy_state \<Rightarrow> bool"
  for e :: "('w, 't) proxy_env" where
  at_start: "proxy_reachable e (proxy_initial e ip t eng since w)"
| by_round: "proxy_reachable e s \<Longrightarrow> proxy_round e () s = Some (Return (r, s1)) \<Longrightarrow> proxy_reachable e s1"

lemma reachable_routed: "proxy_reachable e s \<Longrightarrow> clock_advances (px_clock e) \<Longrightarrow> routed e s"
proof (induction rule: proxy_reachable.induct)
  case (at_start ip t eng since w)
  then show ?case by (simp add: routed_def proxy_initial_def)
next
  case (by_round s r s1)
  with stays_round [of e "()"] show ?case by (auto simp: stays_routed_def dest: yieldsD)
qed

text \<open>Split tunnelling: in every state that the proxy reaches, whatever clients, resolvers,
  gateway and network stack do, a session runs through the tunnel only if the route table has
  a route to its destination, and directly only if it has none; and session numbers are never
  zero, also after the counter has wrapped around.\<close>

theorem sessions_follow_routes:
  assumes "proxy_reachable e s" and "clock_advances (px_clock e)"
  shows "list_all (\<lambda>x. ps_id x \<noteq> 0
        \<and> (\<exists>dest port. ps_target x = show_target dest port \<and> can_route (px_table e) dest)) (pr_sessions s)
    \<and> list_all (\<lambda>x. ds_id x \<noteq> 0
        \<and> (\<exists>dest port. ds_target x = show_target dest port \<and> \<not> can_route (px_table e) dest)) (pr_direct s)"
  using reachable_routed [OF assms] by (simp add: routed_def tunnelled_ok_def [abs_def] direct_ok_def [abs_def])

section \<open>A client\<close>

text \<open>A client that asks for 8.8.8.8, port 53; without routes it is connected directly.\<close>

definition sample_client :: peer_socket where
  "sample_client = \<lparr>sock_in = [Inr [5, 1, 0], Inr [5, 1, 0, 1, 8, 8, 8, 8, 0, 53]], sock_out = idle_writer, sock_shut = []\<rparr>"

definition sample_remote :: peer_socket where
  "sample_remote = \<lparr>sock_in = [Inr [7]], sock_out = idle_writer, sock_shut = []\<rparr>"

definition client_addr :: socket_addr where
  "client_addr = SocketAddrV4 (Ipv4Addr 127 0 0 1) 5000"

definition client_env :: "(nat, unit) proxy_env" where
  "client_env = sample_env
     \<lparr>px_accept := (\<lambda>w. if w = 0 then (Inr (sample_client, client_addr), 1) else (Inl (IoError WouldBlock []), w)),
      px_connect := (\<lambda>a d w. (Inr sample_remote, w))\<rparr>"

definition greeted_client :: peer_socket where
  "greeted_client = sample_client\<lparr>sock_in := [], sock_out := idle_writer\<lparr>sent := [5, 0]\<rparr>\<rparr>"

definition served_client :: peer_socket where
  "served_client = greeted_client\<lparr>sock_out := idle_writer\<lparr>sent := [5, 0, 5, 0, 0, 1, 0, 0, 0, 0, 0, 0]\<rparr>\<rparr>"

lemma client_greeted:
  "on_socket read_connect_request sample_client
     = (Inr \<lparr>target = TargetIpv4 (Ipv4Addr 8 8 8 8), target_port = 53\<rparr>, greeted_client)"
  by code_simp

lemma client_served: "on_socket (write_success ipv4_unspecified 0) greeted_client = (Inr (), served_client)"
  by code_simp

definition direct_8888 :: direct_session where
  "direct_8888 =
     \<lparr>ds_id = 1, ds_client = served_client, ds_remote = sample_remote, ds_to_remote = [], ds_to_client = [],
      ds_local_closed = False, ds_remote_closed = False, ds_client_to_remote_bytes = 0,
      ds_remote_to_client_bytes = 0, ds_client_addr = client_addr,
      ds_target = show_target (Ipv4Addr 8 8 8 8) 53, ds_close_reason = None\<rparr>"

definition started_proxy :: "(nat, unit) proxy_state" where
  "started_proxy = proxy_initial client_env (Ipv4Addr 10 0 0 1)
     (fortinet_transport_new [Inl (IoError WouldBlock [])] idle_writer) ppp_engine_new None 0"

definition accepted_proxy :: "(nat, unit) proxy_state" where
  "accepted_proxy = started_proxy\<lparr>pr_world := 1, pr_next_id := 2, pr_direct := [direct_8888]\<rparr>"

text \<open>Running a step from a given state.\<close>

definition runs_to :: "('s, 'a) lop \<Rightarrow> 's \<Rightarrow> 'a res \<Rightarrow> 's \<Rightarrow> bool" where
  "runs_to m s r s1 \<longleftrightarrow> m s = Some (Return (r, s1))"

lemma bind_run: "runs_to m s (Inr x) s1 \<Longrightarrow> bind_lop m f s = f x s1"
  by (simp add: runs_to_def bind_lop_def catch_lop_def)

lemma catch_run: "runs_to m s r s1 \<Longrightarrow> catch_lop m f s = f r s1"
  by (simp add: runs_to_def catch_lop_def)

lemma return_run: "return_lop x s = Some (Return (Inr x, s))"
  by (simp add: return_lop_def op_lop_def return_op_def)

lemma calls_succeed: "runs_to (calls_op client_env cs) s (Inr ()) s"
  by (induction cs) (simp_all add: runs_to_def run_lop world_op_def io_op_def client_env_def sample_env_def)

lemma log_silent: "runs_to (log_op client_env level line) s (Inr ()) s"
  by (simp add: runs_to_def log_op_def run_lop client_env_def sample_env_def)

lemma client_connects: "runs_to (world_op (px_connect client_env a d)) s (Inr sample_remote) s"
  by (simp add: runs_to_def world_op_def io_op_def op_lop_def client_env_def)

lemma client_started:
  "runs_to (start_direct_session client_env 1 greeted_client client_addr (Ipv4Addr 8 8 8 8) 53) s (Inr direct_8888) s"
  by (simp add: runs_to_def start_direct_session_def catch_run [OF client_connects] client_served bind_run [OF calls_succeed]
      bind_run [OF log_silent] return_run direct_8888_def)

lemma client_accepted: "accept_body client_env () started_proxy = Some (Return (Inr (Inl ()), accepted_proxy))"
proof -
  let ?s = "started_proxy\<lparr>pr_world := 1\<rparr>"
  have "runs_to take_session_id ?s (Inr 1) (?s\<lparr>pr_next_id := 2\<rparr>)"
    by (simp add: runs_to_def take_session_id_def run_lop started_proxy_def proxy_initial_def max_def word_le_nat_alt)
  note taken = bind_run [OF this]
  have d: "open_direct client_env greeted_client client_addr (Ipv4Addr 8 8 8 8) 53 ?s
      = Some (Return (Inr (), accepted_proxy))"
    unfolding open_direct_def taken catch_run [OF client_started] sum.case
    by (simp add: modify_lop_def accepted_proxy_def started_proxy_def proxy_initial_def)
  have r: "\<not> can_route (px_table client_env) (Ipv4Addr 8 8 8 8)"
    by (simp add: client_env_def sample_env_def can_route_def)
  have "runs_to (find_destination client_env greeted_client \<lparr>target = TargetIpv4 (Ipv4Addr 8 8 8 8), target_port = 53\<rparr>)
      ?s (Inr (Some (Ipv4Addr 8 8 8 8))) ?s"
    by (simp add: runs_to_def find_destination_def return_run)
  note found = bind_run [OF this]
  have "runs_to (serve_client client_env sample_client client_addr) ?s (Inr ()) accepted_proxy"
    unfolding runs_to_def serve_client_def bind_run [OF calls_succeed] client_greeted sum.case prod.case
      serve_request_def found option.case
    by (simp add: r d del: One_nat_def)
  note served = bind_run [OF this]
  have "runs_to (world_op (px_accept client_env)) started_proxy (Inr (sample_client, client_addr)) ?s"
    by (simp add: runs_to_def world_op_def io_op_def op_lop_def client_env_def started_proxy_def proxy_initial_def)
  note accepts = catch_run [OF this]
  show ?thesis unfolding accept_body_def accepts sum.case prod.case served return_run ..
qed

lemma none_left: "accept_body client_env () accepted_proxy = Some (Return (Inr (Inr ()), accepted_proxy))"
  by (simp add: accept_body_def run_lop world_op_def io_op_def client_env_def accepted_proxy_def)

lemma accepted: "runs_to (accept_ready_clients client_env) started_proxy (Inr ()) accepted_proxy"
  unfolding runs_to_def accept_ready_clients_def
  by (subst loop_lop.simps, simp add: client_accepted, subst loop_lop.simps, simp add: none_left)

definition pumped_8888 :: direct_session where
  "pumped_8888 = direct_8888
     \<lparr>ds_client := served_client\<lparr>sock_shut := [ShutdownWrite]\<rparr>,
      ds_remote := sample_remote\<lparr>sock_in := [], sock_shut := [ShutdownWrite]\<rparr>,
      ds_to_client := [7], ds_local_closed := True, ds_remote_closed := True,
      ds_close_reason := Some ''client closed connection''\<rparr>"

lemma direct_pumped: "pump_direct_session direct_8888 = pumped_8888"
  by (simp add: pump_direct_session_def write_to_remote_def write_to_client_def read_from_client_def
      read_from_remote_def direct_8888_def served_client_def greeted_client_def sample_client_def sample_remote_def
      idle_writer_def flush_queue_willing read_available_data Let_def mark_direct_closed_def reader_data_def
      pumped_8888_def)

definition round_proxy :: "(nat, unit) proxy_state" where
  "round_proxy = accepted_proxy
     \<lparr>pr_world := 2, pr_transport := fortinet_transport_new [] idle_writer, pr_direct := [pumped_8888]\<rparr>"

lemma first_round: "proxy_round client_env () started_proxy = Some (Return (Inr (Inl ()), round_proxy))"
proof -
  let ?t = "fortinet_transport_new [] idle_writer"
  let ?r = "accepted_proxy\<lparr>pr_transport := ?t\<rparr>"
  let ?d = "?r\<lparr>pr_direct := [pumped_8888]\<rparr>"
  have stop: "runs_to (get_lop (\<lambda>s. px_stop client_env (pr_world s))) started_proxy (Inr False) started_proxy"
    by (simp add: runs_to_def get_lop_def client_env_def sample_env_def)
  have read: "runs_to (read_packets_step) accepted_proxy (Inr ()) ?r"
    using sample_reads [of "pr_net accepted_proxy"]
    by (simp add: runs_to_def read_packets_step_def exec_lop_def accepted_proxy_def started_proxy_def proxy_initial_def sample_proxy_def)
  have pump: "runs_to (pump_local_step client_env) ?r (Inr ()) ?r"
    by (simp add: runs_to_def pump_local_step_def op_lop_def accepted_proxy_def started_proxy_def proxy_initial_def)
  have poll: "runs_to (poll_stack client_env) ?r (Inr False) ?r"
    by (simp add: runs_to_def poll_stack_def smol_now_def run_lop accepted_proxy_def started_proxy_def proxy_initial_def
        proxy_net_stack_new_def net_poll_def client_env_def sample_env_def sample_stack_def Let_def)
  have remote: "runs_to (pump_remote_step client_env) ?r (Inr ()) ?r"
    by (simp add: runs_to_def pump_remote_step_def accepted_proxy_def started_proxy_def proxy_initial_def)
  have direct: "runs_to (modify_lop (\<lambda>s. s\<lparr>pr_direct := pump_direct_sessions (pr_direct s)\<rparr>)) ?r (Inr ()) ?d"
    by (simp add: runs_to_def modify_lop_def pump_direct_sessions_def accepted_proxy_def direct_pumped)
  have drain: "runs_to (drain_step) ?d (Inr ()) ?d"
    by (simp add: runs_to_def drain_step_def op_lop_def sample_drains accepted_proxy_def started_proxy_def proxy_initial_def
        proxy_net_stack_new_def ppp_device_new_def Let_def)
  have clean: "runs_to (cleanup_step client_env) ?d (Inr ()) ?d"
    by (simp add: runs_to_def cleanup_step_def modify_lop_def accepted_proxy_def started_proxy_def proxy_initial_def)
  have clean_direct: "runs_to (cleanup_direct_step client_env) ?d (Inr ()) ?d"
    by (simp add: runs_to_def cleanup_direct_step_def modify_lop_def cleanup_direct_sessions_def direct_finished_def pumped_8888_def)
  have sleep: "runs_to (on_world (clock_sleep (px_clock client_env) LOOP_SLEEP)) ?d (Inr ()) round_proxy"
    by (simp add: runs_to_def on_world_def modify_lop_def client_env_def sample_env_def LOOP_SLEEP_def round_proxy_def accepted_proxy_def)
  show ?thesis
    unfolding proxy_round_def bind_run [OF stop] if_False bind_run [OF accepted] bind_run [OF read] bind_run [OF pump]
      bind_run [OF poll] bind_run [OF remote] bind_run [OF direct] bind_run [OF drain] bind_run [OF clean]
      bind_run [OF clean_direct] bind_run [OF sleep] return_run ..
qed

theorem sessions_follow_routes_witness:
  "\<exists>dest port. ds_target pumped_8888 = show_target dest port \<and> \<not> can_route (px_table client_env) dest"
proof -
  have "proxy_reachable client_env round_proxy"
    using by_round [OF at_start first_round [unfolded started_proxy_def]] .
  moreover have "clock_advances (px_clock client_env)" by (simp add: client_env_def sample_clock)
  ultimately show ?thesis using sessions_follow_routes [of client_env round_proxy] by (auto simp: round_proxy_def)
qed

section \<open>The system resolver\<close>

text \<open>A name that the tunnel cannot resolve is asked of the system, and its answer is connected to.\<close>

theorem system_dns_is_asked:
  assumes "runs_to (resolve_domain_cached e domain) s (Inl err) s1"
    and "px_resolve e domain port (pr_world s1) = (Inr (SocketAddrV4 a p # addrs), w)"
  shows "\<exists>s2. runs_to (find_destination e client \<lparr>target = TargetDomain domain, target_port = port\<rparr>) s (Inr (Some a)) s2"
proof -
  have "runs_to (resolve_domain_direct e domain port) s1 (Inr a) (s1\<lparr>pr_world := w\<rparr>)"
    using assms(2) by (simp add: runs_to_def resolve_domain_direct_def world_op_def run_lop io_op_def)
  note direct = catch_run [OF this]
  have logged: "runs_to (log_op e level line) t (Inr ()) (t\<lparr>pr_world := px_log e level line (pr_world t)\<rparr>)" for level line t
    by (simp add: runs_to_def log_op_def on_world_def modify_lop_def)
  show ?thesis
    unfolding runs_to_def find_destination_def socks_connect_request.simps socks_target.case
      catch_run [OF assms(1)] sum.case direct bind_run [OF logged] return_run by simp
qed

end
