(* ===== verification/Proxy_Mode.thy ===== *)
theory Proxy_Mode
  imports Supervisor Proxy_Runtime
begin

text \<open>
  Proxy mode (\<open>run\<close> of \<open>src/proxy/mod.rs\<close>): prepare the tunnel, negotiate PPP in user space, run
  the proxy until it is stopped, and log out. The operations on sockets and the log of the
  session, of the negotiation and of the runtime work on the same world.

  Shown here: once a tunnel has been prepared, the gateway is told to log out exactly when
  the run ends, however it ends, and the result is that of the negotiation or the runtime.
\<close>

record ('w, 't) proxy_mode =
  pm_env :: "('w, 't) proxy_env"
  pm_lib :: tls_lib
  pm_session :: "'w session_ops"
  pm_ask :: ask
  pm_rounds :: "'w \<Rightarrow> (nat \<times> bool) list"

text \<open>What of the environment depends on the configuration.\<close>

definition parse_servers :: "string list \<Rightarrow> ipv4_addr list" where
  "parse_servers addrs = List.map_filter parse_ipv4 addrs"

definition configured_env :: "('w, 't) proxy_env \<Rightarrow> config \<Rightarrow> vpn_config_xml \<Rightarrow> ('w, 't) proxy_env" where
  "configured_env e cfg vpn =
     e\<lparr>px_table := from_config cfg vpn, px_dns_servers := parse_servers (dns_servers vpn)\<rparr>"

definition mode_log :: "('w, 't) proxy_mode \<Rightarrow> u8 \<Rightarrow> string \<Rightarrow> 'w \<Rightarrow> 'w" where
  "mode_log m level line w = px_log (pm_env m) level line w"

text \<open>The negotiation; the second timeout is set only when the first one could be.\<close>

definition negotiate ::
  "('w, 't) proxy_mode \<Rightarrow> fortinet_transport \<Rightarrow> 'w \<Rightarrow> (fortinet_transport \<times> (ppp_engine res) option) exec \<times> 'w" where
  "negotiate m t w =
     (case px_call (pm_env m) (SetReadTimeout (Some PPP_READ_TIMEOUT)) w of
        (r1, w1) \<Rightarrow>
          (case (case r1 of Inl err \<Rightarrow> (r1, w1)
                 | Inr _ \<Rightarrow> px_call (pm_env m) (SetWriteTimeout (Some PPP_READ_TIMEOUT)) w1) of
             (r2, w2) \<Rightarrow>
               (establish_ppp r1 r2 (clock_now (px_clock (pm_env m)) w2) (pm_rounds m w2) t, w2)))"

definition log_out_of_gateway :: "('w, 't) proxy_mode \<Rightarrow> config \<Rightarrow> string \<Rightarrow> 'w \<Rightarrow> 'w" where
  "log_out_of_gateway m cfg k w =
     (case logout (pm_lib m) (pm_session m) cfg k (mode_log m LOG_INFO ''logging out from gateway'' w) of
        (Inl err, w1) \<Rightarrow> mode_log m LOG_ERROR (''logout failed: '' @ display_error err) w1
      | (Inr _, w1) \<Rightarrow> w1)"

text \<open>The negotiation and the runtime, as one step whose result is that of the run.\<close>

definition run_link ::
  "('w, 't) proxy_mode \<Rightarrow> ('w, 't) proxy_env \<Rightarrow> socket_addr \<Rightarrow> fortinet_transport \<Rightarrow> nat option \<Rightarrow> 'w \<Rightarrow>
     (unit res \<times> nat option \<times> 'w) run" where
  "run_link m e listen t since w =
     (case negotiate m t w of
        (x, w1) \<Rightarrow>
          bind_exec x (\<lambda>(t1, r).
            case r of
              None \<Rightarrow> Return None
            | Some (Inl err) \<Rightarrow> Return (Some (Inl err, since, w1))
            | Some (Inr ppp) \<Rightarrow>
                (case run_runtime e listen t1 ppp since w1 of
                   None \<Rightarrow> Return None
                 | Some y \<Rightarrow> bind_exec y (\<lambda>z. Return (Some z)))))"

definition run_prepared ::
  "('w, 't) proxy_mode \<Rightarrow> config \<Rightarrow> tunnel_session \<Rightarrow> nat option \<Rightarrow> 'w \<Rightarrow> (unit res \<times> nat option \<times> 'w) run" where
  "run_prepared m cfg t since w =
     (let p = prepared t;
          e = configured_env (pm_env m) cfg (prep_vpn_config p);
          w1 = mode_log m LOG_INFO (''proxy route table prepared with '' @ show_nat (table_len (px_table e))
                 @ '' route(s); DNS server(s): '' @ show_nat (length (px_dns_servers e)))
               (mode_log m LOG_INFO (''authenticated; peer certificate sha256: '' @ prep_peer_cert_sha256 p
                 @ '' ('' @ debug_verification (prep_verification p) @ '')'') w)
      in case proxy cfg of
           None \<Rightarrow> Return (Some (Inl (Network ''proxy mode requires --proxy listen address''), since, w1))
         | Some listen \<Rightarrow>
             bind_run
               (run_link m e listen (fortinet_transport_new (http_in (session_stream t)) (http_out (session_stream t))) since w1)
               (\<lambda>(r, since1, w2). Return (Some (r, since1, log_out_of_gateway m cfg (prep_cookie p) w2))))"

definition run_proxy ::
  "('w, 't) proxy_mode \<Rightarrow> config \<Rightarrow> nat option \<Rightarrow> 'w \<Rightarrow> (unit res \<times> nat option \<times> 'w) run" where
  "run_proxy m cfg since w =
     (if px_stop (pm_env m) w then Return (Some (Inr (), since, w))
      else
        bind_exec (prepare (pm_lib m) (pm_session m) (pm_ask m) cfg
            (mode_log m LOG_INFO ''preparing TLS/authenticated tunnel for proxy mode'' w))
          (\<lambda>(r, s).
            case r of
              Inl err \<Rightarrow> Return (Some (Inl err, since, s))
            | Inr t \<Rightarrow> run_prepared m cfg t since s))"

lemma bind_run_Some: "bind_run x f = Return (Some y) \<longleftrightarrow> (\<exists>a. x = Return (Some a) \<and> f a = Return (Some y))"
  by (cases "(x, f)" rule: bind_run.cases) auto

lemma run_prepared_logs_out:
  assumes "run_prepared m cfg t since w = Return (Some (r, since1, w2))" and "proxy cfg = Some listen"
  shows "\<exists>w0 w1. run_link m (configured_env (pm_env m) cfg (prep_vpn_config (prepared t))) listen
      (fortinet_transport_new (http_in (session_stream t)) (http_out (session_stream t))) since w0 = Return (Some (r, since1, w1))
    \<and> w2 = log_out_of_gateway m cfg (prep_cookie (prepared t)) w1"
  using assms by (auto simp: run_prepared_def Let_def bind_run_Some)

text \<open>Proxy mode logs out: when proxy mode was not already stopped and a tunnel could be prepared,
  a run that ends has negotiated and run the proxy with the routes and DNS servers of the
  gateway's configuration, and has then logged out with the session cookie, whether the link
  or the runtime failed or not; a failing logout changes only the log, never the result.\<close>

theorem proxy_mode_logs_out:
  assumes "run_proxy m cfg since w = Return (Some (r, since1, w2))"
    and "\<not> px_stop (pm_env m) w" and "proxy cfg = Some listen"
    and "prepare (pm_lib m) (pm_session m) (pm_ask m) cfg
           (mode_log m LOG_INFO ''preparing TLS/authenticated tunnel for proxy mode'' w) = Return (Inr t, s)"
  shows "\<exists>w0 w1. run_link m (configured_env (pm_env m) cfg (prep_vpn_config (prepared t))) listen
      (fortinet_transport_new (http_in (session_stream t)) (http_out (session_stream t))) since w0 = Return (Some (r, since1, w1))
    \<and> w2 = log_out_of_gateway m cfg (prep_cookie (prepared t)) w1"
  using assms by (auto simp: run_proxy_def intro: run_prepared_logs_out)

end
