(* ===== verification/Spec2Isabelle.thy ===== *)
theory Spec2Isabelle
  imports Hdlc Packet Ppp_Engine Tunnel_Io Fortinet Forward Config Http Pinentry Portal Net_Plan Route_Table Net_Apply Dns Socks5 Login
    Logger User_Input Rust_Loop Interface Pppd Tls Saml Session Supervisor Program Netstack Proxy_Relay Proxy_Mode
begin

text \<open>
  Verification of openfortivpn_rs, a client for Fortinet SSL VPN gateways.

  The program. It reads its configuration (\<open>src/config.rs\<close>, \<open>src/cli.rs\<close>), connects to the gateway
  over TLS (\<open>src/tls.rs\<close>), logs in over HTTP (\<open>src/http.rs\<close>, \<open>src/auth\<close>), fetches the
  configuration of the VPN as XML, and switches a second connection to the tunnel, in which
  PPP packets travel in frames with a 6-byte header (\<open>src/tunnel/packet.rs\<close>). In system mode
  (\<open>run_tunnel\<close> of \<open>src/main.rs\<close>) it spawns pppd on a pseudo terminal, forwards packets
  between the terminal, where they are HDLC frames (\<open>src/hdlc.rs\<close>), and the tunnel, and sets
  routes and DNS (\<open>src/net_plan.rs\<close>, \<open>src/net_apply.rs\<close>). In proxy mode (\<open>src/proxy\<close>) it speaks PPP
  itself (\<open>src/tunnel/ppp_engine.rs\<close>), runs a user-space TCP/IP stack on the link and serves SOCKS
  clients. In both modes it logs out at the end and may reconnect.

  Theories and sources.
    \<^item> \<^verbatim>\<open>Prelude\<close>, \<^verbatim>\<open>Errors\<close>, \<^verbatim>\<open>Rust_Str\<close>, \<^verbatim>\<open>Net_Addr\<close>, \<^verbatim>\<open>Streams\<close>, \<^verbatim>\<open>Op_Monad\<close>, \<^verbatim>\<open>Rust_Loop\<close>, \<^verbatim>\<open>Loop_Op\<close>:
      what the rest is written with: results and panics as values (\<open>src/error.rs\<close>), byte
      strings with the functions of \<open>str\<close>, parsing and printing of addresses, readers and
      writers, sequences of fallible steps, loops that may not end.
    \<^item> \<^verbatim>\<open>Hdlc\<close>, \<^verbatim>\<open>Packet\<close>, \<^verbatim>\<open>Tunnel_Io\<close>, \<^verbatim>\<open>Fortinet\<close>, \<^verbatim>\<open>Forward\<close>, \<^verbatim>\<open>Ppp_Engine\<close>: the data path. The frames and
      their checksum, the two incremental decoders, the buffered transport, the forwarding
      loop with its queues, the PPP state machine as the step relation \<open>engine_step\<close>.
    \<^item> \<^verbatim>\<open>Cli\<close>, \<^verbatim>\<open>Config\<close>, \<^verbatim>\<open>Http\<close>, \<^verbatim>\<open>Pinentry\<close>, \<^verbatim>\<open>User_Input\<close>, \<^verbatim>\<open>Login\<close>, \<^verbatim>\<open>Saml\<close>, \<^verbatim>\<open>Portal\<close>, \<^verbatim>\<open>Tls\<close>,
      \<^verbatim>\<open>Session\<close>: from the command line to a prepared tunnel.
    \<^item> \<^verbatim>\<open>Net_Plan\<close>, \<^verbatim>\<open>Net_Apply\<close>, \<^verbatim>\<open>Interface\<close>, \<^verbatim>\<open>Pppd\<close>, \<^verbatim>\<open>Supervisor\<close>, \<^verbatim>\<open>Program\<close>, \<^verbatim>\<open>Logger\<close>: system mode and
      the main program.
    \<^item> \<^verbatim>\<open>Route_Table\<close>, \<^verbatim>\<open>Dns\<close>, \<^verbatim>\<open>Socks5\<close>, \<^verbatim>\<open>Netstack\<close>, \<^verbatim>\<open>Proxy_Link\<close>, \<^verbatim>\<open>Proxy_Sessions\<close>, \<^verbatim>\<open>Proxy_Relay\<close>,
      \<^verbatim>\<open>Proxy_Resolver\<close>, \<^verbatim>\<open>Proxy_Runtime\<close>, \<^verbatim>\<open>Proxy_Mode\<close>: proxy mode, one theory for each of
      \<open>route_table.rs\<close>, \<open>dns.rs\<close>, \<open>socks5.rs\<close> and \<open>netstack.rs\<close>, four for \<open>runtime.rs\<close>, and one for
      \<open>mod.rs\<close>; \<^verbatim>\<open>Proxy_Relay\<close> models no further code, it shows what a session in the tunnel relays.

  State. A structure of the source is a record with its fields, an enumeration a datatype,
  an integer a word of its width. A function that changes its arguments returns them; \<open>('s, 'a) op\<close>
  is such a function with a result, and \<open>('s, 'a) lop\<close> one that may panic or not return. What
  the program asks of the operating system or of a library is a field of a record of
  operations on a world (\<open>os_ops\<close>, \<open>proc_ops\<close>, \<open>session_ops\<close>, \<open>tls_lib\<close>, \<open>smol_ops\<close>,
  \<open>proxy_env\<close>); what a theorem relies on there is a named predicate, such as \<open>clock_advances\<close>
  (sleeping takes the time asked for), \<open>sleeps_at_most\<close> (and not much longer), \<open>well_behaved\<close> and
  \<open>default_route_laws\<close> (how routes and the resolver file of a Linux host answer) and \<open>tcp_laws\<close> (what
  a TCP socket takes and hands out), and each has an example that satisfies it. Readers
  and writers are scripts: the list of what successive calls deliver or accept, errors
  included, so that a theorem for all scripts covers every way in which the bytes are cut.

  What the groups of lemmas show.
    \<^item> Data path: the table-driven checksum is the CRC, one changed byte is detected, frames and
      streams of frames come out as they went in, in any pieces; the forwarding loop is a
      lossless channel of packets in both directions; the PPP engine never panics, follows its transition table
      and reports a link as open only with an address.
    \<^item> Configuration and login: options win over the file and the file over the defaults, what is
      built is well-formed, responses and the portal's document are read back as written, no
      cookie value reaches the log, a session cookie was set by an answer of this run's own login,
      and both connections to the gateway are trusted.
    \<^item> System mode: undoing a plan restores the machine; a plan that fails is undone, except for
      the commands of an action that failed halfway; terminating pppd and the reconnect loop end,
      and a tunnel that has stopped forwarding takes its network settings back.
    \<^item> Proxy mode: in every reachable state every session runs where the networks of the
      configuration send its destination (\<open>proxied_destinations\<close> below); resolving a name
      gives up after five seconds for each server; sessions relay faithfully, in the tunnel and directly, and direct ones
      complete, and sessions do not mix; what the stack sends arrives at the other side.
    \<^item> Some theorems show where the code falls short: \<open>last_bytes_are_lost\<close>, \<open>failed_reply_stops_proxy\<close>,
      \<open>dead_session_is_kept\<close>, \<open>system_dns_is_asked\<close>, \<open>failed_command_not_undone\<close>,
      \<open>rollback_adds_final_newline\<close>, \<open>xml_unescape_twice\<close>, \<open>unterminated_input_panics\<close>,
      \<open>redirect_marker_panics\<close>, \<open>empty_chunked_body_refused\<close>.

  Interfaces. Locales in \<^verbatim>\<open>Streams\<close> are the contracts between the byte streams and their users: a
  \<open>frame_parser\<close> takes items off the front of a buffer and does not look beyond them; a
  \<open>framing\<close> is one with an encoder, whose streams have one reading only; a \<open>stream_decoder\<close>
  buffers what is incomplete, so that its input can be cut anywhere; a \<open>framed_stream\<close> is
  both. They are interpreted on the decoders of \<^verbatim>\<open>Tunnel_Io\<close> (HDLC), \<^verbatim>\<open>Fortinet\<close> and \<^verbatim>\<open>Forward\<close>
  (tunnel frames), and carry the round trips of these theories, the transparency of
  forwarding and the delivery of what the proxy sends.

  Loops and bounds. A loop over data is a recursive function with a measure: the length of a
  buffer, the work left in a reader (\<open>read_work\<close>), the bytes left in the transport. A loop that
  waits is \<open>repeat_loop\<close> or \<open>loop_lop\<close>, whose value \<open>None\<close> is not returning; that it ends is
  proved from its deadline and the clock. The forwarding loop and the PPP negotiation take the
  list of their rounds, what the poll and the clock answer in each, and are still going on
  when the list is used up; since theorems hold for all lists, no bound is chosen. No other
  fuel is used. Arithmetic on words wraps around, as in a release build of the program.

  Not modelled. Cryptography and the checks of certificates by rustls, the TCP/IP library
  smoltcp, the option parser that clap generates, and the system calls themselves are
  arguments of the model. The file descriptors, threads and signals of the operating system
  appear only through their operations; the thread that sets up the network is run where it
  is joined, because until then only it uses the network settings. Of a socket that is
  dropped nothing more is said. Log lines are modelled where they are part of the result (the
  session, the supervisor, the proxy) and left out inside the forwarding loop and the PPP
  negotiation. Code for Windows and the tests are left out. \<open>lib.rs\<close> and the \<open>mod.rs\<close> files
  without functions only declare modules.
\<close>

section \<open>Where proxied connections go\<close>

text \<open>C5. Split tunnelling in proxy mode, from the configuration of the VPN to the sessions: in every
  state that the proxy reaches with the route table of its configuration, nothing runs through
  the tunnel when routes are switched off, nothing runs directly when they are on and the
  gateway names no split routes, and otherwise the destination of every session in the tunnel
  is in the network of some split route, and that of a direct session in none.\<close>

theorem proxied_destinations:
  assumes "proxy_reachable (configured_env e cfg vpn) s" and "clock_advances (px_clock e)"
  shows "(\<not> set_routes cfg \<longrightarrow> pr_sessions s = [])
    \<and> (set_routes cfg \<and> split_routes vpn = [] \<longrightarrow> pr_direct s = [])
    \<and> list_all (\<lambda>x. ps_id x \<noteq> 0 \<and> (\<exists>dest port. ps_target x = show_target dest port
          \<and> (split_routes vpn = [] \<or> list_ex (\<lambda>r. route_covers r dest) (split_routes vpn)))) (pr_sessions s)
    \<and> list_all (\<lambda>x. ds_id x \<noteq> 0 \<and> (\<exists>dest port. ds_target x = show_target dest port
          \<and> (set_routes cfg \<longrightarrow> \<not> list_ex (\<lambda>r. route_covers r dest) (split_routes vpn)))) (pr_direct s)"
proof -
  have "clock_advances (px_clock (configured_env e cfg vpn))" using assms(2) by (simp add: configured_env_def)
  from reachable_routed [OF assms(1) this]
  have r: "\<And>x. x \<in> set (pr_sessions s) \<Longrightarrow> tunnelled_ok (from_config cfg vpn) x"
    "\<And>x. x \<in> set (pr_direct s) \<Longrightarrow> direct_ok (from_config cfg vpn) x"
    by (simp_all add: routed_def configured_env_def list_all_iff)
  then show ?thesis
    unfolding tunnelled_ok_def direct_ok_def can_route_iff list_all_iff
    by (intro conjI impI ballI; fastforce simp: list.set_sel(1) neq_Nil_conv)
qed

definition sample_vpn :: vpn_config_xml where
  "sample_vpn = \<lparr>raw_xml = [], gateway = None, assigned_ip = None, dns_servers = [''10.0.0.53''], dns_suffix = None, split_routes = []\<rparr>"

lemma sample_configured: "configured_env client_env (config_default\<lparr>set_routes := False\<rparr>) sample_vpn = client_env"
proof -
  have "parse_servers [''10.0.0.53''] = [Ipv4Addr 10 0 0 53]" by code_simp
  then show ?thesis
    by (simp add: configured_env_def from_config_def sample_vpn_def client_env_def sample_env_def)
qed

theorem proxied_destinations_witness:
  "ds_id pumped_8888 \<noteq> 0 \<and> pr_sessions round_proxy = []"
proof -
  have "proxy_reachable client_env round_proxy"
    using by_round [OF at_start first_round [unfolded started_proxy_def]] .
  moreover have "clock_advances (px_clock client_env)" by (simp add: client_env_def sample_clock)
  ultimately show ?thesis
    using proxied_destinations [of client_env "config_default\<lparr>set_routes := False\<rparr>" sample_vpn round_proxy]
    by (simp add: sample_configured) (simp add: round_proxy_def)
qed

end
